(* ===== verification/Prelude.thy ===== *)
theory Prelude
  imports Main "HOL-Library.Word" "HOL-Library.Monad_Syntax"
begin

unbundle bit_operations_syntax

text \<open>
  Shared ground of the development: bytes, C objects as byte lists with bounds-checked
  reads and writes, C strings inside such objects, and the list lemmas every component
  uses.

  A C object (a char array, a struct of char arrays) is a list of bytes; a pointer into it
  is an offset. A read or write outside the object is undefined behaviour in C and the
  value \<open>None\<close> here, so that "returns \<open>Some\<close>" is memory safety. Sizes and offsets
  (\<open>size_t\<close>) are natural numbers: every one of them is bounded by the length of an object
  that exists, so 64-bit wrap-around cannot occur; where the code narrows one to \<open>int\<close>,
  the truncation is written out (\<open>int_of_size\<close>).
\<close>

section \<open>Bytes and C objects\<close>

type_synonym byte = "8 word"
type_synonym mem = "byte list"

named_theorems mem_simps \<open>rewriting of reads, writes and block copies of C objects\<close>

definition rd :: "mem \<Rightarrow> nat \<Rightarrow> byte option" where
  "rd m p = (if p < length m then Some (m ! p) else None)"

definition wr :: "mem \<Rightarrow> nat \<Rightarrow> byte \<Rightarrow> mem option" where
  "wr m p b = (if p < length m then Some (m[p := b]) else None)"

text \<open>The conversion \<open>(int)\<close> of a \<open>size_t\<close>: truncation to 32 bits, read as signed.\<close>

definition int_of_size :: "nat \<Rightarrow> int" where
  "int_of_size n = sint (word_of_nat n :: 32 word)"

text \<open>The bytes of a string literal, without the terminator.\<close>

definition lit :: "string \<Rightarrow> byte list" where
  "lit s = map of_char s"

text \<open>
  \<open>cstr m p s\<close>: the C string that starts at offset \<open>p\<close> of the object \<open>m\<close> is \<open>s\<close>; its
  terminator is inside the object.
\<close>

definition cstr :: "mem \<Rightarrow> nat \<Rightarrow> byte list \<Rightarrow> bool" where
  "cstr m p s \<longleftrightarrow> 0 \<notin> set s \<and> take (length s + 1) (drop p m) = s @ [0]"

text \<open>\<open>blit m p bs\<close>: the object \<open>m\<close> with the bytes from offset \<open>p\<close> on replaced by \<open>bs\<close>.\<close>

definition blit :: "mem \<Rightarrow> nat \<Rightarrow> byte list \<Rightarrow> mem" where
  "blit m p bs = take p m @ bs @ drop (p + length bs) m"

section \<open>Lemmas on objects\<close>

lemma int_of_size_small: "n < 2 ^ 31 \<Longrightarrow> int_of_size n = int n"
  by (simp add: int_of_size_def signed_of_nat signed_take_bit_int_eq_self)

lemma rd_Some_iff: "rd m p = Some b \<longleftrightarrow> p < length m \<and> b = m ! p"
  by (auto simp: rd_def)

lemma rd_None_iff: "rd m p = None \<longleftrightarrow> length m \<le> p"
  by (simp add: rd_def not_less)

lemma wr_Some_iff: "wr m p b = Some m' \<longleftrightarrow> p < length m \<and> m' = m[p := b]"
  by (auto simp: wr_def)

lemma rd_in [simp]: "p < length m \<Longrightarrow> rd m p = Some (m ! p)"
  by (simp add: rd_def)

lemma wr_in [simp]: "p < length m \<Longrightarrow> wr m p b = Some (m[p := b])"
  by (simp add: wr_def)

lemma rd_in_bounds: "rd m p = Some b \<Longrightarrow> p < length m"
  by (simp add: rd_Some_iff)

lemma length_wr: "wr m p b = Some m' \<Longrightarrow> length m' = length m"
  by (auto simp: wr_Some_iff)

subsection \<open>Block copies\<close>

lemma length_blit [simp]: "p + length bs \<le> length m \<Longrightarrow> length (blit m p bs) = length m"
  by (simp add: blit_def)

lemma blit_Nil [simp]: "blit m p [] = m"
  by (simp add: blit_def)

lemma nth_blit:
  "p + length bs \<le> length m \<Longrightarrow> i < length m \<Longrightarrow>
   blit m p bs ! i = (if p \<le> i \<and> i < p + length bs then bs ! (i - p) else m ! i)"
  by (auto simp: blit_def nth_append min_def)

lemma blit_single: "p < length m \<Longrightarrow> blit m p [b] = m[p := b]"
  by (simp add: blit_def upd_conv_take_nth_drop)

lemma blit_append:
  assumes "p + length as + length bs \<le> length m"
  shows "blit (blit m p as) (p + length as) bs = blit m p (as @ bs)"
proof -
  have "take (p + length as) (take p m @ as @ drop (p + length as) m) = take p m @ as"
    using assms by simp
  moreover have "drop (p + length as + length bs) (take p m @ as @ drop (p + length as) m)
      = drop (p + length as + length bs) m"
    using assms by (simp add: add.commute add.left_commute)
  ultimately show ?thesis by (simp add: blit_def add.assoc)
qed

lemma blit_Cons:
  "p + Suc (length bs) \<le> length m \<Longrightarrow> blit (m[p := b]) (Suc p) bs = blit m p (b # bs)"
  using blit_append [of p "[b]" bs m] by (simp add: blit_single)

lemma take_blit_prefix: "p \<le> length m \<Longrightarrow> q \<le> p \<Longrightarrow> take q (blit m p bs) = take q m"
  by (simp add: blit_def)

lemma drop_blit:
  "p + length bs \<le> length m \<Longrightarrow> drop p (blit m p bs) = bs @ drop (p + length bs) m"
  by (simp add: blit_def)

lemma drop_blit_after:
  "p + length bs \<le> length m \<Longrightarrow> p + length bs \<le> q \<Longrightarrow> drop q (blit m p bs) = drop q m"
  by (simp add: blit_def)

lemma blit_0: "length bs \<le> length m \<Longrightarrow> blit m 0 bs = bs @ drop (length bs) m"
  by (simp add: blit_def)

lemma blit_same: "take (length bs) (drop p m) = bs \<Longrightarrow> blit m p bs = m"
proof -
  assume "take (length bs) (drop p m) = bs"
  then have "take p m @ bs @ drop (length bs) (drop p m) = m"
    by (metis append_take_drop_id)
  then show ?thesis by (simp add: blit_def add.commute)
qed

lemma blit_3:
  "p + 3 \<le> length m \<Longrightarrow> m[p := a, p + 1 := b, p + 2 := c] = blit m p [a, b, c]"
  by (intro nth_equalityI) (auto simp: nth_blit nth_list_update nth_Cons')

lemmas [mem_simps] = nth_blit blit_single blit_append drop_blit drop_blit_after

subsection \<open>C strings inside objects\<close>

lemma cstr_bounds: "cstr m p s \<Longrightarrow> p + length s < length m"
proof -
  assume "cstr m p s"
  then have "length (take (length s + 1) (drop p m)) = length s + 1"
    by (simp add: cstr_def)
  then show ?thesis by (simp add: min_def split: if_splits)
qed

lemma cstr_nonzero: "cstr m p s \<Longrightarrow> 0 \<notin> set s"
  by (simp add: cstr_def)

lemma cstrI_drop: "drop p m = s @ 0 # r \<Longrightarrow> 0 \<notin> set s \<Longrightarrow> cstr m p s"
  by (simp add: cstr_def)

lemma cstr_drop: "cstr m p s \<Longrightarrow> \<exists>r. drop p m = s @ 0 # r"
proof -
  assume "cstr m p s"
  then have "take (length s + 1) (drop p m) = s @ [0]" by (simp add: cstr_def)
  moreover have "drop p m = take (length s + 1) (drop p m) @ drop (length s + 1) (drop p m)"
    by (rule append_take_drop_id [symmetric])
  ultimately have "drop p m = s @ 0 # drop (length s + 1) (drop p m)" by simp
  then show ?thesis by blast
qed

lemma cstr_iff_drop: "cstr m p s \<longleftrightarrow> 0 \<notin> set s \<and> (\<exists>r. drop p m = s @ 0 # r)"
  using cstr_drop cstrI_drop cstr_nonzero by blast

lemma cstr_nth: "cstr m p s \<Longrightarrow> i < length s \<Longrightarrow> m ! (p + i) = s ! i"
proof -
  assume c: "cstr m p s" and i: "i < length s"
  then obtain r where "drop p m = s @ 0 # r" using cstr_drop by blast
  moreover have "m ! (p + i) = drop p m ! i"
    using cstr_bounds [OF c] i by (simp add: nth_drop)
  ultimately show ?thesis using i by (simp add: nth_append)
qed

lemma cstr_nth_end: "cstr m p s \<Longrightarrow> m ! (p + length s) = 0"
proof -
  assume c: "cstr m p s"
  then obtain r where "drop p m = s @ 0 # r" using cstr_drop by blast
  moreover have "m ! (p + length s) = drop p m ! length s"
    using cstr_bounds [OF c] by (simp add: nth_drop)
  ultimately show ?thesis by (simp add: nth_append)
qed

lemma cstr_shift: "cstr m p (b # s) \<Longrightarrow> cstr m (Suc p) s"
proof -
  assume c: "cstr m p (b # s)"
  then obtain r where "drop p m = b # s @ 0 # r" using cstr_drop by fastforce
  then have "drop (Suc p) m = s @ 0 # r" by (metis drop_Suc tl_drop list.sel(3))
  then show ?thesis using c by (auto intro: cstrI_drop simp: cstr_def)
qed

lemma cstr_drop_prefix: "cstr m p (a @ s) \<Longrightarrow> cstr m (p + length a) s"
  by (induction a arbitrary: p) (fastforce dest: cstr_shift)+

lemma cstr_unique: "cstr m p s \<Longrightarrow> cstr m p s' \<Longrightarrow> s = s'"
proof (induction s arbitrary: p s')
  case Nil
  then have "m ! p = 0" using cstr_nth_end by fastforce
  with Nil show ?case
    by (cases s') (use cstr_nth [of m p s' 0] in \<open>auto simp: cstr_def\<close>)
next
  case (Cons a s)
  have a: "m ! p = a" "a \<noteq> 0"
    using cstr_nth [OF Cons.prems(1), of 0] cstr_nonzero [OF Cons.prems(1)] by auto
  then obtain t where s': "s' = a # t"
    using cstr_nth_end [OF Cons.prems(2)] cstr_nth [OF Cons.prems(2), of 0]
    by (cases s') auto
  then show ?case
    using Cons.IH [of "Suc p" t] Cons.prems by (auto dest: cstr_shift)
qed

lemma cstr_blit: "p + length s < length m \<Longrightarrow> 0 \<notin> set s \<Longrightarrow> cstr (blit m p (s @ [0])) p s"
  by (rule cstrI_drop [where r = "drop (p + length s + 1) m"]) (simp_all add: drop_blit)

lemma cstr_of_list: "0 \<notin> set s \<Longrightarrow> cstr (s @ [0]) 0 s"
  by (simp add: cstr_def)

lemma cstr_Nil: "p < length m \<Longrightarrow> m ! p = 0 \<Longrightarrow> cstr m p []"
  by (rule cstrI_drop [where r = "drop (Suc p) m"]) (simp_all add: Cons_nth_drop_Suc [symmetric])

lemma cstr_same_prefix:
  "cstr m p s \<Longrightarrow> length m' = length m \<Longrightarrow>
   (\<And>i. p \<le> i \<Longrightarrow> i \<le> p + length s \<Longrightarrow> m' ! i = m ! i) \<Longrightarrow> cstr m' p s"
proof -
  assume c: "cstr m p s" and l: "length m' = length m"
    and e: "\<And>i. p \<le> i \<Longrightarrow> i \<le> p + length s \<Longrightarrow> m' ! i = m ! i"
  have "take (length s + 1) (drop p m') = take (length s + 1) (drop p m)"
    using cstr_bounds [OF c] l e by (intro nth_equalityI) auto
  then show ?thesis using c by (simp add: cstr_def)
qed

subsection \<open>Literals\<close>

lemma lit_Nil [simp]: "lit [] = []"
  by (simp add: lit_def)

lemma lit_Cons [simp]: "lit (c # s) = of_char c # lit s"
  by (simp add: lit_def)

lemma length_lit [simp]: "length (lit s) = length s"
  by (simp add: lit_def)

end
