(* ===== verification/LibcString.thy ===== *)
theory LibcString
  imports Prelude
begin

text \<open>
  The C library routines the dictionary calls, as NuttX implements them in
  \<open>libs/libc/string\<close> and \<open>libs/libc/ctype\<close>: the portable versions, which are the ones
  compiled for the simulator (no \<open>CONFIG_LIBC_ARCH_*\<close> string option is set in the board
  configuration). Each loop is a recursive function over offsets into an object; running
  off the object is \<open>None\<close>. The lemmas say what each routine computes on C strings and that
  it stays inside the objects it is given.
\<close>

section \<open>Definitions\<close>

text \<open>\<open>lib_tolower.c\<close>: on the \<open>int\<close> the caller obtained from an \<open>unsigned char\<close>.\<close>

definition tolower :: "int \<Rightarrow> int" where
  "tolower c = (if c \<ge> 65 \<and> c \<le> 90 then c - 65 + 97 else c)"

text \<open>\<open>lib_strlen.c\<close>: \<open>for (sc = s; *sc != 0; ++sc); return sc - s\<close>.\<close>

function strlen_loop :: "mem \<Rightarrow> nat \<Rightarrow> nat option" where
  "strlen_loop m sc = do {
     c \<leftarrow> rd m sc;
     if c \<noteq> 0 then strlen_loop m (sc + 1) else Some sc }"
  by pat_completeness auto
termination
  by (relation "measure (\<lambda>(m, sc). length m - sc)") (auto simp: rd_Some_iff)

definition strlen :: "mem \<Rightarrow> nat \<Rightarrow> nat option" where
  "strlen m s = do { sc \<leftarrow> strlen_loop m s; Some (sc - s) }"

text \<open>\<open>lib_strcmp.c\<close>: the difference of the first bytes that differ, as unsigned values.\<close>

function strcmp :: "mem \<Rightarrow> nat \<Rightarrow> mem \<Rightarrow> nat \<Rightarrow> int option" where
  "strcmp m cs m' ct = do {
     a \<leftarrow> rd m cs;
     b \<leftarrow> rd m' ct;
     if uint a - uint b \<noteq> 0 \<or> a = 0 then Some (uint a - uint b)
     else strcmp m (cs + 1) m' (ct + 1) }"
  by pat_completeness auto
termination
  by (relation "measure (\<lambda>(m, cs, m', ct). length m - cs)") (auto simp: rd_Some_iff)

text \<open>
  \<open>lib_strchr.c\<close>: the outer option is the memory fault, the inner one the \<open>NULL\<close> result.
  The callers look for ASCII characters only, for which the comparison of the promoted
  \<open>char\<close> with the \<open>int\<close> argument is equality of bytes.
\<close>

function strchr :: "mem \<Rightarrow> nat \<Rightarrow> byte \<Rightarrow> nat option option" where
  "strchr m s c = do {
     b \<leftarrow> rd m s;
     if b = c then Some (Some s)
     else if b = 0 then Some None
     else strchr m (s + 1) c }"
  by pat_completeness auto
termination
  by (relation "measure (\<lambda>(m, s, c). length m - s)") (auto simp: rd_Some_iff)

text \<open>\<open>lib_memcpy.c\<close>: byte by byte between two objects.\<close>

fun memcpy :: "mem \<Rightarrow> nat \<Rightarrow> mem \<Rightarrow> nat \<Rightarrow> nat \<Rightarrow> mem option" where
  "memcpy d pout s pin 0 = Some d"
| "memcpy d pout s pin (Suc n) = do {
     b \<leftarrow> rd s pin;
     d' \<leftarrow> wr d pout b;
     memcpy d' (pout + 1) s (pin + 1) n }"

text \<open>\<open>lib_strcpy.c\<close>: copies up to and including the terminator.\<close>

function strcpy :: "mem \<Rightarrow> nat \<Rightarrow> mem \<Rightarrow> nat \<Rightarrow> mem option" where
  "strcpy d dest s src = do {
     b \<leftarrow> rd s src;
     d' \<leftarrow> wr d dest b;
     if b \<noteq> 0 then strcpy d' (dest + 1) s (src + 1) else Some d' }"
  by pat_completeness auto
termination
  by (relation "measure (\<lambda>(d, dest, s, src). length s - src)") (auto simp: rd_Some_iff)

text \<open>
  \<open>lib_strncpy.c\<close>: the copy loop stops at \<open>end = dest + n\<close> or after the terminator; the
  rest up to \<open>end\<close> is padded with zeros. The first argument counts the bytes left.
\<close>

fun strncpy_pad :: "nat \<Rightarrow> mem \<Rightarrow> nat \<Rightarrow> mem option" where
  "strncpy_pad 0 d dest = Some d"
| "strncpy_pad (Suc n) d dest = do { d' \<leftarrow> wr d dest 0; strncpy_pad n d' (dest + 1) }"

fun strncpy_loop :: "nat \<Rightarrow> mem \<Rightarrow> nat \<Rightarrow> mem \<Rightarrow> nat \<Rightarrow> mem option" where
  "strncpy_loop 0 d dest s src = Some d"
| "strncpy_loop (Suc n) d dest s src = do {
     b \<leftarrow> rd s src;
     d' \<leftarrow> wr d dest b;
     if b \<noteq> 0 then strncpy_loop n d' (dest + 1) s (src + 1)
     else strncpy_pad n d' (dest + 1) }"

definition strncpy :: "mem \<Rightarrow> nat \<Rightarrow> mem \<Rightarrow> nat \<Rightarrow> nat \<Rightarrow> mem option" where
  "strncpy d dest s src n = strncpy_loop n d dest s src"

text \<open>\<open>lib_strcat.c\<close>: finds the end of \<open>dest\<close>, then copies without any bound.\<close>

function strcat_loop :: "mem \<Rightarrow> nat \<Rightarrow> mem \<Rightarrow> nat \<Rightarrow> mem option" where
  "strcat_loop d dest s src = do {
     b \<leftarrow> rd s src;
     if b \<noteq> 0 then do {
       d' \<leftarrow> wr d dest b;
       strcat_loop d' (dest + 1) s (src + 1) }
     else wr d dest 0 }"
  by pat_completeness auto
termination
  by (relation "measure (\<lambda>(d, dest, s, src). length s - src)") (auto simp: rd_Some_iff)

definition strcat :: "mem \<Rightarrow> nat \<Rightarrow> mem \<Rightarrow> nat \<Rightarrow> mem option" where
  "strcat d dest s src = do {
     n \<leftarrow> strlen d dest;
     strcat_loop d (dest + n) s src }"

declare strlen_loop.simps [simp del] strcmp.simps [simp del] strchr.simps [simp del]
  strcpy.simps [simp del] strcat_loop.simps [simp del]

section \<open>What the routines compute\<close>

lemma strlen_loop_cstr: "cstr m p s \<Longrightarrow> strlen_loop m p = Some (p + length s)"
proof (induction s arbitrary: p)
  case Nil
  then show ?case
    using cstr_nth_end cstr_bounds by (subst strlen_loop.simps) fastforce
next
  case (Cons a s)
  have "rd m p = Some a" and "a \<noteq> 0"
    using cstr_nth [OF Cons.prems, of 0] cstr_bounds [OF Cons.prems] cstr_nonzero [OF Cons.prems]
    by auto
  then show ?case
    using Cons.IH [OF cstr_shift [OF Cons.prems]] by (subst strlen_loop.simps) simp
qed

lemma strlen_cstr: "cstr m p s \<Longrightarrow> strlen m p = Some (length s)"
  by (simp add: strlen_def strlen_loop_cstr)

text \<open>Whatever \<open>strlen\<close> returns, there is a C string of that length.\<close>

lemma strlen_loop_Some:
  "strlen_loop m p = Some q \<Longrightarrow> \<exists>s. cstr m p s \<and> q = p + length s"
proof (induction m p rule: strlen_loop.induct)
  case (1 m p)
  from "1.prems" obtain c where c: "rd m p = Some c"
    by (subst (asm) strlen_loop.simps) (auto simp: bind_eq_Some_conv)
  show ?case
  proof (cases "c = 0")
    case True
    then have "cstr m p []" using c by (auto intro: cstr_Nil simp: rd_Some_iff)
    then show ?thesis
      using "1.prems" c True by (subst (asm) strlen_loop.simps) auto
  next
    case False
    then have "strlen_loop m (p + 1) = Some q"
      using "1.prems" c by (subst (asm) strlen_loop.simps) auto
    then obtain s where s: "cstr m (p + 1) s" "q = p + 1 + length s"
      using "1.IH" [OF c False] by auto
    then obtain r where "drop (p + 1) m = s @ 0 # r" using cstr_drop by blast
    then have "drop p m = c # s @ 0 # r"
      using c by (auto simp: rd_Some_iff Cons_nth_drop_Suc [symmetric])
    then have "cstr m p (c # s)"
      using False cstr_nonzero [OF s(1)] by (auto intro: cstrI_drop)
    then show ?thesis using s(2) by (intro exI [of _ "c # s"]) simp
  qed
qed

lemma strlen_Some: "strlen m p = Some n \<Longrightarrow> \<exists>s. cstr m p s \<and> n = length s"
  by (auto simp: strlen_def bind_eq_Some_conv dest!: strlen_loop_Some)

lemma strcmp_cstr:
  "cstr m p s \<Longrightarrow> cstr m' p' s' \<Longrightarrow> \<exists>r. strcmp m p m' p' = Some r \<and> (r = 0 \<longleftrightarrow> s = s')"
proof (induction s arbitrary: p p' s')
  case Nil
  have m: "rd m p = Some 0" using Nil cstr_nth_end cstr_bounds by fastforce
  show ?case
  proof (cases s')
    case Nil
    then have "rd m' p' = Some 0"
      using Nil.prems cstr_nth_end cstr_bounds by fastforce
    then show ?thesis using m Nil by (subst strcmp.simps) simp
  next
    case (Cons b t)
    then have "rd m' p' = Some b" "b \<noteq> 0"
      using Nil.prems cstr_nth [of m' p' s' 0] cstr_bounds [of m' p' s'] by (auto simp: cstr_def)
    then show ?thesis using m Cons by (subst strcmp.simps) (auto simp: uint_0_iff)
  qed
next
  case (Cons a s)
  have m: "rd m p = Some a" "a \<noteq> 0"
    using cstr_nth [OF Cons.prems(1), of 0] cstr_bounds [OF Cons.prems(1)]
      cstr_nonzero [OF Cons.prems(1)] by auto
  show ?case
  proof (cases s')
    case Nil
    then have "rd m' p' = Some 0"
      using Cons.prems cstr_nth_end cstr_bounds by fastforce
    then show ?thesis using m Nil by (subst strcmp.simps) (auto simp: uint_0_iff)
  next
    case C: (Cons b t)
    then have b: "rd m' p' = Some b"
      using Cons.prems cstr_nth [of m' p' s' 0] cstr_bounds [of m' p' s'] by (auto simp: cstr_def)
    obtain r where r: "strcmp m (p + 1) m' (p' + 1) = Some r" "r = 0 \<longleftrightarrow> s = t"
      using Cons.IH [of "Suc p" "Suc p'" t] Cons.prems C by (auto dest: cstr_shift)
    show ?thesis
    proof (cases "a = b")
      case True
      then show ?thesis using m b r C by (subst strcmp.simps) auto
    next
      case False
      then show ?thesis using m b C
        by (subst strcmp.simps) (auto simp: word_uint_eq_iff)
    qed
  qed
qed

lemma strcmp_eq_0_iff:
  "cstr m p s \<Longrightarrow> cstr m' p' s' \<Longrightarrow> strcmp m p m' p' = Some 0 \<longleftrightarrow> s = s'"
  using strcmp_cstr by fastforce

subsection \<open>strchr\<close>

lemma strchr_found:
  "cstr m p (a @ c # b) \<Longrightarrow> c \<notin> set a \<Longrightarrow> strchr m p c = Some (Some (p + length a))"
proof (induction a arbitrary: p)
  case Nil
  then have "rd m p = Some c"
    using cstr_nth [of m p "c # b" 0] cstr_bounds [of m p "c # b"] by auto
  then show ?case by (subst strchr.simps) simp
next
  case (Cons x a)
  have "rd m p = Some x" "x \<noteq> 0" "x \<noteq> c"
    using cstr_nth [OF Cons.prems(1), of 0] cstr_bounds [OF Cons.prems(1)]
      cstr_nonzero [OF Cons.prems(1)] Cons.prems(2) by auto
  moreover have "strchr m (p + 1) c = Some (Some (p + 1 + length a))"
    using Cons.IH [of "Suc p"] Cons.prems by (auto dest: cstr_shift)
  ultimately show ?case by (subst strchr.simps) simp
qed

lemma strchr_absent:
  "cstr m p s \<Longrightarrow> c \<notin> set s \<Longrightarrow> c \<noteq> 0 \<Longrightarrow> strchr m p c = Some None"
proof (induction s arbitrary: p)
  case Nil
  then have "rd m p = Some 0" using cstr_nth_end cstr_bounds by fastforce
  then show ?case using Nil by (subst strchr.simps) simp
next
  case (Cons x s)
  have "rd m p = Some x" "x \<noteq> 0" "x \<noteq> c"
    using cstr_nth [OF Cons.prems(1), of 0] cstr_bounds [OF Cons.prems(1)]
      cstr_nonzero [OF Cons.prems(1)] Cons.prems(2) by auto
  moreover have "strchr m (p + 1) c = Some None"
    using Cons.IH [of "Suc p"] Cons.prems by (auto dest: cstr_shift)
  ultimately show ?case by (subst strchr.simps) simp
qed

lemma strchr_cstr:
  assumes "cstr m p s" and "c \<noteq> 0"
  shows "strchr m p c =
    Some (if c \<in> set s then Some (p + length (takeWhile (\<lambda>x. x \<noteq> c) s)) else None)"
proof (cases "c \<in> set s")
  case True
  then obtain a b where "s = a @ c # b" and "c \<notin> set a"
    by (auto dest: split_list_first)
  then have "s = takeWhile (\<lambda>x. x \<noteq> c) s @ c # b"
    by (auto simp: takeWhile_append)
  moreover have "c \<notin> set (takeWhile (\<lambda>x. x \<noteq> c) s)"
    by (auto dest: set_takeWhileD)
  ultimately show ?thesis
    using strchr_found [of m p "takeWhile (\<lambda>x. x \<noteq> c) s" c b] assms True by simp
next
  case False
  then show ?thesis using strchr_absent assms by simp
qed

subsection \<open>Copies\<close>

lemma memcpy_eq:
  "pin + n \<le> length s \<Longrightarrow> pout + n \<le> length d \<Longrightarrow>
   memcpy d pout s pin n = Some (blit d pout (take n (drop pin s)))"
proof (induction n arbitrary: d pout pin)
  case 0
  then show ?case by simp
next
  case (Suc n)
  have "take (Suc n) (drop pin s) = s ! pin # take n (drop (Suc pin) s)"
    using Suc.prems by (simp add: Cons_nth_drop_Suc [symmetric])
  then show ?case
    using Suc.prems Suc.IH [of "Suc pin" "Suc pout" "d[pout := s ! pin]"]
    by (simp add: blit_Cons)
qed

lemma memcpy_Some_bounds:
  "memcpy d pout s pin n = Some d' \<Longrightarrow> n = 0 \<or> pin + n \<le> length s \<and> pout + n \<le> length d"
proof (induction n arbitrary: d pout pin)
  case (Suc n)
  then show ?case by (fastforce simp: bind_eq_Some_conv rd_Some_iff wr_Some_iff)
qed simp

lemma strcpy_cstr:
  "cstr s src t \<Longrightarrow> dest + length t < length d \<Longrightarrow>
   strcpy d dest s src = Some (blit d dest (t @ [0]))"
proof (induction t arbitrary: d dest src)
  case Nil
  then have "rd s src = Some 0" using cstr_nth_end cstr_bounds by fastforce
  then show ?case using Nil by (subst strcpy.simps) (simp add: blit_single)
next
  case (Cons a t)
  have "rd s src = Some a" "a \<noteq> 0"
    using cstr_nth [OF Cons.prems(1), of 0] cstr_bounds [OF Cons.prems(1)]
      cstr_nonzero [OF Cons.prems(1)] by auto
  moreover have "strcpy (d[dest := a]) (dest + 1) s (src + 1)
      = Some (blit (d[dest := a]) (dest + 1) (t @ [0]))"
    using Cons.IH [of "src + 1" "dest + 1" "d[dest := a]"] Cons.prems by (auto dest: cstr_shift)
  ultimately show ?case
    using Cons.prems by (subst strcpy.simps) (simp add: blit_Cons)
qed

lemma strncpy_pad_eq:
  "dest + n \<le> length d \<Longrightarrow> strncpy_pad n d dest = Some (blit d dest (replicate n 0))"
  by (induction n arbitrary: d dest) (simp_all add: blit_Cons)

lemma strncpy_loop_cstr:
  "cstr s src t \<Longrightarrow> dest + n \<le> length d \<Longrightarrow>
   strncpy_loop n d dest s src
     = Some (blit d dest (take n t @ replicate (n - length t) 0))"
proof (induction n arbitrary: d dest src t)
  case 0
  then show ?case by simp
next
  case (Suc n)
  show ?case
  proof (cases t)
    case Nil
    then have "rd s src = Some 0" using Suc.prems cstr_nth_end cstr_bounds by fastforce
    then show ?thesis using Suc.prems Nil
      by (simp add: strncpy_pad_eq blit_Cons)
  next
    case (Cons a u)
    have "rd s src = Some a" "a \<noteq> 0"
      using cstr_nth [OF Suc.prems(1), of 0] cstr_bounds [OF Suc.prems(1)]
        cstr_nonzero [OF Suc.prems(1)] Cons by auto
    moreover have "strncpy_loop n (d[dest := a]) (dest + 1) s (src + 1)
        = Some (blit (d[dest := a]) (dest + 1) (take n u @ replicate (n - length u) 0))"
      using Suc.IH [of "src + 1" u "dest + 1" "d[dest := a]"] Suc.prems Cons
      by (auto dest: cstr_shift)
    ultimately show ?thesis
      using Suc.prems Cons by (simp add: blit_Cons)
  qed
qed

lemma strncpy_cstr:
  "cstr s src t \<Longrightarrow> dest + n \<le> length d \<Longrightarrow>
   strncpy d dest s src n = Some (blit d dest (take n t @ replicate (n - length t) 0))"
  by (simp add: strncpy_def strncpy_loop_cstr)

lemma strcat_loop_cstr:
  "cstr s src t \<Longrightarrow> dest + length t < length d \<Longrightarrow>
   strcat_loop d dest s src = Some (blit d dest (t @ [0]))"
proof (induction t arbitrary: d dest src)
  case Nil
  then have "rd s src = Some 0" using cstr_nth_end cstr_bounds by fastforce
  then show ?case using Nil by (subst strcat_loop.simps) (simp add: blit_single)
next
  case (Cons a t)
  have "rd s src = Some a" "a \<noteq> 0"
    using cstr_nth [OF Cons.prems(1), of 0] cstr_bounds [OF Cons.prems(1)]
      cstr_nonzero [OF Cons.prems(1)] by auto
  moreover have "strcat_loop (d[dest := a]) (dest + 1) s (src + 1)
      = Some (blit (d[dest := a]) (dest + 1) (t @ [0]))"
    using Cons.IH [of "src + 1" "dest + 1" "d[dest := a]"] Cons.prems by (auto dest: cstr_shift)
  ultimately show ?case
    using Cons.prems by (subst strcat_loop.simps) (simp add: blit_Cons)
qed

lemma strcat_cstr:
  assumes "cstr d dest a" and "cstr s src t" and "dest + length a + length t < length d"
  shows "strcat d dest s src = Some (blit d (dest + length a) (t @ [0]))"
  using assms by (simp add: strcat_def strlen_cstr strcat_loop_cstr add.assoc)

text \<open>After a successful \<open>strcat\<close> the destination holds the concatenation.\<close>

lemma cstr_after_blit_end:
  assumes "cstr d p a" and "0 \<notin> set t" and "p + length a + length t < length d"
  shows "cstr (blit d (p + length a) (t @ [0])) p (a @ t)"
proof -
  obtain r where r: "drop p d = a @ 0 # r" using assms(1) cstr_drop by blast
  have "take (length a) (drop p d) = a" using r by simp
  moreover have "drop p (take (p + length a) d) = take (length a) (drop p d)"
    by (simp add: drop_take)
  ultimately have "drop p (blit d (p + length a) (t @ [0]))
      = a @ t @ 0 # drop (p + length a + Suc (length t)) d"
    using assms(3) by (simp add: blit_def)
  then show ?thesis
    using assms(2) cstr_nonzero [OF assms(1)] by (intro cstrI_drop) auto
qed

text \<open>\<open>tolower\<close> stays in the range of a byte and is idempotent.\<close>

lemma tolower_range: "0 \<le> c \<Longrightarrow> c < 256 \<Longrightarrow> 0 \<le> tolower c \<and> tolower c < 256"
  by (simp add: tolower_def)

lemma tolower_idem: "tolower (tolower c) = tolower c"
  by (simp add: tolower_def)

end
