(* ===== verification/DictText.thy ===== *)
theory DictText
  imports LibcString "HOL-Library.Sublist"
begin

text \<open>
  The text routines of \<open>dict.c\<close>, which copy a column of the database into a field of a
  result: \<open>copy_field_sanitize\<close> (both copies of the file), \<open>append_first_element\<close> (the
  simulator's copy) and \<open>copy_first_element\<close> (\<open>Dictionary_Resources\<close>). A destination is an
  object and the offset of the field inside it; a source is \<open>None\<close> for a null pointer or
  the object that holds the C string.
\<close>

section \<open>Definitions\<close>

subsection \<open>copy_field_sanitize\<close>

definition blank :: "byte \<Rightarrow> bool" where
  "blank b \<longleftrightarrow> b = 0x20 \<or> b = 0x09"

definition space :: "byte \<Rightarrow> bool" where
  "space b \<longleftrightarrow> b = 0x20 \<or> b = 0x09 \<or> b = 0x0A"

text \<open>\<open>while (*p == ' ' || *p == '\t') p++;\<close>\<close>

function skip_blank :: "mem \<Rightarrow> nat \<Rightarrow> nat option" where
  "skip_blank s p = do {
     b \<leftarrow> rd s p;
     if blank b then skip_blank s (p + 1) else Some p }"
  by pat_completeness auto
termination
  by (relation "measure (\<lambda>(s, p). length s - p)") (auto simp: rd_Some_iff)

lemma strchr_ge: "strchr m p c = Some (Some q) \<Longrightarrow> p \<le> q \<and> q < length m"
proof (induction m p c rule: strchr.induct)
  case (1 m s c)
  from "1.prems" obtain b where b: "rd m s = Some b"
    by (subst (asm) strchr.simps) (auto simp: bind_eq_Some_conv)
  show ?case
  proof (cases "b = c \<or> b = 0")
    case True
    then show ?thesis
      using "1.prems" b by (subst (asm) strchr.simps) (auto simp: rd_Some_iff split: if_splits)
  next
    case False
    then have "strchr m (s + 1) c = Some (Some q)"
      using "1.prems" b by (subst (asm) strchr.simps) auto
    then show ?thesis using "1.IH" [OF b] False by simp
  qed
qed

lemma skip_blank_ge: "skip_blank s p = Some q \<Longrightarrow> p \<le> q"
proof (induction s p rule: skip_blank.induct)
  case (1 s p)
  from "1.prems" obtain b where b: "rd s p = Some b"
    by (subst (asm) skip_blank.simps) (auto simp: bind_eq_Some_conv)
  show ?case
  proof (cases "blank b")
    case True
    then show ?thesis using "1.IH" [OF b True] "1.prems" b by (subst (asm) skip_blank.simps) auto
  next
    case False
    then show ?thesis using "1.prems" b by (subst (asm) skip_blank.simps) auto
  qed
qed

declare skip_blank.simps [simp del]

text \<open>
  The copy loop. \<open>out\<close> counts the bytes written; where the source is at a \<open>[\<close> that has a
  matching \<open>]\<close> later, the group and the blanks after it are skipped.
\<close>

function sanitize_loop :: "mem \<Rightarrow> nat \<Rightarrow> mem \<Rightarrow> nat \<Rightarrow> nat \<Rightarrow> nat \<Rightarrow> (mem \<times> nat) option" where
  "sanitize_loop s p d base dst_size out = do {
     c \<leftarrow> rd s p;
     if c \<noteq> 0 \<and> out < dst_size - 1 then do {
       close \<leftarrow> (if c = 0x5B then strchr s p 0x5D else Some None);
       case close of
         Some e \<Rightarrow> do {
           p' \<leftarrow> skip_blank s (e + 1);
           sanitize_loop s p' d base dst_size out }
       | None \<Rightarrow> do {
           d' \<leftarrow> wr d (base + out) c;
           sanitize_loop s (p + 1) d' base dst_size (out + 1) } }
     else Some (d, out) }"
  by pat_completeness auto
termination
  by (relation "measure (\<lambda>(s, p, d, base, dst_size, out). length s - p)")
     (auto simp: rd_Some_iff split: if_splits dest!: strchr_ge skip_blank_ge)

declare sanitize_loop.simps [simp del]

text \<open>The loop that takes trailing white space off.\<close>

fun trim_out :: "mem \<Rightarrow> nat \<Rightarrow> nat \<Rightarrow> nat option" where
  "trim_out d base 0 = Some 0"
| "trim_out d base (Suc out) = do {
     b \<leftarrow> rd d (base + out);
     if space b then trim_out d base out else Some (Suc out) }"

definition copy_field_sanitize :: "mem \<Rightarrow> nat \<Rightarrow> nat \<Rightarrow> mem option \<Rightarrow> mem option" where
  "copy_field_sanitize d base dst_size src =
     (case src of
        None \<Rightarrow> wr d base 0
      | Some s \<Rightarrow> do {
          (d, out) \<leftarrow> sanitize_loop s 0 d base dst_size 0;
          out \<leftarrow> trim_out d base out;
          wr d (base + out) 0 })"

subsection \<open>copy_first_element and append_first_element\<close>

definition copy_first_element :: "mem \<Rightarrow> nat \<Rightarrow> nat \<Rightarrow> mem option \<Rightarrow> mem option" where
  "copy_first_element d base dst_size src =
     (case src of
        None \<Rightarrow> wr d base 0
      | Some s \<Rightarrow> do {
          b \<leftarrow> rd s 0;
          if b = 0 then wr d base 0
          else do {
            fin \<leftarrow> strchr s 0 0x3B;
            len \<leftarrow> (case fin of Some e \<Rightarrow> Some e | None \<Rightarrow> strlen s 0);
            let len = (if len \<ge> dst_size then dst_size - 1 else len);
            d \<leftarrow> memcpy d base s 0 len;
            wr d (base + len) 0 } })"

definition append_first_element :: "mem \<Rightarrow> nat \<Rightarrow> nat \<Rightarrow> mem option \<Rightarrow> mem option" where
  "append_first_element d base dst_size src =
     (case src of
        None \<Rightarrow> Some d
      | Some s \<Rightarrow> do {
          b \<leftarrow> rd s 0;
          if b = 0 then Some d
          else do {
            dst_len \<leftarrow> strlen d base;
            if dst_len \<ge> dst_size - 1 then Some d
            else do {
              fin \<leftarrow> strchr s 0 0x3B;
              len \<leftarrow> (case fin of Some e \<Rightarrow> Some e | None \<Rightarrow> strlen s 0);
              let len = (if len > dst_size - dst_len - 1 then dst_size - dst_len - 1 else len);
              d \<leftarrow> memcpy d (base + dst_len) s 0 len;
              wr d (base + dst_len + len) 0 } } })"

section \<open>Specification\<close>

text \<open>\<open>strip s\<close>: the text without its bracketed groups and the blanks that follow them.\<close>

function strip :: "byte list \<Rightarrow> byte list" where
  "strip [] = []"
| "strip (c # s) =
     (if c = 0x5B \<and> 0x5D \<in> set s
      then strip (dropWhile blank (tl (dropWhile (\<lambda>b. b \<noteq> 0x5D) s)))
      else c # strip s)"
  by pat_completeness auto

lemma length_after_group:
  "length (dropWhile blank (tl (dropWhile (\<lambda>b. b \<noteq> c) s))) \<le> length s"
  by (metis le_trans length_dropWhile_le length_tl diff_le_self)

termination strip
  by (relation "measure length") (use length_after_group in \<open>auto simp: less_Suc_eq_le\<close>)

definition rtrim :: "byte list \<Rightarrow> byte list" where
  "rtrim s = rev (dropWhile space (rev s))"

text \<open>The first element of a \<open>;\<close>-separated list.\<close>

definition first_element :: "byte list \<Rightarrow> byte list" where
  "first_element s = takeWhile (\<lambda>b. b \<noteq> 0x3B) s"

section \<open>The C code implements the specification\<close>

lemma cstr_rd: "cstr m p (c # t) \<Longrightarrow> rd m p = Some c \<and> c \<noteq> 0"
  using cstr_nth [of m p "c # t" 0] cstr_bounds [of m p "c # t"] cstr_nonzero [of m p "c # t"] by auto

lemma cstr_rd_end: "cstr m p [] \<Longrightarrow> rd m p = Some 0"
  using cstr_nth_end [of m p "[]"] cstr_bounds [of m p "[]"] by auto

lemma skip_blank_cstr:
  "cstr s p t \<Longrightarrow> skip_blank s p = Some (p + length (takeWhile blank t))"
proof (induction t arbitrary: p)
  case Nil
  then show ?case using cstr_rd_end by (subst skip_blank.simps) (fastforce simp: blank_def)
next
  case (Cons c t)
  then show ?case
    using cstr_rd [OF Cons.prems] Cons.IH [OF cstr_shift [OF Cons.prems]]
    by (subst skip_blank.simps) simp
qed

lemma cstr_dropWhile: "cstr s p t \<Longrightarrow> cstr s (p + length (takeWhile P t)) (dropWhile P t)"
  using cstr_drop_prefix [of s p "takeWhile P t" "dropWhile P t"] by simp

text \<open>After a group: where the scan continues, and what is left of the string there.\<close>

lemma after_group:
  assumes "cstr s p (0x5B # t)" and "0x5D \<in> set t"
  shows "\<exists>e p'. strchr s p 0x5D = Some (Some e) \<and> skip_blank s (e + 1) = Some p'
    \<and> cstr s p' (dropWhile blank (tl (dropWhile (\<lambda>b. b \<noteq> 0x5D) t)))"
proof -
  obtain a b where t: "t = a @ 0x5D # b" "0x5D \<notin> set a"
    using split_list_first [OF assms(2)] by auto
  have "strchr s p 0x5D = Some (Some (p + length (0x5B # a)))"
    using strchr_found [of s p "0x5B # a" "0x5D" b] assms(1) t by simp
  moreover have b: "cstr s (p + length (0x5B # a) + 1) b"
    using cstr_drop_prefix [of s p "0x5B # a @ [0x5D]" b] assms(1) t by (simp add: add.assoc)
  moreover have "tl (dropWhile (\<lambda>b. b \<noteq> 0x5D) t) = b"
  proof -
    have "dropWhile (\<lambda>b. b \<noteq> 0x5D) a = []" using t(2) by (auto simp: dropWhile_eq_Nil_conv)
    then show ?thesis using t(1) by (simp add: dropWhile_append)
  qed
  ultimately show ?thesis
    using skip_blank_cstr [OF b] cstr_dropWhile [OF b, of blank] by auto
qed

lemma sanitize_loop_eq:
  "cstr s p t \<Longrightarrow> base + n \<le> length d \<Longrightarrow> out < n \<Longrightarrow>
   sanitize_loop s p d base n out =
     Some (blit d (base + out) (take (n - 1 - out) (strip t)),
           out + length (take (n - 1 - out) (strip t)))"
proof (induction "length t" arbitrary: p t d out rule: less_induct)
  case less
  show ?case
  proof (cases t)
    case Nil
    then show ?thesis
      using less.prems cstr_rd_end by (subst sanitize_loop.simps) fastforce
  next
    case (Cons c u)
    have c: "rd s p = Some c" "c \<noteq> 0" using cstr_rd less.prems(1) Cons by blast+
    show ?thesis
    proof (cases "out < n - 1")
      case False
      then show ?thesis using less.prems c by (subst sanitize_loop.simps) auto
    next
      case room: True
      show ?thesis
      proof (cases "c = 0x5B \<and> 0x5D \<in> set u")
        case True
        let ?v = "dropWhile blank (tl (dropWhile (\<lambda>b. b \<noteq> 0x5D) u))"
        obtain e p' where e: "strchr s p 0x5D = Some (Some e)" "skip_blank s (e + 1) = Some p'"
            "cstr s p' ?v"
          using after_group [of s p u] less.prems(1) Cons True by auto
        have "length ?v < length t" using Cons length_after_group [where c = "0x5D" and s = u] by simp
        then have "sanitize_loop s p' d base n out =
            Some (blit d (base + out) (take (n - 1 - out) (strip ?v)),
                  out + length (take (n - 1 - out) (strip ?v)))"
          using less.hyps e(3) less.prems by blast
        then show ?thesis using c e room True Cons by (subst sanitize_loop.simps) simp
      next
        case False
        have closed: "(if c = 0x5B then strchr s p 0x5D else Some None) = Some None"
          using strchr_absent [OF less.prems(1), of "0x5D"] False Cons by auto
        have st: "strip t = c # strip u" using False Cons by auto
        have len: "base + out < length d" using room less.prems by simp
        have "sanitize_loop s (p + 1) (d[base + out := c]) base n (out + 1) =
            Some (blit (d[base + out := c]) (base + (out + 1)) (take (n - 1 - (out + 1)) (strip u)),
                  out + 1 + length (take (n - 1 - (out + 1)) (strip u)))"
          using less.hyps [of u "p + 1"] less.prems room Cons by (auto dest: cstr_shift)
        moreover have "take (n - 1 - out) (strip t) = c # take (n - 1 - (out + 1)) (strip u)"
          using room st by (simp add: take_Cons' Suc_diff_Suc)
        moreover have "blit (d[base + out := c]) (Suc (base + out)) (take (n - 1 - (out + 1)) (strip u))
            = blit d (base + out) (c # take (n - 1 - (out + 1)) (strip u))"
          using room less.prems by (intro blit_Cons) simp
        ultimately show ?thesis using c closed room len
          by (subst sanitize_loop.simps) (simp del: strip.simps)
      qed
    qed
  qed
qed

lemma rtrim_snoc: "rtrim (s @ [b]) = (if space b then rtrim s else s @ [b])"
  by (simp add: rtrim_def)

lemma trim_out_eq:
  "base + length x \<le> length d \<Longrightarrow> take (length x) (drop base d) = x \<Longrightarrow>
   trim_out d base (length x) = Some (length (rtrim x))"
proof (induction x rule: rev_induct)
  case Nil
  then show ?case by (simp add: rtrim_def)
next
  case (snoc b x)
  have "drop base d ! length x = (x @ [b]) ! length x"
    using snoc.prems by (metis length_append_singleton lessI nth_take)
  then have b: "rd d (base + length x) = Some b" using snoc.prems(1) by simp
  have "take (length x) (drop base d) = x"
    using snoc.prems(2) by (metis append_eq_conv_conj length_append_singleton
        take_Suc_conv_app_nth take_take min.absorb1 le_Suc_eq order_refl)
  then have "trim_out d base (length x) = Some (length (rtrim x))"
    using snoc.IH snoc.prems(1) by simp
  then show ?case using b by (simp add: rtrim_snoc)
qed

lemma rtrim_prefix: "\<exists>w. x = rtrim x @ w \<and> list_all space w"
proof -
  have "rev (rev x) = rev (takeWhile space (rev x) @ dropWhile space (rev x))" by simp
  then have "x = rtrim x @ rev (takeWhile space (rev x))" by (simp only: rtrim_def rev_append rev_rev_ident)
  moreover have "list_all space (rev (takeWhile space (rev x)))"
    by (auto simp: list_all_iff dest: set_takeWhileD)
  ultimately show ?thesis by blast
qed

lemma strip_subset: "set (strip t) \<subseteq> set t"
proof (induction t rule: strip.induct)
  case (2 c s)
  have "set (dropWhile blank (tl (dropWhile (\<lambda>b. b \<noteq> 0x5D) s))) \<subseteq> set s"
    by (metis (no_types, lifting) set_mono_suffix subset_trans suffix_dropWhile suffix_tl)
  then show ?case using 2 by auto
qed simp

text \<open>
  What a copy into a field leaves behind: the new C string at the field's offset, the bytes
  outside the field unchanged.
\<close>

definition field_set :: "mem \<Rightarrow> nat \<Rightarrow> nat \<Rightarrow> byte list \<Rightarrow> mem \<Rightarrow> bool" where
  "field_set d base n t d' \<longleftrightarrow>
     length d' = length d \<and> cstr d' base t \<and> length t < n
     \<and> (\<forall>i < length d. i < base \<or> base + n \<le> i \<longrightarrow> d' ! i = d ! i)"

lemma field_setI_blit:
  assumes "base + n \<le> length d" "length t < n" "0 \<notin> set t"
  shows "field_set d base n t (blit d base (t @ [0]))"
  using assms by (auto simp: field_set_def cstr_blit nth_blit)

lemma wr_0_field: "base + n \<le> length d \<Longrightarrow> 0 < n \<Longrightarrow> field_set d base n [] (d[base := 0])"
  using field_setI_blit [of base n d "[]"] by (simp add: blit_single)

lemma copy_field_sanitize_eq:
  assumes "cstr s 0 t" and "base + n \<le> length d" and "0 < n"
  shows "\<exists>d'. copy_field_sanitize d base n (Some s) = Some d'
    \<and> field_set d base n (rtrim (take (n - 1) (strip t))) d'"
proof -
  define x where "x = take (n - 1) (strip t)"
  define d1 where "d1 = blit d base x"
  have lx: "length x < n" using assms(3) by (simp add: x_def)
  have loop: "sanitize_loop s 0 d base n 0 = Some (d1, length x)"
    using sanitize_loop_eq [OF assms(1,2,3)] by (simp add: x_def d1_def)
  have "take (length x) (drop base d1) = x"
    using lx assms(2) by (simp add: d1_def drop_blit)
  moreover have "base + length x \<le> length d1" using lx assms(2) by (simp add: d1_def)
  ultimately have trim: "trim_out d1 base (length x) = Some (length (rtrim x))"
    by (intro trim_out_eq)
  obtain w where w: "x = rtrim x @ w" using rtrim_prefix by blast
  then have lr: "length (rtrim x) < n" using lx by (metis add_lessD1 length_append)
  let ?d' = "d1[base + length (rtrim x) := 0]"
  have x0: "0 \<notin> set x"
    using strip_subset [of t] cstr_nonzero [OF assms(1)] by (auto simp: x_def dest: in_set_takeD)
  have "drop base d1 = rtrim x @ w @ drop (base + length x) d"
    using lx assms(2) w by (simp add: d1_def drop_blit)
  then have "drop base ?d' = (rtrim x @ w @ drop (base + length x) d)[length (rtrim x) := 0]"
    by (simp add: drop_update_swap)
  also have "\<dots> = rtrim x @ (w @ drop (base + length x) d)[0 := 0]"
    by (simp add: list_update_append)
  finally have dr: "drop base ?d' = rtrim x @ (w @ drop (base + length x) d)[0 := 0]" .
  have "w @ drop (base + length x) d \<noteq> []" using lx assms(2) by auto
  then have "\<exists>r. (w @ drop (base + length x) d)[0 := 0] = 0 # r"
    by (metis list_update_code(2) neq_Nil_conv)
  then have "cstr ?d' base (rtrim x)"
    using dr x0 w by (metis Un_iff cstrI_drop set_append)
  then have "field_set d base n (rtrim x) ?d'"
    using lr lx assms(2) by (auto simp: field_set_def d1_def nth_blit nth_list_update)
  moreover have "copy_field_sanitize d base n (Some s) = Some ?d'"
    using loop trim lr assms(2) lx by (simp add: copy_field_sanitize_def d1_def)
  ultimately show ?thesis by (auto simp: x_def)
qed

lemma copy_field_sanitize_None:
  assumes "base + n \<le> length d" and "0 < n"
  shows "\<exists>d'. copy_field_sanitize d base n None = Some d' \<and> field_set d base n [] d'"
  using wr_0_field [OF assms] assms by (simp add: copy_field_sanitize_def)

text \<open>The length of the first element, as both routines compute it.\<close>

lemma first_element_len:
  assumes "cstr s 0 t"
  shows "do { fin \<leftarrow> strchr s 0 0x3B; case fin of Some e \<Rightarrow> Some e | None \<Rightarrow> strlen s 0 }
    = Some (length (first_element t))"
proof (cases "0x3B \<in> set t")
  case True
  then show ?thesis using strchr_cstr [OF assms, of "0x3B"] by (simp add: first_element_def)
next
  case False
  then have tw: "first_element t = t" by (auto simp: first_element_def takeWhile_eq_all_conv)
  show ?thesis
    using False strchr_cstr [OF assms, of "0x3B"] strlen_cstr [OF assms] by (simp add: tw)
qed

lemma first_element_prefix: "take (length (first_element t)) t = first_element t"
  unfolding first_element_def by (rule takeWhile_eq_take [symmetric])

lemma first_element_take:
  assumes "cstr s 0 t" and "k \<le> length (first_element t)"
  shows "take k s = take k (first_element t)" "k \<le> length s" "0 \<notin> set (take k (first_element t))"
proof -
  obtain r where s: "s = t @ 0 # r" using cstr_drop [OF assms(1)] by auto
  have l: "length (first_element t) \<le> length t" by (simp add: first_element_def length_takeWhile_le)
  then show "k \<le> length s" using assms(2) s by simp
  have "take k s = take k t" using s l assms(2) by simp
  then show "take k s = take k (first_element t)"
    using first_element_prefix [of t] assms(2) by (metis min.absorb1 take_take)
  show "0 \<notin> set (take k (first_element t))"
    using cstr_nonzero [OF assms(1)] by (auto simp: first_element_def dest: in_set_takeD set_takeWhileD)
qed

lemma copy_first_element_eq:
  assumes "cstr s 0 t" and "base + n \<le> length d" and "0 < n"
  shows "\<exists>d'. copy_first_element d base n (Some s) = Some d'
    \<and> field_set d base n (take (n - 1) (first_element t)) d'"
proof (cases t)
  case Nil
  then have "rd s 0 = Some 0" using assms(1) cstr_rd_end by blast
  then show ?thesis
    using wr_0_field [OF assms(2,3)] Nil assms(2,3)
    by (simp add: copy_first_element_def first_element_def)
next
  case (Cons c u)
  define k where "k = (if length (first_element t) \<ge> n then n - 1 else length (first_element t))"
  have k: "k \<le> length (first_element t)" "k < n" using assms(3) by (auto simp: k_def)
  note f = first_element_take [OF assms(1) k(1)]
  have c: "rd s 0 = Some c" "c \<noteq> 0" using cstr_rd assms(1) Cons by blast+
  obtain fin where e: "strchr s 0 0x3B = Some fin"
      "(case fin of Some e \<Rightarrow> Some e | None \<Rightarrow> strlen s 0) = Some (length (first_element t))"
    using first_element_len [OF assms(1)] by (auto simp: bind_eq_Some_conv)
  have "memcpy d base s 0 k = Some (blit d base (take k (first_element t)))"
    using memcpy_eq [of 0 k s base d] f k(2) assms(2) by simp
  moreover have "(blit d base (take k (first_element t)))[base + k := 0]
      = blit d base (take k (first_element t) @ [0])"
    using blit_append [of base "take k (first_element t)" "[0]" d] f(2) k assms(2)
    by (simp add: blit_single)
  moreover have "take k (first_element t) = take (n - 1) (first_element t)"
    by (auto simp: k_def)
  ultimately have "copy_first_element d base n (Some s) =
      Some (blit d base (take (n - 1) (first_element t) @ [0]))"
    using c e k assms(2) unfolding k_def
    by (simp add: copy_first_element_def Let_def)
  then show ?thesis
    using field_setI_blit [OF assms(2), of "take (n - 1) (first_element t)"] f(3) assms(3)
      \<open>take k (first_element t) = take (n - 1) (first_element t)\<close> by auto
qed

lemma append_first_element_eq:
  assumes s: "cstr s 0 t" and a: "cstr d base a" and d: "base + n \<le> length d"
  shows "\<exists>d'. append_first_element d base n (Some s) = Some d' \<and> length d' = length d
    \<and> cstr d' base (a @ take (n - 1 - length a) (first_element t))
    \<and> (\<forall>i < length d. i < base \<or> base + n \<le> i \<longrightarrow> d' ! i = d ! i)"
proof (cases "t = [] \<or> length a \<ge> n - 1")
  case True
  have "rd s 0 = Some 0 \<or> length a \<ge> n - 1 \<and> (\<exists>c. rd s 0 = Some c)"
    using True s cstr_rd_end [of s 0] cstr_rd [of s 0 "hd t" "tl t"] by (cases "t = []") auto
  then have "append_first_element d base n (Some s) = Some d"
    using strlen_cstr [OF a] by (auto simp: append_first_element_def)
  moreover have "take (n - 1 - length a) (first_element t) = []"
    using True by (auto simp: first_element_def)
  ultimately show ?thesis using a by auto
next
  case False
  then obtain c u where t: "t = c # u" by (cases t) auto
  have c: "rd s 0 = Some c" "c \<noteq> 0" using cstr_rd s t by blast+
  define k where "k = (if length (first_element t) > n - length a - 1 then n - length a - 1
                       else length (first_element t))"
  have k: "k \<le> length (first_element t)" "length a + k < n" using False by (auto simp: k_def)
  note f = first_element_take [OF s k(1)]
  obtain fin where e: "strchr s 0 0x3B = Some fin"
      "(case fin of Some e \<Rightarrow> Some e | None \<Rightarrow> strlen s 0) = Some (length (first_element t))"
    using first_element_len [OF s] by (auto simp: bind_eq_Some_conv)
  let ?x = "take k (first_element t)"
  have lx: "length ?x = k" using k(1) by simp
  have kx: "?x = take (n - 1 - length a) (first_element t)" by (auto simp: k_def)
  have "memcpy d (base + length a) s 0 k = Some (blit d (base + length a) ?x)"
    using memcpy_eq [of 0 k s "base + length a" d] f k(2) d by simp
  moreover have "(blit d (base + length a) ?x)[base + length a + k := 0]
      = blit d (base + length a) (?x @ [0])"
    using blit_append [of "base + length a" ?x "[0]" d] lx k d by (simp add: blit_single)
  ultimately have "append_first_element d base n (Some s) = Some (blit d (base + length a) (?x @ [0]))"
    using c e k d lx False strlen_cstr [OF a] unfolding k_def
    by (simp add: append_first_element_def Let_def)
  moreover have "cstr (blit d (base + length a) (?x @ [0])) base (a @ ?x)"
    using cstr_after_blit_end [OF a f(3)] lx k d by simp
  ultimately show ?thesis
    using lx k d kx by (auto simp: nth_blit)
qed

lemma append_first_element_None: "append_first_element d base n None = Some d"
  by (simp add: append_first_element_def)

section \<open>What is left of the bracketed groups\<close>

text \<open>In the stripped text no opening bracket has a closing one after it.\<close>

lemma strip_no_group: "strip t = a @ 0x5B # b \<Longrightarrow> 0x5D \<notin> set b"
proof (induction t arbitrary: a rule: strip.induct)
  case (2 c s)
  show ?case
  proof (cases "c = 0x5B \<and> 0x5D \<in> set s")
    case True
    then show ?thesis using 2 by simp
  next
    case False
    show ?thesis
    proof (cases a)
      case Nil
      then have "c = 0x5B" "strip s = b" using "2.prems" False by auto
      then show ?thesis using False strip_subset [of s] by auto
    next
      case (Cons x a')
      then show ?thesis using "2.IH"(2) [OF False, of a'] "2.prems" False by auto
    qed
  qed
qed simp

lemma strip_id: "(\<And>a b. t = a @ 0x5B # b \<Longrightarrow> 0x5D \<notin> set b) \<Longrightarrow> strip t = t"
proof (induction t)
  case (Cons c s)
  have "\<not> (c = 0x5B \<and> 0x5D \<in> set s)" using Cons.prems [of "[]" s] by auto
  moreover have "strip s = s" using Cons.IH Cons.prems [of "c # _"] by auto
  ultimately show ?case by auto
qed simp

lemma strip_idem: "strip (strip t) = strip t"
  using strip_no_group by (rule strip_id)

lemma strip_plain: "0x5B \<notin> set t \<Longrightarrow> strip t = t"
  by (rule strip_id) auto

end
