(* ===== verification/DictRows.thy ===== *)
theory DictRows
  imports DictText
begin

text \<open>
  What both copies of the dictionary layer share: the constants and the result struct of
  \<open>dict.h\<close>, the rows SQLite delivers, and the loop over \<open>sqlite3_step\<close> that fills the static
  array \<open>g_results\<close>.

  SQLite is not part of the repository's sources: the engine is a parameter (the record
  \<open>sqlite\<close>) that gives the return codes of the calls and, for a prepared statement with its
  bound values, the matching rows of the table \<open>word\<close>.

  A result record is one object of 640 bytes, laid out as the struct is: \<open>word\<close> at offset 0,
  \<open>accent\<close> at 64, \<open>detail\<close> at 128.
\<close>

section \<open>Constants and data\<close>

definition DICT_MAX_RESULTS :: nat where "DICT_MAX_RESULTS = 64"
definition DICT_WORD_LEN :: nat where "DICT_WORD_LEN = 64"
definition DICT_ACCENT_LEN :: nat where "DICT_ACCENT_LEN = 64"
definition DICT_DETAIL_LEN :: nat where "DICT_DETAIL_LEN = 512"

text \<open>\<open>offsetof\<close> the fields of \<open>dict_result\<close>, and its size.\<close>

definition WORD :: nat where "WORD = 0"
definition ACCENT :: nat where "ACCENT = DICT_WORD_LEN"
definition DETAIL :: nat where "DETAIL = DICT_WORD_LEN + DICT_ACCENT_LEN"
definition RESULT_SIZE :: nat where "RESULT_SIZE = DICT_WORD_LEN + DICT_ACCENT_LEN + DICT_DETAIL_LEN"

lemmas dict_consts = DICT_MAX_RESULTS_def DICT_WORD_LEN_def DICT_ACCENT_LEN_def DICT_DETAIL_LEN_def
  WORD_def ACCENT_def DETAIL_def RESULT_SIZE_def

text \<open>A row of the table \<open>word\<close>: each column is NULL or text.\<close>

record row =
  kanji :: "byte list option"
  readings :: "byte list option"
  senses :: "byte list option"

text \<open>
  The engine. \<open>sqlite3_open_v2\<close> returns its code and the handle it stores,
  \<open>sqlite3_create_function\<close> the handle with the function registered, \<open>sqlite3_prepare_v2\<close>
  its code, and \<open>sqlite3_rows db sql binds limit\<close> the rows for which \<open>sqlite3_step\<close> returns
  \<open>SQLITE_ROW\<close>.
\<close>

record 'db sqlite =
  sqlite3_open_v2 :: "byte list \<Rightarrow> int \<times> 'db option"
  sqlite3_create_function :: "'db option \<Rightarrow> string \<Rightarrow> 'db option"
  sqlite3_prepare_v2 :: "'db option \<Rightarrow> string \<Rightarrow> int"
  sqlite3_rows :: "'db option \<Rightarrow> string \<Rightarrow> byte list list \<Rightarrow> nat \<Rightarrow> row list"

record 'db dict_state =
  g_db :: "'db option"
  g_results :: "mem list"

definition dict_init :: "'db dict_state" where
  "dict_init = \<lparr>g_db = None,
     g_results = replicate DICT_MAX_RESULTS (replicate RESULT_SIZE 0)\<rparr>"

text \<open>
  A column as C sees it: the text up to its first zero byte (\<open>ctext\<close>), and the object behind
  the pointer \<open>sqlite3_column_text\<close> returns, which adds the terminator (\<open>column_text\<close>).
\<close>

definition ctext :: "byte list \<Rightarrow> byte list" where
  "ctext t = takeWhile (\<lambda>b. b \<noteq> 0) t"

definition column_text :: "byte list option \<Rightarrow> mem option" where
  "column_text v = map_option (\<lambda>t. ctext t @ [0]) v"

text \<open>The condition \<open>kanji && kanji[0] != '\0'\<close>.\<close>

definition nonempty :: "mem option \<Rightarrow> bool option" where
  "nonempty p = (case p of None \<Rightarrow> Some False | Some k \<Rightarrow> do { b \<leftarrow> rd k 0; Some (b \<noteq> 0) })"

section \<open>The loop over the rows\<close>

text \<open>
  \<open>while (sqlite3_step(stmt) == SQLITE_ROW && n < DICT_MAX_RESULTS)\<close> with the body \<open>fill\<close>,
  which changes \<open>g_results[n]\<close>.
\<close>

fun row_loop :: "(mem \<Rightarrow> row \<Rightarrow> mem option) \<Rightarrow> row list \<Rightarrow> nat \<Rightarrow> mem list \<Rightarrow> (nat \<times> mem list) option" where
  "row_loop fill [] n rs = Some (n, rs)"
| "row_loop fill (r # rows) n rs =
     (if n < DICT_MAX_RESULTS then
        if n < length rs then do {
          d \<leftarrow> fill (rs ! n) r;
          row_loop fill rows (n + 1) (rs[n := d]) }
        else None
      else Some (n, rs))"

text \<open>
  The invariant of the results: the array has its length and every record satisfies \<open>ok\<close>,
  the invariant of the loop body. A record always has the size of the struct.
\<close>

definition entry_sized :: "mem \<Rightarrow> bool" where
  "entry_sized d \<longleftrightarrow> length d = RESULT_SIZE"

definition results_ok :: "(mem \<Rightarrow> bool) \<Rightarrow> mem list \<Rightarrow> bool" where
  "results_ok ok rs \<longleftrightarrow> length rs = DICT_MAX_RESULTS \<and> list_all ok rs"

text \<open>\<open>entry_shows d w t\<close>: a reader of the record finds the word \<open>w\<close> and the detail \<open>t\<close>.\<close>

definition entry_shows :: "mem \<Rightarrow> byte list \<Rightarrow> byte list \<Rightarrow> bool" where
  "entry_shows d w t \<longleftrightarrow> cstr d WORD w \<and> cstr d ACCENT [] \<and> cstr d DETAIL t"

section \<open>The contract of a loop body\<close>

text \<open>
  A body that keeps the record well formed and leaves the texts \<open>word_of r\<close> and \<open>detail_of r\<close>
  in it. Both versions of the dictionary provide one; what follows for the searches is
  proved here once.
\<close>

locale result_filler =
  fixes fill :: "mem \<Rightarrow> row \<Rightarrow> mem option"
    and word_of :: "row \<Rightarrow> byte list"
    and detail_of :: "row \<Rightarrow> byte list"
    and ok :: "mem \<Rightarrow> bool"
  assumes fill_entry: "ok d \<Longrightarrow>
    \<exists>d'. fill d r = Some d' \<and> ok d' \<and> entry_shows d' (word_of r) (detail_of r)"
begin

lemma row_loop_from:
  assumes "results_ok ok rs" and "n \<le> DICT_MAX_RESULTS"
  shows "\<exists>rs'. row_loop fill rows n rs = Some (min DICT_MAX_RESULTS (n + length rows), rs')
    \<and> results_ok ok rs'
    \<and> (\<forall>i < DICT_MAX_RESULTS. i < n \<longrightarrow> rs' ! i = rs ! i)
    \<and> (\<forall>i < DICT_MAX_RESULTS. n + length rows \<le> i \<longrightarrow> rs' ! i = rs ! i)
    \<and> (\<forall>i < length rows. n + i < DICT_MAX_RESULTS \<longrightarrow>
         entry_shows (rs' ! (n + i)) (word_of (rows ! i)) (detail_of (rows ! i)))"
  using assms
proof (induction rows arbitrary: n rs)
  case Nil
  then show ?case by simp
next
  case (Cons r rows)
  show ?case
  proof (cases "n < DICT_MAX_RESULTS")
    case False
    then show ?thesis using Cons.prems by auto
  next
    case True
    have n: "n < length rs" "ok (rs ! n)"
      using True Cons.prems(1) by (auto simp: results_ok_def list_all_length)
    obtain d where d: "fill (rs ! n) r = Some d" "ok d" "entry_shows d (word_of r) (detail_of r)"
      using fill_entry [OF n(2)] by blast
    have ok: "results_ok ok (rs[n := d])"
      using Cons.prems(1) d(2) set_update_subset_insert [of rs n d]
      by (auto simp: results_ok_def list_all_iff)
    obtain rs' where rs': "row_loop fill rows (n + 1) (rs[n := d]) =
          Some (min DICT_MAX_RESULTS (n + 1 + length rows), rs')" "results_ok ok rs'"
        "\<And>i. i < DICT_MAX_RESULTS \<Longrightarrow> i < n + 1 \<Longrightarrow> rs' ! i = rs[n := d] ! i"
        "\<And>i. i < DICT_MAX_RESULTS \<Longrightarrow> n + 1 + length rows \<le> i \<Longrightarrow> rs' ! i = rs[n := d] ! i"
        "\<And>i. i < length rows \<Longrightarrow> n + 1 + i < DICT_MAX_RESULTS \<Longrightarrow>
         entry_shows (rs' ! (n + 1 + i)) (word_of (rows ! i)) (detail_of (rows ! i))"
      using Cons.IH [OF ok, of "n + 1"] True by auto
    have "entry_shows (rs' ! (n + i)) (word_of ((r # rows) ! i)) (detail_of ((r # rows) ! i))"
      if "i < length (r # rows)" "n + i < DICT_MAX_RESULTS" for i
    proof (cases i)
      case 0
      then show ?thesis using rs'(3) [of n] True d(3) n(1) by simp
    next
      case (Suc j)
      then show ?thesis using rs'(5) [of j] that by simp
    qed
    moreover have "row_loop fill (r # rows) n rs =
        Some (min DICT_MAX_RESULTS (n + length (r # rows)), rs')"
      using True n(1) d(1) rs'(1) by simp
    ultimately show ?thesis using rs'(2-4) by (intro exI [of _ rs']) auto
  qed
qed

lemma row_loop_result:
  assumes "results_ok ok rs"
  obtains rs' where "row_loop fill rows 0 rs = Some (min DICT_MAX_RESULTS (length rows), rs')"
    and "results_ok ok rs'"
    and "\<And>i. i < length rows \<Longrightarrow> i < DICT_MAX_RESULTS \<Longrightarrow>
         entry_shows (rs' ! i) (word_of (rows ! i)) (detail_of (rows ! i))"
    and "\<And>i. i < DICT_MAX_RESULTS \<Longrightarrow> length rows \<le> i \<Longrightarrow> rs' ! i = rs ! i"
  using row_loop_from [OF assms, of 0 rows] by auto

end

section \<open>Columns and fields\<close>

lemma ctext_nonzero: "0 \<notin> set (ctext t)"
  by (auto simp: ctext_def dest: set_takeWhileD)

lemma cstr_column: "cstr (ctext t @ [0]) 0 (ctext t)"
  by (simp add: cstr_def ctext_nonzero)

lemma ctext_id: "0 \<notin> set t \<Longrightarrow> ctext t = t"
  by (auto simp: ctext_def takeWhile_eq_all_conv)

text \<open>What the columns mean: whether there is text, its first element, its sanitized form.\<close>

definition has_text :: "byte list option \<Rightarrow> bool" where
  "has_text v \<longleftrightarrow> (case v of None \<Rightarrow> False | Some t \<Rightarrow> ctext t \<noteq> [])"

definition first_of :: "byte list option \<Rightarrow> byte list" where
  "first_of v = (case v of None \<Rightarrow> [] | Some t \<Rightarrow> first_element (ctext t))"

definition sanitized :: "byte list option \<Rightarrow> byte list" where
  "sanitized v = (case v of None \<Rightarrow> []
     | Some t \<Rightarrow> rtrim (take (DICT_DETAIL_LEN - 1) (strip (ctext t))))"

lemma nonempty_column: "nonempty (column_text v) = Some (has_text v)"
proof (cases v)
  case (Some t)
  then show ?thesis
    using ctext_nonzero [of t]
    by (cases "ctext t") (auto simp: nonempty_def column_text_def has_text_def nth_append)
qed (simp add: nonempty_def column_text_def has_text_def)

lemma first_of_nonzero: "0 \<notin> set (first_of v)"
  by (auto simp: first_of_def first_element_def split: option.splits
      dest: set_takeWhileD simp: ctext_nonzero)

lemma copy_first_element_column:
  assumes "base + n \<le> length d" and "0 < n"
  shows "\<exists>d'. copy_first_element d base n (column_text v) = Some d'
    \<and> field_set d base n (take (n - 1) (first_of v)) d'"
proof (cases v)
  case None
  then show ?thesis
    using assms wr_0_field [OF assms] by (simp add: copy_first_element_def column_text_def first_of_def)
next
  case (Some t)
  then show ?thesis
    using copy_first_element_eq [OF cstr_column assms] by (simp add: column_text_def first_of_def)
qed

lemma copy_field_sanitize_column:
  assumes "base + DICT_DETAIL_LEN \<le> length d"
  shows "\<exists>d'. copy_field_sanitize d base DICT_DETAIL_LEN (column_text v) = Some d'
    \<and> field_set d base DICT_DETAIL_LEN (sanitized v) d'"
  using copy_field_sanitize_eq [OF cstr_column assms] copy_field_sanitize_None [OF assms]
  by (cases v) (simp_all add: column_text_def sanitized_def DICT_DETAIL_LEN_def)

lemma append_first_element_column:
  assumes "cstr d base a" and "base + n \<le> length d"
  shows "\<exists>d'. append_first_element d base n (column_text v) = Some d' \<and> length d' = length d
    \<and> cstr d' base (a @ take (n - 1 - length a) (first_of v))
    \<and> (\<forall>i < length d. i < base \<or> base + n \<le> i \<longrightarrow> d' ! i = d ! i)"
proof (cases v)
  case None
  then show ?thesis
    using assms by (simp add: append_first_element_None column_text_def first_of_def)
next
  case (Some t)
  then show ?thesis
    using append_first_element_eq [OF cstr_column assms] by (simp add: column_text_def first_of_def)
qed

text \<open>A zero written into a field cuts the string there; written elsewhere it changes nothing.\<close>

lemma cstr_cut:
  assumes "cstr d p w" and "q \<le> length w"
  shows "cstr (d[p + q := 0]) p (take q w)"
proof -
  obtain r where r: "drop p d = w @ 0 # r" using cstr_drop [OF assms(1)] by blast
  have "drop p (d[p + q := 0]) = (w @ 0 # r)[q := 0]" using r by (simp add: drop_update_swap)
  also have "\<dots> = take q w @ 0 # drop (Suc q) (w @ 0 # r)"
    using assms(2) by (simp add: upd_conv_take_nth_drop)
  finally show ?thesis
    using cstr_nonzero [OF assms(1)] by (auto intro!: cstrI_drop dest: in_set_takeD)
qed

lemma cstr_update_outside:
  "cstr d p w \<Longrightarrow> i < p \<or> p + length w < i \<Longrightarrow> cstr (d[i := b]) p w"
  by (erule cstr_same_prefix) auto

lemma cstr_zeroed:
  assumes "cstr d p w" and "p + q < length d"
  shows "cstr (d[p + q := 0]) p (take q w)"
  using cstr_cut [OF assms(1), of q] cstr_update_outside [OF assms(1), of "p + q" 0]
  by (cases "q \<le> length w") auto

lemma results_ok_init:
  "ok (replicate RESULT_SIZE 0) \<Longrightarrow> results_ok ok (g_results dict_init)"
  by (simp add: dict_init_def results_ok_def list_all_iff)

text \<open>An engine that opens every path, prepares every statement and finds the given rows.\<close>

definition fixed_engine :: "row list \<Rightarrow> unit sqlite" where
  "fixed_engine rows = \<lparr>sqlite3_open_v2 = (\<lambda>_. (0, Some ())),
     sqlite3_create_function = (\<lambda>db _. db), sqlite3_prepare_v2 = (\<lambda>_ _. 0),
     sqlite3_rows = (\<lambda>_ _ _ limit. take limit rows)\<rparr>"

end
