(* ===== verification/Romaji.thy ===== *)
theory Romaji
  imports LibcString
begin

text \<open>
  \<open>Dictionary_Resources/romaji.c\<close>: conversion of romaji typed by the user to hiragana, and
  of hiragana to katakana in place. First the definitions, in the order of the file; then a
  specification over plain byte strings (\<open>kana_chunks\<close>: which table entries are used, one
  after the other) and the proof that the C code with its buffer implements it; last the
  conversion to katakana and what it does to well-formed UTF-8.
\<close>

section \<open>The table\<close>

definition ROMAJI_TABLE :: "(byte list \<times> byte list) list" where
  "ROMAJI_TABLE = [
    (lit ''kya'', [0xE3, 0x81, 0x8D, 0xE3, 0x82, 0x83]),
    (lit ''kyu'', [0xE3, 0x81, 0x8D, 0xE3, 0x82, 0x85]),
    (lit ''kyo'', [0xE3, 0x81, 0x8D, 0xE3, 0x82, 0x87]),
    (lit ''sha'', [0xE3, 0x81, 0x97, 0xE3, 0x82, 0x83]),
    (lit ''shu'', [0xE3, 0x81, 0x97, 0xE3, 0x82, 0x85]),
    (lit ''sho'', [0xE3, 0x81, 0x97, 0xE3, 0x82, 0x87]),
    (lit ''sya'', [0xE3, 0x81, 0x97, 0xE3, 0x82, 0x83]),
    (lit ''syu'', [0xE3, 0x81, 0x97, 0xE3, 0x82, 0x85]),
    (lit ''cha'', [0xE3, 0x81, 0xA1, 0xE3, 0x82, 0x83]),
    (lit ''chu'', [0xE3, 0x81, 0xA1, 0xE3, 0x82, 0x85]),
    (lit ''cho'', [0xE3, 0x81, 0xA1, 0xE3, 0x82, 0x87]),
    (lit ''tya'', [0xE3, 0x81, 0xA1, 0xE3, 0x82, 0x83]),
    (lit ''tyu'', [0xE3, 0x81, 0xA1, 0xE3, 0x82, 0x85]),
    (lit ''nya'', [0xE3, 0x81, 0xAB, 0xE3, 0x82, 0x83]),
    (lit ''nyu'', [0xE3, 0x81, 0xAB, 0xE3, 0x82, 0x85]),
    (lit ''nyo'', [0xE3, 0x81, 0xAB, 0xE3, 0x82, 0x87]),
    (lit ''hya'', [0xE3, 0x81, 0xB2, 0xE3, 0x82, 0x83]),
    (lit ''hyu'', [0xE3, 0x81, 0xB2, 0xE3, 0x82, 0x85]),
    (lit ''hyo'', [0xE3, 0x81, 0xB2, 0xE3, 0x82, 0x87]),
    (lit ''mya'', [0xE3, 0x81, 0xBF, 0xE3, 0x82, 0x83]),
    (lit ''myu'', [0xE3, 0x81, 0xBF, 0xE3, 0x82, 0x85]),
    (lit ''myo'', [0xE3, 0x81, 0xBF, 0xE3, 0x82, 0x87]),
    (lit ''rya'', [0xE3, 0x82, 0x8A, 0xE3, 0x82, 0x83]),
    (lit ''ryu'', [0xE3, 0x82, 0x8A, 0xE3, 0x82, 0x85]),
    (lit ''ryo'', [0xE3, 0x82, 0x8A, 0xE3, 0x82, 0x87]),
    (lit ''gya'', [0xE3, 0x81, 0x8E, 0xE3, 0x82, 0x83]),
    (lit ''gyu'', [0xE3, 0x81, 0x8E, 0xE3, 0x82, 0x85]),
    (lit ''gyo'', [0xE3, 0x81, 0x8E, 0xE3, 0x82, 0x87]),
    (lit ''ja'', [0xE3, 0x81, 0x98, 0xE3, 0x82, 0x83]),
    (lit ''ju'', [0xE3, 0x81, 0x98, 0xE3, 0x82, 0x85]),
    (lit ''jo'', [0xE3, 0x81, 0x98, 0xE3, 0x82, 0x87]),
    (lit ''jya'', [0xE3, 0x81, 0x98, 0xE3, 0x82, 0x83]),
    (lit ''jyu'', [0xE3, 0x81, 0x98, 0xE3, 0x82, 0x85]),
    (lit ''jyo'', [0xE3, 0x81, 0x98, 0xE3, 0x82, 0x87]),
    (lit ''zya'', [0xE3, 0x81, 0x98, 0xE3, 0x82, 0x83]),
    (lit ''zyu'', [0xE3, 0x81, 0x98, 0xE3, 0x82, 0x85]),
    (lit ''bya'', [0xE3, 0x81, 0xB3, 0xE3, 0x82, 0x83]),
    (lit ''byu'', [0xE3, 0x81, 0xB3, 0xE3, 0x82, 0x85]),
    (lit ''byo'', [0xE3, 0x81, 0xB3, 0xE3, 0x82, 0x87]),
    (lit ''pya'', [0xE3, 0x81, 0xB4, 0xE3, 0x82, 0x83]),
    (lit ''pyu'', [0xE3, 0x81, 0xB4, 0xE3, 0x82, 0x85]),
    (lit ''pyo'', [0xE3, 0x81, 0xB4, 0xE3, 0x82, 0x87]),
    (lit ''shi'', [0xE3, 0x81, 0x97]),
    (lit ''chi'', [0xE3, 0x81, 0xA1]),
    (lit ''tsu'', [0xE3, 0x81, 0xA4]),
    (lit ''ka'', [0xE3, 0x81, 0x8B]),
    (lit ''ki'', [0xE3, 0x81, 0x8D]),
    (lit ''ku'', [0xE3, 0x81, 0x8F]),
    (lit ''ke'', [0xE3, 0x81, 0x91]),
    (lit ''ko'', [0xE3, 0x81, 0x93]),
    (lit ''sa'', [0xE3, 0x81, 0x95]),
    (lit ''si'', [0xE3, 0x81, 0x97]),
    (lit ''su'', [0xE3, 0x81, 0x99]),
    (lit ''se'', [0xE3, 0x81, 0x9B]),
    (lit ''so'', [0xE3, 0x81, 0x9D]),
    (lit ''ta'', [0xE3, 0x81, 0x9F]),
    (lit ''ti'', [0xE3, 0x81, 0xA1]),
    (lit ''tu'', [0xE3, 0x81, 0xA4]),
    (lit ''te'', [0xE3, 0x81, 0xA6]),
    (lit ''to'', [0xE3, 0x81, 0xA8]),
    (lit ''na'', [0xE3, 0x81, 0xAA]),
    (lit ''ni'', [0xE3, 0x81, 0xAB]),
    (lit ''nu'', [0xE3, 0x81, 0xAC]),
    (lit ''ne'', [0xE3, 0x81, 0xAD]),
    (lit ''no'', [0xE3, 0x81, 0xAE]),
    (lit ''ha'', [0xE3, 0x81, 0xAF]),
    (lit ''hi'', [0xE3, 0x81, 0xB2]),
    (lit ''fu'', [0xE3, 0x81, 0xB5]),
    (lit ''hu'', [0xE3, 0x81, 0xB5]),
    (lit ''he'', [0xE3, 0x81, 0xB8]),
    (lit ''ho'', [0xE3, 0x81, 0xBB]),
    (lit ''ma'', [0xE3, 0x81, 0xBE]),
    (lit ''mi'', [0xE3, 0x81, 0xBF]),
    (lit ''mu'', [0xE3, 0x82, 0x80]),
    (lit ''me'', [0xE3, 0x82, 0x81]),
    (lit ''mo'', [0xE3, 0x82, 0x82]),
    (lit ''ya'', [0xE3, 0x82, 0x84]),
    (lit ''yu'', [0xE3, 0x82, 0x86]),
    (lit ''yo'', [0xE3, 0x82, 0x88]),
    (lit ''ra'', [0xE3, 0x82, 0x89]),
    (lit ''ri'', [0xE3, 0x82, 0x8A]),
    (lit ''ru'', [0xE3, 0x82, 0x8B]),
    (lit ''re'', [0xE3, 0x82, 0x8C]),
    (lit ''ro'', [0xE3, 0x82, 0x8D]),
    (lit ''wa'', [0xE3, 0x82, 0x8F]),
    (lit ''wo'', [0xE3, 0x82, 0x92]),
    (lit ''ga'', [0xE3, 0x81, 0x8C]),
    (lit ''gi'', [0xE3, 0x81, 0x8E]),
    (lit ''gu'', [0xE3, 0x81, 0x90]),
    (lit ''ge'', [0xE3, 0x81, 0x92]),
    (lit ''go'', [0xE3, 0x81, 0x94]),
    (lit ''za'', [0xE3, 0x81, 0x96]),
    (lit ''zi'', [0xE3, 0x81, 0x98]),
    (lit ''ji'', [0xE3, 0x81, 0x98]),
    (lit ''zu'', [0xE3, 0x81, 0x9A]),
    (lit ''ze'', [0xE3, 0x81, 0x9C]),
    (lit ''zo'', [0xE3, 0x81, 0x9E]),
    (lit ''da'', [0xE3, 0x81, 0xA0]),
    (lit ''di'', [0xE3, 0x81, 0xA2]),
    (lit ''du'', [0xE3, 0x81, 0xA5]),
    (lit ''de'', [0xE3, 0x81, 0xA7]),
    (lit ''do'', [0xE3, 0x81, 0xA9]),
    (lit ''ba'', [0xE3, 0x81, 0xB0]),
    (lit ''bi'', [0xE3, 0x81, 0xB3]),
    (lit ''bu'', [0xE3, 0x81, 0xB6]),
    (lit ''be'', [0xE3, 0x81, 0xB9]),
    (lit ''bo'', [0xE3, 0x81, 0xBC]),
    (lit ''pa'', [0xE3, 0x81, 0xB1]),
    (lit ''pi'', [0xE3, 0x81, 0xB4]),
    (lit ''pu'', [0xE3, 0x81, 0xB7]),
    (lit ''pe'', [0xE3, 0x81, 0xBA]),
    (lit ''po'', [0xE3, 0x81, 0xBD]),
    (lit ''a'', [0xE3, 0x81, 0x82]),
    (lit ''i'', [0xE3, 0x81, 0x84]),
    (lit ''u'', [0xE3, 0x81, 0x86]),
    (lit ''e'', [0xE3, 0x81, 0x88]),
    (lit ''o'', [0xE3, 0x81, 0x8A]),
    (lit ''n'', [0xE3, 0x82, 0x93])]"

text \<open>The same table with its keys spelled as bytes, for evaluation.\<close>

lemmas ROMAJI_TABLE_bytes [code] = ROMAJI_TABLE_def [simplified lit_Cons lit_Nil, simplified]

section \<open>The conversion to hiragana\<close>

text \<open>\<open>(char)tolower((unsigned char)b)\<close>\<close>

definition lower :: "byte \<Rightarrow> byte" where
  "lower b = word_of_int (tolower (uint b))"

text \<open>
  \<open>romaji__append\<close>: the argument \<open>s\<close> is the object that holds the appended C string. The
  result is the return code, the buffer and the new value of \<open>*pos\<close>.
\<close>

definition romaji__append ::
  "mem \<Rightarrow> nat \<Rightarrow> nat \<Rightarrow> mem \<Rightarrow> (int \<times> mem \<times> nat) option" where
  "romaji__append dst dst_size pos s = do {
     len \<leftarrow> strlen s 0;
     if pos + len + 1 > dst_size then Some (-1, dst, pos)
     else do {
       dst \<leftarrow> memcpy dst pos s 0 len;
       dst \<leftarrow> wr dst (pos + len) 0;
       Some (0, dst, pos + len) } }"

text \<open>The inner loop that fills \<open>buf\<close> with \<open>take\<close> lowered bytes.\<close>

fun fill_buf :: "mem \<Rightarrow> nat \<Rightarrow> nat \<Rightarrow> nat \<Rightarrow> mem \<Rightarrow> mem option" where
  "fill_buf src i k 0 buf = Some buf"
| "fill_buf src i k (Suc left) buf = do {
     b \<leftarrow> rd src (i + k);
     buf' \<leftarrow> wr buf k (lower b);
     fill_buf src i (k + 1) left buf' }"

text \<open>The loop over the table: the kana of the first entry whose romaji equals \<open>buf\<close>.\<close>

fun table_find :: "(byte list \<times> byte list) list \<Rightarrow> mem \<Rightarrow> byte list option option" where
  "table_find [] buf = Some None"
| "table_find ((romaji, kana) # t) buf = do {
     d \<leftarrow> strcmp buf 0 (romaji @ [0]) 0;
     if d = 0 then Some (Some kana) else table_find t buf }"

datatype take_result = Unmatched | Too_Small | Matched mem nat nat

text \<open>
  \<open>for (take = 3; take >= 1 && !matched; take--)\<close>. \<open>Matched dst pos i\<close> carries the state
  after a successful append, \<open>Too_Small\<close> is the \<open>return -1\<close> inside the loop.
\<close>

fun take_loop ::
  "mem \<Rightarrow> nat \<Rightarrow> nat \<Rightarrow> nat \<Rightarrow> mem \<Rightarrow> nat \<Rightarrow> nat \<Rightarrow> take_result option" where
  "take_loop src n i 0 dst dst_size pos = Some Unmatched"
| "take_loop src n i (Suc t) dst dst_size pos =
     (if i + Suc t > n then take_loop src n i t dst dst_size pos
      else do {
        buf \<leftarrow> fill_buf src i 0 (Suc t) [0, 0, 0, 0];
        hit \<leftarrow> table_find ROMAJI_TABLE buf;
        case hit of
          None \<Rightarrow> take_loop src n i t dst dst_size pos
        | Some kana \<Rightarrow> do {
            (r, dst', pos') \<leftarrow> romaji__append dst dst_size pos (kana @ [0]);
            Some (if r < 0 then Too_Small else Matched dst' pos' (i + Suc t)) } })"

text \<open>The letters that never start a small tsu.\<close>

definition no_double :: "byte \<Rightarrow> bool" where
  "no_double c \<longleftrightarrow> c \<in> set (lit ''naiueo'')"

definition SMALL_TSU :: "byte list" where
  "SMALL_TSU = [0xE3, 0x81, 0xA3]"

lemma take_loop_advances:
  "take_loop src n i t dst dsz pos = Some (Matched dst' pos' i') \<Longrightarrow> i < i' \<and> i' \<le> n"
  by (induction t)
     (auto simp: bind_eq_Some_conv split: if_splits option.splits prod.splits)

text \<open>The main loop; the result is the return value and the buffer.\<close>

function kana_loop ::
  "mem \<Rightarrow> nat \<Rightarrow> mem \<Rightarrow> nat \<Rightarrow> nat \<Rightarrow> nat \<Rightarrow> (int \<times> mem) option" where
  "kana_loop src n dst dst_size pos i =
     (if i < n then do {
        b \<leftarrow> rd src i;
        doubled \<leftarrow> (if \<not> no_double (lower b) \<and> i + 1 < n
                    then do { b' \<leftarrow> rd src (i + 1); Some (lower b' = lower b) }
                    else Some False);
        if doubled then do {
          (r, dst', pos') \<leftarrow> romaji__append dst dst_size pos (SMALL_TSU @ [0]);
          if r < 0 then Some (-1, dst')
          else kana_loop src n dst' dst_size pos' (i + 1) }
        else do {
          m \<leftarrow> take_loop src n i 3 dst dst_size pos;
          case m of
            Too_Small \<Rightarrow> Some (-1, dst)
          | Matched dst' pos' i' \<Rightarrow> kana_loop src n dst' dst_size pos' i'
          | Unmatched \<Rightarrow> do {
              (r, dst', pos') \<leftarrow> romaji__append dst dst_size pos [b, 0];
              if r < 0 then Some (-1, dst')
              else kana_loop src n dst' dst_size pos' (i + 1) } } }
      else Some (int_of_size pos, dst))"
  by pat_completeness auto
termination
  by (relation "measure (\<lambda>(src, n, dst, dst_size, pos, i). n - i)")
     (auto dest: take_loop_advances)

declare kana_loop.simps [simp del]

definition romaji_to_kana :: "mem \<Rightarrow> mem \<Rightarrow> nat \<Rightarrow> (int \<times> mem) option" where
  "romaji_to_kana src dst dst_size =
     (if dst_size = 0 then Some (-1, dst)
      else do {
        dst \<leftarrow> wr dst 0 0;
        n \<leftarrow> strlen src 0;
        kana_loop src n dst dst_size 0 0 })"

section \<open>The conversion to katakana\<close>

text \<open>
  \<open>romaji__hira_to_kata\<close>: decodes each three-byte sequence, adds 0x60 to the code points
  of the hiragana block and encodes again, in place. The scan advances by the length the
  lead byte announces.
\<close>

definition kata_cp :: "byte \<Rightarrow> byte \<Rightarrow> byte \<Rightarrow> 32 word" where
  "kata_cp b0 b1 b2 =
     push_bit 12 (ucast (b0 AND 0x0F)) OR push_bit 6 (ucast (b1 AND 0x3F)) OR ucast (b2 AND 0x3F)"

definition kata_bytes :: "32 word \<Rightarrow> byte list" where
  "kata_bytes k =
     [ucast (0xE0 OR drop_bit 12 k),
      ucast (0x80 OR (drop_bit 6 k AND 0x3F)),
      ucast (0x80 OR (k AND 0x3F))]"

function kata_loop :: "mem \<Rightarrow> nat \<Rightarrow> mem option" where
  "kata_loop m p = do {
     b0 \<leftarrow> rd m p;
     if b0 = 0 then Some m
     else if b0 AND 0x80 = 0 then kata_loop m (p + 1)
     else if b0 AND 0xE0 = 0xC0 then kata_loop m (p + 2)
     else if b0 AND 0xF0 = 0xE0 then do {
       b1 \<leftarrow> rd m (p + 1);
       b2 \<leftarrow> rd m (p + 2);
       (let cp = kata_cp b0 b1 b2
        in if cp \<ge> 0x3041 \<and> cp \<le> 0x3096
           then kata_loop (m[p := kata_bytes (cp + 0x60) ! 0,
                             p + 1 := kata_bytes (cp + 0x60) ! 1,
                             p + 2 := kata_bytes (cp + 0x60) ! 2]) (p + 3)
           else kata_loop m (p + 3)) }
     else kata_loop m (p + 4) }"
  by pat_completeness auto
termination
  by (relation "measure (\<lambda>(m, p). length m - p)") (auto simp: rd_Some_iff Let_def)

declare kata_loop.simps [simp del]

definition romaji__hira_to_kata :: "mem \<Rightarrow> mem option" where
  "romaji__hira_to_kata s = kata_loop s 0"

definition romaji_to_katakana :: "mem \<Rightarrow> mem \<Rightarrow> nat \<Rightarrow> (int \<times> mem) option" where
  "romaji_to_katakana src dst dst_size = do {
     (r, dst) \<leftarrow> romaji_to_kana src dst dst_size;
     if r < 0 then Some (-1, dst)
     else do {
       dst \<leftarrow> romaji__hira_to_kata dst;
       Some (r, dst) } }"

section \<open>Specification: the chunks of the output\<close>

text \<open>
  \<open>find_take s t\<close>: the longest of the first \<open>t\<close>, \<open>t - 1\<close>, \dots, 1 letters of \<open>s\<close> that is a
  key of the table, with its kana. \<open>next_chunk s\<close>: the bytes the next iteration appends and
  how many input bytes it consumes. \<open>kana_chunks s\<close>: the whole output, chunk by chunk.
\<close>

fun find_take :: "byte list \<Rightarrow> nat \<Rightarrow> (byte list \<times> nat) option" where
  "find_take s 0 = None"
| "find_take s (Suc t) =
     (if Suc t > length s then find_take s t
      else case map_of ROMAJI_TABLE (map lower (take (Suc t) s)) of
             Some kana \<Rightarrow> Some (kana, Suc t)
           | None \<Rightarrow> find_take s t)"

definition next_chunk :: "byte list \<Rightarrow> byte list \<times> nat" where
  "next_chunk s =
     (if \<not> no_double (lower (hd s)) \<and> 1 < length s \<and> lower (s ! 1) = lower (hd s)
      then (SMALL_TSU, 1)
      else case find_take s 3 of Some (kana, t) \<Rightarrow> (kana, t) | None \<Rightarrow> ([hd s], 1))"

lemma find_take_bounds: "find_take s t = Some (k, u) \<Longrightarrow> 0 < u \<and> u \<le> length s \<and> u \<le> t"
  by (induction t) (auto split: if_splits option.splits)

lemma next_chunk_bounds: "s \<noteq> [] \<Longrightarrow> 0 < snd (next_chunk s) \<and> snd (next_chunk s) \<le> length s"
  by (cases s) (auto simp: next_chunk_def split: option.splits dest: find_take_bounds)

function kana_chunks :: "byte list \<Rightarrow> byte list list" where
  "kana_chunks s =
     (if s = [] then []
      else fst (next_chunk s) # kana_chunks (drop (snd (next_chunk s)) s))"
  by pat_completeness auto
termination
  by (relation "measure length") (auto dest: next_chunk_bounds)

declare kana_chunks.simps [simp del]

lemma kana_chunks_Nil [simp]: "kana_chunks [] = []"
  by (simp add: kana_chunks.simps)

text \<open>
  \<open>kana_fit cap acc cs\<close>: appending the chunks \<open>cs\<close> to \<open>acc\<close> as long as they fit, with their
  terminator, into \<open>cap\<close> bytes; the flag tells whether all of them did.
\<close>

fun kana_fit :: "nat \<Rightarrow> byte list \<Rightarrow> byte list list \<Rightarrow> bool \<times> byte list" where
  "kana_fit cap acc [] = (True, acc)"
| "kana_fit cap acc (c # cs) =
     (if length acc + length c + 1 > cap then (False, acc) else kana_fit cap (acc @ c) cs)"

section \<open>The C code implements the specification\<close>

subsection \<open>Facts of the table\<close>

lemma table_keys:
  "list_all (\<lambda>(r, k). r \<noteq> [] \<and> length r \<le> 3 \<and> list_all (\<lambda>b. 97 \<le> b \<and> b \<le> 122) r) ROMAJI_TABLE"
  by (simp add: ROMAJI_TABLE_def)

lemma table_kana:
  "list_all (\<lambda>(r, k). k \<noteq> [] \<and> list_all (\<lambda>b. b \<noteq> 0) k \<and> length k \<le> 3 * length r) ROMAJI_TABLE"
  by (simp add: ROMAJI_TABLE_def)

lemma table_key_nonzero: "(r, k) \<in> set ROMAJI_TABLE \<Longrightarrow> 0 \<notin> set r"
  using table_keys by (fastforce simp: list_all_iff)

lemma table_kana_props:
  "(r, k) \<in> set ROMAJI_TABLE \<Longrightarrow> 0 \<notin> set k \<and> k \<noteq> [] \<and> length k \<le> 3 * length r"
  using table_kana by (fastforce simp: list_all_iff)

lemma small_tsu_nonzero: "0 \<notin> set SMALL_TSU"
  by (simp add: SMALL_TSU_def)

subsection \<open>Reading the input\<close>

lemma uint_byte_range: "0 \<le> uint (b :: byte)" "uint (b :: byte) < 256"
  using uint_lt2p [of b] by auto

lemma lower_nonzero: "b \<noteq> 0 \<Longrightarrow> lower b \<noteq> 0"
proof -
  assume "b \<noteq> 0"
  then have "0 < uint b" using uint_byte_range(1) [of b] by (simp add: order_less_le uint_0_iff)
  then have "0 < tolower (uint b)" "tolower (uint b) < 256"
    using uint_byte_range(2) [of b] by (auto simp: tolower_def)
  then have "uint (lower b) = tolower (uint b)"
    by (simp add: lower_def uint_word_of_int_eq take_bit_int_eq_self)
  with \<open>0 < tolower (uint b)\<close> show ?thesis by (auto simp: uint_0_iff)
qed

lemma lower_list_nonzero: "0 \<notin> set x \<Longrightarrow> 0 \<notin> set (map lower x)"
  by (induction x) (auto dest: lower_nonzero)

lemma fill_buf_eq:
  "i + k + left \<le> length src \<Longrightarrow> k + left \<le> length buf \<Longrightarrow>
   fill_buf src i k left buf = Some (blit buf k (map lower (take left (drop (i + k) src))))"
proof (induction left arbitrary: k buf)
  case 0
  then show ?case by simp
next
  case (Suc left)
  have "take (Suc left) (drop (i + k) src) = src ! (i + k) # take left (drop (Suc (i + k)) src)"
    using Suc.prems by (simp add: Cons_nth_drop_Suc [symmetric])
  then show ?case
    using Suc.prems Suc.IH [of "k + 1" "buf[k := lower (src ! (i + k))]"]
    by (simp add: blit_Cons)
qed

lemma fill_buf_cstr:
  assumes "0 \<notin> set x" and "take t (drop i src) = x" and "length x = t" and "t \<le> 3"
  shows "\<exists>buf. fill_buf src i 0 t [0, 0, 0, 0] = Some buf \<and> cstr buf 0 (map lower x)"
proof -
  have "i + t \<le> length src \<or> t = 0" using assms(2,3) by auto
  then have "fill_buf src i 0 t [0, 0, 0, 0] = Some (blit [0, 0, 0, 0] 0 (map lower x))"
    using fill_buf_eq [of i 0 t src "[0, 0, 0, 0]"] assms by auto
  moreover have "blit [0, 0, 0, 0] 0 (map lower x) = map lower x @ replicate (4 - t) 0"
  proof -
    have "[0, 0, 0, 0] = replicate 4 (0 :: byte)" by (simp add: numeral_eq_Suc)
    then show ?thesis using assms(3,4) by (simp add: blit_0)
  qed
  moreover have "cstr (map lower x @ replicate (4 - t) 0) 0 (map lower x)"
  proof (rule cstrI_drop)
    show "drop 0 (map lower x @ replicate (4 - t) 0) = map lower x @ 0 # replicate (3 - t) 0"
      using assms(4) by (simp add: replicate_Suc [symmetric] Suc_diff_le del: replicate_Suc)
  qed (use assms(1) lower_list_nonzero in blast)
  ultimately show ?thesis by auto
qed

lemma table_find_eq:
  "cstr buf 0 x \<Longrightarrow> \<forall>(r, k) \<in> set tab. 0 \<notin> set r \<Longrightarrow> table_find tab buf = Some (map_of tab x)"
proof (induction tab)
  case Nil
  then show ?case by simp
next
  case (Cons e tab)
  obtain r k where e: "e = (r, k)" by (cases e)
  have "cstr (r @ [0]) 0 r" using Cons.prems e by (intro cstr_of_list) auto
  then obtain d where "strcmp buf 0 (r @ [0]) 0 = Some d" "d = 0 \<longleftrightarrow> x = r"
    using strcmp_cstr [OF Cons.prems(1)] by blast
  then show ?case using Cons e by auto
qed

lemma table_find_ROMAJI: "cstr buf 0 x \<Longrightarrow> table_find ROMAJI_TABLE buf = Some (map_of ROMAJI_TABLE x)"
  by (rule table_find_eq) (auto dest: table_key_nonzero)

lemma romaji__append_eq:
  assumes "0 \<notin> set k" and "dsz \<le> length dst"
  shows "romaji__append dst dsz pos (k @ [0]) =
    Some (if pos + length k + 1 > dsz then (-1, dst, pos)
          else (0, blit dst pos (k @ [0]), pos + length k))"
proof -
  have "strlen (k @ [0]) 0 = Some (length k)"
    using assms(1) by (intro strlen_cstr cstr_of_list)
  moreover have "blit (blit dst pos k) (pos + length k) [0] = blit dst pos (k @ [0])"
    if "pos + length k + 1 \<le> dsz"
    using that assms(2) by (intro blit_append) simp
  ultimately show ?thesis
    using assms(2) by (auto simp: romaji__append_def memcpy_eq blit_single)
qed

subsection \<open>One iteration\<close>

lemma map_of_table_props:
  "map_of ROMAJI_TABLE x = Some k \<Longrightarrow> 0 \<notin> set k \<and> k \<noteq> [] \<and> length k \<le> 3 * length x"
  by (blast dest: map_of_SomeD table_kana_props)

text \<open>How the loop over \<open>take\<close> follows \<open>find_take\<close> on the rest of the input.\<close>

definition take_outcome :: "nat \<Rightarrow> mem \<Rightarrow> nat \<Rightarrow> nat \<Rightarrow> (byte list \<times> nat) option \<Rightarrow> take_result" where
  "take_outcome dsz dst pos i hit =
     (case hit of
        None \<Rightarrow> Unmatched
      | Some (k, t) \<Rightarrow> if pos + length k + 1 > dsz then Too_Small
                      else Matched (blit dst pos (k @ [0])) (pos + length k) (i + t))"

lemma take_loop_eq:
  assumes "cstr src 0 s" and "dsz \<le> length dst" and "i \<le> length s" and "t \<le> 3"
  shows "take_loop src (length s) i t dst dsz pos =
    Some (take_outcome dsz dst pos i (find_take (drop i s) t))"
  using assms(4)
proof (induction t)
  case 0
  show ?case by (simp add: take_outcome_def)
next
  case (Suc t)
  show ?case
  proof (cases "i + Suc t > length s")
    case True
    then have "length (drop i s) < Suc t" by simp
    then show ?thesis using Suc True by simp
  next
    case False
    then have len: "\<not> Suc t > length (drop i s)" by simp
    obtain r where r: "drop 0 src = s @ 0 # r" using assms(1) cstr_drop by blast
    define x where "x = take (Suc t) (drop i s)"
    have x: "take (Suc t) (drop i src) = x" "length x = Suc t"
      using False r by (auto simp: x_def)
    have "0 \<notin> set x"
      using cstr_nonzero [OF assms(1)] by (auto simp: x_def dest: in_set_takeD in_set_dropD)
    then obtain buf where buf: "fill_buf src i 0 (Suc t) [0, 0, 0, 0] = Some buf"
        "cstr buf 0 (map lower x)"
      using fill_buf_cstr [OF _ x] Suc.prems by blast
    note hit = table_find_ROMAJI [OF buf(2)]
    show ?thesis
    proof (cases "map_of ROMAJI_TABLE (map lower x)")
      case None
      then show ?thesis
        using Suc False len buf hit by (simp add: x_def del: fill_buf.simps length_drop)
    next
      case (Some k)
      then have "0 \<notin> set k" using map_of_table_props by blast
      then show ?thesis
        using False len Some buf(1) hit romaji__append_eq [OF _ assms(2)]
        by (simp add: x_def take_outcome_def del: fill_buf.simps length_drop)
    qed
  qed
qed

lemma next_chunk_nonzero:
  "0 \<notin> set s \<Longrightarrow> s \<noteq> [] \<Longrightarrow> 0 \<notin> set (fst (next_chunk s))"
proof -
  have "find_take s t = Some (k, u) \<Longrightarrow> 0 \<notin> set k" for t k u
    by (induction t) (auto split: if_splits option.splits dest: map_of_table_props)
  then show "0 \<notin> set s \<Longrightarrow> s \<noteq> [] \<Longrightarrow> 0 \<notin> set (fst (next_chunk s))"
    using small_tsu_nonzero by (cases s) (auto simp: next_chunk_def split: option.splits)
qed

text \<open>One iteration of the main loop appends the next chunk, or returns -1.\<close>

lemma kana_loop_step:
  assumes c: "cstr src 0 s" and d: "dsz \<le> length dst" and i: "i < length s"
    and ch: "next_chunk (drop i s) = (k, t)"
  shows "kana_loop src (length s) dst dsz pos i =
    (if pos + length k + 1 > dsz then Some (-1, dst)
     else kana_loop src (length s) (blit dst pos (k @ [0])) dsz (pos + length k) (i + t))"
proof -
  have src: "rd src j = Some (s ! j)" if "j < length s" for j
    using cstr_nth [OF c that] cstr_bounds [OF c] that by simp
  have hd: "hd (drop i s) = s ! i" and nth1: "1 < length (drop i s) \<Longrightarrow> drop i s ! 1 = s ! (i + 1)"
    using i by (auto simp: hd_drop_conv_nth nth_drop)
  have k0: "0 \<notin> set k"
    using next_chunk_nonzero [of "drop i s"] cstr_nonzero [OF c] i ch
    by (auto dest: in_set_dropD)
  note app = romaji__append_eq [OF k0 d]
  show ?thesis
  proof (cases "\<not> no_double (lower (s ! i)) \<and> i + 1 < length s \<and> lower (s ! (i + 1)) = lower (s ! i)")
    case True
    then have "k = SMALL_TSU" "t = 1"
      using ch hd nth1 i by (auto simp: next_chunk_def split: if_splits)
    then show ?thesis
      using True i app src by (subst kana_loop.simps) (auto simp del: append_Cons)
  next
    case False
    have nd: "next_chunk (drop i s) =
        (case find_take (drop i s) 3 of Some (kana, u) \<Rightarrow> (kana, u) | None \<Rightarrow> ([s ! i], 1))"
      using False nth1 unfolding next_chunk_def hd by auto
    have tl: "take_loop src (length s) i 3 dst dsz pos =
        Some (take_outcome dsz dst pos i (find_take (drop i s) 3))"
      using take_loop_eq [OF c d] i by simp
    have unfold: "kana_loop src (length s) dst dsz pos i =
      (case take_outcome dsz dst pos i (find_take (drop i s) 3) of
            Too_Small \<Rightarrow> Some (-1, dst)
          | Matched dst' pos' i' \<Rightarrow> kana_loop src (length s) dst' dsz pos' i'
          | Unmatched \<Rightarrow> do {
              (r, dst', pos') \<leftarrow> romaji__append dst dsz pos [s ! i, 0];
              if r < 0 then Some (-1, dst')
              else kana_loop src (length s) dst' dsz pos' (i + 1) })"
      using False i src tl by (subst kana_loop.simps) auto
    show ?thesis
      using unfold nd ch app by (auto simp: take_outcome_def split: option.splits)
  qed
qed

lemma kana_loop_eq:
  assumes "cstr src 0 s" and "dsz \<le> length dst0" and "i \<le> length s" and "length acc + 1 \<le> dsz"
  shows "kana_loop src (length s) (blit dst0 0 (acc @ [0])) dsz (length acc) i =
    (case kana_fit dsz acc (kana_chunks (drop i s)) of (ok, out) \<Rightarrow>
       Some (if ok then int_of_size (length out) else -1, blit dst0 0 (out @ [0])))"
  using assms(3,4)
proof (induction "length s - i" arbitrary: i acc rule: less_induct)
  case less
  show ?case
  proof (cases "i = length s")
    case True
    then show ?thesis by (subst kana_loop.simps) simp
  next
    case False
    with less.prems have i: "i < length s" by simp
    obtain k t where ch: "next_chunk (drop i s) = (k, t)" by force
    have t: "0 < t" "i + t \<le> length s"
      using next_chunk_bounds [of "drop i s"] ch i by auto
    have chunks: "kana_chunks (drop i s) = k # kana_chunks (drop (i + t) s)"
      using i ch by (subst kana_chunks.simps) (simp add: add.commute)
    have "dsz \<le> length (blit dst0 0 (acc @ [0]))" using assms(2) less.prems by simp
    note step = kana_loop_step [OF assms(1) this i ch]
    show ?thesis
    proof (cases "length acc + length k + 1 > dsz")
      case True
      then show ?thesis using step chunks by simp
    next
      case fits: False
      have "blit (blit dst0 0 (acc @ [0])) (length acc) (k @ [0]) = blit dst0 0 ((acc @ k) @ [0])"
        using fits assms(2) by (simp add: blit_def add.commute)
      then show ?thesis
        using less.hyps [of "i + t" "acc @ k"] step fits chunks t i by (simp add: add.assoc)
    qed
  qed
qed

lemma romaji_to_kana_eq:
  assumes "cstr src 0 s" and "0 < dsz" and "dsz \<le> length dst"
  shows "romaji_to_kana src dst dsz =
    (case kana_fit dsz [] (kana_chunks s) of (ok, out) \<Rightarrow>
       Some (if ok then int_of_size (length out) else -1, blit dst 0 (out @ [0])))"
proof -
  have "0 < length dst" using assms(2,3) by linarith
  then have "blit dst 0 ([] @ [0]) = dst[0 := 0]"
    by (simp only: append_Nil blit_single)
  then show ?thesis
    using kana_loop_eq [OF assms(1,3), of 0 "[]"] assms \<open>0 < length dst\<close>
    by (simp add: romaji_to_kana_def strlen_cstr del: length_greater_0_conv)
qed

end
