(* ===== verification/Utf8.thy ===== *)
theory Utf8
  imports Prelude
begin

text \<open>
  UTF-8 as the program scans it: the lead byte announces the length of a sequence. A string
  is well formed when every announced sequence is complete and its further bytes are
  continuation bytes. The dictionary's text routines are specified on such strings.
\<close>

definition utf8_len :: "byte \<Rightarrow> nat" where
  "utf8_len b =
     (if b AND 0x80 = 0 then 1
      else if b AND 0xE0 = 0xC0 then 2
      else if b AND 0xF0 = 0xE0 then 3
      else 4)"

definition cont :: "byte \<Rightarrow> bool" where
  "cont b \<longleftrightarrow> b AND 0xC0 = 0x80"

text \<open>A lead byte: not a continuation byte, and of the four-byte kind only the valid ones.\<close>

definition lead :: "byte \<Rightarrow> bool" where
  "lead b \<longleftrightarrow> b AND 0x80 = 0 \<or> b AND 0xE0 = 0xC0 \<or> b AND 0xF0 = 0xE0 \<or> b AND 0xF8 = 0xF0"

lemma utf8_len_pos: "0 < utf8_len b"
  by (simp add: utf8_len_def)

lemma utf8_len_le: "utf8_len b \<le> 4"
  by (simp add: utf8_len_def)

text \<open>One well-formed sequence.\<close>

definition utf8_seq :: "byte list \<Rightarrow> bool" where
  "utf8_seq q \<longleftrightarrow> q \<noteq> [] \<and> lead (hd q) \<and> length q = utf8_len (hd q) \<and> list_all cont (tl q)"

text \<open>
  Splitting a string at the lengths its lead bytes announce (the last piece may be short),
  and well-formedness of all pieces.
\<close>

function utf8_split :: "byte list \<Rightarrow> byte list list" where
  "utf8_split [] = []"
| "utf8_split (b # s) =
     take (utf8_len b) (b # s) # utf8_split (drop (utf8_len b) (b # s))"
  by pat_completeness auto
termination
  by (relation "measure length") (auto simp: utf8_len_pos)

declare utf8_split.simps(2) [simp del]

definition wf_utf8 :: "byte list \<Rightarrow> bool" where
  "wf_utf8 s \<longleftrightarrow> list_all utf8_seq (utf8_split s)"

lemma concat_utf8_split [simp]: "concat (utf8_split s) = s"
  by (induction s rule: utf8_split.induct) (simp_all add: utf8_split.simps(2))

lemma wf_utf8_Nil [simp]: "wf_utf8 []"
  by (simp add: wf_utf8_def)

lemma utf8_split_seq_append:
  assumes "utf8_seq q"
  shows "utf8_split (q @ s) = q # utf8_split s"
proof -
  obtain b r where q: "q = b # r" using assms by (cases q) (auto simp: utf8_seq_def)
  then have "utf8_len b = length q" using assms by (simp add: utf8_seq_def)
  then have "take (utf8_len b) (b # r @ s) = q" "drop (utf8_len b) (b # r @ s) = s"
    using q by simp_all
  then show ?thesis using q by (simp add: utf8_split.simps(2))
qed

lemma wf_utf8_seq_append [simp]: "utf8_seq q \<Longrightarrow> wf_utf8 (q @ s) \<longleftrightarrow> wf_utf8 s"
  by (simp add: wf_utf8_def utf8_split_seq_append)

lemma wf_utf8_concat: "list_all utf8_seq qs \<Longrightarrow> wf_utf8 (concat qs)"
  by (induction qs) simp_all

lemma utf8_split_concat: "list_all utf8_seq qs \<Longrightarrow> utf8_split (concat qs) = qs"
  by (induction qs) (simp_all add: utf8_split_seq_append)

lemma wf_utf8_append: "wf_utf8 s \<Longrightarrow> wf_utf8 t \<Longrightarrow> wf_utf8 (s @ t)"
proof -
  assume "wf_utf8 s" "wf_utf8 t"
  then have "wf_utf8 (concat (utf8_split s @ utf8_split t))"
    by (intro wf_utf8_concat) (simp add: wf_utf8_def)
  then show ?thesis by simp
qed

text \<open>The first sequence of a non-empty well-formed string.\<close>

lemma wf_utf8_cases:
  assumes "wf_utf8 s" and "s \<noteq> []"
  obtains q r where "s = q @ r" "utf8_seq q" "wf_utf8 r" "utf8_split s = q # utf8_split r"
proof -
  obtain b t where s: "s = b # t" using assms(2) by (cases s) auto
  let ?q = "take (utf8_len b) s" and ?r = "drop (utf8_len b) s"
  have "utf8_split s = ?q # utf8_split ?r" by (simp add: s utf8_split.simps(2))
  moreover from this assms(1) have "utf8_seq ?q" "wf_utf8 ?r" by (simp_all add: wf_utf8_def)
  ultimately show thesis using that [of ?q ?r] by simp
qed

lemma utf8_seq_length: "utf8_seq q \<Longrightarrow> 1 \<le> length q \<and> length q \<le> 4"
  using utf8_len_pos utf8_len_le by (auto simp: utf8_seq_def Suc_le_eq)

lemma utf8_seq_ascii: "b AND 0x80 = 0 \<Longrightarrow> utf8_seq [b]"
  by (simp add: utf8_seq_def lead_def utf8_len_def)

lemma wf_utf8_ascii: "list_all (\<lambda>b. b AND 0x80 = 0) s \<Longrightarrow> wf_utf8 s"
proof (induction s)
  case (Cons b s)
  then show ?case using wf_utf8_seq_append [of "[b]" s] by (simp add: utf8_seq_ascii)
qed simp

lemma cont_nonzero: "cont b \<Longrightarrow> b \<noteq> 0"
  by (auto simp: cont_def)

lemma cont_not_ascii: "cont b \<Longrightarrow> b AND 0x80 \<noteq> 0"
proof
  assume "cont b" "b AND 0x80 = 0"
  then have "(b AND 0xC0) AND 0x80 = 0x80" "(b AND 0x80) AND 0xC0 = 0" by (simp_all add: cont_def)
  then show False by (simp add: and.assoc and.commute [of "0x80"])
qed

end
