(* ===== verification/Katakana.thy ===== *)
theory Katakana
  imports Romaji Utf8
begin

text \<open>
  What \<open>romaji__hira_to_kata\<close> does to well-formed UTF-8: it decodes, shifts the code points
  of the hiragana block by 0x60 and encodes again, sequence by sequence, in place, without
  leaving the object; and what the hiragana conversion produces is well-formed UTF-8.
\<close>

section \<open>Code points\<close>

definition is_hiragana :: "32 word \<Rightarrow> bool" where
  "is_hiragana cp \<longleftrightarrow> 0x3041 \<le> cp \<and> cp \<le> 0x3096"

text \<open>The effect on one sequence, and on a string.\<close>

definition kata_seq :: "byte list \<Rightarrow> byte list" where
  "kata_seq q =
     (if length q = 3 \<and> is_hiragana (kata_cp (q ! 0) (q ! 1) (q ! 2))
      then kata_bytes (kata_cp (q ! 0) (q ! 1) (q ! 2) + 0x60) else q)"

definition kata_str :: "byte list \<Rightarrow> byte list" where
  "kata_str s = concat (map kata_seq (utf8_split s))"

lemma and_63: "x AND 0x3F = take_bit 6 x" for x :: "'a::len word"
  by (simp add: take_bit_eq_mask mask_eq_exp_minus_1)

lemma and_15: "x AND 0xF = take_bit 4 x" for x :: "'a::len word"
  by (simp add: take_bit_eq_mask mask_eq_exp_minus_1)

lemma take_bit_16: "k < 0x10000 \<Longrightarrow> take_bit 16 k = k" for k :: "32 word"
  by (simp add: take_bit_eq_mod unat_arith_simps mod_less)

lemma less_8_iff: "n < 8 \<longleftrightarrow> n \<in> {0, 1, 2, 3, 4, 5, 6, 7 :: nat}"
  by auto

lemma six_bits:
  "(ucast (0x80 OR (x AND 0x3F)) :: byte) AND 0x3F = ucast (take_bit 6 x)"
  "(ucast (0x80 OR (x AND 0x3F)) :: byte) AND 0xC0 = 0x80" for x :: "32 word"
  unfolding and_63 [symmetric]
  by (intro bit_word_eqI; auto simp: bit_simps less_8_iff)+

lemma four_bits:
  "(ucast (0xE0 OR drop_bit 12 k) :: byte) AND 0x0F = ucast (take_bit 4 (drop_bit 12 k))"
  for k :: "32 word"
  unfolding and_15 [symmetric]
  by (intro bit_word_eqI) (auto simp: bit_simps less_8_iff)

lemma recombine:
  "push_bit 12 (ucast (ucast (take_bit 4 (drop_bit 12 k)) :: byte))
   OR push_bit 6 (ucast (ucast (take_bit 6 (drop_bit 6 k)) :: byte))
   OR ucast (ucast (take_bit 6 k) :: byte) = take_bit 16 k" for k :: "32 word"
proof (rule bit_word_eqI, goal_cases)
  case (1 n)
  then show ?case by (cases "n < 6"; cases "n < 12") (auto simp: bit_simps)
qed

lemma lead_bits:
  "(ucast (0xE0 OR take_bit 4 x) :: byte) AND 0xF0 = 0xE0"
  "(ucast (0xE0 OR take_bit 4 x) :: byte) AND 0xE0 = 0xE0"
  "(ucast (0xE0 OR take_bit 4 x) :: byte) AND 0x80 = 0x80" for x :: "32 word"
  by (intro bit_word_eqI; auto simp: bit_simps less_8_iff)+

text \<open>Encoding and decoding are inverse on code points below 0x10000.\<close>

lemma kata_cp_bytes:
  assumes "k < 0x10000"
  shows "kata_cp (kata_bytes k ! 0) (kata_bytes k ! 1) (kata_bytes k ! 2) = k"
  using recombine [of k] take_bit_16 [OF assms]
  by (simp add: kata_cp_def kata_bytes_def six_bits four_bits)

lemma length_kata_bytes [simp]: "length (kata_bytes k) = 3"
  by (simp add: kata_bytes_def)

lemma kata_bytes_seq: "k < 0x10000 \<Longrightarrow> utf8_seq (kata_bytes k)"
proof -
  assume "k < 0x10000"
  then have "drop_bit 12 k < 16"
    by (simp add: drop_bit_eq_div word_less_nat_alt unat_div less_mult_imp_div_less)
  then have t: "drop_bit 12 k = take_bit 4 (drop_bit 12 k)"
    by (simp add: take_bit_eq_mod unat_arith_simps mod_less)
  have "lead (kata_bytes k ! 0)" "utf8_len (kata_bytes k ! 0) = 3"
    using lead_bits [of "drop_bit 12 k"] t [symmetric]
    by (simp_all add: kata_bytes_def lead_def utf8_len_def)
  then show ?thesis
    by (simp add: utf8_seq_def kata_bytes_def cont_def six_bits)
qed

text \<open>The katakana of a hiragana code point.\<close>

lemma hiragana_shift_bound: "is_hiragana cp \<Longrightarrow> cp + 0x60 < 0x10000"
  by (simp add: is_hiragana_def unat_arith_simps)

lemma hiragana_shift_not_hiragana: "is_hiragana cp \<Longrightarrow> \<not> is_hiragana (cp + 0x60)"
  by (simp add: is_hiragana_def unat_arith_simps)

lemma length_kata_seq [simp]: "length (kata_seq q) = length q"
  by (simp add: kata_seq_def)

lemma kata_seq_wf: "utf8_seq q \<Longrightarrow> utf8_seq (kata_seq q)"
  by (simp add: kata_seq_def kata_bytes_seq hiragana_shift_bound)

lemma kata_seq_idem: "kata_seq (kata_seq q) = kata_seq q"
proof (cases "length q = 3 \<and> is_hiragana (kata_cp (q ! 0) (q ! 1) (q ! 2))")
  case True
  let ?k = "kata_cp (q ! 0) (q ! 1) (q ! 2) + 0x60"
  have "kata_cp (kata_bytes ?k ! 0) (kata_bytes ?k ! 1) (kata_bytes ?k ! 2) = ?k"
    using True by (intro kata_cp_bytes hiragana_shift_bound) simp
  then show ?thesis
    using True hiragana_shift_not_hiragana [of "kata_cp (q ! 0) (q ! 1) (q ! 2)"]
    by (simp add: kata_seq_def)
next
  case False
  then have "kata_seq q = q" by (auto simp: kata_seq_def)
  then show ?thesis by simp
qed

lemma kata_str_Nil [simp]: "kata_str [] = []"
  by (simp add: kata_str_def)

lemma length_kata_str [simp]: "length (kata_str s) = length s"
proof -
  have "length (concat (map kata_seq qs)) = length (concat qs)" for qs
    by (induction qs) simp_all
  then show ?thesis by (simp add: kata_str_def)
qed

lemma utf8_split_kata_str: "wf_utf8 s \<Longrightarrow> utf8_split (kata_str s) = map kata_seq (utf8_split s)"
  by (simp add: kata_str_def wf_utf8_def utf8_split_concat list_all_iff kata_seq_wf)

lemma kata_str_wf: "wf_utf8 s \<Longrightarrow> wf_utf8 (kata_str s)"
  by (simp add: wf_utf8_def utf8_split_kata_str list_all_iff kata_seq_wf)

lemma kata_str_idem: "wf_utf8 s \<Longrightarrow> kata_str (kata_str s) = kata_str s"
  by (simp add: kata_str_def [of "kata_str s"] utf8_split_kata_str kata_seq_idem comp_def)
     (simp add: kata_str_def)

section \<open>The loop in memory\<close>

lemma kata_bytes_blit:
  "p + 3 \<le> length m \<Longrightarrow>
   m[p := kata_bytes k ! 0, p + 1 := kata_bytes k ! 1, p + 2 := kata_bytes k ! 2]
     = blit m p (kata_bytes k)"
  by (simp add: blit_3 [symmetric] kata_bytes_def)

text \<open>One iteration handles one sequence.\<close>

lemma kata_loop_step:
  assumes q: "utf8_seq q" "hd q \<noteq> 0" and m: "take (length q) (drop p m) = q"
  shows "kata_loop m p = kata_loop (blit m p (kata_seq q)) (p + length q)"
proof -
  have le: "p + length q \<le> length m"
    using m q(1) by (cases "p < length m") (auto simp: utf8_seq_def dest: arg_cong [of _ _ length])
  have nth: "m ! (p + i) = q ! i" if "i < length q" for i
  proof -
    have "drop p m ! i = q ! i" using m that by (metis nth_take)
    then show ?thesis using le that by (simp add: nth_drop)
  qed
  have ne: "q \<noteq> []" using q(1) by (simp add: utf8_seq_def)
  have "p < length m" using le ne by (cases q) auto
  then have b0: "rd m p = Some (hd q)" using ne nth [of 0] by (simp add: hd_conv_nth)
  have same: "blit m p q = m" using m by (rule blit_same)
  consider (1) "length q = 1" "hd q AND 0x80 = 0"
    | (2) "length q = 2" "hd q AND 0x80 \<noteq> 0" "hd q AND 0xE0 = 0xC0"
    | (3) "length q = 3" "hd q AND 0x80 \<noteq> 0" "hd q AND 0xE0 \<noteq> 0xC0" "hd q AND 0xF0 = 0xE0"
    | (4) "length q = 4" "hd q AND 0x80 \<noteq> 0" "hd q AND 0xE0 \<noteq> 0xC0" "hd q AND 0xF0 \<noteq> 0xE0"
    using q(1) by (auto simp: utf8_seq_def utf8_len_def split: if_splits)
  then show ?thesis
  proof cases
    case 3
    have r: "rd m (p + 1) = Some (q ! 1)" "rd m (p + 2) = Some (q ! 2)" "hd q = q ! 0"
      using le 3 ne nth [of 1] nth [of 2] by (auto simp: hd_conv_nth)
    show ?thesis
      using b0 q(2) 3 r le same
      by (subst kata_loop.simps)
         (simp add: Let_def kata_seq_def is_hiragana_def kata_bytes_blit
           del: One_nat_def add_2_eq_Suc')
  qed (use b0 q(2) same in \<open>subst kata_loop.simps, simp add: kata_seq_def\<close>)+
qed

lemma kata_loop_eq:
  "cstr m p s \<Longrightarrow> wf_utf8 s \<Longrightarrow> kata_loop m p = Some (blit m p (kata_str s))"
proof (induction "length s" arbitrary: m p s rule: less_induct)
  case less
  show ?case
  proof (cases "s = []")
    case True
    then have "rd m p = Some 0" using less.prems cstr_nth_end cstr_bounds by fastforce
    then show ?thesis using True by (subst kata_loop.simps) simp
  next
    case False
    then obtain q r where s: "s = q @ r" "utf8_seq q" "wf_utf8 r" "utf8_split s = q # utf8_split r"
      using wf_utf8_cases less.prems(2) by blast
    obtain t where t: "drop p m = q @ r @ 0 # t" using less.prems(1) s(1) cstr_drop by fastforce
    have ne: "q \<noteq> []" using s(2) by (simp add: utf8_seq_def)
    then have q0: "hd q \<noteq> 0" using cstr_nonzero [OF less.prems(1)] s(1) by (cases q) auto
    define m' where "m' = blit m p (kata_seq q)"
    have len: "p + length s < length m" using less.prems(1) by (rule cstr_bounds)
    have "drop (p + length q) m' = drop (p + length q) m"
      using len s(1) by (simp add: m'_def drop_blit_after)
    also have "\<dots> = drop (length q) (drop p m)" by (simp add: add.commute)
    also have "\<dots> = r @ 0 # t" by (simp add: t)
    finally have "cstr m' (p + length q) r"
      using less.prems(1) s(1) by (intro cstrI_drop) (auto simp: cstr_def)
    then have "kata_loop m' (p + length q) = Some (blit m' (p + length q) (kata_str r))"
      using less.hyps [of r] ne s by simp
    moreover have "blit m' (p + length q) (kata_str r) = blit m p (kata_seq q @ kata_str r)"
      using blit_append [of p "kata_seq q" "kata_str r" m] len s(1) by (simp add: m'_def)
    moreover have "kata_seq q @ kata_str r = kata_str s"
      using s(4) by (simp add: kata_str_def)
    ultimately show ?thesis
      using kata_loop_step [OF s(2) q0, of p m] t by (simp add: m'_def)
  qed
qed

lemma romaji__hira_to_kata_eq:
  "cstr m 0 s \<Longrightarrow> wf_utf8 s \<Longrightarrow> romaji__hira_to_kata m = Some (blit m 0 (kata_str s))"
  by (simp add: romaji__hira_to_kata_def kata_loop_eq)

lemma wf_utf8_nonzero_kata: "0 \<notin> set s \<Longrightarrow> wf_utf8 s \<Longrightarrow> 0 \<notin> set (kata_str s)"
proof -
  assume nz: "0 \<notin> set s" and wf: "wf_utf8 s"
  have "0 \<notin> set (kata_seq q)" if "q \<in> set (utf8_split s)" for q
  proof -
    have "utf8_seq q" "set q \<subseteq> set s"
      using wf that concat_utf8_split [of s] set_concat [of "utf8_split s"]
      by (auto simp: wf_utf8_def list_all_iff)
    then have "0 \<notin> set q" using nz by blast
    moreover have "0 \<notin> set (kata_bytes k)" if "k < 0x10000" for k
    proof -
      have "utf8_seq (kata_bytes k)" using that by (rule kata_bytes_seq)
      then have "list_all cont (tl (kata_bytes k))" "hd (kata_bytes k) \<noteq> 0"
        by (auto simp: utf8_seq_def utf8_len_def)
      then show ?thesis by (auto simp: kata_bytes_def cont_nonzero)
    qed
    ultimately show ?thesis by (auto simp: kata_seq_def dest: hiragana_shift_bound)
  qed
  then show ?thesis by (auto simp: kata_str_def)
qed

lemma cstr_hira_to_kata:
  assumes "cstr m 0 s" and "wf_utf8 s"
  shows "cstr (blit m 0 (kata_str s)) 0 (kata_str s)"
proof -
  obtain r where r: "m = s @ 0 # r" using cstr_drop [OF assms(1)] by auto
  then have "blit m 0 (kata_str s) = kata_str s @ 0 # r" by (simp add: blit_0)
  then show ?thesis
    using wf_utf8_nonzero_kata [OF cstr_nonzero [OF assms(1)] assms(2)]
    by (intro cstrI_drop) simp_all
qed

section \<open>The output of the hiragana conversion\<close>

subsection \<open>What fits into the buffer\<close>

lemma kana_fit_split:
  assumes "kana_fit cap acc cs = (ok, out)" and "length acc < cap"
  shows "\<exists>cs1 cs2. cs = cs1 @ cs2 \<and> out = acc @ concat cs1 \<and> ok = (cs2 = []) \<and> length out < cap
     \<and> (cs2 \<noteq> [] \<longrightarrow> cap \<le> length out + length (hd cs2))"
  using assms
proof (induction cs arbitrary: acc)
  case Nil
  then show ?case by simp
next
  case (Cons c cs)
  show ?case
  proof (cases "length acc + length c + 1 > cap")
    case True
    then show ?thesis using Cons.prems by (intro exI [of _ "[]"] exI [of _ "c # cs"]) auto
  next
    case False
    then obtain cs1 cs2 where "cs = cs1 @ cs2" "out = (acc @ c) @ concat cs1" "ok = (cs2 = [])"
        "length out < cap" "cs2 \<noteq> [] \<longrightarrow> cap \<le> length out + length (hd cs2)"
      using Cons.IH [of "acc @ c"] Cons.prems by force
    then show ?thesis by (intro exI [of _ "c # cs1"] exI [of _ cs2]) simp
  qed
qed

lemma kana_fit_all:
  "length (acc @ concat cs) < cap \<Longrightarrow> kana_fit cap acc cs = (True, acc @ concat cs)"
  by (induction cs arbitrary: acc) simp_all

subsection \<open>Three output bytes per input byte at most\<close>

lemma find_take_length: "find_take s t = Some (k, u) \<Longrightarrow> length k \<le> 3 * u"
proof (induction t)
  case (Suc t)
  show ?case
  proof (cases "Suc t > length s")
    case False
    then have "length (map lower (take (Suc t) s)) = Suc t" by simp
    then show ?thesis
      using Suc False map_of_table_props [of "map lower (take (Suc t) s)"]
      by (auto split: option.splits)
  qed (use Suc in simp)
qed simp

lemma next_chunk_length: "length (fst (next_chunk s)) \<le> 3 * snd (next_chunk s)"
  by (auto simp: next_chunk_def SMALL_TSU_def dest: find_take_length split: option.splits)

lemma kana_chunks_length: "length (concat (kana_chunks s)) \<le> 3 * length s"
proof (induction s rule: kana_chunks.induct)
  case (1 s)
  show ?case
  proof (cases "s = []")
    case False
    have "length (concat (kana_chunks s))
        \<le> 3 * snd (next_chunk s) + 3 * (length s - snd (next_chunk s))"
      using "1.IH" [OF False] next_chunk_length [of s] False
      by (subst kana_chunks.simps) simp
    then show ?thesis using next_chunk_bounds [OF False] by linarith
  qed simp
qed

lemma kana_chunks_nonzero: "0 \<notin> set s \<Longrightarrow> \<forall>c \<in> set (kana_chunks s). 0 \<notin> set c"
proof (induction s rule: kana_chunks.induct)
  case (1 s)
  show ?case
  proof (cases "s = []")
    case False
    then show ?thesis
      using "1.IH" [OF False] "1.prems" next_chunk_nonzero [of s]
      by (subst kana_chunks.simps) (auto dest: in_set_dropD)
  qed simp
qed

subsection \<open>Well-formed UTF-8\<close>

definition ascii :: "byte \<Rightarrow> bool" where
  "ascii b \<longleftrightarrow> b AND 0x80 = 0"

lemma table_kana_wf: "list_all (\<lambda>(r, k). wf_utf8 k) ROMAJI_TABLE"
  by code_simp

lemma small_tsu_wf: "wf_utf8 SMALL_TSU"
  by code_simp

lemma find_take_wf: "find_take s t = Some (k, u) \<Longrightarrow> wf_utf8 k"
  using table_kana_wf
  by (induction t) (auto simp: list_all_iff split: if_splits option.splits dest!: map_of_SomeD)

lemma next_chunk_wf: "list_all ascii s \<Longrightarrow> s \<noteq> [] \<Longrightarrow> wf_utf8 (fst (next_chunk s))"
  by (cases s)
     (auto simp: next_chunk_def small_tsu_wf ascii_def wf_utf8_ascii split: option.splits
       dest: find_take_wf)

lemma kana_chunks_wf: "list_all ascii s \<Longrightarrow> \<forall>c \<in> set (kana_chunks s). wf_utf8 c"
proof (induction s rule: kana_chunks.induct)
  case (1 s)
  show ?case
  proof (cases "s = []")
    case False
    have "list_all ascii (drop (snd (next_chunk s)) s)"
      using "1.prems" by (auto simp: list_all_iff dest: in_set_dropD)
    then show ?thesis
      using "1.IH" [OF False] "1.prems" next_chunk_wf [of s] False
      by (subst kana_chunks.simps) auto
  qed simp
qed

lemma wf_utf8_concat_wf: "\<forall>c \<in> set cs. wf_utf8 c \<Longrightarrow> wf_utf8 (concat cs)"
  by (induction cs) (simp_all add: wf_utf8_append)

end
