(* ===== verification/RomajiRust.thy ===== *)
theory RomajiRust
  imports Katakana
begin

text \<open>
  \<open>apps/graphics/lvgl/rust/romaji.rs\<close>: the Rust version of the converter, the one the
  simulator image links. Slices are byte lists, an index out of range panics (\<open>None\<close>), a
  \<open>Result<T, ()>\<close> is an inner option (\<open>Err(())\<close> is its \<open>None\<close>). The lemmas prove that it computes what the C version computes.
\<close>

section \<open>The table\<close>

definition TABLE :: "(byte list \<times> byte list) list" where
  "TABLE = [
    (lit ''kya'', [0xE3, 0x81, 0x8D, 0xE3, 0x82, 0x83]),
    (lit ''kyu'', [0xE3, 0x81, 0x8D, 0xE3, 0x82, 0x85]),
    (lit ''kyo'', [0xE3, 0x81, 0x8D, 0xE3, 0x82, 0x87]),
    (lit ''sha'', [0xE3, 0x81, 0x97, 0xE3, 0x82, 0x83]),
    (lit ''shu'', [0xE3, 0x81, 0x97, 0xE3, 0x82, 0x85]),
    (lit ''sho'', [0xE3, 0x81, 0x97, 0xE3, 0x82, 0x87]),
    (lit ''sya'', [0xE3, 0x81, 0x97, 0xE3, 0x82, 0x83]),
    (lit ''syu'', [0xE3, 0x81, 0x97, 0xE3, 0x82, 0x85]),
    (lit ''cha'', [0xE3, 0x81, 0xA1, 0xE3, 0x82, 0x83]),
    (lit ''chu'', [0xE3, 0x81, 0xA1, 0xE3, 0x82, 0x85]),
    (lit ''cho'', [0xE3, 0x81, 0xA1, 0xE3, 0x82, 0x87]),
    (lit ''tya'', [0xE3, 0x81, 0xA1, 0xE3, 0x82, 0x83]),
    (lit ''tyu'', [0xE3, 0x81, 0xA1, 0xE3, 0x82, 0x85]),
    (lit ''nya'', [0xE3, 0x81, 0xAB, 0xE3, 0x82, 0x83]),
    (lit ''nyu'', [0xE3, 0x81, 0xAB, 0xE3, 0x82, 0x85]),
    (lit ''nyo'', [0xE3, 0x81, 0xAB, 0xE3, 0x82, 0x87]),
    (lit ''hya'', [0xE3, 0x81, 0xB2, 0xE3, 0x82, 0x83]),
    (lit ''hyu'', [0xE3, 0x81, 0xB2, 0xE3, 0x82, 0x85]),
    (lit ''hyo'', [0xE3, 0x81, 0xB2, 0xE3, 0x82, 0x87]),
    (lit ''mya'', [0xE3, 0x81, 0xBF, 0xE3, 0x82, 0x83]),
    (lit ''myu'', [0xE3, 0x81, 0xBF, 0xE3, 0x82, 0x85]),
    (lit ''myo'', [0xE3, 0x81, 0xBF, 0xE3, 0x82, 0x87]),
    (lit ''rya'', [0xE3, 0x82, 0x8A, 0xE3, 0x82, 0x83]),
    (lit ''ryu'', [0xE3, 0x82, 0x8A, 0xE3, 0x82, 0x85]),
    (lit ''ryo'', [0xE3, 0x82, 0x8A, 0xE3, 0x82, 0x87]),
    (lit ''gya'', [0xE3, 0x81, 0x8E, 0xE3, 0x82, 0x83]),
    (lit ''gyu'', [0xE3, 0x81, 0x8E, 0xE3, 0x82, 0x85]),
    (lit ''gyo'', [0xE3, 0x81, 0x8E, 0xE3, 0x82, 0x87]),
    (lit ''ja'', [0xE3, 0x81, 0x98, 0xE3, 0x82, 0x83]),
    (lit ''ju'', [0xE3, 0x81, 0x98, 0xE3, 0x82, 0x85]),
    (lit ''jo'', [0xE3, 0x81, 0x98, 0xE3, 0x82, 0x87]),
    (lit ''jya'', [0xE3, 0x81, 0x98, 0xE3, 0x82, 0x83]),
    (lit ''jyu'', [0xE3, 0x81, 0x98, 0xE3, 0x82, 0x85]),
    (lit ''jyo'', [0xE3, 0x81, 0x98, 0xE3, 0x82, 0x87]),
    (lit ''zya'', [0xE3, 0x81, 0x98, 0xE3, 0x82, 0x83]),
    (lit ''zyu'', [0xE3, 0x81, 0x98, 0xE3, 0x82, 0x85]),
    (lit ''bya'', [0xE3, 0x81, 0xB3, 0xE3, 0x82, 0x83]),
    (lit ''byu'', [0xE3, 0x81, 0xB3, 0xE3, 0x82, 0x85]),
    (lit ''byo'', [0xE3, 0x81, 0xB3, 0xE3, 0x82, 0x87]),
    (lit ''pya'', [0xE3, 0x81, 0xB4, 0xE3, 0x82, 0x83]),
    (lit ''pyu'', [0xE3, 0x81, 0xB4, 0xE3, 0x82, 0x85]),
    (lit ''pyo'', [0xE3, 0x81, 0xB4, 0xE3, 0x82, 0x87]),
    (lit ''shi'', [0xE3, 0x81, 0x97]),
    (lit ''chi'', [0xE3, 0x81, 0xA1]),
    (lit ''tsu'', [0xE3, 0x81, 0xA4]),
    (lit ''ka'', [0xE3, 0x81, 0x8B]),
    (lit ''ki'', [0xE3, 0x81, 0x8D]),
    (lit ''ku'', [0xE3, 0x81, 0x8F]),
    (lit ''ke'', [0xE3, 0x81, 0x91]),
    (lit ''ko'', [0xE3, 0x81, 0x93]),
    (lit ''sa'', [0xE3, 0x81, 0x95]),
    (lit ''si'', [0xE3, 0x81, 0x97]),
    (lit ''su'', [0xE3, 0x81, 0x99]),
    (lit ''se'', [0xE3, 0x81, 0x9B]),
    (lit ''so'', [0xE3, 0x81, 0x9D]),
    (lit ''ta'', [0xE3, 0x81, 0x9F]),
    (lit ''ti'', [0xE3, 0x81, 0xA1]),
    (lit ''tu'', [0xE3, 0x81, 0xA4]),
    (lit ''te'', [0xE3, 0x81, 0xA6]),
    (lit ''to'', [0xE3, 0x81, 0xA8]),
    (lit ''na'', [0xE3, 0x81, 0xAA]),
    (lit ''ni'', [0xE3, 0x81, 0xAB]),
    (lit ''nu'', [0xE3, 0x81, 0xAC]),
    (lit ''ne'', [0xE3, 0x81, 0xAD]),
    (lit ''no'', [0xE3, 0x81, 0xAE]),
    (lit ''ha'', [0xE3, 0x81, 0xAF]),
    (lit ''hi'', [0xE3, 0x81, 0xB2]),
    (lit ''fu'', [0xE3, 0x81, 0xB5]),
    (lit ''hu'', [0xE3, 0x81, 0xB5]),
    (lit ''he'', [0xE3, 0x81, 0xB8]),
    (lit ''ho'', [0xE3, 0x81, 0xBB]),
    (lit ''ma'', [0xE3, 0x81, 0xBE]),
    (lit ''mi'', [0xE3, 0x81, 0xBF]),
    (lit ''mu'', [0xE3, 0x82, 0x80]),
    (lit ''me'', [0xE3, 0x82, 0x81]),
    (lit ''mo'', [0xE3, 0x82, 0x82]),
    (lit ''ya'', [0xE3, 0x82, 0x84]),
    (lit ''yu'', [0xE3, 0x82, 0x86]),
    (lit ''yo'', [0xE3, 0x82, 0x88]),
    (lit ''ra'', [0xE3, 0x82, 0x89]),
    (lit ''ri'', [0xE3, 0x82, 0x8A]),
    (lit ''ru'', [0xE3, 0x82, 0x8B]),
    (lit ''re'', [0xE3, 0x82, 0x8C]),
    (lit ''ro'', [0xE3, 0x82, 0x8D]),
    (lit ''wa'', [0xE3, 0x82, 0x8F]),
    (lit ''wo'', [0xE3, 0x82, 0x92]),
    (lit ''ga'', [0xE3, 0x81, 0x8C]),
    (lit ''gi'', [0xE3, 0x81, 0x8E]),
    (lit ''gu'', [0xE3, 0x81, 0x90]),
    (lit ''ge'', [0xE3, 0x81, 0x92]),
    (lit ''go'', [0xE3, 0x81, 0x94]),
    (lit ''za'', [0xE3, 0x81, 0x96]),
    (lit ''zi'', [0xE3, 0x81, 0x98]),
    (lit ''ji'', [0xE3, 0x81, 0x98]),
    (lit ''zu'', [0xE3, 0x81, 0x9A]),
    (lit ''ze'', [0xE3, 0x81, 0x9C]),
    (lit ''zo'', [0xE3, 0x81, 0x9E]),
    (lit ''da'', [0xE3, 0x81, 0xA0]),
    (lit ''di'', [0xE3, 0x81, 0xA2]),
    (lit ''du'', [0xE3, 0x81, 0xA5]),
    (lit ''de'', [0xE3, 0x81, 0xA7]),
    (lit ''do'', [0xE3, 0x81, 0xA9]),
    (lit ''ba'', [0xE3, 0x81, 0xB0]),
    (lit ''bi'', [0xE3, 0x81, 0xB3]),
    (lit ''bu'', [0xE3, 0x81, 0xB6]),
    (lit ''be'', [0xE3, 0x81, 0xB9]),
    (lit ''bo'', [0xE3, 0x81, 0xBC]),
    (lit ''pa'', [0xE3, 0x81, 0xB1]),
    (lit ''pi'', [0xE3, 0x81, 0xB4]),
    (lit ''pu'', [0xE3, 0x81, 0xB7]),
    (lit ''pe'', [0xE3, 0x81, 0xBA]),
    (lit ''po'', [0xE3, 0x81, 0xBD]),
    (lit ''a'', [0xE3, 0x81, 0x82]),
    (lit ''i'', [0xE3, 0x81, 0x84]),
    (lit ''u'', [0xE3, 0x81, 0x86]),
    (lit ''e'', [0xE3, 0x81, 0x88]),
    (lit ''o'', [0xE3, 0x81, 0x8A]),
    (lit ''n'', [0xE3, 0x82, 0x93])]"

section \<open>The conversion\<close>

definition to_ascii_lowercase :: "byte \<Rightarrow> byte" where
  "to_ascii_lowercase b = (if 0x41 \<le> b \<and> b \<le> 0x5A then b OR 0x20 else b)"

text \<open>\<open>append\<close>: the outer option is a panic, the inner one the overflow error.\<close>

definition append_slice ::
  "mem \<Rightarrow> nat \<Rightarrow> byte list \<Rightarrow> (mem \<times> nat) option option" where
  "append_slice dst pos b =
     (if pos + length b + 1 > length dst then Some (None)
      else do {
        d \<leftarrow> wr (blit dst pos b) (pos + length b) 0;
        Some (Some (d, pos + length b)) })"

definition is_vowel_or_n :: "byte \<Rightarrow> bool" where
  "is_vowel_or_n c \<longleftrightarrow> c \<in> set (lit ''naiueo'')"

text \<open>\<open>core::str::from_utf8\<close> succeeds exactly on these byte sequences.\<close>

fun from_utf8_ok :: "byte list \<Rightarrow> bool" where
  "from_utf8_ok [] = True"
| "from_utf8_ok (b # s) =
     (if b \<le> 0x7F then from_utf8_ok s
      else case s of
        [] \<Rightarrow> False
      | c # t \<Rightarrow>
          if 0xC2 \<le> b \<and> b \<le> 0xDF then cont c \<and> from_utf8_ok t
          else case t of
            [] \<Rightarrow> False
          | d # u \<Rightarrow>
              if 0xE0 \<le> b \<and> b \<le> 0xEF
              then cont c \<and> cont d \<and> (b = 0xE0 \<longrightarrow> 0xA0 \<le> c) \<and> (b = 0xED \<longrightarrow> c \<le> 0x9F)
                   \<and> from_utf8_ok u
              else case u of
                [] \<Rightarrow> False
              | e # v \<Rightarrow>
                  0xF0 \<le> b \<and> b \<le> 0xF4 \<and> cont c \<and> cont d \<and> cont e
                  \<and> (b = 0xF0 \<longrightarrow> 0x90 \<le> c) \<and> (b = 0xF4 \<longrightarrow> c \<le> 0x8F) \<and> from_utf8_ok v)"

definition from_utf8_or_empty :: "byte list \<Rightarrow> byte list" where
  "from_utf8_or_empty k = (if from_utf8_ok k then k else [])"

text \<open>\<open>for take in (1..=3).rev()\<close> with the \<open>break\<close> on a match.\<close>

datatype rust_take = RNone | RErr | RHit mem nat nat

fun rust_take_loop :: "byte list \<Rightarrow> nat \<Rightarrow> nat \<Rightarrow> mem \<Rightarrow> nat \<Rightarrow> rust_take option" where
  "rust_take_loop src i 0 dst pos = Some RNone"
| "rust_take_loop src i (Suc t) dst pos =
     (if i + Suc t > length src then rust_take_loop src i t dst pos
      else case find (\<lambda>(r, _). r =
               from_utf8_or_empty (map to_ascii_lowercase (take (Suc t) (drop i src)))) TABLE of
          Some (_, kana) \<Rightarrow> do {
            a \<leftarrow> append_slice dst pos kana;
            case a of None \<Rightarrow> Some RErr | Some (d, pos') \<Rightarrow> Some (RHit d pos' (i + Suc t)) }
        | None \<Rightarrow> rust_take_loop src i t dst pos)"

lemma rust_take_loop_advances:
  "rust_take_loop src i t dst pos = Some (RHit d pos' i') \<Longrightarrow> i < i' \<and> i' \<le> length src"
  by (induction t)
     (auto simp: bind_eq_Some_conv split: if_splits option.splits prod.splits)

text \<open>The loop of \<open>to_kana\<close>: the final buffer and the \<open>Result\<close>.\<close>

function to_kana_loop :: "byte list \<Rightarrow> mem \<Rightarrow> nat \<Rightarrow> nat \<Rightarrow> (mem \<times> nat option) option" where
  "to_kana_loop src dst pos i =
     (if i < length src then
        (if \<not> is_vowel_or_n (to_ascii_lowercase (src ! i)) \<and> i + 1 < length src
            \<and> to_ascii_lowercase (src ! (i + 1)) = to_ascii_lowercase (src ! i)
         then do {
           a \<leftarrow> append_slice dst pos [0xE3, 0x81, 0xA3];
           case a of
             None \<Rightarrow> Some (dst, None)
           | Some dp \<Rightarrow> to_kana_loop src (fst dp) (snd dp) (i + 1) }
         else do {
           m \<leftarrow> rust_take_loop src i 3 dst pos;
           case m of
             RErr \<Rightarrow> Some (dst, None)
           | RHit d' pos' i' \<Rightarrow> to_kana_loop src d' pos' i'
           | RNone \<Rightarrow>
               if pos + 2 > length dst then Some (dst, None)
               else do {
                 d1 \<leftarrow> wr dst pos (src ! i);
                 d2 \<leftarrow> wr d1 (pos + 1) 0;
                 to_kana_loop src d2 (pos + 1) (i + 1) } })
      else Some (dst, Some pos))"
  by pat_completeness auto
termination
  by (relation "measure (\<lambda>(src, dst, pos, i). length src - i)")
     (auto dest: rust_take_loop_advances)

declare to_kana_loop.simps [simp del]

definition to_kana :: "byte list \<Rightarrow> mem \<Rightarrow> (mem \<times> nat option) option" where
  "to_kana src dst =
     (if dst = [] then Some (dst, None)
      else do { d \<leftarrow> wr dst 0 0; to_kana_loop src d 0 0 })"

text \<open>\<open>hira_to_kata\<close> on a slice, with its bounds check before the three-byte case.\<close>

function rust_kata_loop :: "mem \<Rightarrow> nat \<Rightarrow> mem" where
  "rust_kata_loop buf p =
     (if p < length buf \<and> buf ! p \<noteq> 0 then
        (let b0 = buf ! p
         in if b0 AND 0x80 = 0 then rust_kata_loop buf (p + 1)
            else if b0 AND 0xE0 = 0xC0 then rust_kata_loop buf (p + 2)
            else if b0 AND 0xF0 = 0xE0 then
              (if p + 2 \<ge> length buf then buf
               else let cp = push_bit 12 (ucast b0 AND 0x0F) OR push_bit 6 (ucast (buf ! (p + 1)) AND 0x3F)
                             OR (ucast (buf ! (p + 2)) AND 0x3F :: 32 word)
                    in if 0x3041 \<le> cp \<and> cp \<le> 0x3096
                       then let k = cp + 0x60
                            in rust_kata_loop
                                 (buf[p := 0xE0 OR ucast (drop_bit 12 k),
                                      p + 1 := 0x80 OR ucast (drop_bit 6 k AND 0x3F),
                                      p + 2 := 0x80 OR ucast (k AND 0x3F)]) (p + 3)
                       else rust_kata_loop buf (p + 3))
            else rust_kata_loop buf (p + 4))
      else buf)"
  by pat_completeness auto
termination
  by (relation "measure (\<lambda>(buf, p). length buf - p)") (auto simp: Let_def)

declare rust_kata_loop.simps [simp del]

definition hira_to_kata :: "mem \<Rightarrow> mem" where
  "hira_to_kata buf = rust_kata_loop buf 0"

text \<open>
  The exported entry points. A null pointer is \<open>None\<close>; \<open>CStr::from_ptr\<close> reads the C string,
  \<open>from_raw_parts_mut\<close> views the first \<open>dst_size\<close> bytes of the destination.
\<close>

definition rust_romaji_to_kana ::
  "mem option \<Rightarrow> mem option \<Rightarrow> nat \<Rightarrow> (int \<times> mem option) option" where
  "rust_romaji_to_kana src dst dst_size =
     (case (src, dst) of
        (Some s, Some d) \<Rightarrow>
          if dst_size = 0 then Some (-1, dst)
          else do {
            n \<leftarrow> strlen s 0;
            _ \<leftarrow> (if dst_size \<le> length d then Some () else None);
            (d', r) \<leftarrow> to_kana (take n s) (take dst_size d);
            Some (case r of Some n \<Rightarrow> int_of_size n | None \<Rightarrow> -1, Some (d' @ drop dst_size d)) }
      | _ \<Rightarrow> Some (-1, dst))"

definition rust_romaji_to_katakana ::
  "mem option \<Rightarrow> mem option \<Rightarrow> nat \<Rightarrow> (int \<times> mem option) option" where
  "rust_romaji_to_katakana src dst dst_size = do {
     (r, dst') \<leftarrow> rust_romaji_to_kana src dst dst_size;
     if r < 0 then Some (-1, dst')
     else Some (r, map_option (\<lambda>d. hira_to_kata (take dst_size d) @ drop dst_size d) dst') }"

text \<open>
  The exported \<open>romaji__hira_to_kata\<close> of the simulator's copy: it builds the \<open>CStr\<close>, which
  scans for the terminator, and returns without writing to the buffer.
\<close>

definition rust_romaji__hira_to_kata :: "mem option \<Rightarrow> mem option option" where
  "rust_romaji__hira_to_kata s =
     (case s of
        None \<Rightarrow> Some None
      | Some m \<Rightarrow> do { _ \<leftarrow> strlen m 0; Some (Some m) })"

section \<open>The Rust code computes the same chunks\<close>

lemma TABLE_eq: "TABLE = ROMAJI_TABLE"
  by (simp add: TABLE_def ROMAJI_TABLE_def)

lemma lower_all: "list_all (\<lambda>n. lower (word_of_nat n) = to_ascii_lowercase (word_of_nat n)) [0..<256]"
  by code_simp

lemma lower_eq: "lower b = to_ascii_lowercase b"
proof -
  have "unat b < 256" using unsigned_less [of b] by simp
  then have "lower (word_of_nat (unat b)) = to_ascii_lowercase (word_of_nat (unat b))"
    using lower_all unfolding list_all_iff set_upt by (rule_tac bspec) auto
  then show ?thesis by simp
qed

lemma is_vowel_or_n_eq: "is_vowel_or_n = no_double"
  by (simp add: fun_eq_iff is_vowel_or_n_def no_double_def)

lemma from_utf8_ok_small: "list_all (\<lambda>b. b \<le> 0x7F) k \<Longrightarrow> from_utf8_ok k"
  by (induction k) simp_all

lemma table_key_small: "(r, k) \<in> set ROMAJI_TABLE \<Longrightarrow> r \<noteq> [] \<and> list_all (\<lambda>b. b \<le> 0x7F) r"
proof -
  assume "(r, k) \<in> set ROMAJI_TABLE"
  then have "r \<noteq> []" and le: "list_all (\<lambda>b. 97 \<le> b \<and> b \<le> 122) r"
    using table_keys by (auto simp: list_all_iff)
  have "b \<le> 0x7F" if "b \<le> 122" for b :: byte
    using that by (rule order_trans) simp
  then show ?thesis using \<open>r \<noteq> []\<close> le by (simp add: list_all_iff)
qed

lemma find_map_of: "find (\<lambda>(r, _). r = x) xs = map_option (\<lambda>k. (x, k)) (map_of xs x)"
  by (induction xs) auto

lemma find_TABLE:
  "find (\<lambda>(r, _). r = from_utf8_or_empty x) TABLE = map_option (\<lambda>k. (x, k)) (map_of ROMAJI_TABLE x)"
proof (cases "from_utf8_ok x")
  case True
  then show ?thesis by (simp add: from_utf8_or_empty_def TABLE_eq find_map_of)
next
  case False
  then have "map_of ROMAJI_TABLE x = None"
    using from_utf8_ok_small [of x] table_key_small [of x] by (auto simp: map_of_eq_None_iff)
  moreover have "map_of ROMAJI_TABLE [] = None"
    using table_key_small [of "[]"] by (auto simp: map_of_eq_None_iff)
  ultimately show ?thesis using False by (simp add: from_utf8_or_empty_def TABLE_eq find_map_of)
qed

lemma append_slice_eq:
  "append_slice dst pos k =
     Some (if pos + length k + 1 > length dst then None
           else Some (blit dst pos (k @ [0]), pos + length k))"
  by (auto simp: append_slice_def blit_append [symmetric] blit_single)

lemma rust_take_loop_eq:
  assumes "i \<le> length src"
  shows "rust_take_loop src i t dst pos =
    Some (case find_take (drop i src) t of
            None \<Rightarrow> RNone
          | Some (k, u) \<Rightarrow> if pos + length k + 1 > length dst then RErr
                          else RHit (blit dst pos (k @ [0])) (pos + length k) (i + u))"
proof (induction t)
  case (Suc t)
  have "map to_ascii_lowercase = map lower" by (simp add: fun_eq_iff lower_eq)
  moreover have "Suc t > length (drop i src) \<longleftrightarrow> i + Suc t > length src" using assms by auto
  ultimately show ?case
    using Suc
    by (auto simp: find_TABLE append_slice_eq simp del: length_drop split: option.splits)
qed simp

lemma to_kana_loop_step:
  assumes i: "i < length src" and ch: "next_chunk (drop i src) = (k, t)"
  shows "to_kana_loop src dst pos i =
    (if pos + length k + 1 > length dst then Some (dst, None)
     else to_kana_loop src (blit dst pos (k @ [0])) (pos + length k) (i + t))"
proof -
  have hd: "hd (drop i src) = src ! i"
    and nth1: "1 < length (drop i src) \<Longrightarrow> drop i src ! 1 = src ! (i + 1)"
    using i by (auto simp: hd_drop_conv_nth nth_drop)
  show ?thesis
  proof (cases "\<not> no_double (lower (src ! i)) \<and> i + 1 < length src
      \<and> lower (src ! (i + 1)) = lower (src ! i)")
    case True
    then have "k = [0xE3, 0x81, 0xA3]" "t = 1"
      using ch hd nth1 i by (auto simp: next_chunk_def SMALL_TSU_def split: if_splits)
    then show ?thesis
      using True i
      by (subst to_kana_loop.simps) (auto simp: append_slice_eq is_vowel_or_n_eq lower_eq)
  next
    case False
    have nd: "next_chunk (drop i src) =
        (case find_take (drop i src) 3 of Some (kana, u) \<Rightarrow> (kana, u) | None \<Rightarrow> ([src ! i], 1))"
      using False nth1 unfolding next_chunk_def hd by auto
    have two: "pos + 2 \<le> length dst \<Longrightarrow> blit dst pos [src ! i, 0] = dst[pos := src ! i, pos + 1 := 0]"
      using blit_Cons [of pos "[0]" dst "src ! i"] by (simp add: blit_single)
    show ?thesis
    proof (cases "find_take (drop i src) 3")
      case None
      then have "k = [src ! i]" "t = 1" using nd ch by auto
      then show ?thesis
        using None False i two rust_take_loop_eq [of i src 3 dst pos]
        by (subst to_kana_loop.simps) (auto simp: is_vowel_or_n_eq lower_eq)
    next
      case (Some kt)
      then have "kt = (k, t)" using nd ch by (cases kt) auto
      then show ?thesis
        using Some False i rust_take_loop_eq [of i src 3 dst pos]
        by (subst to_kana_loop.simps) (auto simp: is_vowel_or_n_eq lower_eq)
    qed
  qed
qed

lemma to_kana_loop_eq:
  assumes "i \<le> length s" and "length acc < length dst0"
  shows "to_kana_loop s (blit dst0 0 (acc @ [0])) (length acc) i =
    (case kana_fit (length dst0) acc (kana_chunks (drop i s)) of (ok, out) \<Rightarrow>
       Some (blit dst0 0 (out @ [0]), if ok then Some (length out) else None))"
  using assms
proof (induction "length s - i" arbitrary: i acc rule: less_induct)
  case less
  show ?case
  proof (cases "i = length s")
    case True
    then show ?thesis by (subst to_kana_loop.simps) simp
  next
    case False
    with less.prems have i: "i < length s" by simp
    obtain k t where ch: "next_chunk (drop i s) = (k, t)" by force
    have t: "0 < t" "i + t \<le> length s"
      using next_chunk_bounds [of "drop i s"] ch i by auto
    have chunks: "kana_chunks (drop i s) = k # kana_chunks (drop (i + t) s)"
      using i ch by (subst kana_chunks.simps) (simp add: add.commute)
    note step = to_kana_loop_step [OF i ch, of "blit dst0 0 (acc @ [0])" "length acc"]
    show ?thesis
    proof (cases "length acc + length k + 1 > length dst0")
      case True
      then show ?thesis using step chunks less.prems by simp
    next
      case fits: False
      have "blit (blit dst0 0 (acc @ [0])) (length acc) (k @ [0]) = blit dst0 0 ((acc @ k) @ [0])"
        using fits by (simp add: blit_def add.commute)
      then show ?thesis
        using less.hyps [of "i + t" "acc @ k"] step fits chunks t i by (simp add: add.assoc)
    qed
  qed
qed

lemma to_kana_eq:
  assumes "dst \<noteq> []"
  shows "to_kana s dst =
    (case kana_fit (length dst) [] (kana_chunks s) of (ok, out) \<Rightarrow>
       Some (blit dst 0 (out @ [0]), if ok then Some (length out) else None))"
proof -
  have "blit dst 0 ([] @ [0]) = dst[0 := 0]"
    using blit_single [of 0 dst 0] assms by simp
  then show ?thesis
    using to_kana_loop_eq [of 0 s "[]" dst] assms by (simp add: to_kana_def)
qed

lemma rust_romaji_to_kana_eq:
  assumes "cstr src 0 s" and "0 < dsz" and "dsz \<le> length dst"
  shows "rust_romaji_to_kana (Some src) (Some dst) dsz =
    map_option (\<lambda>(r, d). (r, Some d)) (romaji_to_kana src dst dsz)"
proof -
  obtain r where "src = s @ 0 # r" using cstr_drop [OF assms(1)] by auto
  then have s: "take (length s) src = s" by simp
  have ne: "take dsz dst \<noteq> []" using assms(2,3) by auto
  obtain ok out where fit: "kana_fit dsz [] (kana_chunks s) = (ok, out)" by force
  then have "length out < dsz" using kana_fit_split [OF fit] assms(2) by auto
  then have "blit (take dsz dst) 0 (out @ [0]) @ drop dsz dst = blit dst 0 (out @ [0])"
    using assms(3) by (intro nth_equalityI) (auto simp: nth_append nth_blit)
  then show ?thesis
    using assms fit s to_kana_eq [OF ne, of s] romaji_to_kana_eq [OF assms]
    by (auto simp: rust_romaji_to_kana_def strlen_cstr)
qed

section \<open>The katakana conversion\<close>

lemma ucast_masks:
  "ucast b AND 0x0F = (ucast (b AND 0x0F) :: 32 word)"
  "ucast b AND 0x3F = (ucast (b AND 0x3F) :: 32 word)" for b :: byte
  by (simp_all add: and_63 and_15 bit_eq_iff bit_simps)

lemma kata_cp_rust:
  "push_bit 12 (ucast b0 AND 0x0F) OR push_bit 6 (ucast b1 AND 0x3F) OR (ucast b2 AND 0x3F)
     = kata_cp b0 b1 b2"
  by (simp add: kata_cp_def ucast_masks)

lemma kata_bytes_rust:
  "[0xE0 OR ucast (drop_bit 12 k), 0x80 OR ucast (drop_bit 6 k AND 0x3F), 0x80 OR ucast (k AND 0x3F)]
     = kata_bytes k"
proof -
  have "(0xE0 OR ucast x :: byte) = ucast (0xE0 OR x)" "(0x80 OR ucast x :: byte) = ucast (0x80 OR x)"
    for x :: "32 word"
    by (intro bit_word_eqI; auto simp: bit_simps less_8_iff)+
  then show ?thesis by (simp add: kata_bytes_def)
qed

lemma kata_bytes_rust_nth:
  "0xE0 OR ucast (drop_bit 12 k) = kata_bytes k ! 0"
  "0x80 OR ucast (drop_bit 6 k AND 0x3F) = kata_bytes k ! 1"
  "0x80 OR ucast (k AND 0x3F) = kata_bytes k ! 2"
  by (simp_all add: kata_bytes_rust [symmetric])

text \<open>Wherever the C loop stays inside the object, the Rust loop computes the same bytes.\<close>

lemma rust_kata_loop_eq: "kata_loop m p = Some m' \<Longrightarrow> rust_kata_loop m p = m'"
proof (induction m p arbitrary: m' rule: kata_loop.induct)
  case (1 m p)
  from "1.prems" obtain b0 where b0: "rd m p = Some b0"
    by (subst (asm) kata_loop.simps) (auto simp: bind_eq_Some_conv)
  then have p: "p < length m" "b0 = m ! p" by (simp_all add: rd_Some_iff)
  note unfold = kata_loop.simps [of m p] rust_kata_loop.simps
    [of m p, unfolded Let_def kata_cp_rust, unfolded kata_bytes_rust_nth(1,2),
      unfolded kata_bytes_rust_nth(3)]
  consider (zero) "b0 = 0" | (one) "b0 \<noteq> 0" "b0 AND 0x80 = 0"
    | (two) "b0 \<noteq> 0" "b0 AND 0x80 \<noteq> 0" "b0 AND 0xE0 = 0xC0"
    | (three) "b0 \<noteq> 0" "b0 AND 0x80 \<noteq> 0" "b0 AND 0xE0 \<noteq> 0xC0" "b0 AND 0xF0 = 0xE0"
    | (four) "b0 \<noteq> 0" "b0 AND 0x80 \<noteq> 0" "b0 AND 0xE0 \<noteq> 0xC0" "b0 AND 0xF0 \<noteq> 0xE0"
    by blast
  then show ?case
  proof cases
    case zero
    then show ?thesis using "1.prems" b0 p unfold by simp
  next
    case one
    then have "rust_kata_loop m (p + 1) = m'"
      using "1.prems" "1.IH"(1) [OF b0] b0 unfold by simp
    then show ?thesis using one p unfold by simp
  next
    case two
    then have "rust_kata_loop m (p + 2) = m'"
      using "1.prems" "1.IH"(2) [OF b0] b0 unfold by simp
    then show ?thesis using two p unfold by simp
  next
    case four
    then have "rust_kata_loop m (p + 4) = m'"
      using "1.prems" "1.IH"(5) [OF b0] b0 unfold by simp
    then show ?thesis using four p unfold by simp
  next
    case three
    then obtain b1 b2 where b: "rd m (p + 1) = Some b1" "rd m (p + 2) = Some b2"
      using "1.prems" b0 unfold by (auto simp: bind_eq_Some_conv)
    then have q: "p + 2 < length m" "b1 = m ! (p + 1)" "b2 = m ! (p + 2)"
      by (simp_all add: rd_Some_iff)
    let ?cp = "kata_cp b0 b1 b2"
    show ?thesis
    proof (cases "0x3041 \<le> ?cp \<and> ?cp \<le> 0x3096")
      case h: True
      define u where "u = m[p := kata_bytes (?cp + 0x60) ! 0, p + 1 := kata_bytes (?cp + 0x60) ! 1,
          p + 2 := kata_bytes (?cp + 0x60) ! 2]"
      have "kata_loop u (p + 3) = Some m'"
        using "1.prems" three b0 b h unfold(1) by (simp add: Let_def u_def)
      then have "rust_kata_loop u (p + 3) = m'"
        using "1.IH"(3) [OF b0 _ _ _ _ b, of ?cp] three h by (simp add: u_def)
      then show ?thesis
        using three p q h unfold(2)
        by (simp add: u_def del: One_nat_def add_2_eq_Suc')
    next
      case h: False
      have "kata_loop m (p + 3) = Some m'"
        using "1.prems" three b0 b h unfold(1) by (auto simp: Let_def split: if_splits)
      then have "rust_kata_loop m (p + 3) = m'"
        using "1.IH"(4) [OF b0 _ _ _ _ b, of ?cp] three h by simp
      then show ?thesis
        using three p q h unfold(2)
        by (auto simp del: One_nat_def add_2_eq_Suc')
    qed
  qed
qed

end
