(* ===== verification/RomajiSpec.thy ===== *)
theory RomajiSpec
  imports RomajiRust
begin

text \<open>
  The contract of the romaji converter as its callers use it (the locale
  \<open>kana_converter\<close>), discharged for the C and for the Rust version, and the properties of
  both.
\<close>

section \<open>The interface\<close>

locale kana_converter =
  fixes conv :: "mem \<Rightarrow> mem \<Rightarrow> nat \<Rightarrow> (int \<times> mem) option"
  assumes conv_result:
    "cstr src 0 s \<Longrightarrow> 0 < n \<Longrightarrow> n \<le> length dst \<Longrightarrow> n < 2 ^ 31 \<Longrightarrow>
     \<exists>cs1 cs2. kana_chunks s = cs1 @ cs2
       \<and> conv src dst n =
           Some (if cs2 = [] then int (length (concat cs1)) else -1, blit dst 0 (concat cs1 @ [0]))
       \<and> length (concat cs1) < n
       \<and> (cs2 \<noteq> [] \<longrightarrow> n \<le> length (concat cs1) + length (hd cs2))"
begin

text \<open>The call returns, and leaves a C string in the buffer it was given.\<close>

lemma conv_cstr:
  assumes "cstr src 0 s" "0 < n" "n \<le> length dst" "n < 2 ^ 31"
  shows "\<exists>r dst' out. conv src dst n = Some (r, dst') \<and> cstr dst' 0 out \<and> length out < n
    \<and> length dst' = length dst \<and> drop n dst' = drop n dst"
proof -
  obtain cs1 cs2 where c: "kana_chunks s = cs1 @ cs2"
      "conv src dst n =
         Some (if cs2 = [] then int (length (concat cs1)) else -1, blit dst 0 (concat cs1 @ [0]))"
      "length (concat cs1) < n"
    using conv_result [OF assms] by blast
  have "0 \<notin> set (concat cs1)"
    using kana_chunks_nonzero [OF cstr_nonzero [OF assms(1)]] c(1) by auto
  then have "cstr (blit dst 0 (concat cs1 @ [0])) 0 (concat cs1)"
    using c(3) assms(3) by (intro cstr_blit) auto
  moreover have "length (blit dst 0 (concat cs1 @ [0])) = length dst"
    using c(3) assms(3) by simp
  moreover have "drop n (blit dst 0 (concat cs1 @ [0])) = drop n dst"
    using c(3) assms(3) by (simp add: drop_blit_after)
  ultimately show ?thesis using c by blast
qed

text \<open>On ASCII input the buffer holds well-formed UTF-8, also when the output is cut short.\<close>

lemma conv_utf8:
  assumes "cstr src 0 s" "0 < n" "n \<le> length dst" "n < 2 ^ 31" "list_all ascii s"
  shows "\<exists>r dst' out. conv src dst n = Some (r, dst') \<and> cstr dst' 0 out \<and> length out < n
    \<and> length dst' = length dst \<and> wf_utf8 out"
proof -
  obtain cs1 cs2 where c: "kana_chunks s = cs1 @ cs2"
      "conv src dst n =
         Some (if cs2 = [] then int (length (concat cs1)) else -1, blit dst 0 (concat cs1 @ [0]))"
      "length (concat cs1) < n"
    using conv_result [OF assms(1-4)] by blast
  have "0 \<notin> set (concat cs1)"
    using kana_chunks_nonzero [OF cstr_nonzero [OF assms(1)]] c(1) by auto
  then have "cstr (blit dst 0 (concat cs1 @ [0])) 0 (concat cs1)"
    using c(3) assms(3) by (intro cstr_blit) auto
  moreover have "length (blit dst 0 (concat cs1 @ [0])) = length dst"
    using c(3) assms(3) by simp
  moreover have "wf_utf8 (concat cs1)"
    using kana_chunks_wf [OF assms(5)] c(1) by (intro wf_utf8_concat_wf) auto
  ultimately show ?thesis using c by blast
qed

text \<open>A buffer of three bytes per letter and one for the terminator is enough.\<close>

lemma conv_enough:
  assumes "cstr src 0 s" "3 * length s < n" "n \<le> length dst" "n < 2 ^ 31"
  shows "conv src dst n =
    Some (int (length (concat (kana_chunks s))), blit dst 0 (concat (kana_chunks s) @ [0]))"
proof -
  have n: "0 < n" using assms(2) by simp
  obtain cs1 cs2 where c: "kana_chunks s = cs1 @ cs2"
      "conv src dst n =
         Some (if cs2 = [] then int (length (concat cs1)) else -1, blit dst 0 (concat cs1 @ [0]))"
      "cs2 \<noteq> [] \<longrightarrow> n \<le> length (concat cs1) + length (hd cs2)"
    using conv_result [OF assms(1) n assms(3,4)] by blast
  have "length (concat cs1) + length (hd cs2) \<le> length (concat (kana_chunks s))" if "cs2 \<noteq> []"
    using c(1) that by (cases cs2) auto
  then have "cs2 = []" using c(3) kana_chunks_length [of s] assms(2) by fastforce
  then show ?thesis using c by simp
qed

end

section \<open>The C version provides it\<close>

lemma romaji_to_kana_split:
  assumes "cstr src 0 s" "0 < n" "n \<le> length dst" "n < 2 ^ 31"
  shows "\<exists>cs1 cs2. kana_chunks s = cs1 @ cs2
    \<and> romaji_to_kana src dst n =
        Some (if cs2 = [] then int (length (concat cs1)) else -1, blit dst 0 (concat cs1 @ [0]))
    \<and> length (concat cs1) < n
    \<and> (cs2 \<noteq> [] \<longrightarrow> n \<le> length (concat cs1) + length (hd cs2))"
proof -
  obtain ok out where fit: "kana_fit n [] (kana_chunks s) = (ok, out)" by force
  obtain cs1 cs2 where "kana_chunks s = cs1 @ cs2" "out = concat cs1" "ok = (cs2 = [])"
      "length out < n" "cs2 \<noteq> [] \<longrightarrow> n \<le> length out + length (hd cs2)"
    using kana_fit_split [OF fit] assms(2) by auto
  then show ?thesis
    using romaji_to_kana_eq [OF assms(1-3)] fit assms(4)
    by (intro exI [of _ cs1] exI [of _ cs2]) (auto simp: int_of_size_small)
qed

interpretation c_kana: kana_converter romaji_to_kana
  by unfold_locales (rule romaji_to_kana_split)

text \<open>The Rust entry point, called by C code with two non-null pointers.\<close>

definition rust_conv :: "mem \<Rightarrow> mem \<Rightarrow> nat \<Rightarrow> (int \<times> mem) option" where
  "rust_conv src dst n =
     map_option (\<lambda>(r, d). (r, the d)) (rust_romaji_to_kana (Some src) (Some dst) n)"

lemma rust_conv_eq:
  "cstr src 0 s \<Longrightarrow> 0 < n \<Longrightarrow> n \<le> length dst \<Longrightarrow> rust_conv src dst n = romaji_to_kana src dst n"
  by (simp add: rust_conv_def rust_romaji_to_kana_eq option.map_comp comp_def case_prod_unfold
      option.map_ident)

interpretation rust_kana: kana_converter rust_conv
proof unfold_locales
  fix src dst :: mem and s n
  assume a: "cstr src 0 s" "0 < n" "n \<le> length dst" "n < 2 ^ 31"
  show "\<exists>cs1 cs2. kana_chunks s = cs1 @ cs2
    \<and> rust_conv src dst n =
        Some (if cs2 = [] then int (length (concat cs1)) else -1, blit dst 0 (concat cs1 @ [0]))
    \<and> length (concat cs1) < n
    \<and> (cs2 \<noteq> [] \<longrightarrow> n \<le> length (concat cs1) + length (hd cs2))"
    using romaji_to_kana_split [OF a] rust_conv_eq [OF a(1-3)] by simp
qed

section \<open>Supporting lemmas\<close>

lemma rust_katakana_slice:
  assumes "cstr m 0 t" "wf_utf8 t" "length t < n" "n \<le> length m"
  shows "hira_to_kata (take n m) @ drop n m = blit m 0 (kata_str t)"
proof -
  obtain r where "m = t @ 0 # r" using cstr_drop [OF assms(1)] by auto
  then have "cstr (take n m) 0 t"
    using assms(3) cstr_nonzero [OF assms(1)]
    by (intro cstrI_drop [where r = "take (n - length t - 1) r"]) (auto simp: take_Cons')
  then have "kata_loop (take n m) 0 = Some (blit (take n m) 0 (kata_str t))"
    using assms(2) by (rule kata_loop_eq)
  then have "hira_to_kata (take n m) = blit (take n m) 0 (kata_str t)"
    unfolding hira_to_kata_def by (rule rust_kata_loop_eq)
  moreover have "blit (take n m) 0 (kata_str t) @ drop n m = blit m 0 (kata_str t)"
    using assms(3,4) by (intro nth_equalityI) (auto simp: nth_append nth_blit)
  ultimately show ?thesis by simp
qed

text \<open>Where the conversion copies: no letters, and no byte twice in a row.\<close>

definition letter :: "byte \<Rightarrow> bool" where
  "letter b \<longleftrightarrow> (0x41 \<le> b \<and> b \<le> 0x5A) \<or> (0x61 \<le> b \<and> b \<le> 0x7A)"

lemma lower_not_letter: "\<not> letter b \<Longrightarrow> lower b = b"
  by (auto simp: lower_eq to_ascii_lowercase_def letter_def)

lemma find_take_no_letter:
  assumes "s \<noteq> []" and "\<not> letter (hd s)"
  shows "find_take s t = None"
proof (induction t)
  case (Suc t)
  have "map_of ROMAJI_TABLE (map lower (take (Suc t) s)) = None" if "Suc t \<le> length s"
  proof (rule ccontr)
    assume "map_of ROMAJI_TABLE (map lower (take (Suc t) s)) \<noteq> None"
    then obtain k where "(map lower (take (Suc t) s), k) \<in> set ROMAJI_TABLE"
      by (auto dest: map_of_SomeD)
    then have "list_all (\<lambda>b. 97 \<le> b \<and> b \<le> 122) (map lower (take (Suc t) s))"
      using table_keys by (auto simp: list_all_iff)
    then have "97 \<le> lower (hd s)" "lower (hd s) \<le> 122"
      using assms(1) by (auto simp: neq_Nil_conv)
    then show False using assms(2) by (simp add: lower_not_letter letter_def)
  qed
  then show ?case using Suc by simp
qed simp

lemma kana_chunks_passthrough:
  "list_all (\<lambda>b. \<not> letter b) s \<Longrightarrow> successively (\<noteq>) s \<Longrightarrow> kana_chunks s = map (\<lambda>b. [b]) s"
proof (induction s)
  case (Cons b s)
  have "lower b = b" and nl: "\<not> letter b" using Cons.prems lower_not_letter by auto
  moreover have "s \<noteq> [] \<Longrightarrow> lower (s ! 0) \<noteq> b"
    using Cons.prems lower_not_letter by (cases s) auto
  ultimately have "next_chunk (b # s) = ([b], 1)"
    using find_take_no_letter [of "b # s"] by (auto simp: next_chunk_def)
  moreover have "kana_chunks s = map (\<lambda>b. [b]) s"
    using Cons by (auto simp: successively_Cons)
  ultimately show ?case by (subst kana_chunks.simps) simp
qed simp

lemma romaji_to_katakana_eq:
  assumes "cstr src 0 s" "3 * length s < n" "n \<le> length dst" "n < 2 ^ 31"
    and wf: "wf_utf8 (concat (kana_chunks s))"
  shows "romaji_to_katakana src dst n =
    Some (int (length (concat (kana_chunks s))), blit dst 0 (kata_str (concat (kana_chunks s)) @ [0]))"
proof -
  let ?h = "concat (kana_chunks s)"
  have len: "length ?h < n" using kana_chunks_length [of s] assms(2) by simp
  have "0 \<notin> set ?h" using kana_chunks_nonzero [OF cstr_nonzero [OF assms(1)]] by auto
  then have "cstr (blit dst 0 (?h @ [0])) 0 ?h"
    using len assms(3) by (intro cstr_blit) auto
  then have "romaji__hira_to_kata (blit dst 0 (?h @ [0])) = Some (blit (blit dst 0 (?h @ [0])) 0 (kata_str ?h))"
    using wf by (rule romaji__hira_to_kata_eq)
  moreover have "blit (blit dst 0 (?h @ [0])) 0 (kata_str ?h) = blit dst 0 (kata_str ?h @ [0])"
    using len assms(3) by (simp add: blit_def)
  ultimately show ?thesis
    using c_kana.conv_enough [OF assms(1-4)] by (simp add: romaji_to_katakana_def)
qed

section \<open>Properties\<close>

text \<open>
  C1. The buffer-filling loops of \<open>romaji_to_kana\<close> implement the chunk specification: on a
  C string \<open>s\<close> and a buffer of at least \<open>dst_size\<close> bytes the call never leaves its objects,
  the buffer afterwards holds the longest run of chunks of \<open>kana_chunks s\<close> that fits with
  its terminator (every other byte is unchanged), and the result is the number of bytes
  written if all chunks fit and -1 otherwise.
\<close>

theorem romaji_to_kana_refines:
  assumes "cstr src 0 s" and "0 < dst_size" and "dst_size \<le> length dst" and "dst_size < 2 ^ 31"
  shows "\<exists>cs1 cs2. kana_chunks s = cs1 @ cs2
    \<and> romaji_to_kana src dst dst_size =
        Some (if cs2 = [] then int (length (concat cs1)) else -1, blit dst 0 (concat cs1 @ [0]))
    \<and> length (concat cs1) < dst_size
    \<and> (cs2 \<noteq> [] \<longrightarrow> dst_size \<le> length (concat cs1) + length (hd cs2))"
  using assms by (rule c_kana.conv_result)

theorem romaji_to_kana_refines_witness:
  "\<exists>cs1 cs2. kana_chunks (lit ''ka'') = cs1 @ cs2
    \<and> romaji_to_kana (lit ''ka'' @ [0]) (replicate 8 255) 8 =
        Some (if cs2 = [] then int (length (concat cs1)) else -1,
              blit (replicate 8 255) 0 (concat cs1 @ [0]))
    \<and> length (concat cs1) < 8
    \<and> (cs2 \<noteq> [] \<longrightarrow> 8 \<le> length (concat cs1) + length (hd cs2))"
  by (rule romaji_to_kana_refines) (simp_all add: cstr_def)

text \<open>
  A buffer of three bytes per input byte plus one is always enough: the conversion then
  succeeds with the complete output.
\<close>

lemma romaji_to_kana_enough:
  assumes "cstr src 0 s" and "3 * length s < dst_size" and "dst_size \<le> length dst"
    and "dst_size < 2 ^ 31"
  shows "romaji_to_kana src dst dst_size =
    Some (int (length (concat (kana_chunks s))), blit dst 0 (concat (kana_chunks s) @ [0]))"
  using assms by (rule c_kana.conv_enough)

text \<open>
  On ASCII input the buffer holds a C string of well-formed UTF-8 afterwards, also when
  the conversion runs out of room and returns -1: no kana is cut in half.
\<close>

lemma romaji_to_kana_utf8:
  assumes "cstr src 0 s" and "0 < dst_size" and "dst_size \<le> length dst" and "dst_size < 2 ^ 31"
    and "list_all ascii s"
  shows "\<exists>r dst' out. romaji_to_kana src dst dst_size = Some (r, dst') \<and> cstr dst' 0 out
    \<and> length out < dst_size \<and> length dst' = length dst \<and> wf_utf8 out"
  using assms by (rule c_kana.conv_utf8)

text \<open>
  C2. The Rust converter the simulator links and the C converter agree on every call with
  non-null pointers: same return value, same bytes in the buffer.
\<close>

theorem rust_and_c_agree:
  assumes "cstr src 0 s" and "dst_size \<le> length dst"
  shows "rust_romaji_to_kana (Some src) (Some dst) dst_size =
    map_option (\<lambda>(r, d). (r, Some d)) (romaji_to_kana src dst dst_size)"
  using rust_romaji_to_kana_eq [OF assms(1) _ assms(2)]
  by (cases "dst_size = 0") (simp_all add: rust_romaji_to_kana_def romaji_to_kana_def)

theorem rust_and_c_agree_witness:
  "rust_romaji_to_kana (Some (lit ''shi'' @ [0])) (Some (replicate 6 7)) 3 =
    map_option (\<lambda>(r, d). (r, Some d)) (romaji_to_kana (lit ''shi'' @ [0]) (replicate 6 7) 3)"
  by (rule rust_and_c_agree [where s = "lit ''shi''"]) (simp_all add: cstr_def)

text \<open>
  C11. \<open>romaji__hira_to_kata\<close> on a C string of well-formed UTF-8: it stays inside the object,
  keeps the length, changes each three-byte sequence whose code point is in the hiragana
  block into the sequence of that code point plus 0x60, and keeps every other sequence.
\<close>

theorem hira_to_kata_correct:
  assumes "cstr m 0 s" and "wf_utf8 s"
  shows "\<exists>m' t. romaji__hira_to_kata m = Some m' \<and> length m' = length m \<and> cstr m' 0 t
    \<and> length t = length s \<and> wf_utf8 t \<and> utf8_split t = map kata_seq (utf8_split s)
    \<and> (\<forall>q. length q = 3 \<and> is_hiragana (kata_cp (q ! 0) (q ! 1) (q ! 2)) \<longrightarrow>
          kata_cp (kata_seq q ! 0) (kata_seq q ! 1) (kata_seq q ! 2) =
            kata_cp (q ! 0) (q ! 1) (q ! 2) + 0x60)
    \<and> (\<forall>q. length q \<noteq> 3 \<or> \<not> is_hiragana (kata_cp (q ! 0) (q ! 1) (q ! 2)) \<longrightarrow> kata_seq q = q)"
proof (intro exI conjI allI impI)
  show "romaji__hira_to_kata m = Some (blit m 0 (kata_str s))"
    using assms by (rule romaji__hira_to_kata_eq)
  show "length (blit m 0 (kata_str s)) = length m"
    using cstr_bounds [OF assms(1)] by simp
  show "cstr (blit m 0 (kata_str s)) 0 (kata_str s)"
    using assms by (rule cstr_hira_to_kata)
  show "utf8_split (kata_str s) = map kata_seq (utf8_split s)"
    using assms(2) by (rule utf8_split_kata_str)
qed (use assms(2) in \<open>auto simp: kata_str_wf kata_seq_def kata_cp_bytes [simplified]
      hiragana_shift_bound\<close>)

theorem hira_to_kata_correct_witness:
  "\<exists>m' t. romaji__hira_to_kata [0xE3, 0x81, 0x82, 0x61, 0] = Some m'
    \<and> length m' = length [0xE3, 0x81, 0x82, 0x61, 0 :: byte] \<and> cstr m' 0 t
    \<and> length t = length [0xE3, 0x81, 0x82, 0x61 :: byte] \<and> wf_utf8 t
    \<and> utf8_split t = map kata_seq (utf8_split [0xE3, 0x81, 0x82, 0x61])"
  using hira_to_kata_correct [of "[0xE3, 0x81, 0x82, 0x61, 0]" "[0xE3, 0x81, 0x82, 0x61]"]
  by (auto simp: cstr_def wf_utf8_def utf8_split.simps(2) utf8_len_def utf8_seq_def lead_def cont_def)

text \<open>
  Converting to katakana twice changes nothing more: what the first pass produced is
  outside the hiragana block.
\<close>

lemma hira_to_kata_idempotent:
  assumes "cstr m 0 s" and "wf_utf8 s"
  shows "\<exists>m'. romaji__hira_to_kata m = Some m' \<and> romaji__hira_to_kata m' = Some m'"
proof -
  let ?m = "blit m 0 (kata_str s)"
  have c: "cstr ?m 0 (kata_str s)" using assms by (rule cstr_hira_to_kata)
  have len: "length (kata_str s) \<le> length m" using cstr_bounds [OF assms(1)] by simp
  have "romaji__hira_to_kata ?m = Some (blit ?m 0 (kata_str s))"
    using romaji__hira_to_kata_eq [OF c] kata_str_wf [OF assms(2)] kata_str_idem [OF assms(2)]
    by simp
  moreover have "blit ?m 0 (kata_str s) = ?m" using len by (simp add: blit_0)
  ultimately show ?thesis using romaji__hira_to_kata_eq [OF assms] by auto
qed

text \<open>
  \<open>romaji_to_katakana\<close> on ASCII input with room for three bytes per letter returns the
  length of the hiragana conversion and leaves its katakana form in the buffer, and the
  Rust version does the same.
\<close>

lemma romaji_to_katakana_correct:
  assumes "cstr src 0 s" and "list_all ascii s" and "3 * length s < dst_size"
    and "dst_size \<le> length dst" and "dst_size < 2 ^ 31"
  shows "\<exists>h. h = concat (kana_chunks s)
    \<and> romaji_to_katakana src dst dst_size = Some (int (length h), blit dst 0 (kata_str h @ [0]))
    \<and> rust_romaji_to_katakana (Some src) (Some dst) dst_size =
        Some (int (length h), Some (blit dst 0 (kata_str h @ [0])))"
proof -
  define h where "h = concat (kana_chunks s)"
  have wf: "wf_utf8 h" unfolding h_def using kana_chunks_wf [OF assms(2)] by (rule wf_utf8_concat_wf)
  have c: "romaji_to_katakana src dst dst_size = Some (int (length h), blit dst 0 (kata_str h @ [0]))"
    using romaji_to_katakana_eq [OF assms(1,3,4,5)] wf by (simp add: h_def)
  have len: "length h < dst_size" using kana_chunks_length [of s] assms(3) by (simp add: h_def)
  have "0 \<notin> set h" using kana_chunks_nonzero [OF cstr_nonzero [OF assms(1)]] by (auto simp: h_def)
  then have "cstr (blit dst 0 (h @ [0])) 0 h" using len assms(4) by (intro cstr_blit) auto
  then have "hira_to_kata (take dst_size (blit dst 0 (h @ [0]))) @ drop dst_size (blit dst 0 (h @ [0]))
      = blit (blit dst 0 (h @ [0])) 0 (kata_str h)"
    using wf len assms(4) by (intro rust_katakana_slice) auto
  moreover have "blit (blit dst 0 (h @ [0])) 0 (kata_str h) = blit dst 0 (kata_str h @ [0])"
    using len assms(4) by (simp add: blit_def)
  moreover have "rust_romaji_to_kana (Some src) (Some dst) dst_size = Some (int (length h), Some (blit dst 0 (h @ [0])))"
    using rust_romaji_to_kana_eq [OF assms(1) _ assms(4)] c_kana.conv_enough [OF assms(1,3,4,5)] assms(3)
    by (simp add: h_def)
  ultimately have "rust_romaji_to_katakana (Some src) (Some dst) dst_size =
           Some (int (length h), Some (blit dst 0 (kata_str h @ [0])))"
    by (simp add: rust_romaji_to_katakana_def)
  with c show ?thesis unfolding h_def by blast
qed

text \<open>
  The promise of \<open>romaji.h\<close> that unrecognized characters are copied through unchanged,
  with its exact condition: a string without letters in which no byte occurs twice in a
  row is copied as it is.
\<close>

lemma passthrough_without_repeats:
  assumes "cstr src 0 s" and "list_all (\<lambda>b. \<not> letter b) s" and "successively (\<noteq>) s"
    and "3 * length s < dst_size" and "dst_size \<le> length dst" and "dst_size < 2 ^ 31"
  shows "romaji_to_kana src dst dst_size = Some (int (length s), blit dst 0 (s @ [0]))"
proof -
  have "concat (map (\<lambda>b. [b]) s) = s" by (induction s) simp_all
  then show ?thesis
    using c_kana.conv_enough [OF assms(1,4,5,6)] kana_chunks_passthrough [OF assms(2,3)] by simp
qed

text \<open>
  Without that condition the promise fails: the katakana small tsu, whose UTF-8 form
  ends in a repeated byte, is not copied; a hiragana small tsu is put between its bytes and
  the output is not UTF-8 any more.
\<close>

lemma passthrough_breaks_small_tsu:
  "romaji_to_kana [0xE3, 0x83, 0x83, 0] (replicate 8 0) 8 =
     Some (5, [0xE3, 0xE3, 0x81, 0xA3, 0x83, 0, 0, 0])
   \<and> wf_utf8 [0xE3, 0x83, 0x83] \<and> \<not> wf_utf8 [0xE3, 0xE3, 0x81, 0xA3, 0x83]"
  by code_simp

end
