(* ===== verification/DictLib.thy ===== *)
theory DictLib
  imports DictRows RomajiSpec
begin

text \<open>
  The dictionary layer of \<open>Dictionary_Resources/dict.c\<close>, the copy that is linked with the C
  romaji library. The definitions carry the suffix \<open>_lib\<close>, since the simulator's copy has
  the same function names.
\<close>

section \<open>Operations\<close>

definition dict_open_lib :: "'db sqlite \<Rightarrow> 'db dict_state \<Rightarrow> byte list \<Rightarrow> int \<times> 'db dict_state" where
  "dict_open_lib eng st db_path =
     (let (rc, db) = sqlite3_open_v2 eng db_path
      in if rc \<noteq> 0 then (1, st\<lparr>g_db := db\<rparr>) else (0, st\<lparr>g_db := db\<rparr>))"

text \<open>The body of the loop over the rows.\<close>

definition fill_result_lib :: "mem \<Rightarrow> row \<Rightarrow> mem option" where
  "fill_result_lib d r = do {
     let kanji_p = column_text (kanji r);
     let readings_p = column_text (readings r);
     let senses_p = column_text (senses r);
     use_kanji \<leftarrow> nonempty kanji_p;
     d \<leftarrow> (if use_kanji then copy_first_element d WORD DICT_WORD_LEN kanji_p
           else copy_first_element d WORD DICT_WORD_LEN readings_p);
     d \<leftarrow> copy_field_sanitize d DETAIL DICT_DETAIL_LEN senses_p;
     wr d ACCENT 0 }"

definition DICT_SQL_LIB :: string where
  "DICT_SQL_LIB = ''SELECT kanji, readings, senses '' @
     ''FROM word '' @
     ''WHERE ';' || readings || ';' LIKE '%;' || ? || ';%' '' @
     ''OR ';' || readings || ';' like '%;' || ? || ';%' '' @
     ''LIMIT ?;''"

text \<open>\<open>kata\<close> is the uninitialised stack array \<open>kata_query[512]\<close>.\<close>

definition dict_search_lib ::
  "'db sqlite \<Rightarrow> mem \<Rightarrow> 'db dict_state \<Rightarrow> mem \<Rightarrow> (nat \<times> 'db dict_state) option" where
  "dict_search_lib eng kata st query =
     (if sqlite3_prepare_v2 eng (g_db st) DICT_SQL_LIB \<noteq> 0 then Some (0, st)
      else do {
        kata_query \<leftarrow> strcpy kata 0 query 0;
        n \<leftarrow> strlen query 0;
        kata_query \<leftarrow> romaji__hira_to_kata kata_query;
        m \<leftarrow> strlen kata_query 0;
        (found, rs) \<leftarrow> row_loop fill_result_lib
           (sqlite3_rows eng (g_db st) DICT_SQL_LIB [take n query, take m kata_query] DICT_MAX_RESULTS)
           0 (g_results st);
        Some (found, st\<lparr>g_results := rs\<rparr>) })"

definition dict_close_lib :: "'db dict_state \<Rightarrow> 'db dict_state" where
  "dict_close_lib st = (case g_db st of Some _ \<Rightarrow> st\<lparr>g_db := None\<rparr> | None \<Rightarrow> st)"

section \<open>What a result shows\<close>

definition word_of_lib :: "row \<Rightarrow> byte list" where
  "word_of_lib r =
     take (DICT_WORD_LEN - 1) (first_of (if has_text (kanji r) then kanji r else readings r))"

definition detail_of_lib :: "row \<Rightarrow> byte list" where
  "detail_of_lib r = sanitized (senses r)"

lemma fill_result_lib_entry:
  assumes "entry_sized d"
  shows "\<exists>d'. fill_result_lib d r = Some d' \<and> entry_sized d'
    \<and> entry_shows d' (word_of_lib r) (detail_of_lib r)"
proof -
  have len: "length d = 640" using assms by (simp add: entry_sized_def dict_consts)
  define v where "v = (if has_text (kanji r) then kanji r else readings r)"
  obtain d1 where d1: "copy_first_element d WORD DICT_WORD_LEN (column_text v) = Some d1"
      "field_set d WORD DICT_WORD_LEN (word_of_lib r) d1"
    using copy_first_element_column [of WORD DICT_WORD_LEN d v] len
    by (auto simp: dict_consts word_of_lib_def v_def)
  have len1: "length d1 = 640" using d1(2) len by (simp add: field_set_def)
  obtain d2 where d2: "copy_field_sanitize d1 DETAIL DICT_DETAIL_LEN (column_text (senses r)) = Some d2"
      "field_set d1 DETAIL DICT_DETAIL_LEN (detail_of_lib r) d2"
    using copy_field_sanitize_column [of DETAIL d1 "senses r"] len1
    by (auto simp: dict_consts detail_of_lib_def)
  have len2: "length d2 = 640" using d2(2) len1 by (simp add: field_set_def)
  have fill: "fill_result_lib d r = Some (d2[64 := 0])"
    using d1(1) d2(1) len2
    by (simp add: fill_result_lib_def nonempty_column v_def ACCENT_def DICT_WORD_LEN_def
        split: if_splits)
  have w: "length (word_of_lib r) < 64" "cstr d2 0 (word_of_lib r)" and t: "cstr d2 128 (detail_of_lib r)"
    using d1(2) d2(2) len1 len2
    by (auto simp: field_set_def dict_consts intro: cstr_same_prefix [of d1])
  have "cstr (d2[64 := 0]) 0 (word_of_lib r)" "cstr (d2[64 := 0]) 128 (detail_of_lib r)"
    using w t by (simp_all add: cstr_update_outside)
  moreover have "cstr (d2[64 := 0]) 64 []" using len2 by (simp add: cstr_Nil)
  ultimately show ?thesis
    using fill len2 by (simp add: entry_sized_def entry_shows_def dict_consts)
qed

interpretation lib: result_filler fill_result_lib word_of_lib detail_of_lib entry_sized
  by unfold_locales (rule fill_result_lib_entry)

lemma dict_search_lib_result:
  assumes "cstr query 0 q" and "wf_utf8 q" and "length q < 512" and "length kata = 512"
    and "results_ok entry_sized (g_results st)"
    and "sqlite3_prepare_v2 eng (g_db st) DICT_SQL_LIB = 0"
    and "rows = sqlite3_rows eng (g_db st) DICT_SQL_LIB [q, kata_str q] DICT_MAX_RESULTS"
  shows "\<exists>st'. dict_search_lib eng kata st query = Some (min DICT_MAX_RESULTS (length rows), st')
    \<and> g_db st' = g_db st \<and> results_ok entry_sized (g_results st')
    \<and> (\<forall>i < length rows. i < DICT_MAX_RESULTS \<longrightarrow>
          entry_shows (g_results st' ! i) (word_of_lib (rows ! i)) (sanitized (senses (rows ! i))))
    \<and> (\<forall>i < DICT_MAX_RESULTS. length rows \<le> i \<longrightarrow> g_results st' ! i = g_results st ! i)"
proof -
  obtain rs' where rs': "row_loop fill_result_lib rows 0 (g_results st) =
        Some (min DICT_MAX_RESULTS (length rows), rs')" "results_ok entry_sized rs'"
      "\<And>i. i < length rows \<Longrightarrow> i < DICT_MAX_RESULTS \<Longrightarrow>
        entry_shows (rs' ! i) (word_of_lib (rows ! i)) (detail_of_lib (rows ! i))"
      "\<And>i. i < DICT_MAX_RESULTS \<Longrightarrow> length rows \<le> i \<Longrightarrow> rs' ! i = g_results st ! i"
    using lib.row_loop_result [OF assms(5)] by blast
  have "strcpy kata 0 query 0 = Some (blit kata 0 (q @ [0]))"
    using strcpy_cstr [OF assms(1), of 0 kata] assms(3,4) by simp
  moreover have k: "cstr (blit kata 0 (q @ [0])) 0 q"
    using cstr_nonzero [OF assms(1)] assms(3,4) by (simp add: cstr_blit)
  moreover have "romaji__hira_to_kata (blit kata 0 (q @ [0])) =
      Some (blit (blit kata 0 (q @ [0])) 0 (kata_str q))"
    using k assms(2) by (rule romaji__hira_to_kata_eq)
  moreover have k2: "cstr (blit (blit kata 0 (q @ [0])) 0 (kata_str q)) 0 (kata_str q)"
    using k assms(2) by (rule cstr_hira_to_kata)
  moreover have "take (length q) query = q"
    using assms(1) cstr_drop [OF assms(1)] by auto
  moreover have "take (length (kata_str q)) (blit (blit kata 0 (q @ [0])) 0 (kata_str q)) = kata_str q"
    using cstr_drop [OF k2] by auto
  ultimately have "dict_search_lib eng kata st query =
      Some (min DICT_MAX_RESULTS (length rows), st\<lparr>g_results := rs'\<rparr>)"
    using assms(6,7) rs'(1) strlen_cstr [OF assms(1)] strlen_cstr [OF k2]
    by (simp add: dict_search_lib_def)
  then show ?thesis using rs'(2-4) by (auto simp: detail_of_lib_def)
qed

section \<open>Properties\<close>

text \<open>
  C13. \<open>dict_search\<close> of \<open>Dictionary_Resources\<close>, on a query that fits \<open>kata_query\<close>: the call
  never leaves its objects and returns. The statement is bound to the query and to its
  katakana form; the result counts the rows, at most \<open>DICT_MAX_RESULTS\<close>; each counted
  record shows the first kanji (or the first reading) cut to 63 bytes, an empty accent and
  the sanitized senses, and every record behind them is unchanged.
\<close>

theorem dict_search_lib_correct:
  assumes "cstr query 0 q" and "wf_utf8 q" and "length q < 512" and "length kata = 512"
    and "results_ok entry_sized (g_results st)"
    and "sqlite3_prepare_v2 eng (g_db st) DICT_SQL_LIB = 0"
    and "rows = sqlite3_rows eng (g_db st) DICT_SQL_LIB [q, kata_str q] DICT_MAX_RESULTS"
  shows "\<exists>st'. dict_search_lib eng kata st query = Some (min DICT_MAX_RESULTS (length rows), st')
    \<and> g_db st' = g_db st \<and> results_ok entry_sized (g_results st')
    \<and> (\<forall>i < length rows. i < DICT_MAX_RESULTS \<longrightarrow>
          entry_shows (g_results st' ! i) (word_of_lib (rows ! i)) (sanitized (senses (rows ! i))))
    \<and> (\<forall>i < DICT_MAX_RESULTS. length rows \<le> i \<longrightarrow> g_results st' ! i = g_results st ! i)"
  using assms by (rule dict_search_lib_result)

theorem dict_search_lib_correct_witness:
  "\<exists>st'. dict_search_lib (fixed_engine [\<lparr>kanji = None, readings = Some (lit ''a;b''), senses = Some (lit ''[n] x'')\<rparr>])
       (replicate 512 255) dict_init (lit ''a'' @ [0]) = Some (1, st')
    \<and> entry_shows (g_results st' ! 0) (lit ''a'') (lit ''x'')"
proof -
  let ?r = "\<lparr>kanji = None, readings = Some (lit ''a;b''), senses = Some (lit ''[n] x'')\<rparr>"
  have "word_of_lib ?r = lit ''a''" "sanitized (senses ?r) = lit ''x''" by code_simp+
  then show ?thesis
    using dict_search_lib_correct [where query = "lit ''a'' @ [0]" and q = "lit ''a''" and
        kata = "replicate 512 255" and st = dict_init and eng = "fixed_engine [?r]" and rows = "[?r]"]
    by (auto simp: cstr_def wf_utf8_def utf8_split.simps(2) utf8_len_def utf8_seq_def lead_def cont_def
        results_ok_init entry_sized_def fixed_engine_def DICT_MAX_RESULTS_def)
qed

end
