(* ===== verification/Dict.thy ===== *)
theory Dict
  imports DictRows RomajiSpec
begin

text \<open>
  The dictionary layer of the simulator, \<open>apps/examples/lvgldemo/dict.c\<close> with
  \<open>apps/graphics/lvgl/dict.h\<close>: the senses go through the SQL function \<open>sanitize\<close>, which the
  engine calls for every row it delivers, and the word of a result is put together from the
  first kanji and the first reading.
\<close>

section \<open>Operations\<close>

text \<open>\<open>sanitize_sql_function\<close>; \<open>buf\<close> is its uninitialised stack buffer.\<close>

definition sanitize_sql_function :: "mem \<Rightarrow> byte list option \<Rightarrow> byte list option option" where
  "sanitize_sql_function buf v =
     (case column_text v of
        None \<Rightarrow> Some None
      | Some src \<Rightarrow> do {
          buf \<leftarrow> copy_field_sanitize buf 0 DICT_DETAIL_LEN (Some src);
          n \<leftarrow> strlen buf 0;
          Some (Some (take n buf)) })"

definition dict_open :: "'db sqlite \<Rightarrow> 'db dict_state \<Rightarrow> byte list \<Rightarrow> int \<times> 'db dict_state" where
  "dict_open eng st db_path =
     (let (rc, db) = sqlite3_open_v2 eng db_path
      in if rc \<noteq> 0 then (1, st\<lparr>g_db := db\<rparr>)
         else (0, st\<lparr>g_db := sqlite3_create_function eng db ''sanitize''\<rparr>))"

text \<open>The lines of both search loops that fill \<open>word\<close>.\<close>

definition fill_word :: "mem \<Rightarrow> mem option \<Rightarrow> mem option \<Rightarrow> mem option" where
  "fill_word d kanji_p readings_p = do {
     use_kanji \<leftarrow> nonempty kanji_p;
     if use_kanji then do {
       d \<leftarrow> wr d WORD 0;
       d \<leftarrow> append_first_element d WORD DICT_WORD_LEN kanji_p;
       d \<leftarrow> strcat d WORD (lit '' ('' @ [0]) 0;
       d \<leftarrow> append_first_element d WORD DICT_WORD_LEN readings_p;
       strcat d WORD (lit '') '' @ [0]) 0 }
     else do {
       d \<leftarrow> wr d WORD 0;
       append_first_element d WORD DICT_WORD_LEN readings_p } }"

text \<open>
  One iteration of the loop over the rows; the third column is what the SQL function
  returned for the senses.
\<close>

definition fill_result :: "mem \<Rightarrow> mem \<Rightarrow> row \<Rightarrow> mem option" where
  "fill_result buf d r = do {
     column2 \<leftarrow> sanitize_sql_function buf (senses r);
     d \<leftarrow> fill_word d (column_text (kanji r)) (column_text (readings r));
     d \<leftarrow> strncpy d DETAIL
           (case column_text column2 of Some s \<Rightarrow> s | None \<Rightarrow> lit ''NULL'' @ [0]) 0
           (DICT_DETAIL_LEN - 1);
     wr d ACCENT 0 }"

definition DICT_SQL :: string where
  "DICT_SQL = ''SELECT kanji, readings, sanitize(senses) '' @
     ''FROM word '' @
     ''WHERE ';' || readings || ';' LIKE '%;' || ? || ';%' '' @
     ''OR ';' || readings || ';' like '%;' || ? || ';%' '' @
     ''LIMIT ?;''"

definition DICT_SQL_EN :: string where
  "DICT_SQL_EN = ''SELECT kanji, readings, sanitize(senses) '' @
     ''FROM word '' @
     ''WHERE senses LIKE '%' || ? || '%' '' @
     ''LIMIT ?;''"

text \<open>
  \<open>dict_search\<close>: \<open>kata\<close> is the uninitialised stack array \<open>kata_query\<close>, \<open>buf\<close> the buffer of
  the callback. The katakana conversion is the one the simulator links (the Rust export).
\<close>

definition dict_search ::
  "'db sqlite \<Rightarrow> mem \<Rightarrow> mem \<Rightarrow> 'db dict_state \<Rightarrow> mem \<Rightarrow> (nat \<times> 'db dict_state) option" where
  "dict_search eng buf kata st query =
     (if sqlite3_prepare_v2 eng (g_db st) DICT_SQL \<noteq> 0 then Some (0, st)
      else do {
        kata_query \<leftarrow> strcpy kata 0 query 0;
        n \<leftarrow> strlen query 0;
        k \<leftarrow> rust_romaji__hira_to_kata (Some kata_query);
        kata_query \<leftarrow> k;
        m \<leftarrow> strlen kata_query 0;
        (found, rs) \<leftarrow> row_loop (fill_result buf)
           (sqlite3_rows eng (g_db st) DICT_SQL [take n query, take m kata_query] DICT_MAX_RESULTS)
           0 (g_results st);
        Some (found, st\<lparr>g_results := rs\<rparr>) })"

definition dict_search_en ::
  "'db sqlite \<Rightarrow> mem \<Rightarrow> 'db dict_state \<Rightarrow> mem \<Rightarrow> (nat \<times> 'db dict_state) option" where
  "dict_search_en eng buf st query =
     (if sqlite3_prepare_v2 eng (g_db st) DICT_SQL_EN \<noteq> 0 then Some (0, st)
      else do {
        n \<leftarrow> strlen query 0;
        (found, rs) \<leftarrow> row_loop (fill_result buf)
           (sqlite3_rows eng (g_db st) DICT_SQL_EN [take n query] DICT_MAX_RESULTS)
           0 (g_results st);
        Some (found, st\<lparr>g_results := rs\<rparr>) })"

definition dict_close :: "'db dict_state \<Rightarrow> 'db dict_state" where
  "dict_close st = (case g_db st of Some _ \<Rightarrow> st\<lparr>g_db := None\<rparr> | None \<Rightarrow> st)"

section \<open>What a result shows\<close>

text \<open>
  The text \<open>fill_word\<close> builds, before the field's size cuts it: the bounds are those of the
  two bounded appends, the parentheses come without one.
\<close>

definition word_text :: "row \<Rightarrow> byte list" where
  "word_text r =
     (if has_text (kanji r)
      then let a = take 63 (first_of (kanji r)) @ lit '' (''
           in a @ take (63 - length a) (first_of (readings r)) @ lit '') ''
      else take 63 (first_of (readings r)))"

definition word_of :: "row \<Rightarrow> byte list" where
  "word_of r = take DICT_WORD_LEN (word_text r)"

definition detail_of :: "row \<Rightarrow> byte list" where
  "detail_of r = (case senses r of None \<Rightarrow> lit ''NULL'' | Some _ \<Rightarrow> sanitized (senses r))"

definition entry_ok :: "mem \<Rightarrow> bool" where
  "entry_ok d \<longleftrightarrow> length d = RESULT_SIZE \<and> d ! (RESULT_SIZE - 1) = 0"

lemma length_word_text: "length (word_text r) \<le> 67"
  by (auto simp: word_text_def Let_def)

lemma sanitized_nonzero: "0 \<notin> set (sanitized v)"
proof -
  have "set (rtrim x) \<subseteq> set x" for x using rtrim_prefix [of x] by (metis Un_iff set_append subsetI)
  then show ?thesis
    using strip_subset ctext_nonzero
    by (auto simp: sanitized_def split: option.splits) (meson in_set_takeD subsetD)
qed

lemma length_sanitized: "length (sanitized v) < DICT_DETAIL_LEN"
proof -
  have "length (rtrim x) \<le> length x" for x using rtrim_prefix [of x] by (metis le_add1 length_append)
  then have "length (rtrim (take 511 x)) \<le> 511" for x
    by (rule order_trans) simp
  then have "length (rtrim (take 511 x)) < 512" for x
    by (rule le_less_trans) simp
  then show ?thesis
    by (auto simp: sanitized_def DICT_DETAIL_LEN_def split: option.splits)
qed

lemma sanitize_sql_function_eq:
  assumes "length buf = DICT_DETAIL_LEN"
  shows "sanitize_sql_function buf v = Some (map_option (\<lambda>_. sanitized v) v)"
proof (cases v)
  case (Some t)
  obtain d' where d': "copy_field_sanitize buf 0 DICT_DETAIL_LEN (column_text v) = Some d'"
      "cstr d' 0 (sanitized v)"
    using copy_field_sanitize_column [of 0 buf v] assms by (auto simp: field_set_def)
  moreover have "take (length (sanitized v)) d' = sanitized v"
    using cstr_drop [OF d'(2)] by auto
  ultimately show ?thesis
    using Some strlen_cstr [OF d'(2)] by (simp add: sanitize_sql_function_def column_text_def)
qed (simp add: sanitize_sql_function_def column_text_def)

text \<open>An append of a literal stays in front of \<open>detail\<close> when the word is short enough.\<close>

lemma strcat_word:
  assumes "cstr d 0 a" and "length a + length t < 128" and "length d = 640" and "0 \<notin> set t"
  shows "\<exists>d'. strcat d 0 (t @ [0]) 0 = Some d' \<and> length d' = 640 \<and> cstr d' 0 (a @ t)
    \<and> d' ! 639 = d ! 639"
  using strcat_cstr [OF assms(1) cstr_of_list [OF assms(4)]] cstr_after_blit_end [OF assms(1,4)] assms(2,3)
  by (auto simp: nth_blit)

lemma lit_no_zero: "0 \<notin> set (lit '') '')"
  by simp

lemma append_word:
  assumes "cstr d 0 a" and "length d = 640"
  shows "\<exists>d'. append_first_element d 0 64 (column_text v) = Some d' \<and> length d' = 640
    \<and> cstr d' 0 (a @ take (63 - length a) (first_of v)) \<and> d' ! 639 = d ! 639"
  using append_first_element_column [OF assms(1), of 64 v] assms(2) by auto

lemma fill_word_eq:
  assumes "length d = 640" and "d ! 639 = 0"
  shows "\<exists>d'. fill_word d (column_text (kanji r)) (column_text (readings r)) = Some d'
    \<and> length d' = 640 \<and> d' ! 639 = 0 \<and> cstr d' 0 (word_text r)"
proof -
  let ?d = "d[0 := 0]"
  have d0: "cstr ?d 0 []" "length ?d = 640" "?d ! 639 = 0" using assms by (simp_all add: cstr_Nil)
  show ?thesis
  proof (cases "has_text (kanji r)")
    case False
    then show ?thesis
      using append_word [OF d0(1,2), of "readings r"] d0 assms
      by (auto simp: fill_word_def nonempty_column word_text_def dict_consts)
  next
    case True
    let ?a = "take 63 (first_of (kanji r))"
    let ?b = "?a @ lit '' (''"
    let ?c = "?b @ take (63 - length ?b) (first_of (readings r))"
    obtain d1 where d1: "append_first_element ?d 0 64 (column_text (kanji r)) = Some d1"
        "length d1 = 640" "cstr d1 0 ?a" "d1 ! 639 = 0"
      using append_word [OF d0(1,2), of "kanji r"] d0(3) by auto
    obtain d2 where d2: "strcat d1 0 (lit '' ('' @ [0]) 0 = Some d2" "length d2 = 640"
        "cstr d2 0 ?b" "d2 ! 639 = 0"
      using strcat_word [OF d1(3), of "lit '' (''"] d1(2,4) by (auto simp: min_less_iff_disj)
    obtain d3 where d3: "append_first_element d2 0 64 (column_text (readings r)) = Some d3"
        "length d3 = 640" "cstr d3 0 ?c" "d3 ! 639 = 0"
      using append_word [OF d2(3,2), of "readings r"] d2(4) by metis
    have "length ?c + length (lit '') '') < 128" by (simp add: min_def) linarith
    then obtain d4 where d4: "strcat d3 0 (lit '') '' @ [0]) 0 = Some d4" "length d4 = 640"
        "cstr d4 0 (?c @ lit '') '')" "d4 ! 639 = 0"
      using strcat_word [OF d3(3), of "lit '') ''"] d3(2,4) by (metis append_assoc lit_no_zero)
    have "fill_word d (column_text (kanji r)) (column_text (readings r)) = Some d4"
      using True assms(1) d1(1) d2(1) d3(1) d4(1)
      by (simp add: fill_word_def nonempty_column dict_consts)
    moreover have "?c @ lit '') '' = word_text r" using True by (simp add: word_text_def Let_def)
    ultimately show ?thesis using d4 by auto
  qed
qed

text \<open>The detail: what \<open>strncpy\<close> leaves, with the zero behind it that the invariant keeps.\<close>

lemma strncpy_detail:
  assumes "length d = 640" and "d ! 639 = 0" and "0 \<notin> set t" and "length t < 512"
  shows "\<exists>d'. strncpy d 128 (t @ [0]) 0 511 = Some d' \<and> length d' = 640 \<and> d' ! 639 = 0
    \<and> cstr d' 128 t \<and> (\<forall>i < 128. d' ! i = d ! i)"
proof -
  let ?bs = "take 511 t @ replicate (511 - length t) 0"
  let ?d = "blit d 128 ?bs"
  have tk: "take 511 t = t" using assms(4) by simp
  have len: "length ?bs = 511" using assms(4) by simp
  have "drop 128 ?d = t @ replicate (511 - length t) 0 @ drop 639 d"
    using drop_blit [of 128 ?bs d] assms(1) len tk by simp
  moreover have "drop 639 d = [0]"
    using Cons_nth_drop_Suc [of 639 d] assms(1,2) by simp
  ultimately have "\<exists>r. drop 128 ?d = t @ 0 # r"
    by (cases "511 - length t") auto
  then have "cstr ?d 128 t" using assms(3) cstrI_drop by blast
  moreover have "strncpy d 128 (t @ [0]) 0 511 = Some ?d"
    using strncpy_cstr [OF cstr_of_list [OF assms(3)]] assms(1) by simp
  ultimately show ?thesis using assms(1,2) len by (auto simp: nth_blit)
qed

lemma fill_result_entry:
  assumes "length buf = DICT_DETAIL_LEN" and "entry_ok d"
  shows "\<exists>d'. fill_result buf d r = Some d' \<and> entry_ok d' \<and> entry_shows d' (word_of r) (detail_of r)"
proof -
  have d: "length d = 640" "d ! 639 = 0" using assms(2) by (simp_all add: entry_ok_def dict_consts)
  obtain d1 where d1: "fill_word d (column_text (kanji r)) (column_text (readings r)) = Some d1"
      "length d1 = 640" "d1 ! 639 = 0" "cstr d1 0 (word_text r)"
    using fill_word_eq [OF d] by blast
  have t: "0 \<notin> set (detail_of r)" "length (detail_of r) < 512"
    using sanitized_nonzero length_sanitized
    by (auto simp: detail_of_def DICT_DETAIL_LEN_def split: option.splits)
  obtain d2 where d2: "strncpy d1 128 (detail_of r @ [0]) 0 511 = Some d2" "length d2 = 640"
      "d2 ! 639 = 0" "cstr d2 128 (detail_of r)" "\<And>i. i < 128 \<Longrightarrow> d2 ! i = d1 ! i"
    using strncpy_detail [OF d1(2,3) t] by blast
  have "fill_result buf d r = Some (d2[64 := 0])"
    using d1(1) d2(1,2) sanitize_sql_function_eq [OF assms(1)] sanitized_nonzero
    by (cases "senses r")
       (simp_all add: fill_result_def column_text_def detail_of_def dict_consts ctext_id)
  moreover have "cstr d2 0 (word_text r)"
    using d1(4) by (rule cstr_same_prefix) (use length_word_text [of r] d1(2) d2 in auto)
  then have "cstr (d2[64 := 0]) 0 (take 64 (word_text r))"
    using cstr_zeroed [of d2 0 "word_text r" 64] d2(2) by simp
  moreover have "cstr (d2[64 := 0]) 64 []" using d2(2) by (simp add: cstr_Nil)
  moreover have "cstr (d2[64 := 0]) 128 (detail_of r)" using d2(4) by (simp add: cstr_update_outside)
  ultimately show ?thesis
    using d2(2,3) by (simp add: entry_ok_def entry_shows_def word_of_def dict_consts)
qed

text \<open>The buffer of the callback is a fixed array of 512 bytes with arbitrary content.\<close>

definition fill_row :: "mem \<Rightarrow> mem \<Rightarrow> row \<Rightarrow> mem option" where
  "fill_row buf = fill_result (take DICT_DETAIL_LEN (buf @ replicate DICT_DETAIL_LEN 0))"

lemma fill_row_id: "length buf = DICT_DETAIL_LEN \<Longrightarrow> fill_row buf = fill_result buf"
  by (simp add: fill_row_def)

interpretation shipped: result_filler "fill_row buf" word_of detail_of entry_ok for buf
  by unfold_locales (simp add: fill_row_def fill_result_entry)

lemma entry_ok_zero: "entry_ok (replicate RESULT_SIZE 0)"
  by (simp add: entry_ok_def dict_consts)

lemma init_ok: "results_ok entry_ok (g_results dict_init)"
  using entry_ok_zero by (rule results_ok_init)

text \<open>No bracketed group survives in a sanitized text, and no white space at its end.\<close>

lemma sanitized_no_group: "sanitized v = a @ 0x5B # b \<Longrightarrow> 0x5D \<notin> set b"
proof (cases v)
  case (Some t)
  assume s: "sanitized v = a @ 0x5B # b"
  obtain w where w: "take 511 (strip (ctext t)) = sanitized v @ w"
    using rtrim_prefix [of "take 511 (strip (ctext t))"] Some
    by (auto simp: sanitized_def DICT_DETAIL_LEN_def)
  have "strip (ctext t) = take 511 (strip (ctext t)) @ drop 511 (strip (ctext t))"
    by (rule append_take_drop_id [symmetric])
  also have "\<dots> = a @ 0x5B # (b @ w @ drop 511 (strip (ctext t)))"
    using w s by simp
  finally show ?thesis using strip_no_group by fastforce
qed (simp add: sanitized_def)

lemma rtrim_trimmed: "rtrim x = [] \<or> \<not> space (last (rtrim x))"
proof (cases "dropWhile space (rev x)")
  case (Cons b y)
  then have "\<not> space b" by (simp add: dropWhile_eq_Cons_conv)
  then show ?thesis unfolding rtrim_def Cons by simp
qed (simp add: rtrim_def)

lemma sanitized_trimmed: "sanitized v = [] \<or> \<not> space (last (sanitized v))"
  using rtrim_trimmed by (auto simp: sanitized_def split: option.splits)

lemma take_cstr_zero: "cstr d 0 w \<Longrightarrow> n \<le> length d \<Longrightarrow> 0 \<in> set (take n d) \<longleftrightarrow> length w < n"
proof -
  assume c: "cstr d 0 w" and n: "n \<le> length d"
  obtain r where d: "d = w @ 0 # r" using cstr_drop [OF c] by auto
  show ?thesis
  proof (cases "length w < n")
    case True
    then have "take n d = w @ 0 # take (n - length w - 1) r" by (auto simp: d take_Cons')
    then show ?thesis using True by simp
  next
    case False
    then have "take n d = take n w" by (simp add: d)
    then show ?thesis using False cstr_nonzero [OF c] by (auto dest: in_set_takeD)
  qed
qed

lemma word_text_fits:
  "length (word_text r) < 64 \<longleftrightarrow>
   \<not> has_text (kanji r) \<or> length (first_of (kanji r)) + length (first_of (readings r)) \<le> 59"
  by (auto simp: word_text_def Let_def min_def)

lemma dict_search_result:
  assumes "cstr query 0 q" and "length q < 512" and "length kata = 512"
    and "length buf = DICT_DETAIL_LEN"
    and "results_ok entry_ok (g_results st)"
    and "sqlite3_prepare_v2 eng (g_db st) DICT_SQL = 0"
    and "rows = sqlite3_rows eng (g_db st) DICT_SQL [q, q] DICT_MAX_RESULTS"
  shows "\<exists>st'. dict_search eng buf kata st query = Some (min DICT_MAX_RESULTS (length rows), st')
    \<and> g_db st' = g_db st \<and> results_ok entry_ok (g_results st')
    \<and> (\<forall>i < length rows. i < DICT_MAX_RESULTS \<longrightarrow>
          entry_shows (g_results st' ! i) (word_of (rows ! i)) (detail_of (rows ! i)))
    \<and> (\<forall>i < DICT_MAX_RESULTS. length rows \<le> i \<longrightarrow> g_results st' ! i = g_results st ! i)"
proof -
  obtain rs' where rs': "row_loop (fill_row buf) rows 0 (g_results st) =
        Some (min DICT_MAX_RESULTS (length rows), rs')" "results_ok entry_ok rs'"
      "\<And>i. i < length rows \<Longrightarrow> i < DICT_MAX_RESULTS \<Longrightarrow>
        entry_shows (rs' ! i) (word_of (rows ! i)) (detail_of (rows ! i))"
      "\<And>i. i < DICT_MAX_RESULTS \<Longrightarrow> length rows \<le> i \<Longrightarrow> rs' ! i = g_results st ! i"
    using shipped.row_loop_result [OF assms(5)] by blast
  have "strcpy kata 0 query 0 = Some (blit kata 0 (q @ [0]))"
    using strcpy_cstr [OF assms(1), of 0 kata] assms(2,3) by simp
  moreover have k: "cstr (blit kata 0 (q @ [0])) 0 q"
    using cstr_nonzero [OF assms(1)] assms(2,3) by (simp add: cstr_blit)
  moreover have "take (length q) query = q" "take (length q) (blit kata 0 (q @ [0])) = q"
    using cstr_drop [OF assms(1)] cstr_drop [OF k] by auto
  ultimately have "dict_search eng buf kata st query =
      Some (min DICT_MAX_RESULTS (length rows), st\<lparr>g_results := rs'\<rparr>)"
    using assms(6,7) rs'(1) strlen_cstr [OF assms(1)] strlen_cstr [OF k] fill_row_id [OF assms(4)]
    by (simp add: dict_search_def rust_romaji__hira_to_kata_def)
  then show ?thesis using rs'(2-4) by auto
qed

lemma dict_search_en_result:
  assumes "cstr query 0 q" and "length buf = DICT_DETAIL_LEN"
    and "results_ok entry_ok (g_results st)"
    and "sqlite3_prepare_v2 eng (g_db st) DICT_SQL_EN = 0"
    and "rows = sqlite3_rows eng (g_db st) DICT_SQL_EN [q] DICT_MAX_RESULTS"
  shows "\<exists>st'. dict_search_en eng buf st query = Some (min DICT_MAX_RESULTS (length rows), st')
    \<and> g_db st' = g_db st \<and> results_ok entry_ok (g_results st')
    \<and> (\<forall>i < length rows. i < DICT_MAX_RESULTS \<longrightarrow>
          entry_shows (g_results st' ! i) (word_of (rows ! i)) (detail_of (rows ! i)))
    \<and> (\<forall>i < DICT_MAX_RESULTS. length rows \<le> i \<longrightarrow> g_results st' ! i = g_results st ! i)"
proof -
  obtain rs' where rs': "row_loop (fill_row buf) rows 0 (g_results st) =
        Some (min DICT_MAX_RESULTS (length rows), rs')" "results_ok entry_ok rs'"
      "\<And>i. i < length rows \<Longrightarrow> i < DICT_MAX_RESULTS \<Longrightarrow>
        entry_shows (rs' ! i) (word_of (rows ! i)) (detail_of (rows ! i))"
      "\<And>i. i < DICT_MAX_RESULTS \<Longrightarrow> length rows \<le> i \<Longrightarrow> rs' ! i = g_results st ! i"
    using shipped.row_loop_result [OF assms(3)] by blast
  have "take (length q) query = q" using cstr_drop [OF assms(1)] by auto
  then have "dict_search_en eng buf st query =
      Some (min DICT_MAX_RESULTS (length rows), st\<lparr>g_results := rs'\<rparr>)"
    using assms(4,5) rs'(1) strlen_cstr [OF assms(1)] fill_row_id [OF assms(2)]
    by (simp add: dict_search_en_def)
  then show ?thesis using rs'(2-4) by auto
qed

section \<open>Properties\<close>

text \<open>
  C6. \<open>dict_search\<close> of the simulator, on a query that fits \<open>kata_query\<close>: the call returns and
  stays inside its records. Both parameters of the statement are bound to the query as it
  was typed (the Rust export leaves \<open>kata_query\<close> alone); the result counts the rows, at
  most \<open>DICT_MAX_RESULTS\<close>; each counted record shows the composed word cut at the end of
  the field, an empty accent and the sanitized senses (or \<open>NULL\<close>), the records behind them
  are unchanged, and the record invariant is kept.
\<close>

theorem dict_search_correct:
  assumes "cstr query 0 q" and "length q < 512" and "length kata = 512"
    and "length buf = DICT_DETAIL_LEN"
    and "results_ok entry_ok (g_results st)"
    and "sqlite3_prepare_v2 eng (g_db st) DICT_SQL = 0"
    and "rows = sqlite3_rows eng (g_db st) DICT_SQL [q, q] DICT_MAX_RESULTS"
  shows "\<exists>st'. dict_search eng buf kata st query = Some (min DICT_MAX_RESULTS (length rows), st')
    \<and> g_db st' = g_db st \<and> results_ok entry_ok (g_results st')
    \<and> (\<forall>i < length rows. i < DICT_MAX_RESULTS \<longrightarrow>
          entry_shows (g_results st' ! i) (word_of (rows ! i)) (detail_of (rows ! i)))
    \<and> (\<forall>i < DICT_MAX_RESULTS. length rows \<le> i \<longrightarrow> g_results st' ! i = g_results st ! i)"
  using assms by (rule dict_search_result)

theorem dict_search_correct_witness:
  "\<exists>st'. dict_search (fixed_engine [\<lparr>kanji = Some (lit ''k;l''), readings = Some (lit ''a;b''), senses = None\<rparr>])
       (replicate 512 1) (replicate 512 255) dict_init (lit ''a'' @ [0]) = Some (1, st')
    \<and> entry_shows (g_results st' ! 0) (lit ''k (a) '') (lit ''NULL'')"
proof -
  let ?r = "\<lparr>kanji = Some (lit ''k;l''), readings = Some (lit ''a;b''), senses = None\<rparr>"
  have "word_of ?r = lit ''k (a) ''" "detail_of ?r = lit ''NULL''" by code_simp+
  then show ?thesis
    using dict_search_correct [where query = "lit ''a'' @ [0]" and q = "lit ''a''" and
        kata = "replicate 512 255" and buf = "replicate 512 1" and st = dict_init and
        eng = "fixed_engine [?r]" and rows = "[?r]"]
    by (auto simp: cstr_def init_ok fixed_engine_def dict_consts)
qed

text \<open>
  \<open>dict_search_en\<close>, the search in the senses, for a query of any length: it returns, binds
  the query once and fills the records as \<open>dict_search\<close> does.
\<close>

lemma dict_search_en_correct:
  assumes "cstr query 0 q" and "length buf = DICT_DETAIL_LEN"
    and "results_ok entry_ok (g_results st)"
    and "sqlite3_prepare_v2 eng (g_db st) DICT_SQL_EN = 0"
    and "rows = sqlite3_rows eng (g_db st) DICT_SQL_EN [q] DICT_MAX_RESULTS"
  shows "\<exists>st'. dict_search_en eng buf st query = Some (min DICT_MAX_RESULTS (length rows), st')
    \<and> g_db st' = g_db st \<and> results_ok entry_ok (g_results st')
    \<and> (\<forall>i < length rows. i < DICT_MAX_RESULTS \<longrightarrow>
          entry_shows (g_results st' ! i) (word_of (rows ! i)) (detail_of (rows ! i)))
    \<and> (\<forall>i < DICT_MAX_RESULTS. length rows \<le> i \<longrightarrow> g_results st' ! i = g_results st ! i)"
  using assms by (rule dict_search_en_result)

text \<open>
  \<open>sanitize_sql_function\<close> on any column value, whatever its stack buffer holds: NULL stays
  NULL; otherwise the result is the text without its bracketed groups, cut to 511 bytes
  before the white space at its end is removed, so no group and no trailing space is left.
\<close>

lemma sanitize_sql_function_correct:
  assumes "length buf = DICT_DETAIL_LEN"
  shows "sanitize_sql_function buf None = Some None \<and> (\<exists>x. sanitize_sql_function buf (Some t) = Some (Some x)
      \<and> x = rtrim (take 511 (strip (ctext t)))
      \<and> (\<forall>a b. x = a @ 0x5B # b \<longrightarrow> 0x5D \<notin> set b) \<and> (x = [] \<or> \<not> space (last x)))"
  using sanitize_sql_function_eq [OF assms, of None] sanitize_sql_function_eq [OF assms, of "Some t"]
    sanitized_no_group [of "Some t"] sanitized_trimmed [of "Some t"]
  by (auto simp: sanitized_def DICT_DETAIL_LEN_def)

text \<open>
  C12. When the word of a result is a C string of its field: exactly when the entry has no
  kanji, or the first kanji and the first reading have at most 59 bytes together. Otherwise
  the two unbounded \<open>strcat\<close> calls have run over the end of \<open>word\<close> and its 64 bytes hold no
  terminator.
\<close>

theorem word_field_terminated_iff:
  assumes "length buf = DICT_DETAIL_LEN" and "entry_ok d"
  shows "\<exists>d'. fill_result buf d r = Some d'
    \<and> (0 \<in> set (take DICT_WORD_LEN (drop WORD d')) \<longleftrightarrow>
        \<not> has_text (kanji r) \<or> length (first_of (kanji r)) + length (first_of (readings r)) \<le> 59)"
proof -
  obtain d' where d': "fill_result buf d r = Some d'" "entry_ok d'" "cstr d' 0 (word_of r)"
    using fill_result_entry [OF assms] by (auto simp: entry_shows_def dict_consts)
  have "0 \<in> set (take 64 d') \<longleftrightarrow> length (word_of r) < 64"
    using take_cstr_zero [OF d'(3), of 64] d'(2) by (simp add: entry_ok_def dict_consts)
  then show ?thesis
    using d'(1) word_text_fits [of r] by (auto simp: word_of_def dict_consts)
qed

theorem word_field_terminated_iff_witness:
  "\<exists>d'. fill_result (replicate 512 0) (replicate RESULT_SIZE 0)
        \<lparr>kanji = Some (replicate 30 0x41), readings = Some (replicate 30 0x61), senses = None\<rparr> = Some d'
    \<and> 0 \<notin> set (take DICT_WORD_LEN (drop WORD d'))"
  using word_field_terminated_iff [of "replicate 512 0" "replicate RESULT_SIZE 0"
      "\<lparr>kanji = Some (replicate 30 0x41), readings = Some (replicate 30 0x61), senses = None\<rparr>"]
  by (auto simp: entry_ok_zero DICT_DETAIL_LEN_def has_text_def first_of_def ctext_def
      first_element_def)

end
