(* ===== verification/Lvgl.thy ===== *)
theory Lvgl
  imports Prelude "HOL-Library.State_Monad"
begin

text \<open>
  What the user interface sees of LVGL. The library is not part of the repository's sources,
  so nothing of its behaviour is defined here: a call that changes a widget is recorded in a
  history, and the two calls that return a widget (\<open>lv_obj_create\<close>/\<open>lv_label_create\<close> and
  \<open>lv_obj_get_child\<close>) take their result from a parameter, the record \<open>lvgl\<close>. What the code
  relies on is stated as predicates over that record: a created widget is new
  (\<open>lvgl_fresh\<close>), and child 0 is the one created first (\<open>lvgl_first_child\<close>).

  \<open>label_text\<close> reads the text a label was last given off the history.
\<close>

section \<open>Calls and history\<close>

type_synonym obj = nat

datatype lv_arg = Num int | Pct int | Hex int | Sym string

datatype lv_call =
    Set_text obj "byte list"
  | Set_text_fmt obj string "int list"
  | Set_prop string obj "lv_arg list"

text \<open>The widgets with their parents in creation order, and the calls, newest first.\<close>

record lv_state =
  objs :: "(obj \<times> obj) list"
  calls :: "lv_call list"

record lvgl =
  lv_screen :: obj
  new_obj :: "(obj \<times> obj) list \<Rightarrow> obj"
  get_child :: "(obj \<times> obj) list \<Rightarrow> obj \<Rightarrow> nat \<Rightarrow> obj"

text \<open>
  Hypotheses on LVGL: a new widget differs from the screen and from every widget there is,
  and \<open>lv_obj_get_child(p, 0)\<close> is the first widget created with parent \<open>p\<close>.
\<close>

definition lvgl_fresh :: "lvgl \<Rightarrow> bool" where
  "lvgl_fresh L \<longleftrightarrow> (\<forall>os. new_obj L os \<noteq> lv_screen L \<and> new_obj L os \<notin> fst ` set os)"

definition lvgl_first_child :: "lvgl \<Rightarrow> bool" where
  "lvgl_first_child L \<longleftrightarrow>
     (\<forall>os1 os2 c p. p \<notin> snd ` set os1 \<longrightarrow> get_child L (os1 @ (c, p) # os2) p 0 = c)"

text \<open>The text or format a label was last given.\<close>

datatype shown = Nothing | Text "byte list" | Fmt string "int list"

fun label_text :: "lv_call list \<Rightarrow> obj \<Rightarrow> shown" where
  "label_text [] x = Nothing"
| "label_text (Set_text y t # cs) x = (if x = y then Text t else label_text cs x)"
| "label_text (Set_text_fmt y f a # cs) x = (if x = y then Fmt f a else label_text cs x)"
| "label_text (Set_prop f y a # cs) x = label_text cs x"

section \<open>The calls as state transformers\<close>

type_synonym 'a lvm = "(lv_state, 'a) state"

definition lv_obj_create :: "lvgl \<Rightarrow> obj \<Rightarrow> obj lvm" where
  "lv_obj_create L p = do {
     s \<leftarrow> State_Monad.get;
     let x = new_obj L (objs s);
     _ \<leftarrow> State_Monad.set (s\<lparr>objs := objs s @ [(x, p)]\<rparr>);
     State_Monad.return x }"

definition lv_label_create :: "lvgl \<Rightarrow> obj \<Rightarrow> obj lvm" where
  "lv_label_create L p = lv_obj_create L p"

definition lv_do :: "lv_call \<Rightarrow> unit lvm" where
  "lv_do c = do {
     s \<leftarrow> State_Monad.get;
     State_Monad.set (s\<lparr>calls := c # calls s\<rparr>) }"

abbreviation lv :: "string \<Rightarrow> obj \<Rightarrow> lv_arg list \<Rightarrow> unit lvm" where
  "lv f x args \<equiv> lv_do (Set_prop f x args)"

abbreviation lv_label_set_text :: "obj \<Rightarrow> byte list \<Rightarrow> unit lvm" where
  "lv_label_set_text x t \<equiv> lv_do (Set_text x t)"

abbreviation lv_label_set_text_fmt :: "obj \<Rightarrow> string \<Rightarrow> int list \<Rightarrow> unit lvm" where
  "lv_label_set_text_fmt x f a \<equiv> lv_do (Set_text_fmt x f a)"

section \<open>Sequences that only change properties\<close>

text \<open>
  \<open>styling m\<close>: the computation creates nothing and gives no label a text.
\<close>

definition styling :: "unit lvm \<Rightarrow> bool" where
  "styling m \<longleftrightarrow> (\<forall>s. objs (snd (run_state m s)) = objs s
     \<and> label_text (calls (snd (run_state m s))) = label_text (calls s))"

lemma styling_lv [simp, intro]: "styling (lv f x args)"
  by (simp add: styling_def lv_do_def fun_eq_iff)

lemma styling_bind [intro]: "styling m \<Longrightarrow> styling m' \<Longrightarrow> styling (State_Monad.bind m (\<lambda>_. m'))"
  by (simp add: styling_def case_prod_unfold)

lemma styling_return [simp, intro]: "styling (State_Monad.return ())"
  by (simp add: styling_def)

lemma stylingD:
  "styling m \<Longrightarrow> objs (snd (run_state m s)) = objs s"
  "styling m \<Longrightarrow> label_text (calls (snd (run_state m s))) = label_text (calls s)"
  by (simp_all add: styling_def)

section \<open>printf with a variable format\<close>

text \<open>
  \<open>printf(s)\<close> without further arguments: defined only when every \<open>%\<close> of \<open>s\<close> is followed by
  another one; a conversion without its argument is undefined behaviour.
\<close>

fun printf_noargs :: "byte list \<Rightarrow> unit option" where
  "printf_noargs [] = Some ()"
| "printf_noargs (b # s) =
     (if b \<noteq> 0x25 then printf_noargs s
      else case s of [] \<Rightarrow> None | c # t \<Rightarrow> if c = 0x25 then printf_noargs t else None)"

lemma printf_noargs_plain: "0x25 \<notin> set s \<Longrightarrow> printf_noargs s = Some ()"
  by (induction s) auto

end
