(* ===== verification/Ui.thy ===== *)
theory Ui
  imports Dict Lvgl
begin

text \<open>
  The user interface of the simulator, \<open>apps/examples/lvgldemo/lvgldemo.c\<close>: its global
  variables as the record \<open>ui\<close>, the key handler \<open>poll_keyboard\<close>, the list window
  (\<open>populate_list\<close>), the construction of the widgets (\<open>create_ui\<close>) and the start of \<open>main\<close>.

  Widgets and the calls on them go to LVGL (\<open>Lvgl\<close>), the searches to the dictionary layer
  (\<open>Dict\<close>), the conversion to the Rust library (\<open>RomajiRust\<close>). \<open>None\<close> is an access outside an
  array, a null pointer or a \<open>printf\<close> with a format that asks for arguments.
\<close>

section \<open>State\<close>

definition BOTTOM_ITEM_COUNT :: int where "BOTTOM_ITEM_COUNT = 4"
definition list_element_count :: nat where "list_element_count = 5"

record widgets =
  selected_label :: obj
  accent_label :: obj
  details_label :: obj
  furigana :: obj
  search :: obj
  list_items :: "obj list"
  bot_item :: obj
  bot_label :: obj

record 'db ui =
  en_mode :: bool
  bottom_sel_index :: int
  window_start :: int
  results_count :: int
  search_word :: mem
  furigana_word :: mem
  entries_set :: bool
  wid :: widgets
  lvs :: lv_state
  dict :: "'db dict_state"

text \<open>
  The parameters: the SQLite engine, LVGL, and what the uninitialised stack arrays of
  \<open>sanitize_sql_function\<close> and \<open>dict_search\<close> hold.
\<close>

record 'db env =
  engine :: "'db sqlite"
  lvgl_api :: lvgl
  sanitize_buf :: mem
  kata_buf :: mem

definition ui_init :: "lv_state \<Rightarrow> 'db ui" where
  "ui_init s = \<lparr>en_mode = False, bottom_sel_index = 0, window_start = 0, results_count = 0,
     search_word = replicate 512 0, furigana_word = replicate 512 0, entries_set = False,
     wid = \<lparr>selected_label = 0, accent_label = 0, details_label = 0, furigana = 0, search = 0,
            list_items = replicate list_element_count 0, bot_item = 0, bot_label = 0\<rparr>,
     lvs = s, dict = dict_init\<rparr>"

section \<open>Terminal setup\<close>

definition O_NONBLOCK :: "32 word" where "O_NONBLOCK = push_bit 11 1"
definition ICANON :: "32 word" where "ICANON = push_bit 1 1"
definition ECHO :: "32 word" where "ECHO = push_bit 3 1"

text \<open>The flags \<open>set_stdin_nonblock\<close> and \<open>enable_raw_mode\<close> write, from those they read.\<close>

definition set_stdin_nonblock :: "32 word \<Rightarrow> 32 word" where
  "set_stdin_nonblock flags = flags OR O_NONBLOCK"

definition enable_raw_mode :: "32 word \<Rightarrow> 32 word" where
  "enable_raw_mode c_lflag = c_lflag AND NOT (ICANON OR ECHO)"

section \<open>Labels and the list window\<close>

definition lv_call_ui :: "lv_call \<Rightarrow> 'db ui \<Rightarrow> 'db ui" where
  "lv_call_ui c u = u\<lparr>lvs := snd (run_state (lv_do c) (lvs u))\<rparr>"

abbreviation ui_set_text :: "obj \<Rightarrow> byte list \<Rightarrow> 'db ui \<Rightarrow> 'db ui" where
  "ui_set_text x t u \<equiv> lv_call_ui (Set_text x t) u"

text \<open>The C string at an offset of an object, as the callee reads it.\<close>

definition cstring :: "mem \<Rightarrow> nat \<Rightarrow> byte list option" where
  "cstring m p = do { n \<leftarrow> strlen m p; Some (take n (drop p m)) }"

text \<open>\<open>entries[i].field\<close>: \<open>entries\<close> is null or points to \<open>g_results\<close>.\<close>

definition entry_text :: "'db ui \<Rightarrow> int \<Rightarrow> nat \<Rightarrow> byte list option" where
  "entry_text u i field =
     (if entries_set u \<and> 0 \<le> i \<and> nat i < length (g_results (dict u))
      then cstring (g_results (dict u) ! nat i) field else None)"

definition update_search_bar :: "mem \<Rightarrow> mem \<Rightarrow> 'db ui \<Rightarrow> 'db ui option" where
  "update_search_bar f_word s_word u = do {
     f \<leftarrow> cstring f_word 0;
     s \<leftarrow> cstring s_word 0;
     Some (ui_set_text (search (wid u)) s (ui_set_text (furigana (wid u)) f u)) }"

definition update_bottom_highlight :: "'db ui \<Rightarrow> 'db ui" where
  "update_bottom_highlight u = u"

definition update_results :: "'db ui \<Rightarrow> 'db ui" where
  "update_results u =
     lv_call_ui (Set_text_fmt (bot_label (wid u)) ''%d/%d'' [window_start u + 1, results_count u]) u"

text \<open>The loop of \<open>populate_list\<close> over the list items, from item \<open>i\<close> on.\<close>

function populate_items :: "lvgl \<Rightarrow> int \<Rightarrow> nat \<Rightarrow> 'db ui \<Rightarrow> 'db ui option" where
  "populate_items L start i u =
     (if i < list_element_count then
        if i < length (list_items (wid u)) then do {
          let label = get_child L (objs (lvs u)) (list_items (wid u) ! i) 0;
          let idx = start + int i;
          t \<leftarrow> (if idx < results_count u then entry_text u idx WORD else Some []);
          populate_items L start (i + 1) (ui_set_text label t u) }
        else None
      else Some u)"
  by pat_completeness auto
termination
  by (relation "measure (\<lambda>(L, start, i, u). list_element_count - i)") auto

declare populate_items.simps [simp del]

definition populate_list :: "lvgl \<Rightarrow> int \<Rightarrow> 'db ui \<Rightarrow> 'db ui option" where
  "populate_list L start u = do {
     let u = u\<lparr>window_start := start\<rparr>;
     word \<leftarrow> entry_text u start WORD;
     let u = ui_set_text (selected_label (wid u)) word u;
     accent \<leftarrow> entry_text u start ACCENT;
     let u = ui_set_text (accent_label (wid u)) accent u;
     detail \<leftarrow> entry_text u start DETAIL;
     let u = ui_set_text (details_label (wid u)) detail u;
     _ \<leftarrow> printf_noargs word;
     _ \<leftarrow> printf_noargs detail;
     u \<leftarrow> populate_items L start 0 u;
     Some (update_results u) }"

section \<open>The key handler\<close>

text \<open>The two prompts.\<close>

definition PROMPT_JP :: "byte list" where
  "PROMPT_JP = lit ''type search keyword (romaji JP -> EN)''"

definition PROMPT_EN :: "byte list" where
  "PROMPT_EN = lit ''type search keyword (EN -> JP)''"

text \<open>A store through an \<open>int\<close> index.\<close>

definition wr_int :: "mem \<Rightarrow> int \<Rightarrow> byte \<Rightarrow> mem option" where
  "wr_int m i b = (if 0 \<le> i then wr m (nat i) b else None)"

text \<open>\<open>romaji_to_kana(search_word, furigana_word, sizeof(furigana_word))\<close>, result unused.\<close>

definition convert_search :: "'db ui \<Rightarrow> 'db ui option" where
  "convert_search u = do {
     (_, f) \<leftarrow> rust_romaji_to_kana (Some (search_word u)) (Some (furigana_word u)) (length (furigana_word u));
     f \<leftarrow> f;
     Some (u\<lparr>furigana_word := f\<rparr>) }"

definition key_letter :: "byte \<Rightarrow> 'db ui \<Rightarrow> 'db ui option" where
  "key_letter c u = do {
     len \<leftarrow> strlen (search_word u) 0;
     m \<leftarrow> wr_int (search_word u) (int_of_size len) c;
     m \<leftarrow> wr_int m (int_of_size len + 1) 0;
     u \<leftarrow> convert_search (u\<lparr>search_word := m\<rparr>);
     let u = lv_call_ui (Set_prop ''lv_obj_set_style_text_color'' (search (wid u)) [Hex 0xF58E27, Num 0]) u;
     let u = lv_call_ui (Set_prop ''lv_obj_set_style_text_color'' (furigana (wid u)) [Hex 0xF58E27, Num 0]) u;
     update_search_bar (furigana_word u) (search_word u) u }"

definition key_backspace :: "'db ui \<Rightarrow> 'db ui option" where
  "key_backspace u = do {
     len \<leftarrow> strlen (search_word u) 0;
     m \<leftarrow> wr_int (search_word u) (int_of_size len - 1) 0;
     u \<leftarrow> convert_search (u\<lparr>search_word := m\<rparr>);
     update_search_bar (furigana_word u) (search_word u) u }"

definition key_enter :: "'db env \<Rightarrow> 'db ui \<Rightarrow> 'db ui option" where
  "key_enter E u = do {
     u \<leftarrow> (if \<not> en_mode u then do {
            (n, d) \<leftarrow> dict_search (engine E) (sanitize_buf E) (kata_buf E) (dict u) (furigana_word u);
            let u = u\<lparr>dict := d, entries_set := True, results_count := int n\<rparr>;
            m \<leftarrow> wr (search_word u) 0 0;
            let u = u\<lparr>search_word := m\<rparr>;
            Some (ui_set_text (search (wid u)) PROMPT_JP u) }
          else do {
            (n, d) \<leftarrow> dict_search_en (engine E) (sanitize_buf E) (dict u) (search_word u);
            let u = u\<lparr>dict := d, entries_set := True, results_count := int n\<rparr>;
            u \<leftarrow> update_search_bar (search_word u) (search_word u) u;
            m \<leftarrow> wr (search_word u) 0 0;
            let u = u\<lparr>search_word := m\<rparr>;
            Some (ui_set_text (search (wid u)) PROMPT_EN u) });
     let u = lv_call_ui (Set_prop ''lv_obj_set_style_text_color'' (search (wid u)) [Hex 0xffffff, Num 0]) u;
     populate_list (lvgl_api E) 0 u }"

definition key_mode :: "'db ui \<Rightarrow> 'db ui option" where
  "key_mode u =
     (if \<not> en_mode u then do {
        m \<leftarrow> wr (search_word u) 0 0;
        Some (ui_set_text (search (wid u)) PROMPT_EN (u\<lparr>en_mode := True, search_word := m\<rparr>)) }
      else do {
        m \<leftarrow> wr (search_word u) 0 0;
        Some (ui_set_text (search (wid u)) PROMPT_JP (u\<lparr>en_mode := False, search_word := m\<rparr>)) })"

text \<open>
  \<open>poll_keyboard\<close>. The byte \<open>read\<close> stores, if any, is the argument: without one \<open>c\<close> keeps its
  initial value \<open>'0'\<close>. \<open>char\<close> is signed on the simulator's host.
\<close>

definition poll_keyboard :: "'db env \<Rightarrow> byte option \<Rightarrow> 'db ui \<Rightarrow> 'db ui option" where
  "poll_keyboard E inp u = do {
     let c = (case inp of Some b \<Rightarrow> b | None \<Rightarrow> 0x30);
     u \<leftarrow> (if 0x61 \<le> sint c \<and> sint c \<le> 0x7A then key_letter c u else Some u);
     u \<leftarrow> (if c = 127 then key_backspace u else Some u);
     u \<leftarrow> (if c = 0x31 then
            if window_start u > 0 then populate_list (lvgl_api E) (window_start u - 1) u else Some u
          else Some u);
     u \<leftarrow> (if c = 0x32 then
            if window_start u < results_count u - 1
            then populate_list (lvgl_api E) (window_start u + 1) u else Some u
          else Some u);
     let u = (if c = 0x33 then
                if bottom_sel_index u > 0
                then update_bottom_highlight (u\<lparr>bottom_sel_index := bottom_sel_index u - 1\<rparr>) else u
              else u);
     let u = (if c = 0x34 then
                if bottom_sel_index u < BOTTOM_ITEM_COUNT - 1
                then update_bottom_highlight (u\<lparr>bottom_sel_index := bottom_sel_index u + 1\<rparr>) else u
              else u);
     u \<leftarrow> (if c = 0x0D \<or> c = 0x0A then key_enter E u else Some u);
     if c = 0x33 then key_mode u else Some u }"

section \<open>Construction of the widgets\<close>

definition create_root :: "lvgl \<Rightarrow> obj lvm" where
  "create_root L = do {
     let scr = lv_screen L;
     lv ''lv_obj_remove_flag'' scr [Sym ''LV_OBJ_FLAG_SCROLLABLE''];
     lv ''lv_obj_set_style_text_font'' scr [Sym ''jp_font_24'', Num 0];
     root \<leftarrow> lv_obj_create L scr;
     lv ''lv_obj_set_size'' root [Pct 100, Pct 100];
     lv ''lv_obj_set_flex_flow'' root [Sym ''LV_FLEX_FLOW_COLUMN''];
     State_Monad.return root }"

definition create_top :: "lvgl \<Rightarrow> obj \<Rightarrow> (obj \<times> obj \<times> obj) lvm" where
  "create_top L root = do {
     top \<leftarrow> lv_obj_create L root;
     lv ''lv_obj_set_width'' top [Pct 100];
     lv ''lv_obj_set_height'' top [Num 40];
     furigana \<leftarrow> lv_label_create L top;
     lv_label_set_text furigana (lit '''');
     lv ''lv_obj_set_style_text_font'' furigana [Sym ''jp_font_16_hiragana'', Num 0];
     lv ''lv_obj_set_height'' furigana [Num 16];
     search \<leftarrow> lv_label_create L top;
     lv_label_set_text search (lit ''type search keyword (romaji JP -> EN)'');
     lv ''lv_obj_set_style_text_font'' search [Sym ''lv_font_montserrat_14'', Num 0];
     lv ''lv_obj_set_height'' search [Num 14];
     lv ''lv_obj_set_pos'' search [Num 0, Num 16];
     State_Monad.return (top, furigana, search) }"

definition create_selected :: "lvgl \<Rightarrow> obj \<Rightarrow> (obj \<times> obj \<times> obj) lvm" where
  "create_selected L root = do {
     selected \<leftarrow> lv_obj_create L root;
     lv ''lv_obj_set_width'' selected [Pct 100];
     lv ''lv_obj_set_height'' selected [Num 30];
     lv ''lv_obj_set_flex_flow'' selected [Sym ''LV_FLEX_FLOW_ROW''];
     lv ''lv_obj_set_flex_align'' selected [Sym ''LV_FLEX_ALIGN_START'', Sym ''LV_FLEX_ALIGN_CENTER'', Sym ''LV_FLEX_ALIGN_CENTER''];
     selected_label \<leftarrow> lv_label_create L selected;
     lv ''lv_obj_set_style_text_color'' selected_label [Hex 0xF58E27, Num 0];
     lv ''lv_obj_set_width'' selected_label [Sym ''LV_SIZE_CONTENT''];
     lv ''lv_obj_set_pos'' selected_label [Num 0, Num (-10)];
     lv ''lv_obj_align'' selected_label [Sym ''LV_ALIGN_TOP_LEFT'', Num 0, Num 0];
     lv ''lv_obj_set_style_radius'' selected_label [Num 0, Num 0];
     accent_label \<leftarrow> lv_label_create L selected;
     lv ''lv_obj_set_style_text_font'' accent_label [Sym ''lv_font_montserrat_10'', Num 0];
     lv ''lv_obj_set_style_text_color'' accent_label [Hex 0xF58E27, Num 0];
     lv ''lv_obj_set_flex_grow'' accent_label [Num 1];
     lv ''lv_obj_set_pos'' accent_label [Num 0, Num (-10)];
     lv ''lv_obj_align'' accent_label [Sym ''LV_ALIGN_TOP_LEFT'', Num 0, Num 0];
     lv ''lv_obj_set_style_radius'' accent_label [Num 0, Num 0];
     State_Monad.return (selected, selected_label, accent_label) }"

definition create_middle :: "lvgl \<Rightarrow> obj \<Rightarrow> (obj \<times> obj) lvm" where
  "create_middle L root = do {
     middle \<leftarrow> lv_obj_create L root;
     lv ''lv_obj_set_width'' middle [Pct 100];
     lv ''lv_obj_set_flex_grow'' middle [Num 1];
     lv ''lv_obj_set_flex_flow'' middle [Sym ''LV_FLEX_FLOW_ROW''];
     list \<leftarrow> lv_obj_create L middle;
     lv ''lv_obj_set_width'' list [Num 40];
     lv ''lv_obj_set_height'' list [Pct 100];
     lv ''lv_obj_set_flex_flow'' list [Sym ''LV_FLEX_FLOW_COLUMN''];
     State_Monad.return (middle, list) }"

text \<open>The body of the loop that makes the list items.\<close>

definition create_list_item :: "lvgl \<Rightarrow> obj \<Rightarrow> obj lvm" where
  "create_list_item L list = do {
     item \<leftarrow> lv_obj_create L list;
     lv ''lv_obj_set_size'' item [Num 40, Num 32];
     lv ''lv_obj_set_style_bg_opa'' item [Sym ''LV_OPA_TRANSP'', Num 0];
     label \<leftarrow> lv_label_create L item;
     lv ''lv_obj_set_style_text_color'' label [Hex 0xffffff, Num 0];
     lv ''lv_obj_set_style_bg_opa'' label [Sym ''LV_OPA_TRANSP'', Num 0];
     lv ''lv_obj_set_width'' label [Pct 100];
     lv ''lv_label_set_long_mode'' label [Sym ''LV_LABEL_LONG_CLIP''];
     lv ''lv_obj_set_style_text_align'' label [Sym ''LV_TEXT_ALIGN_LEFT'', Num 0];
     lv ''lv_obj_align'' label [Sym ''LV_ALIGN_TOP_LEFT'', Num 0, Num 0];
     lv ''lv_obj_set_pos'' label [Num 0, Num (-10)];
     lv ''lv_obj_set_style_pad_all'' item [Num 0, Num 0];
     lv ''lv_obj_set_style_pad_row'' item [Num 0, Num 0];
     lv ''lv_obj_set_style_pad_column'' item [Num 0, Num 0];
     lv ''lv_obj_remove_flag'' item [Sym ''LV_OBJ_FLAG_SCROLLABLE''];
     lv ''lv_obj_set_style_radius'' item [Num 0, Num 0];
     lv ''lv_obj_set_style_pad_all'' label [Num 0, Num 0];
     lv ''lv_obj_set_style_pad_row'' label [Num 0, Num 0];
     lv ''lv_obj_set_style_pad_column'' label [Num 0, Num 0];
     lv ''lv_obj_remove_flag'' label [Sym ''LV_OBJ_FLAG_SCROLLABLE''];
     lv ''lv_obj_set_style_radius'' label [Num 0, Num 0];
     lv ''lv_obj_set_style_border_width'' label [Num 0, Num 0];
     State_Monad.return item }"

fun create_list_items :: "lvgl \<Rightarrow> obj \<Rightarrow> nat \<Rightarrow> obj list lvm" where
  "create_list_items L list 0 = State_Monad.return []"
| "create_list_items L list (Suc n) = do {
     item \<leftarrow> create_list_item L list;
     items \<leftarrow> create_list_items L list n;
     State_Monad.return (item # items) }"

definition create_details :: "lvgl \<Rightarrow> obj \<Rightarrow> (obj \<times> obj) lvm" where
  "create_details L middle = do {
     details \<leftarrow> lv_obj_create L middle;
     lv ''lv_obj_set_flex_grow'' details [Num 1];
     lv ''lv_obj_set_height'' details [Pct 100];
     lv ''lv_obj_set_flex_align'' details [Sym ''LV_FLEX_ALIGN_START'', Sym ''LV_FLEX_ALIGN_START'', Sym ''LV_FLEX_ALIGN_START''];
     details_label \<leftarrow> lv_label_create L details;
     lv ''lv_obj_set_style_text_font'' details_label [Sym ''lv_font_montserrat_10'', Num 0];
     lv ''lv_obj_set_style_text_color'' details_label [Hex 0xF58E27, Num 0];
     lv ''lv_obj_set_width'' details_label [Pct 100];
     lv ''lv_label_set_long_mode'' details_label [Sym ''LV_LABEL_LONG_WRAP''];
     lv ''lv_obj_align'' details_label [Sym ''LV_ALIGN_TOP_LEFT'', Num 0, Num 0];
     lv ''lv_obj_set_style_radius'' details_label [Num 0, Num 0];
     State_Monad.return (details, details_label) }"

definition create_bottom :: "lvgl \<Rightarrow> obj \<Rightarrow> (obj \<times> obj \<times> obj) lvm" where
  "create_bottom L list = do {
     bottom \<leftarrow> lv_obj_create L list;
     lv ''lv_obj_set_style_bg_opa'' bottom [Sym ''LV_OPA_TRANSP'', Num 0];
     lv ''lv_obj_set_width'' bottom [Pct 100];
     lv ''lv_obj_set_height'' bottom [Num 20];
     lv ''lv_obj_set_flex_flow'' bottom [Sym ''LV_FLEX_FLOW_ROW''];
     bot_item \<leftarrow> lv_obj_create L bottom;
     lv ''lv_obj_set_height'' bottom [Num 40];
     lv ''lv_obj_set_style_bg_opa'' bot_item [Sym ''LV_OPA_TRANSP'', Num 0];
     lv ''lv_obj_set_height'' bot_item [Pct 100];
     lv ''lv_obj_set_width'' bot_item [Sym ''LV_SIZE_CONTENT''];
     lv ''lv_obj_set_flex_grow'' bot_item [Num 1];
     bot_label \<leftarrow> lv_label_create L bot_item;
     lv ''lv_obj_set_style_bg_opa'' bot_label [Sym ''LV_OPA_TRANSP'', Num 0];
     lv ''lv_obj_set_style_text_color'' bot_label [Hex 0xffffff, Num 0];
     lv ''lv_obj_set_style_text_font'' bot_label [Sym ''lv_font_montserrat_10'', Num 0];
     lv ''lv_obj_set_width'' bot_label [Sym ''LV_SIZE_CONTENT''];
     lv ''lv_obj_center'' bot_label [];
     lv ''lv_obj_set_style_pad_all'' bot_item [Num 0, Num 0];
     lv ''lv_obj_set_style_pad_row'' bot_item [Num 0, Num 0];
     lv ''lv_obj_set_style_pad_column'' bot_item [Num 0, Num 0];
     lv ''lv_obj_remove_flag'' bot_item [Sym ''LV_OBJ_FLAG_SCROLLABLE''];
     lv ''lv_obj_set_style_radius'' bot_item [Num 0, Num 0];
     lv ''lv_obj_set_style_pad_all'' bot_label [Num 0, Num 0];
     lv ''lv_obj_set_style_pad_row'' bot_label [Num 0, Num 0];
     lv ''lv_obj_set_style_pad_column'' bot_label [Num 0, Num 0];
     lv ''lv_obj_remove_flag'' bot_label [Sym ''LV_OBJ_FLAG_SCROLLABLE''];
     lv ''lv_obj_set_style_radius'' bot_label [Num 0, Num 0];
     lv ''lv_obj_set_style_border_width'' bot_label [Num 0, Num 0];
     State_Monad.return (bottom, bot_item, bot_label) }"

text \<open>The styling after the list is filled, by container.\<close>

definition style_top :: "obj \<Rightarrow> obj \<Rightarrow> obj \<Rightarrow> obj \<Rightarrow> unit lvm" where
  "style_top root top_c furigana_l search_l = do {
     lv ''lv_obj_set_style_bg_color'' root [Hex 0x202020, Num 0];
     lv ''lv_obj_set_style_pad_all'' root [Num 0, Num 0];
     lv ''lv_obj_set_style_pad_row'' root [Num 0, Num 0];
     lv ''lv_obj_set_style_pad_column'' root [Num 0, Num 0];
     lv ''lv_obj_remove_flag'' root [Sym ''LV_OBJ_FLAG_SCROLLABLE''];
     lv ''lv_obj_set_style_radius'' root [Num 0, Num 0];
     lv ''lv_obj_set_style_bg_opa'' top_c [Sym ''LV_OPA_TRANSP'', Num 0];
     lv ''lv_obj_set_style_pad_all'' top_c [Num 0, Num 0];
     lv ''lv_obj_set_style_pad_row'' top_c [Num 0, Num 0];
     lv ''lv_obj_set_style_pad_column'' top_c [Num 0, Num 0];
     lv ''lv_obj_remove_flag'' top_c [Sym ''LV_OBJ_FLAG_SCROLLABLE''];
     lv ''lv_obj_set_style_radius'' top_c [Num 0, Num 0];
     lv ''lv_obj_set_style_text_color'' furigana_l [Hex 0xffffff, Num 0];
     lv ''lv_obj_set_style_pad_all'' furigana_l [Num 0, Num 0];
     lv ''lv_obj_set_style_pad_row'' furigana_l [Num 0, Num 0];
     lv ''lv_obj_set_style_pad_column'' furigana_l [Num 0, Num 0];
     lv ''lv_obj_remove_flag'' furigana_l [Sym ''LV_OBJ_FLAG_SCROLLABLE''];
     lv ''lv_obj_set_style_radius'' furigana_l [Num 0, Num 0];
     lv ''lv_obj_set_style_text_color'' search_l [Hex 0xffffff, Num 0];
     lv ''lv_obj_set_style_pad_all'' search_l [Num 0, Num 0];
     lv ''lv_obj_set_style_pad_row'' search_l [Num 0, Num 0];
     lv ''lv_obj_set_style_pad_column'' search_l [Num 0, Num 0];
     lv ''lv_obj_remove_flag'' search_l [Sym ''LV_OBJ_FLAG_SCROLLABLE''];
     lv ''lv_obj_set_style_radius'' search_l [Num 0, Num 0] }"

definition style_middle :: "obj \<Rightarrow> obj \<Rightarrow> obj \<Rightarrow> unit lvm" where
  "style_middle selected middle list = do {
     lv ''lv_obj_set_style_text_color'' selected [Hex 0xffffff, Num 0];
     lv ''lv_obj_set_style_bg_opa'' selected [Sym ''LV_OPA_TRANSP'', Num 0];
     lv ''lv_obj_set_style_pad_all'' selected [Num 0, Num 0];
     lv ''lv_obj_set_style_pad_row'' selected [Num 0, Num 0];
     lv ''lv_obj_set_style_pad_column'' selected [Num 0, Num 0];
     lv ''lv_obj_remove_flag'' selected [Sym ''LV_OBJ_FLAG_SCROLLABLE''];
     lv ''lv_obj_set_style_radius'' selected [Num 0, Num 0];
     lv ''lv_obj_set_style_bg_opa'' middle [Sym ''LV_OPA_TRANSP'', Num 0];
     lv ''lv_obj_set_style_pad_all'' middle [Num 0, Num 0];
     lv ''lv_obj_set_style_pad_row'' middle [Num 0, Num 0];
     lv ''lv_obj_set_style_pad_column'' middle [Num 0, Num 0];
     lv ''lv_obj_remove_flag'' middle [Sym ''LV_OBJ_FLAG_SCROLLABLE''];
     lv ''lv_obj_set_style_radius'' middle [Num 0, Num 0];
     lv ''lv_obj_set_style_border_width'' middle [Num 0, Num 0];
     lv ''lv_obj_set_style_bg_opa'' list [Sym ''LV_OPA_TRANSP'', Num 0];
     lv ''lv_obj_set_style_pad_all'' list [Num 0, Num 0];
     lv ''lv_obj_set_style_pad_row'' list [Num 0, Num 0];
     lv ''lv_obj_set_style_pad_column'' list [Num 0, Num 0];
     lv ''lv_obj_remove_flag'' list [Sym ''LV_OBJ_FLAG_SCROLLABLE''];
     lv ''lv_obj_set_style_radius'' list [Num 0, Num 0];
     lv ''lv_obj_set_style_border_width'' list [Num 0, Num 0] }"

definition style_bottom :: "obj \<Rightarrow> obj \<Rightarrow> unit lvm" where
  "style_bottom details bottom = do {
     lv ''lv_obj_set_style_text_color'' details [Hex 0xffffff, Num 0];
     lv ''lv_obj_set_style_bg_opa'' details [Sym ''LV_OPA_TRANSP'', Num 0];
     lv ''lv_obj_set_style_pad_all'' details [Num 0, Num 0];
     lv ''lv_obj_set_style_pad_row'' details [Num 0, Num 0];
     lv ''lv_obj_set_style_pad_column'' details [Num 0, Num 0];
     lv ''lv_obj_remove_flag'' details [Sym ''LV_OBJ_FLAG_SCROLLABLE''];
     lv ''lv_obj_set_style_radius'' details [Num 0, Num 0];
     lv ''lv_obj_set_style_bg_opa'' bottom [Sym ''LV_OPA_TRANSP'', Num 0];
     lv ''lv_obj_set_style_pad_all'' bottom [Num 0, Num 0];
     lv ''lv_obj_set_style_pad_row'' bottom [Num 0, Num 0];
     lv ''lv_obj_set_style_pad_column'' bottom [Num 0, Num 0];
     lv ''lv_obj_remove_flag'' bottom [Sym ''LV_OBJ_FLAG_SCROLLABLE''];
     lv ''lv_obj_set_style_radius'' bottom [Num 0, Num 0];
     lv ''lv_obj_set_style_border_width'' bottom [Num 0, Num 0] }"

text \<open>All widgets of the first part of \<open>create_ui\<close>, in the order the code makes them.\<close>

record containers =
  c_root :: obj
  c_top :: obj
  c_selected :: obj
  c_middle :: obj
  c_list :: obj
  c_details :: obj
  c_bottom :: obj

definition create_widgets :: "lvgl \<Rightarrow> (containers \<times> widgets) lvm" where
  "create_widgets L = do {
     root \<leftarrow> create_root L;
     (top, furigana, search) \<leftarrow> create_top L root;
     (selected, selected_label, accent_label) \<leftarrow> create_selected L root;
     (middle, list) \<leftarrow> create_middle L root;
     items \<leftarrow> create_list_items L list (list_element_count - 1);
     (details, details_label) \<leftarrow> create_details L middle;
     (bottom, bot_item, bot_label) \<leftarrow> create_bottom L list;
     State_Monad.return
       (\<lparr>c_root = root, c_top = top, c_selected = selected, c_middle = middle, c_list = list,
         c_details = details, c_bottom = bottom\<rparr>,
        \<lparr>selected_label = selected_label, accent_label = accent_label, details_label = details_label,
         furigana = furigana, search = search, list_items = selected # items,
         bot_item = bot_item, bot_label = bot_label\<rparr>) }"

definition HELP_TEXT :: "byte list" where
  "HELP_TEXT = lit ''INPUT THROUGH CLI, NOT NUTTX WINDOW'' @ [10] @
     lit ''emulated controls:'' @ [10] @ lit ''1: up'' @ [10] @ lit ''2: down'' @ [10] @
     lit ''3: switch translation mode (JP -> EN)/(EN -> JP)'' @ [10] @ lit ''enter: search''"

definition create_ui :: "lvgl \<Rightarrow> 'db ui \<Rightarrow> 'db ui option" where
  "create_ui L u = do {
     let ((c, w), s) = run_state (create_widgets L) (lvs u);
     u \<leftarrow> populate_list L 0 (u\<lparr>wid := w, lvs := s\<rparr>);
     let u = update_bottom_highlight u;
     let u = ui_set_text (details_label (wid u)) HELP_TEXT u;
     let s = snd (run_state (style_top (c_root c) (c_top c) (furigana (wid u)) (search (wid u))) (lvs u));
     let s = snd (run_state (style_middle (c_selected c) (c_middle c) (c_list c)) s);
     let s = snd (run_state (style_bottom (c_details c) (c_bottom c)) s);
     Some (u\<lparr>lvs := s\<rparr>) }"

section \<open>Start of the program\<close>

text \<open>
  \<open>main\<close> up to its loop: open the database, one search whose count is not kept, the widgets.
  \<open>disp\<close> tells whether LVGL found a display. The loop then calls \<open>keypad_read_cb\<close> (which is
  \<open>poll_keyboard\<close>) whenever LVGL's timer reads the input device.
\<close>

definition keypad_read_cb :: "'db env \<Rightarrow> byte option \<Rightarrow> 'db ui \<Rightarrow> 'db ui option" where
  "keypad_read_cb E inp u = poll_keyboard E inp u"

definition main_init :: "'db env \<Rightarrow> bool \<Rightarrow> lv_state \<Rightarrow> (int + 'db ui) option" where
  "main_init E disp s =
     (if \<not> disp then Some (Inl 1)
      else do {
        let u = ui_init s;
        let u = u\<lparr>dict := snd (dict_open (engine E) (dict u) (lit ''/host/dict.db''))\<rparr>;
        (n, d) \<leftarrow> dict_search (engine E) (sanitize_buf E) (kata_buf E) (dict u) (lit ''ame'' @ [0]);
        let u = u\<lparr>dict := d, entries_set := True\<rparr>;
        u \<leftarrow> create_ui (lvgl_api E) u;
        Some (Inr u) })"

text \<open>The idle time of one round of the loop: at least one millisecond.\<close>

definition idle_ms :: "32 word \<Rightarrow> 32 word" where
  "idle_ms idle = (if idle \<noteq> 0 then idle else 1)"

end
