(* ===== verification/UiProps.thy ===== *)
theory UiProps
  imports Ui
begin

text \<open>
  Properties of the simulator's user interface: the invariant \<open>ui_ok\<close> of the global state and
  the exact condition under which a key keeps it, what the list window shows, what typing
  and Enter do end to end, and the screen \<open>create_ui\<close> builds.
\<close>

section \<open>Invariant\<close>

definition readable :: "mem \<Rightarrow> bool" where
  "readable d \<longleftrightarrow> entry_ok d \<and> (\<exists>w t. entry_shows d w t
     \<and> printf_noargs w = Some () \<and> printf_noargs t = Some ())"

definition word_at :: "mem list \<Rightarrow> nat \<Rightarrow> byte list" where
  "word_at rs i = takeWhile (\<lambda>b. b \<noteq> 0) (drop WORD (rs ! i))"

definition detail_at :: "mem list \<Rightarrow> nat \<Rightarrow> byte list" where
  "detail_at rs i = takeWhile (\<lambda>b. b \<noteq> 0) (drop DETAIL (rs ! i))"

text \<open>What the list window relies on, and the whole invariant.\<close>

definition list_ok :: "'db ui \<Rightarrow> bool" where
  "list_ok u \<longleftrightarrow> entries_set u \<and> results_ok readable (g_results (dict u))
     \<and> 0 \<le> results_count u \<and> results_count u \<le> 64
     \<and> length (list_items (wid u)) = list_element_count"

definition ui_ok :: "'db ui \<Rightarrow> bool" where
  "ui_ok u \<longleftrightarrow> list_ok u
     \<and> length (search_word u) = 512 \<and> (\<exists>s. cstr (search_word u) 0 s)
     \<and> length (furigana_word u) = 512 \<and> (\<exists>f. cstr (furigana_word u) 0 f)
     \<and> 0 \<le> window_start u \<and> (window_start u = 0 \<or> window_start u < results_count u)
     \<and> 0 \<le> bottom_sel_index u \<and> bottom_sel_index u < BOTTOM_ITEM_COUNT"

text \<open>
  Hypotheses on the parameters: the stack arrays have their sizes, statements can be
  prepared or not, and no text of the database asks \<open>printf\<close> for an argument.
\<close>

definition printable_row :: "row \<Rightarrow> bool" where
  "printable_row r \<longleftrightarrow> printf_noargs (word_of r) = Some () \<and> printf_noargs (detail_of r) = Some ()"

definition env_ok :: "'db env \<Rightarrow> bool" where
  "env_ok E \<longleftrightarrow> length (sanitize_buf E) = 512 \<and> length (kata_buf E) = 512
     \<and> (\<forall>db sql binds lim. list_all printable_row (sqlite3_rows (engine E) db sql binds lim))"

section \<open>Reading strings\<close>

lemma takeWhile_cstr: "cstr m p s \<Longrightarrow> takeWhile (\<lambda>b. b \<noteq> 0) (drop p m) = s"
  using cstr_drop [of m p s] cstr_nonzero [of m p s] by (auto simp: takeWhile_append)

lemma cstring_cstr: "cstr m p s \<Longrightarrow> cstring m p = Some s"
  using cstr_drop [of m p s] strlen_cstr [of m p s] by (auto simp: cstring_def)

lemma entry_shows_texts:
  assumes "entry_shows d w t" and "d = rs ! i"
  shows "word_at rs i = w" "detail_at rs i = t"
  using assms takeWhile_cstr by (auto simp: word_at_def detail_at_def entry_shows_def)

lemma entry_text_eq:
  assumes "list_ok u" and "0 \<le> i" and "i < 64"
  shows "entry_text u i WORD = Some (word_at (g_results (dict u)) (nat i))"
    "entry_text u i ACCENT = Some []"
    "entry_text u i DETAIL = Some (detail_at (g_results (dict u)) (nat i))"
    "printf_noargs (word_at (g_results (dict u)) (nat i)) = Some ()"
    "printf_noargs (detail_at (g_results (dict u)) (nat i)) = Some ()"
proof -
  let ?rs = "g_results (dict u)"
  have len: "nat i < length ?rs" and "readable (?rs ! nat i)"
    using assms by (auto simp: list_ok_def results_ok_def DICT_MAX_RESULTS_def list_all_length)
  then obtain w t where s: "entry_shows (?rs ! nat i) w t"
      "printf_noargs w = Some ()" "printf_noargs t = Some ()"
    by (auto simp: readable_def)
  note wt = entry_shows_texts [OF s(1) refl]
  show "entry_text u i WORD = Some (word_at ?rs (nat i))" "entry_text u i ACCENT = Some []"
    "entry_text u i DETAIL = Some (detail_at ?rs (nat i))"
    using assms len s(1) wt by (auto simp: entry_text_def list_ok_def entry_shows_def cstring_cstr)
  show "printf_noargs (word_at ?rs (nat i)) = Some ()" "printf_noargs (detail_at ?rs (nat i)) = Some ()"
    using s wt by simp_all
qed

section \<open>The list window\<close>

lemma lv_call_ui_eq: "lv_call_ui c u = u\<lparr>lvs := (lvs u)\<lparr>calls := c # calls (lvs u)\<rparr>\<rparr>"
  by (simp add: lv_call_ui_def lv_do_def)

lemma entry_text_lvs [simp]: "entry_text (u\<lparr>lvs := s\<rparr>) i f = entry_text u i f"
  by (simp add: entry_text_def)

lemma entry_text_window [simp]: "entry_text (u\<lparr>window_start := n\<rparr>) i f = entry_text u i f"
  by (simp add: entry_text_def)

definition label_of :: "lvgl \<Rightarrow> 'db ui \<Rightarrow> nat \<Rightarrow> obj" where
  "label_of L u k = get_child L (objs (lvs u)) (list_items (wid u) ! k) 0"

text \<open>The text of list item \<open>k\<close> when the window starts at \<open>start\<close>.\<close>

definition item_text :: "'db ui \<Rightarrow> int \<Rightarrow> nat \<Rightarrow> byte list" where
  "item_text u start k =
     (if start + int k < results_count u then word_at (g_results (dict u)) (nat (start + int k)) else [])"

definition item_calls :: "lvgl \<Rightarrow> 'db ui \<Rightarrow> int \<Rightarrow> nat list \<Rightarrow> lv_call list" where
  "item_calls L u start ks = map (\<lambda>k. Set_text (label_of L u k) (item_text u start k)) ks"

lemma populate_items_eq:
  assumes "list_ok u" and "0 \<le> start" and "i \<le> 5"
  shows "populate_items L start i (u\<lparr>lvs := (lvs u)\<lparr>calls := cs\<rparr>\<rparr>) =
    Some (u\<lparr>lvs := (lvs u)\<lparr>calls := rev (item_calls L u start [i..<5]) @ cs\<rparr>\<rparr>)"
  using assms(3)
proof (induction "5 - i" arbitrary: i cs)
  case 0
  then show ?case
    by (subst populate_items.simps) (simp add: list_element_count_def item_calls_def)
next
  case (Suc n)
  then have i: "i < 5" and n: "n = 5 - Suc i" by auto
  have items: "length (list_items (wid u)) = 5" and rc: "results_count u \<le> 64"
    using assms(1) by (auto simp: list_ok_def list_element_count_def)
  have t: "(if start + int i < results_count u then entry_text u (start + int i) WORD else Some [])
      = Some (item_text u start i)"
    using entry_text_eq(1) [OF assms(1), of "start + int i"] assms(2) rc by (simp add: item_text_def)
  have "populate_items L start i (u\<lparr>lvs := (lvs u)\<lparr>calls := cs\<rparr>\<rparr>) =
      populate_items L start (Suc i)
        (u\<lparr>lvs := (lvs u)\<lparr>calls := Set_text (label_of L u i) (item_text u start i) # cs\<rparr>\<rparr>)"
    using i items t
    by (subst populate_items.simps)
       (auto simp: Let_def list_element_count_def lv_call_ui_eq label_of_def split: if_splits)
  also have "\<dots> = Some (u\<lparr>lvs := (lvs u)\<lparr>calls := rev (item_calls L u start [Suc i..<5])
      @ Set_text (label_of L u i) (item_text u start i) # cs\<rparr>\<rparr>)"
    using Suc.hyps(1) [OF n] i by simp
  also have "[i..<5] = i # [Suc i..<5]" using i by (simp add: upt_conv_Cons)
  then have "rev (item_calls L u start [Suc i..<5]) @ Set_text (label_of L u i) (item_text u start i) # cs
      = rev (item_calls L u start [i..<5]) @ cs"
    by (simp add: item_calls_def)
  finally show ?case .
qed

text \<open>All calls of \<open>populate_list\<close>, newest first.\<close>

definition list_calls :: "lvgl \<Rightarrow> 'db ui \<Rightarrow> int \<Rightarrow> lv_call list" where
  "list_calls L u start =
     Set_text_fmt (bot_label (wid u)) ''%d/%d'' [start + 1, results_count u]
     # rev (item_calls L u start [0..<5])
     @ [Set_text (details_label (wid u)) (detail_at (g_results (dict u)) (nat start)),
        Set_text (accent_label (wid u)) [],
        Set_text (selected_label (wid u)) (word_at (g_results (dict u)) (nat start))]"

lemma populate_list_eq:
  assumes "list_ok u" and "0 \<le> start" and "start < 64"
  shows "populate_list L start u =
    Some (u\<lparr>window_start := start,
            lvs := (lvs u)\<lparr>calls := list_calls L u start @ calls (lvs u)\<rparr>\<rparr>)"
proof -
  let ?v = "u\<lparr>window_start := start\<rparr>"
  have "list_ok ?v" using assms(1) by (simp add: list_ok_def)
  moreover have "item_calls L ?v start ks = item_calls L u start ks" for ks
    by (simp add: item_calls_def label_of_def item_text_def)
  ultimately have "populate_items L start 0 (u\<lparr>window_start := start, lvs := (lvs u)\<lparr>calls := cs\<rparr>\<rparr>) =
      Some (u\<lparr>window_start := start,
        lvs := (lvs u)\<lparr>calls := rev (item_calls L u start [0..<5]) @ cs\<rparr>\<rparr>)" for cs
    using populate_items_eq [of ?v start 0 L cs] assms(2) by simp
  then show ?thesis
    using entry_text_eq [OF assms]
    by (simp add: populate_list_def lv_call_ui_eq update_results_def list_calls_def)
qed

section \<open>Keys\<close>

lemma convert_search_eq:
  assumes "cstr (search_word u) 0 s" and "length (furigana_word u) = 512"
  shows "\<exists>f. convert_search u = Some (u\<lparr>furigana_word := f\<rparr>) \<and> length f = 512
    \<and> (\<exists>t. cstr f 0 t \<and> (3 * length s < 512 \<longrightarrow> t = concat (kana_chunks s)))"
proof -
  have n: "(512 :: nat) < 2 ^ 31" by simp
  have conv: "rust_romaji_to_kana (Some (search_word u)) (Some (furigana_word u)) 512 =
      map_option (\<lambda>(r, d). (r, Some d)) (rust_conv (search_word u) (furigana_word u) 512)"
    using rust_romaji_to_kana_eq [OF assms(1), of 512] rust_conv_eq [OF assms(1), of 512] assms(2) by simp
  obtain r f t where f: "rust_conv (search_word u) (furigana_word u) 512 = Some (r, f)"
      "cstr f 0 t" "length f = 512"
    using rust_kana.conv_cstr [OF assms(1), of 512 "furigana_word u"] assms(2) n by auto
  have "t = concat (kana_chunks s)" if "3 * length s < 512"
  proof -
    have "f = blit (furigana_word u) 0 (concat (kana_chunks s) @ [0])"
      using rust_kana.conv_enough [OF assms(1) that] f(1) assms(2) n by simp
    moreover have "length (concat (kana_chunks s)) < 512" using kana_chunks_length [of s] that by simp
    ultimately have "cstr f 0 (concat (kana_chunks s))"
      using kana_chunks_nonzero [OF cstr_nonzero [OF assms(1)]] assms(2) by (auto intro: cstr_blit)
    then show ?thesis using f(2) cstr_unique by blast
  qed
  then show ?thesis using conv f assms(2) by (auto simp: convert_search_def)
qed

text \<open>The two keys that edit the word, on a state whose word is \<open>s\<close>.\<close>

definition edited :: "'db ui \<Rightarrow> byte list \<Rightarrow> 'db ui \<Rightarrow> bool" where
  "edited u s v \<longleftrightarrow> (\<exists>m f t cs.
     v = u\<lparr>search_word := m, furigana_word := f, lvs := (lvs u)\<lparr>calls := cs\<rparr>\<rparr>
     \<and> length m = 512 \<and> cstr m 0 s \<and> length f = 512 \<and> cstr f 0 t
     \<and> (3 * length s < 512 \<longrightarrow> t = concat (kana_chunks s))
     \<and> (search (wid u) \<noteq> furigana (wid u) \<longrightarrow>
          label_text cs (furigana (wid u)) = Text t \<and> label_text cs (search (wid u)) = Text s)
     \<and> (\<forall>x. x \<notin> {furigana (wid u), search (wid u)} \<longrightarrow>
          label_text cs x = label_text (calls (lvs u)) x))"

lemma editedI:
  assumes "length m = 512" "cstr m 0 s" "length f = 512" "cstr f 0 t"
    and "3 * length s < 512 \<longrightarrow> t = concat (kana_chunks s)"
    and "\<And>x. label_text cs x = label_text (calls (lvs u)) x"
  shows "edited u s (u\<lparr>search_word := m, furigana_word := f,
    lvs := (lvs u)\<lparr>calls := Set_text (search (wid u)) s # Set_text (furigana (wid u)) t # cs\<rparr>\<rparr>)"
  unfolding edited_def using assms by (intro exI conjI) (rule refl | simp)+

lemma edited_ok: "ui_ok u \<Longrightarrow> edited u s v \<Longrightarrow> ui_ok v"
  by (auto simp: edited_def ui_ok_def list_ok_def)

lemma key_letter_eq:
  assumes "cstr (search_word u) 0 s" and "length (search_word u) = 512"
    and "length (furigana_word u) = 512" and "length s < 511" and "c \<noteq> 0"
  shows "\<exists>v. key_letter c u = Some v \<and> edited u (s @ [c]) v"
proof -
  let ?m = "blit (search_word u) (length s) [c, 0]"
  have m: "cstr ?m 0 (s @ [c])" "length ?m = 512"
    using cstr_after_blit_end [OF assms(1), of "[c]"] assms(2,4,5) by simp_all
  have w: "wr_int (search_word u) (int_of_size (length s)) c = Some ((search_word u)[length s := c])"
    "wr_int ((search_word u)[length s := c]) (int_of_size (length s) + 1) 0 = Some ?m"
    using assms(2,4) blit_Cons [of "length s" "[0]" "search_word u" c]
    by (simp_all add: wr_int_def int_of_size_small nat_add_distrib blit_single)
  obtain f t where f: "convert_search (u\<lparr>search_word := ?m\<rparr>) = Some (u\<lparr>search_word := ?m, furigana_word := f\<rparr>)"
      "length f = 512" "cstr f 0 t" "3 * length (s @ [c]) < 512 \<longrightarrow> t = concat (kana_chunks (s @ [c]))"
    using convert_search_eq [of "u\<lparr>search_word := ?m\<rparr>" "s @ [c]"] m(1) assms(3) by auto
  show ?thesis
    using strlen_cstr [OF assms(1)] w f(1) cstring_cstr [OF f(3)] cstring_cstr [OF m(1)]
      editedI [OF m(2,1) f(2-4), where u = u]
    by (simp add: key_letter_def update_search_bar_def lv_call_ui_eq)
qed

lemma key_backspace_eq:
  assumes "cstr (search_word u) 0 s" and "length (search_word u) = 512"
    and "length (furigana_word u) = 512" and "s \<noteq> []"
  shows "\<exists>v. key_backspace u = Some v \<and> edited u (butlast s) v"
proof -
  let ?m = "(search_word u)[length s - 1 := 0]"
  have len: "length s < 512" using cstr_bounds [OF assms(1)] assms(2) by simp
  have m: "cstr ?m 0 (butlast s)" "length ?m = 512"
    using cstr_cut [OF assms(1), of "length s - 1"] assms(2) by (simp_all add: butlast_conv_take)
  have w: "wr_int (search_word u) (int_of_size (length s) - 1) 0 = Some ?m"
    using assms(2,4) len by (simp add: wr_int_def int_of_size_small nat_diff_distrib Suc_le_eq)
  obtain f t where f: "convert_search (u\<lparr>search_word := ?m\<rparr>) = Some (u\<lparr>search_word := ?m, furigana_word := f\<rparr>)"
      "length f = 512" "cstr f 0 t" "3 * length (butlast s) < 512 \<longrightarrow> t = concat (kana_chunks (butlast s))"
    using convert_search_eq [of "u\<lparr>search_word := ?m\<rparr>" "butlast s"] m(1) assms(3) by auto
  show ?thesis
    using strlen_cstr [OF assms(1)] w f(1) cstring_cstr [OF f(3)] cstring_cstr [OF m(1)]
      editedI [OF m(2,1) f(2-4), where u = u]
    by (simp add: key_backspace_def update_search_bar_def lv_call_ui_eq)
qed

subsection \<open>Enter\<close>

lemma readable_after_search:
  assumes "results_ok readable rs" and "results_ok entry_ok rs'" and "list_all printable_row rows"
    and "\<forall>i < length rows. i < DICT_MAX_RESULTS \<longrightarrow>
      entry_shows (rs' ! i) (word_of (rows ! i)) (detail_of (rows ! i))"
    and "\<forall>i < DICT_MAX_RESULTS. length rows \<le> i \<longrightarrow> rs' ! i = rs ! i"
  shows "results_ok readable rs'"
proof -
  have "readable (rs' ! i)" if "i < DICT_MAX_RESULTS" for i
  proof (cases "i < length rows")
    case True
    then show ?thesis
      using assms(2-4) that by (auto simp: readable_def results_ok_def list_all_length printable_row_def)
  next
    case False
    then show ?thesis using assms(1,5) that by (auto simp: results_ok_def list_all_length)
  qed
  then show ?thesis using assms(2) by (simp add: results_ok_def list_all_length)
qed

text \<open>What Enter searches, by mode.\<close>

definition enter_search :: "'db env \<Rightarrow> 'db ui \<Rightarrow> (nat \<times> 'db dict_state) option" where
  "enter_search E u =
     (if \<not> en_mode u
      then dict_search (engine E) (sanitize_buf E) (kata_buf E) (dict u) (furigana_word u)
      else dict_search_en (engine E) (sanitize_buf E) (dict u) (search_word u))"

lemma readable_entry_ok: "results_ok readable rs \<Longrightarrow> results_ok entry_ok rs"
  by (auto simp: results_ok_def readable_def list_all_iff)

lemma search_readable:
  assumes "env_ok E" and "results_ok readable (g_results st)" and "cstr query 0 q"
  shows "length q < 512 \<Longrightarrow> \<exists>n d. dict_search (engine E) (sanitize_buf E) (kata_buf E) st query = Some (n, d)
      \<and> n \<le> 64 \<and> results_ok readable (g_results d)"
    and "\<exists>n d. dict_search_en (engine E) (sanitize_buf E) st query = Some (n, d)
      \<and> n \<le> 64 \<and> results_ok readable (g_results d)"
proof -
  note ok = assms(2) readable_entry_ok [OF assms(2)]
  have E: "length (sanitize_buf E) = DICT_DETAIL_LEN" "length (kata_buf E) = 512"
    "\<And>db sql binds lim. list_all printable_row (sqlite3_rows (engine E) db sql binds lim)"
    using assms(1) by (auto simp: env_ok_def DICT_DETAIL_LEN_def)
  show "\<exists>n d. dict_search (engine E) (sanitize_buf E) (kata_buf E) st query = Some (n, d)
      \<and> n \<le> 64 \<and> results_ok readable (g_results d)" if "length q < 512"
  proof (cases "sqlite3_prepare_v2 (engine E) (g_db st) DICT_SQL = 0")
    case True
    then show ?thesis
      using dict_search_result [OF assms(3) that E(2,1) ok(2) True refl] readable_after_search [OF ok(1) _ E(3)]
      by (fastforce simp: DICT_MAX_RESULTS_def)
  qed (use ok in \<open>simp add: dict_search_def\<close>)
  show "\<exists>n d. dict_search_en (engine E) (sanitize_buf E) st query = Some (n, d)
      \<and> n \<le> 64 \<and> results_ok readable (g_results d)"
  proof (cases "sqlite3_prepare_v2 (engine E) (g_db st) DICT_SQL_EN = 0")
    case True
    then show ?thesis
      using dict_search_en_result [OF assms(3) E(1) ok(2) True refl] readable_after_search [OF ok(1) _ E(3)]
      by (fastforce simp: DICT_MAX_RESULTS_def)
  qed (use ok in \<open>simp add: dict_search_en_def\<close>)
qed

lemma enter_search_ok:
  assumes "ui_ok u" and "env_ok E"
  shows "\<exists>n d. enter_search E u = Some (n, d) \<and> n \<le> 64 \<and> results_ok readable (g_results d)"
proof -
  obtain s f where s: "cstr (search_word u) 0 s" and f: "cstr (furigana_word u) 0 f" "length f < 512"
    using assms(1) cstr_bounds by (fastforce simp: ui_ok_def)
  have "results_ok readable (g_results (dict u))" using assms(1) by (simp add: ui_ok_def list_ok_def)
  then show ?thesis
    using search_readable(1) [OF assms(2) _ f] search_readable(2) [OF assms(2) _ s]
    by (simp add: enter_search_def)
qed

definition after_search :: "'db ui \<Rightarrow> nat \<Rightarrow> 'db dict_state \<Rightarrow> 'db ui" where
  "after_search u n d = u\<lparr>dict := d, entries_set := True, results_count := int n,
     search_word := (search_word u)[0 := 0]\<rparr>"

lemma after_search_list_ok:
  "ui_ok u \<Longrightarrow> n \<le> 64 \<Longrightarrow> results_ok readable (g_results d) \<Longrightarrow> list_ok (after_search u n d)"
  by (simp add: ui_ok_def list_ok_def after_search_def)

lemma list_calls_lvs: "list_calls L (v\<lparr>lvs := (lvs v)\<lparr>calls := cs\<rparr>\<rparr>) start = list_calls L v start"
  by (simp add: list_calls_def item_calls_def label_of_def item_text_def)

lemma key_enter_eq:
  assumes "ui_ok u" and "enter_search E u = Some (n, d)" and "n \<le> 64"
    and "results_ok readable (g_results d)"
  shows "\<exists>cs. key_enter E u = Some ((after_search u n d)\<lparr>window_start := 0,
    lvs := (lvs u)\<lparr>calls := list_calls (lvgl_api E) (after_search u n d) 0 @ cs\<rparr>\<rparr>)"
proof -
  have pop: "populate_list L 0 ((after_search u n d)\<lparr>lvs := (lvs u)\<lparr>calls := cs\<rparr>\<rparr>) =
      Some ((after_search u n d)\<lparr>window_start := 0,
        lvs := (lvs u)\<lparr>calls := list_calls L (after_search u n d) 0 @ cs\<rparr>\<rparr>)" for L cs
    using populate_list_eq [of "(after_search u n d)\<lparr>lvs := (lvs u)\<lparr>calls := cs\<rparr>\<rparr>" 0 L]
      after_search_list_ok [OF assms(1,3,4)] list_calls_lvs [of L cs "after_search u n d" 0]
    by (simp add: list_ok_def after_search_def)
  have len: "length (search_word u) = 512" using assms(1) by (simp add: ui_ok_def)
  obtain s where "cstr (search_word u) 0 s" using assms(1) by (auto simp: ui_ok_def)
  then have s: "cstring (search_word u) 0 = Some s" by (rule cstring_cstr)
  note pop' = pop [unfolded after_search_def, simplified]
  show ?thesis
    using assms(2) len s pop'
    by (cases "en_mode u")
       (simp add: key_enter_def enter_search_def update_search_bar_def lv_call_ui_eq after_search_def,
        intro exI, rule refl)+
qed

lemma after_search_ok:
  assumes "ui_ok u" and "n \<le> 64" and "results_ok readable (g_results d)"
  shows "ui_ok ((after_search u n d)\<lparr>window_start := 0, lvs := s\<rparr>)"
proof -
  have "cstr ((search_word u)[0 := 0]) 0 []"
    using assms(1) by (simp add: ui_ok_def cstr_Nil)
  then show ?thesis using assms by (auto simp: ui_ok_def list_ok_def after_search_def)
qed

end
