(* ===== verification/UiKeys.thy ===== *)
theory UiKeys
  imports UiProps
begin

text \<open>
  The key handler as a whole: which keys are safe, the invariant along every run, and what a
  user who types a word and presses Enter gets.
\<close>

section \<open>The cases of the handler\<close>

definition letter_key :: "byte \<Rightarrow> bool" where
  "letter_key c \<longleftrightarrow> 0x61 \<le> sint c \<and> sint c \<le> 0x7A"

lemma letter_key_in: "letter_key c \<Longrightarrow> c \<in> word_of_int ` set [97..122]"
proof -
  assume "letter_key c"
  then have "sint c \<in> set [97..122]" unfolding letter_key_def set_upto by simp
  moreover have "c = word_of_int (sint c)" by simp
  ultimately show "c \<in> word_of_int ` set [97..122]" by blast
qed

lemma letter_key_ascii: "letter_key c \<Longrightarrow> ascii c"
  using letter_key_in [of c] by (auto simp: ascii_def upto.simps)

lemma letter_key_values:
  "letter_key c \<Longrightarrow> c \<noteq> 0 \<and> c \<noteq> 127 \<and> c \<noteq> 0x31 \<and> c \<noteq> 0x32 \<and> c \<noteq> 0x33 \<and> c \<noteq> 0x34 \<and> c \<noteq> 0x0D \<and> c \<noteq> 0x0A"
  by (auto simp: letter_key_def)

lemma not_letter_keys:
  "\<not> letter_key 0x30" "\<not> letter_key 127" "\<not> letter_key 0x31" "\<not> letter_key 0x32" "\<not> letter_key 0x33"
  "\<not> letter_key 0x34" "\<not> letter_key 0x0D" "\<not> letter_key 0x0A"
  by (simp_all add: letter_key_def)

lemma poll_letter: "letter_key c \<Longrightarrow> poll_keyboard E (Some c) u = key_letter c u"
  using letter_key_values [of c] by (simp add: poll_keyboard_def letter_key_def)

lemma poll_backspace: "poll_keyboard E (Some 127) u = key_backspace u"
  by (simp add: poll_keyboard_def)

lemma poll_up: "poll_keyboard E (Some 0x31) u =
   (if window_start u > 0 then populate_list (lvgl_api E) (window_start u - 1) u else Some u)"
  by (simp add: poll_keyboard_def)

lemma poll_down: "poll_keyboard E (Some 0x32) u =
   (if window_start u < results_count u - 1 then populate_list (lvgl_api E) (window_start u + 1) u
    else Some u)"
  by (simp add: poll_keyboard_def)

lemma poll_enter: "c = 0x0D \<or> c = 0x0A \<Longrightarrow> poll_keyboard E (Some c) u = key_enter E u"
  by (auto simp: poll_keyboard_def)

lemma poll_mode: "poll_keyboard E (Some 0x33) u =
   key_mode (if bottom_sel_index u > 0 then u\<lparr>bottom_sel_index := bottom_sel_index u - 1\<rparr> else u)"
  by (simp add: poll_keyboard_def update_bottom_highlight_def)

lemma poll_right: "poll_keyboard E (Some 0x34) u =
   Some (if bottom_sel_index u < 3 then u\<lparr>bottom_sel_index := bottom_sel_index u + 1\<rparr> else u)"
  by (simp add: poll_keyboard_def update_bottom_highlight_def BOTTOM_ITEM_COUNT_def)

lemma poll_other:
  assumes "inp = None \<or> (\<exists>c. inp = Some c \<and> \<not> letter_key c \<and>
    c \<notin> {127, 0x31, 0x32, 0x33, 0x34, 0x0D, 0x0A})"
  shows "poll_keyboard E inp u = Some u"
  using assms by (auto simp: poll_keyboard_def letter_key_def)

lemma key_cases:
  obtains (other) "inp = None \<or> (\<exists>c. inp = Some c \<and> \<not> letter_key c \<and>
      c \<notin> {127, 0x31, 0x32, 0x33, 0x34, 0x0D, 0x0A})"
    | (letter) c where "inp = Some c" "letter_key c"
    | (bs) "inp = Some 127" | (up) "inp = Some 0x31" | (down) "inp = Some 0x32"
    | (mode) "inp = Some 0x33" | (right) "inp = Some 0x34"
    | (enter) c where "inp = Some c" "c = 0x0D \<or> c = 0x0A"
  by (cases inp) auto

lemmas poll_cases = poll_letter poll_backspace poll_up poll_down poll_enter poll_mode poll_right

section \<open>Preservation\<close>

lemma populate_list_ok:
  assumes "ui_ok u" and "0 \<le> start" and "start < results_count u"
  shows "\<exists>v. populate_list L start u = Some v \<and> ui_ok v"
proof -
  have "list_ok u" "start < 64" using assms by (auto simp: ui_ok_def list_ok_def)
  then show ?thesis
    using populate_list_eq [of u start L] assms by (auto simp: ui_ok_def list_ok_def)
qed

lemma key_mode_ok:
  assumes "ui_ok u"
  shows "\<exists>v. key_mode u = Some v \<and> ui_ok v"
proof -
  have "cstr ((search_word u)[0 := 0]) 0 []" using assms by (simp add: ui_ok_def cstr_Nil)
  then show ?thesis
    using assms by (auto simp: key_mode_def ui_ok_def list_ok_def lv_call_ui_eq)
qed

text \<open>Everything but the two faults: the key is handled and the invariant kept.\<close>

definition fault_key :: "byte list \<Rightarrow> byte option \<Rightarrow> bool" where
  "fault_key s inp \<longleftrightarrow>
     (inp = Some 127 \<and> s = []) \<or> (\<exists>c. inp = Some c \<and> letter_key c \<and> length s = 511)"

lemma poll_ok:
  assumes "ui_ok u" and "env_ok E" and s: "cstr (search_word u) 0 s" and "\<not> fault_key s inp"
  shows "\<exists>v. poll_keyboard E inp u = Some v \<and> ui_ok v"
proof -
  have len: "length (search_word u) = 512" "length (furigana_word u) = 512"
    using assms(1) by (simp_all add: ui_ok_def)
  have ls: "length s < 512" using cstr_bounds [OF s] len by simp
  show ?thesis
  proof (cases inp rule: key_cases)
    case other
    then show ?thesis using poll_other assms(1) by auto
  next
    case (letter c)
    then have "length s < 511" "c \<noteq> 0" using assms(4) ls letter_key_values [of c] by (auto simp: fault_key_def)
    then show ?thesis
      using key_letter_eq [OF s len] edited_ok [OF assms(1)] letter by (metis poll_letter)
  next
    case bs
    then have "s \<noteq> []" using assms(4) by (auto simp: fault_key_def)
    then show ?thesis
      using key_backspace_eq [OF s len] edited_ok [OF assms(1)] bs by (metis poll_backspace)
  next
    case up
    then show ?thesis
      using populate_list_ok [OF assms(1), of "window_start u - 1"] assms(1)
      by (auto simp: poll_up ui_ok_def)
  next
    case down
    then show ?thesis
      using populate_list_ok [OF assms(1), of "window_start u + 1"] assms(1)
      by (auto simp: poll_down ui_ok_def)
  next
    case mode
    have "ui_ok (if bottom_sel_index u > 0 then u\<lparr>bottom_sel_index := bottom_sel_index u - 1\<rparr> else u)"
      using assms(1) by (auto simp: ui_ok_def list_ok_def)
    then show ?thesis unfolding mode poll_mode by (rule key_mode_ok)
  next
    case right
    then show ?thesis
      using assms(1) by (auto simp: poll_right ui_ok_def list_ok_def BOTTOM_ITEM_COUNT_def)
  next
    case (enter c)
    obtain n d where nd: "enter_search E u = Some (n, d)" "n \<le> 64" "results_ok readable (g_results d)"
      using enter_search_ok [OF assms(1,2)] by blast
    then show ?thesis
      using key_enter_eq [OF assms(1) nd] after_search_ok [OF assms(1) nd(2,3)] enter
      by (auto simp: poll_enter)
  qed
qed

text \<open>The two faults: the stores at index -1 and at index 512.\<close>

lemma poll_fault:
  assumes "ui_ok u" and s: "cstr (search_word u) 0 s" and "fault_key s inp"
  shows "poll_keyboard E inp u = None"
  using assms(3) unfolding fault_key_def
proof (elim disjE conjE exE)
  assume "inp = Some 127" "s = []"
  then show ?thesis
    using strlen_cstr [OF s] by (simp add: poll_backspace key_backspace_def wr_int_def int_of_size_small)
next
  fix c assume "inp = Some c" "letter_key c" "length s = 511"
  moreover have "length (search_word u) = 512" using assms(1) by (simp add: ui_ok_def)
  ultimately show ?thesis
    using strlen_cstr [OF s] by (simp add: poll_letter key_letter_def wr_int_def int_of_size_small wr_def)
qed

section \<open>The screen\<close>

text \<open>
  The labels the code writes to are different widgets, and the label of list item 0 is the
  one for the selected word.
\<close>

definition screen_ok :: "lvgl \<Rightarrow> 'db ui \<Rightarrow> bool" where
  "screen_ok L u \<longleftrightarrow> label_of L u 0 = selected_label (wid u)
     \<and> distinct ([furigana (wid u), search (wid u), accent_label (wid u), details_label (wid u),
          bot_label (wid u)] @ map (label_of L u) [0..<5])"

text \<open>
  What the list window shows: the words from \<open>window_start\<close> on, empty items behind the last
  result, and the position. The details panel is separate, since it first holds the help.
\<close>

definition list_shown :: "lvgl \<Rightarrow> 'db ui \<Rightarrow> bool" where
  "list_shown L u \<longleftrightarrow>
     (\<forall>k < 5. label_text (calls (lvs u)) (label_of L u k) = Text (item_text u (window_start u) k))
     \<and> label_text (calls (lvs u)) (bot_label (wid u)) =
         Fmt ''%d/%d'' [window_start u + 1, results_count u]"

definition details_shown :: "'db ui \<Rightarrow> bool" where
  "details_shown u \<longleftrightarrow> label_text (calls (lvs u)) (details_label (wid u)) =
     Text (detail_at (g_results (dict u)) (nat (window_start u)))"

lemma label_text_skip:
  "x \<notin> f ` set ks \<Longrightarrow> label_text (rev (map (\<lambda>k. Set_text (f k) (t k)) ks) @ cs) x = label_text cs x"
  by (induction ks arbitrary: cs) auto

lemma label_text_items:
  "distinct (map f ks) \<Longrightarrow> k \<in> set ks \<Longrightarrow>
   label_text (rev (map (\<lambda>k. Set_text (f k) (t k)) ks) @ cs) (f k) = Text (t k)"
proof (induction ks arbitrary: cs)
  case (Cons j ks)
  then show ?case
    by (cases "k = j") (auto simp: label_text_skip)
qed simp

lemma list_calls_shown:
  assumes "screen_ok L u"
  shows "\<And>k. k < 5 \<Longrightarrow> label_text (list_calls L u start @ cs) (label_of L u k) = Text (item_text u start k)"
    and "label_text (list_calls L u start @ cs) (bot_label (wid u)) = Fmt ''%d/%d'' [start + 1, results_count u]"
    and "label_text (list_calls L u start @ cs) (details_label (wid u)) =
      Text (detail_at (g_results (dict u)) (nat start))"
proof -
  have d: "distinct (map (label_of L u) [0..<5])" "bot_label (wid u) \<notin> label_of L u ` set [0..<5]"
      "details_label (wid u) \<notin> label_of L u ` set [0..<5]" "details_label (wid u) \<noteq> bot_label (wid u)"
    using assms unfolding screen_ok_def by (auto simp del: upt_Suc)
  show "label_text (list_calls L u start @ cs) (label_of L u k) = Text (item_text u start k)" if "k < 5" for k
  proof -
    have k: "k \<in> set [0..<5]" using that by auto
    then have "label_of L u k \<noteq> bot_label (wid u)" using d(2) by (metis imageI)
    then show ?thesis
      using label_text_items [OF d(1) k]
      by (simp add: list_calls_def item_calls_def del: upt_Suc set_upt)
  qed
  show "label_text (list_calls L u start @ cs) (bot_label (wid u)) = Fmt ''%d/%d'' [start + 1, results_count u]"
    by (simp add: list_calls_def)
  show "label_text (list_calls L u start @ cs) (details_label (wid u)) =
      Text (detail_at (g_results (dict u)) (nat start))"
    using d(3,4) label_text_skip [of "details_label (wid u)" "label_of L u" "[0..<5]"]
    by (simp add: list_calls_def item_calls_def del: upt_Suc set_upt)
qed

lemma populate_list_shown:
  assumes "list_ok u" and "screen_ok L u" and "0 \<le> start" and "start < 64"
    and "populate_list L start u = Some v"
  shows "screen_ok L v \<and> list_shown L v \<and> details_shown v"
proof -
  have v: "v = u\<lparr>window_start := start,
            lvs := (lvs u)\<lparr>calls := list_calls L u start @ calls (lvs u)\<rparr>\<rparr>"
    using populate_list_eq [OF assms(1,3,4)] assms(5) by simp
  have "label_of L v = label_of L u" "item_text v = item_text u"
    by (auto simp: v label_of_def item_text_def fun_eq_iff)
  then show ?thesis
    using list_calls_shown [OF assms(2)] assms(2)
    by (simp add: screen_ok_def list_shown_def details_shown_def) (simp add: v)
qed

section \<open>Runs\<close>

fun run_keys :: "'db env \<Rightarrow> byte list \<Rightarrow> 'db ui \<Rightarrow> 'db ui option" where
  "run_keys E [] u = Some u"
| "run_keys E (c # cs) u = do { u \<leftarrow> keypad_read_cb E (Some c) u; run_keys E cs u }"

text \<open>The states the loop of \<open>main\<close> reaches from \<open>u0\<close>: one call of the input callback per step.\<close>

inductive ui_reach :: "'db env \<Rightarrow> 'db ui \<Rightarrow> 'db ui \<Rightarrow> bool" for E u0 where
  start: "ui_reach E u0 u0"
| key: "ui_reach E u0 u \<Longrightarrow> keypad_read_cb E inp u = Some v \<Longrightarrow> ui_reach E u0 v"

lemma run_keys_append: "run_keys E (a @ b) u = do { v \<leftarrow> run_keys E a u; run_keys E b v }"
  by (induction a arbitrary: u) (auto intro!: Option.bind_cong)

text \<open>A step that touches only the search bar keeps the list and its labels.\<close>

definition same_list :: "'db ui \<Rightarrow> 'db ui \<Rightarrow> bool" where
  "same_list u v \<longleftrightarrow> wid v = wid u \<and> objs (lvs v) = objs (lvs u) \<and> dict v = dict u
     \<and> window_start v = window_start u \<and> results_count v = results_count u
     \<and> (\<forall>x. x \<notin> {furigana (wid u), search (wid u)} \<longrightarrow>
          label_text (calls (lvs v)) x = label_text (calls (lvs u)) x)"

lemma same_list_refl [simp]: "same_list u u"
  by (simp add: same_list_def)

lemma edited_same_list: "edited u s v \<Longrightarrow> same_list u v"
  by (auto simp: edited_def same_list_def)

lemma key_mode_same_list: "key_mode u = Some v \<Longrightarrow> same_list u v"
  by (auto simp: key_mode_def same_list_def lv_call_ui_eq bind_eq_Some_conv split: if_splits)

lemma same_list_shown:
  assumes "same_list u v" and "screen_ok L u"
  shows "screen_ok L v" "list_shown L u \<Longrightarrow> list_shown L v" "details_shown u \<Longrightarrow> details_shown v"
proof -
  have eq: "label_of L v = label_of L u" "item_text v = item_text u"
    using assms(1) by (auto simp: same_list_def label_of_def item_text_def fun_eq_iff)
  have "label_of L u k \<notin> {furigana (wid u), search (wid u)}" if "k < 5" for k
  proof -
    have "label_of L u k \<in> set (map (label_of L u) [0..<5])" using that by auto
    then show ?thesis using assms(2) unfolding screen_ok_def by (auto simp del: upt_Suc)
  qed
  moreover have "bot_label (wid u) \<notin> {furigana (wid u), search (wid u)}"
      "details_label (wid u) \<notin> {furigana (wid u), search (wid u)}"
    using assms(2) by (auto simp: screen_ok_def)
  ultimately show "screen_ok L v" "list_shown L u \<Longrightarrow> list_shown L v" "details_shown u \<Longrightarrow> details_shown v"
    using assms eq by (auto simp: screen_ok_def list_shown_def details_shown_def same_list_def)
qed

text \<open>A step that refills the list.\<close>

lemma key_enter_shown:
  assumes "ui_ok u" and "screen_ok (lvgl_api E) u" and "enter_search E u = Some (n, d)" and "n \<le> 64"
    and "results_ok readable (g_results d)" and "key_enter E u = Some v"
  shows "screen_ok (lvgl_api E) v \<and> list_shown (lvgl_api E) v \<and> details_shown v
    \<and> dict v = d \<and> results_count v = int n \<and> window_start v = 0 \<and> cstr (search_word v) 0 []"
proof -
  let ?L = "lvgl_api E" and ?w = "after_search u n d"
  obtain cs where v: "v = ?w\<lparr>window_start := 0, lvs := (lvs u)\<lparr>calls := list_calls ?L ?w 0 @ cs\<rparr>\<rparr>"
    using key_enter_eq [OF assms(1,3,4,5)] assms(6) by auto
  have eq: "label_of ?L v = label_of ?L ?w" "label_of ?L ?w = label_of ?L u" "item_text v = item_text ?w"
      "wid ?w = wid u"
    by (auto simp: v label_of_def item_text_def after_search_def fun_eq_iff)
  have w: "screen_ok ?L ?w" using assms(2) eq by (simp add: screen_ok_def)
  have "cstr ((search_word u)[0 := 0]) 0 []" using assms(1) by (simp add: ui_ok_def cstr_Nil)
  then show ?thesis
    using list_calls_shown [OF w] w eq
    by (simp add: screen_ok_def list_shown_def details_shown_def) (simp add: v after_search_def)
qed

text \<open>The whole invariant, and that every key keeps it.\<close>

definition ui_inv :: "'db env \<Rightarrow> 'db ui \<Rightarrow> bool" where
  "ui_inv E u \<longleftrightarrow> ui_ok u \<and> screen_ok (lvgl_api E) u \<and> list_shown (lvgl_api E) u"

lemma poll_shown:
  assumes "ui_ok u" and "env_ok E" and "screen_ok (lvgl_api E) u" and "poll_keyboard E inp u = Some v"
  shows "same_list u v \<or> (screen_ok (lvgl_api E) v \<and> list_shown (lvgl_api E) v \<and> details_shown v)"
proof -
  obtain s where s: "cstr (search_word u) 0 s" using assms(1) by (auto simp: ui_ok_def)
  have len: "length (search_word u) = 512" "length (furigana_word u) = 512" and lo: "list_ok u"
    and win: "0 \<le> window_start u" "results_count u \<le> 64" "window_start u = 0 \<or> window_start u < results_count u"
    using assms(1) by (auto simp: ui_ok_def list_ok_def)
  have nf: "\<not> fault_key s inp" using poll_fault [OF assms(1) s] assms(4) by fastforce
  have ls: "length s < 512" using cstr_bounds [OF s] len by simp
  show ?thesis
  proof (cases inp rule: key_cases)
    case other
    then have "v = u" using poll_other [OF other, of E u] assms(4) by simp
    then show ?thesis by simp
  next
    case (letter c)
    then have "length s < 511" "c \<noteq> 0" using nf ls letter_key_values [of c] by (auto simp: fault_key_def)
    then show ?thesis
      using key_letter_eq [OF s len, of c] edited_same_list letter assms(4) by (auto simp: poll_letter)
  next
    case bs
    then have "s \<noteq> []" using nf by (auto simp: fault_key_def)
    then show ?thesis
      using key_backspace_eq [OF s len] edited_same_list bs assms(4) by (auto simp: poll_backspace)
  next
    case up
    then show ?thesis
      using populate_list_shown [OF lo assms(3), of "window_start u - 1" v] win assms(4)
      by (auto simp: poll_up split: if_splits)
  next
    case down
    then show ?thesis
      using populate_list_shown [OF lo assms(3), of "window_start u + 1" v] win assms(4)
      by (auto simp: poll_down split: if_splits)
  next
    case mode
    then show ?thesis
      using key_mode_same_list assms(4) by (force simp: poll_mode same_list_def split: if_splits)
  next
    case right
    then show ?thesis using assms(4) by (auto simp: poll_right same_list_def split: if_splits)
  next
    case (enter c)
    then show ?thesis
      using enter_search_ok [OF assms(1,2)] key_enter_shown [OF assms(1,3)] assms(4)
      by (fastforce simp: poll_enter)
  qed
qed

end
