(* ===== verification/UiScreen.thy ===== *)
theory UiScreen
  imports UiKeys
begin

text \<open>
  The screen that \<open>create_ui\<close> builds: the widget tree, that its labels are different widgets,
  and the state in which \<open>main\<close> enters its loop.
\<close>

section \<open>Creating widgets\<close>

text \<open>The widgets so far are different from each other and from the screen.\<close>

definition objs_ok :: "lvgl \<Rightarrow> (obj \<times> obj) list \<Rightarrow> bool" where
  "objs_ok L os \<longleftrightarrow> distinct (lv_screen L # map fst os)"

lemma objs_ok_new: "lvgl_fresh L \<Longrightarrow> objs_ok L os \<Longrightarrow> x = new_obj L os \<Longrightarrow> objs_ok L (os @ [(x, p)])"
  by (auto simp: objs_ok_def lvgl_fresh_def)

lemma run_lv_do: "run_state (lv_do c) s = ((), s\<lparr>calls := c # calls s\<rparr>)"
  by (simp add: lv_do_def)

lemma run_create: "run_state (lv_obj_create L p) s =
    (new_obj L (objs s), s\<lparr>objs := objs s @ [(new_obj L (objs s), p)]\<rparr>)"
  by (simp add: lv_obj_create_def Let_def)

lemmas run_simps = run_lv_do run_create lv_label_create_def

lemma create_root_eq:
  assumes "lvgl_fresh L" and "objs_ok L (objs s)"
  shows "\<exists>x1 s'. run_state (create_root L) s = (x1, s')
    \<and> objs s' = objs s @ [(x1, lv_screen L)] \<and> objs_ok L (objs s')
    \<and> label_text (calls s') = label_text (calls s)"
proof -
  define x1 where "x1 = new_obj L (objs s)"
  have "objs_ok L (objs s @ [(x1, lv_screen L)])"
    using objs_ok_new [OF assms(1) _ x1_def] assms(2) by simp
  then show ?thesis
    by (simp add: create_root_def Let_def run_simps x1_def [symmetric] fun_eq_iff)
qed

lemma create_top_eq:
  assumes "lvgl_fresh L" and "objs_ok L (objs s)"
  shows "\<exists>x1 x2 x3 s'. run_state (create_top L r) s = ((x1, x2, x3), s')
    \<and> objs s' = objs s @ [(x1, r), (x2, x1), (x3, x1)] \<and> objs_ok L (objs s')
    \<and> label_text (calls s') = (label_text (calls s))(x2 := Text [], x3 := Text PROMPT_JP)"
proof -
  define x1 where "x1 = new_obj L (objs s)"
  define x2 where "x2 = new_obj L (objs s @ [(x1, r)])"
  define x3 where "x3 = new_obj L (objs s @ [(x1, r), (x2, x1)])"
  have "objs_ok L (objs s @ [(x1, r)])"
    using objs_ok_new [OF assms(1) _ x1_def] assms(2) by simp
  then have "objs_ok L (objs s @ [(x1, r), (x2, x1)])"
    using objs_ok_new [OF assms(1) _ x2_def] by simp
  then have "objs_ok L (objs s @ [(x1, r), (x2, x1), (x3, x1)])"
    using objs_ok_new [OF assms(1) _ x3_def] by simp
  then show ?thesis
    by (simp add: create_top_def Let_def run_simps x1_def [symmetric] x2_def [symmetric] x3_def [symmetric] fun_eq_iff PROMPT_JP_def)
qed

lemma create_selected_eq:
  assumes "lvgl_fresh L" and "objs_ok L (objs s)"
  shows "\<exists>x1 x2 x3 s'. run_state (create_selected L r) s = ((x1, x2, x3), s')
    \<and> objs s' = objs s @ [(x1, r), (x2, x1), (x3, x1)] \<and> objs_ok L (objs s')
    \<and> label_text (calls s') = label_text (calls s)"
proof -
  define x1 where "x1 = new_obj L (objs s)"
  define x2 where "x2 = new_obj L (objs s @ [(x1, r)])"
  define x3 where "x3 = new_obj L (objs s @ [(x1, r), (x2, x1)])"
  have "objs_ok L (objs s @ [(x1, r)])"
    using objs_ok_new [OF assms(1) _ x1_def] assms(2) by simp
  then have "objs_ok L (objs s @ [(x1, r), (x2, x1)])"
    using objs_ok_new [OF assms(1) _ x2_def] by simp
  then have "objs_ok L (objs s @ [(x1, r), (x2, x1), (x3, x1)])"
    using objs_ok_new [OF assms(1) _ x3_def] by simp
  then show ?thesis
    by (simp add: create_selected_def Let_def run_simps x1_def [symmetric] x2_def [symmetric] x3_def [symmetric] fun_eq_iff)
qed

lemma create_middle_eq:
  assumes "lvgl_fresh L" and "objs_ok L (objs s)"
  shows "\<exists>x1 x2 s'. run_state (create_middle L r) s = ((x1, x2), s')
    \<and> objs s' = objs s @ [(x1, r), (x2, x1)] \<and> objs_ok L (objs s')
    \<and> label_text (calls s') = label_text (calls s)"
proof -
  define x1 where "x1 = new_obj L (objs s)"
  define x2 where "x2 = new_obj L (objs s @ [(x1, r)])"
  have "objs_ok L (objs s @ [(x1, r)])"
    using objs_ok_new [OF assms(1) _ x1_def] assms(2) by simp
  then have "objs_ok L (objs s @ [(x1, r), (x2, x1)])"
    using objs_ok_new [OF assms(1) _ x2_def] by simp
  then show ?thesis
    by (simp add: create_middle_def Let_def run_simps x1_def [symmetric] x2_def [symmetric] fun_eq_iff)
qed

lemma create_list_item_eq:
  assumes "lvgl_fresh L" and "objs_ok L (objs s)"
  shows "\<exists>x1 x2 s'. run_state (create_list_item L r) s = (x1, s')
    \<and> objs s' = objs s @ [(x1, r), (x2, x1)] \<and> objs_ok L (objs s')
    \<and> label_text (calls s') = label_text (calls s)"
proof -
  define x1 where "x1 = new_obj L (objs s)"
  define x2 where "x2 = new_obj L (objs s @ [(x1, r)])"
  have "objs_ok L (objs s @ [(x1, r)])"
    using objs_ok_new [OF assms(1) _ x1_def] assms(2) by simp
  then have "objs_ok L (objs s @ [(x1, r), (x2, x1)])"
    using objs_ok_new [OF assms(1) _ x2_def] by simp
  then show ?thesis
    by (simp add: create_list_item_def Let_def run_simps x1_def [symmetric] x2_def [symmetric] fun_eq_iff)
qed

lemma create_details_eq:
  assumes "lvgl_fresh L" and "objs_ok L (objs s)"
  shows "\<exists>x1 x2 s'. run_state (create_details L r) s = ((x1, x2), s')
    \<and> objs s' = objs s @ [(x1, r), (x2, x1)] \<and> objs_ok L (objs s')
    \<and> label_text (calls s') = label_text (calls s)"
proof -
  define x1 where "x1 = new_obj L (objs s)"
  define x2 where "x2 = new_obj L (objs s @ [(x1, r)])"
  have "objs_ok L (objs s @ [(x1, r)])"
    using objs_ok_new [OF assms(1) _ x1_def] assms(2) by simp
  then have "objs_ok L (objs s @ [(x1, r), (x2, x1)])"
    using objs_ok_new [OF assms(1) _ x2_def] by simp
  then show ?thesis
    by (simp add: create_details_def Let_def run_simps x1_def [symmetric] x2_def [symmetric] fun_eq_iff)
qed

lemma create_bottom_eq:
  assumes "lvgl_fresh L" and "objs_ok L (objs s)"
  shows "\<exists>x1 x2 x3 s'. run_state (create_bottom L r) s = ((x1, x2, x3), s')
    \<and> objs s' = objs s @ [(x1, r), (x2, x1), (x3, x2)] \<and> objs_ok L (objs s')
    \<and> label_text (calls s') = label_text (calls s)"
proof -
  define x1 where "x1 = new_obj L (objs s)"
  define x2 where "x2 = new_obj L (objs s @ [(x1, r)])"
  define x3 where "x3 = new_obj L (objs s @ [(x1, r), (x2, x1)])"
  have "objs_ok L (objs s @ [(x1, r)])"
    using objs_ok_new [OF assms(1) _ x1_def] assms(2) by simp
  then have "objs_ok L (objs s @ [(x1, r), (x2, x1)])"
    using objs_ok_new [OF assms(1) _ x2_def] by simp
  then have "objs_ok L (objs s @ [(x1, r), (x2, x1), (x3, x2)])"
    using objs_ok_new [OF assms(1) _ x3_def] by simp
  then show ?thesis
    by (simp add: create_bottom_def Let_def run_simps x1_def [symmetric] x2_def [symmetric] x3_def [symmetric] fun_eq_iff)
qed

text \<open>The four items of the loop, each with its label.\<close>

lemma create_list_items_eq:
  assumes "lvgl_fresh L" and "objs_ok L (objs s)"
  shows "\<exists>its s'. length its = n \<and> run_state (create_list_items L r n) s = (map fst its, s')
    \<and> objs s' = objs s @ concat (map (\<lambda>(i, l). [(i, r), (l, i)]) its) \<and> objs_ok L (objs s')
    \<and> label_text (calls s') = label_text (calls s)"
  using assms(2)
proof (induction n arbitrary: s)
  case 0
  then show ?case by simp
next
  case (Suc n)
  obtain i l s1 where s1: "run_state (create_list_item L r) s = (i, s1)"
      "objs s1 = objs s @ [(i, r), (l, i)]" "objs_ok L (objs s1)" "label_text (calls s1) = label_text (calls s)"
    using create_list_item_eq [OF assms(1) Suc.prems] by blast
  obtain its s2 where "length its = n" "run_state (create_list_items L r n) s1 = (map fst its, s2)"
      "objs s2 = objs s1 @ concat (map (\<lambda>(i, l). [(i, r), (l, i)]) its)" "objs_ok L (objs s2)"
      "label_text (calls s2) = label_text (calls s1)"
    using Suc.IH [OF s1(3)] by blast
  then show ?case using s1 by (intro exI [of _ "(i, l) # its"] exI [of _ s2]) simp
qed

text \<open>The widget tree, as the list of pairs of widget and parent in creation order.\<close>

definition widget_tree :: "lvgl \<Rightarrow> containers \<Rightarrow> widgets \<Rightarrow> (obj \<times> obj) list \<Rightarrow> (obj \<times> obj) list" where
  "widget_tree L c w its =
     [(c_root c, lv_screen L), (c_top c, c_root c), (furigana w, c_top c), (search w, c_top c),
      (c_selected c, c_root c), (selected_label w, c_selected c), (accent_label w, c_selected c),
      (c_middle c, c_root c), (c_list c, c_middle c)]
     @ concat (map (\<lambda>(i, l). [(i, c_list c), (l, i)]) its)
     @ [(c_details c, c_middle c), (details_label w, c_details c),
        (c_bottom c, c_list c), (bot_item w, c_bottom c), (bot_label w, bot_item w)]"

lemma create_widgets_eq:
  assumes "lvgl_fresh L" and "objs s = []"
  shows "\<exists>c w its s'. run_state (create_widgets L) s = ((c, w), s') \<and> length its = 4
    \<and> list_items w = c_selected c # map fst its
    \<and> objs s' = widget_tree L c w its \<and> objs_ok L (objs s')
    \<and> label_text (calls s') = (label_text (calls s))(furigana w := Text [], search w := Text PROMPT_JP)"
proof -
  have "objs_ok L (objs s)" using assms(2) by (simp add: objs_ok_def)
  then obtain root s1 where 1: "run_state (create_root L) s = (root, s1)" "objs s1 = [(root, lv_screen L)]"
      "objs_ok L (objs s1)" "label_text (calls s1) = label_text (calls s)"
    using create_root_eq [OF assms(1)] assms(2) by fastforce
  obtain tp fu se s2 where 2: "run_state (create_top L root) s1 = ((tp, fu, se), s2)"
      "objs s2 = objs s1 @ [(tp, root), (fu, tp), (se, tp)]" "objs_ok L (objs s2)"
      "label_text (calls s2) = (label_text (calls s1))(fu := Text [], se := Text PROMPT_JP)"
    using create_top_eq [OF assms(1) 1(3)] by blast
  obtain sel sl al s3 where 3: "run_state (create_selected L root) s2 = ((sel, sl, al), s3)"
      "objs s3 = objs s2 @ [(sel, root), (sl, sel), (al, sel)]" "objs_ok L (objs s3)"
      "label_text (calls s3) = label_text (calls s2)"
    using create_selected_eq [OF assms(1) 2(3)] by blast
  obtain mid lst s4 where 4: "run_state (create_middle L root) s3 = ((mid, lst), s4)"
      "objs s4 = objs s3 @ [(mid, root), (lst, mid)]" "objs_ok L (objs s4)"
      "label_text (calls s4) = label_text (calls s3)"
    using create_middle_eq [OF assms(1) 3(3)] by blast
  obtain its s5 where 5: "length its = 4" "run_state (create_list_items L lst 4) s4 = (map fst its, s5)"
      "objs s5 = objs s4 @ concat (map (\<lambda>(i, l). [(i, lst), (l, i)]) its)" "objs_ok L (objs s5)"
      "label_text (calls s5) = label_text (calls s4)"
    using create_list_items_eq [OF assms(1) 4(3)] by blast
  obtain det dl s6 where 6: "run_state (create_details L mid) s5 = ((det, dl), s6)"
      "objs s6 = objs s5 @ [(det, mid), (dl, det)]" "objs_ok L (objs s6)"
      "label_text (calls s6) = label_text (calls s5)"
    using create_details_eq [OF assms(1) 5(4)] by blast
  obtain bot bi bl s7 where 7: "run_state (create_bottom L lst) s6 = ((bot, bi, bl), s7)"
      "objs s7 = objs s6 @ [(bot, lst), (bi, bot), (bl, bi)]" "objs_ok L (objs s7)"
      "label_text (calls s7) = label_text (calls s6)"
    using create_bottom_eq [OF assms(1) 6(3)] by blast
  let ?c = "\<lparr>c_root = root, c_top = tp, c_selected = sel, c_middle = mid, c_list = lst,
         c_details = det, c_bottom = bot\<rparr>"
  let ?w = "\<lparr>selected_label = sl, accent_label = al, details_label = dl, furigana = fu, search = se,
         list_items = sel # map fst its, bot_item = bi, bot_label = bl\<rparr>"
  have "run_state (create_widgets L) s = ((?c, ?w), s7)"
    using 1(1) 2(1) 3(1) 4(1) 5(2) 6(1) 7(1) by (simp add: create_widgets_def list_element_count_def)
  moreover have "objs s7 = widget_tree L ?c ?w its"
    using 1(2) 2(2) 3(2) 4(2) 5(3) 6(2) 7(2) by (simp add: widget_tree_def)
  moreover have "label_text (calls s7) = (label_text (calls s))(fu := Text [], se := Text PROMPT_JP)"
    using 1(4) 2(4) 3(4) 4(4) 5(5) 6(4) 7(4) by simp
  ultimately show ?thesis
    using 5(1) 7(3) by (intro exI [of _ ?c] exI [of _ ?w] exI [of _ its] exI [of _ s7]) simp
qed

lemma first_child:
  "lvgl_first_child L \<Longrightarrow> os = os1 @ (c, p) # os2 \<Longrightarrow> p \<notin> snd ` set os1 \<Longrightarrow> get_child L os p 0 = c"
  by (simp add: lvgl_first_child_def)

lemma tree_screen_ok:
  assumes "lvgl_first_child L" and "length its = 4" and "list_items w = c_selected c # map fst its"
    and "objs (lvs u) = widget_tree L c w its" and "objs_ok L (objs (lvs u))" and "wid u = w"
  shows "screen_ok L u"
proof -
  obtain i1 l1 i2 l2 i3 l3 i4 l4 where its: "its = [(i1, l1), (i2, l2), (i3, l3), (i4, l4)]"
    using assms(2) by (auto simp: numeral_eq_Suc length_Suc_conv)
  let ?pre = "[(c_root c, lv_screen L), (c_top c, c_root c), (furigana w, c_top c), (search w, c_top c),
      (c_selected c, c_root c), (selected_label w, c_selected c), (accent_label w, c_selected c),
      (c_middle c, c_root c), (c_list c, c_middle c)]"
  note os = assms(4) [unfolded widget_tree_def its]
  note d = assms(5) [unfolded assms(4) objs_ok_def widget_tree_def its, simplified]
  have "distinct (rev (lv_screen L # map fst (objs (lvs u))))"
    using assms(5) by (simp only: objs_ok_def distinct_rev)
  note r = this [unfolded assms(4) widget_tree_def its, simplified]
  have "get_child L (objs (lvs u)) (c_selected c) 0 = selected_label w"
    by (rule first_child [OF assms(1), where ?os1.0 = "take 5 ?pre"]) (simp_all add: os r)
  moreover have "get_child L (objs (lvs u)) i1 0 = l1"
    by (rule first_child [OF assms(1), where ?os1.0 = "?pre @ [(i1, c_list c)]"]) (simp_all add: os r)
  moreover have "get_child L (objs (lvs u)) i2 0 = l2"
    by (rule first_child [OF assms(1), where ?os1.0 = "?pre @ [(i1, c_list c), (l1, i1), (i2, c_list c)]"])
       (simp_all add: os r)
  moreover have "get_child L (objs (lvs u)) i3 0 = l3"
    by (rule first_child [OF assms(1), where ?os1.0 = "?pre @ [(i1, c_list c), (l1, i1), (i2, c_list c),
       (l2, i2), (i3, c_list c)]"]) (simp_all add: os r)
  moreover have "get_child L (objs (lvs u)) i4 0 = l4"
    by (rule first_child [OF assms(1), where ?os1.0 = "?pre @ [(i1, c_list c), (l1, i1), (i2, c_list c),
       (l2, i2), (i3, c_list c), (l3, i3), (i4, c_list c)]"]) (simp_all add: os r)
  ultimately have "map (label_of L u) [0, 1, 2, 3, 4] = [selected_label w, l1, l2, l3, l4]"
    using assms(3,6) its by (simp add: label_of_def)
  moreover have "[0..<5] = [0, 1, 2, 3, 4]" by (simp add: upt_rec)
  ultimately show ?thesis by (simp add: screen_ok_def assms(6) d r)
qed

section \<open>The finished screen\<close>

lemma styling_top: "styling (style_top a b c d)"
  unfolding style_top_def by (intro styling_bind styling_lv)

lemma styling_middle: "styling (style_middle a b c)"
  unfolding style_middle_def by (intro styling_bind styling_lv)

lemma styling_bottom: "styling (style_bottom a b)"
  unfolding style_bottom_def by (intro styling_bind styling_lv)

text \<open>A state with the same list whose labels read the same, except the details panel.\<close>

lemma list_shown_cong:
  assumes "screen_ok L u" and "list_shown L u"
    and "wid v = wid u" "objs (lvs v) = objs (lvs u)" "dict v = dict u"
      "window_start v = window_start u" "results_count v = results_count u"
    and "\<And>x. x \<noteq> details_label (wid u) \<Longrightarrow> label_text (calls (lvs v)) x = label_text (calls (lvs u)) x"
  shows "screen_ok L v" "list_shown L v"
proof -
  have eq: "label_of L v = label_of L u" "item_text v = item_text u"
    using assms(3-7) by (auto simp: label_of_def item_text_def fun_eq_iff)
  have "label_of L u k \<noteq> details_label (wid u)" if "k < 5" for k
  proof -
    have "label_of L u k \<in> set (map (label_of L u) [0..<5])" using that by auto
    then show ?thesis using assms(1) unfolding screen_ok_def by (auto simp del: upt_Suc)
  qed
  moreover have "bot_label (wid u) \<noteq> details_label (wid u)" using assms(1) by (auto simp: screen_ok_def)
  ultimately show "screen_ok L v" "list_shown L v"
    using assms eq by (simp_all add: screen_ok_def list_shown_def)
qed

lemma create_ui_eq:
  assumes "lvgl_fresh L" and "lvgl_first_child L" and "objs (lvs u) = []"
    and "entries_set u" and "results_ok readable (g_results (dict u))"
    and "0 \<le> results_count u" and "results_count u \<le> 64"
  shows "\<exists>w s. create_ui L u = Some (u\<lparr>wid := w, window_start := 0, lvs := s\<rparr>)
    \<and> length (list_items w) = list_element_count
    \<and> screen_ok L (u\<lparr>wid := w, window_start := 0, lvs := s\<rparr>)
    \<and> list_shown L (u\<lparr>wid := w, window_start := 0, lvs := s\<rparr>)
    \<and> label_text (calls s) (details_label w) = Text HELP_TEXT"
proof -
  obtain c w its s1 where cw: "run_state (create_widgets L) (lvs u) = ((c, w), s1)" "length its = 4"
      "list_items w = c_selected c # map fst its" "objs s1 = widget_tree L c w its" "objs_ok L (objs s1)"
    using create_widgets_eq [OF assms(1,3)] by blast
  define u1 where "u1 = u\<lparr>wid := w, lvs := s1\<rparr>"
  have len: "length (list_items w) = list_element_count" using cw(2,3) by (simp add: list_element_count_def)
  have lo: "list_ok u1" using assms(4-7) len by (simp add: u1_def list_ok_def)
  have so: "screen_ok L u1"
    using tree_screen_ok [OF assms(2) cw(2,3), of u1] cw(4,5) by (simp add: u1_def)
  define u2 where "u2 = u1\<lparr>window_start := 0,
    lvs := (lvs u1)\<lparr>calls := list_calls L u1 0 @ calls (lvs u1)\<rparr>\<rparr>"
  have pop: "populate_list L 0 u1 = Some u2" using populate_list_eq [OF lo, of 0 L] by (simp add: u2_def)
  have u2: "screen_ok L u2" "list_shown L u2" using populate_list_shown [OF lo so _ _ pop] by simp_all
  define s3 where "s3 = lvs (ui_set_text (details_label w) HELP_TEXT u2)"
  define m where "m = State_Monad.bind (style_top (c_root c) (c_top c) (furigana w) (search w))
    (\<lambda>_. State_Monad.bind (style_middle (c_selected c) (c_middle c) (c_list c))
       (\<lambda>_. style_bottom (c_details c) (c_bottom c)))"
  define s4 where "s4 = snd (run_state m s3)"
  have m: "styling m" unfolding m_def by (intro styling_bind styling_top styling_middle styling_bottom)
  have wid2: "wid u2 = w" "u2\<lparr>lvs := s4\<rparr> = u\<lparr>wid := w, window_start := 0, lvs := s4\<rparr>"
    by (simp_all add: u2_def u1_def)
  have "create_ui L u = Some (u\<lparr>wid := w, window_start := 0, lvs := s4\<rparr>)"
    using cw(1) pop wid2
    by (simp add: create_ui_def update_bottom_highlight_def u1_def [symmetric] s4_def m_def s3_def
        case_prod_unfold lv_call_ui_eq)
  moreover have s4: "label_text (calls s4) = label_text (calls s3)" "objs s4 = objs s3"
    using stylingD [OF m] by (simp_all add: s4_def)
  moreover have "screen_ok L (u2\<lparr>lvs := s4\<rparr>)" "list_shown L (u2\<lparr>lvs := s4\<rparr>)"
    using list_shown_cong [OF u2, of "u2\<lparr>lvs := s4\<rparr>"] s4 wid2(1) by (simp_all add: s3_def lv_call_ui_eq)
  moreover have "label_text (calls s3) (details_label w) = Text HELP_TEXT"
    by (simp add: s3_def lv_call_ui_eq)
  ultimately show ?thesis using len wid2(2) by (intro exI [of _ w] exI [of _ s4]) simp
qed

text \<open>The state \<open>main\<close> enters its loop with.\<close>

lemma main_init_eq:
  assumes "env_ok E" and "lvgl_fresh (lvgl_api E)" and "lvgl_first_child (lvgl_api E)" and "objs s = []"
  shows "\<exists>u. main_init E True s = Some (Inr u) \<and> ui_inv E u
    \<and> results_count u = 0 \<and> \<not> en_mode u \<and> cstr (search_word u) 0 []
    \<and> label_text (calls (lvs u)) (details_label (wid u)) = Text HELP_TEXT"
proof -
  let ?u = "(ui_init s) :: 'a ui"
  define d0 where "d0 = snd (dict_open (engine E) (dict ?u) (lit ''/host/dict.db''))"
  have res: "g_results d0 = g_results (dict_init :: 'a dict_state)"
    by (simp add: d0_def ui_init_def dict_open_def case_prod_unfold Let_def)
  have rz: "readable (replicate RESULT_SIZE 0)"
    using entry_ok_zero
    by (auto simp: readable_def entry_shows_def dict_consts intro!: exI [of _ "[]"] cstr_Nil)
  have "results_ok readable (g_results d0)" unfolding res using rz by (rule results_ok_init)
  then obtain n d where d: "dict_search (engine E) (sanitize_buf E) (kata_buf E) d0 (lit ''ame'' @ [0]) = Some (n, d)"
      "results_ok readable (g_results d)"
    using search_readable(1) [OF assms(1), of d0 "lit ''ame'' @ [0]" "lit ''ame''"] by (auto simp: cstr_def)
  let ?v = "?u\<lparr>dict := d, entries_set := True\<rparr>"
  obtain w s' where ws: "create_ui (lvgl_api E) ?v = Some (?v\<lparr>wid := w, window_start := 0, lvs := s'\<rparr>)"
      "length (list_items w) = list_element_count"
      "screen_ok (lvgl_api E) (?v\<lparr>wid := w, window_start := 0, lvs := s'\<rparr>)"
      "list_shown (lvgl_api E) (?v\<lparr>wid := w, window_start := 0, lvs := s'\<rparr>)"
      "label_text (calls s') (details_label w) = Text HELP_TEXT"
    using create_ui_eq [OF assms(2,3), of ?v] assms(4) d(2) by (auto simp: ui_init_def)
  let ?r = "?v\<lparr>wid := w, window_start := 0, lvs := s'\<rparr>"
  have "main_init E True s = Some (Inr ?r)"
    using d(1) ws(1) by (simp add: main_init_def d0_def)
  moreover have "ui_ok ?r"
    using d(2) ws(2)
    by (auto simp: ui_ok_def list_ok_def ui_init_def BOTTOM_ITEM_COUNT_def intro!: exI [of _ "[]"] cstr_Nil)
  moreover have "cstr (search_word ?r) 0 []" by (simp add: ui_init_def cstr_Nil)
  ultimately show ?thesis
    using ws(3-5) by (auto simp: ui_inv_def ui_init_def)
qed

end
