(* ===== verification/UiGui.thy ===== *)
theory UiGui
  imports DictLib UiScreen
begin

text \<open>
  The user interface of \<open>GUI/nuttxspace/lvgldemo.c\<close>, the copy that is built with the C romaji
  library and the dictionary layer of \<open>Dictionary_Resources\<close>. It has one search mode, six
  list items and a bottom row of four options. Definitions carry the suffix \<open>_gui\<close>; where a
  block of \<open>create_ui\<close> is the same sequence of calls as in the simulator's copy, its
  definition says so.
\<close>

section \<open>State\<close>

definition list_element_count_gui :: nat where "list_element_count_gui = 6"
definition BOTTOM_ITEM_COUNT_gui :: nat where "BOTTOM_ITEM_COUNT_gui = 4"

record gui_widgets =
  gw_selected_label :: obj
  gw_accent_label :: obj
  gw_details_label :: obj
  gw_furigana :: obj
  gw_search :: obj
  gw_list_items :: "obj list"
  gw_bottom_items :: "obj list"
  gw_bottom_labels :: "obj list"

record 'db gui =
  g_bottom_sel_index :: int
  g_window_start :: int
  g_results_count :: int
  g_search_word :: mem
  g_furigana_word :: mem
  g_entries_set :: bool
  g_wid :: gui_widgets
  g_lvs :: lv_state
  g_dict :: "'db dict_state"

definition gui_init :: "lv_state \<Rightarrow> 'db gui" where
  "gui_init s = \<lparr>g_bottom_sel_index = 0, g_window_start = 0, g_results_count = 0,
     g_search_word = replicate 512 0, g_furigana_word = replicate 512 0, g_entries_set = False,
     g_wid = \<lparr>gw_selected_label = 0, gw_accent_label = 0, gw_details_label = 0, gw_furigana = 0,
       gw_search = 0, gw_list_items = replicate list_element_count_gui 0,
       gw_bottom_items = replicate BOTTOM_ITEM_COUNT_gui 0,
       gw_bottom_labels = replicate BOTTOM_ITEM_COUNT_gui 0\<rparr>,
     g_lvs = s, g_dict = dict_init\<rparr>"

section \<open>Labels and the list window\<close>

definition lv_gui :: "lv_call \<Rightarrow> 'db gui \<Rightarrow> 'db gui" where
  "lv_gui c u = u\<lparr>g_lvs := (g_lvs u)\<lparr>calls := c # calls (g_lvs u)\<rparr>\<rparr>"

definition entry_text_gui :: "'db gui \<Rightarrow> int \<Rightarrow> nat \<Rightarrow> byte list option" where
  "entry_text_gui u i field =
     (if g_entries_set u \<and> 0 \<le> i \<and> nat i < length (g_results (g_dict u))
      then cstring (g_results (g_dict u) ! nat i) field else None)"

definition update_search_bar_gui :: "mem \<Rightarrow> mem \<Rightarrow> 'db gui \<Rightarrow> 'db gui option" where
  "update_search_bar_gui f_word s_word u = do {
     f \<leftarrow> cstring f_word 0;
     s \<leftarrow> cstring s_word 0;
     Some (lv_gui (Set_text (gw_search (g_wid u)) s) (lv_gui (Set_text (gw_furigana (g_wid u)) f) u)) }"

text \<open>The loop of \<open>update_bottom_highlight\<close>, from item \<open>i\<close> on.\<close>

function highlight_items :: "nat \<Rightarrow> 'db gui \<Rightarrow> 'db gui option" where
  "highlight_items i u =
     (if i < BOTTOM_ITEM_COUNT_gui then
        if i < length (gw_bottom_items (g_wid u)) then
          let x = gw_bottom_items (g_wid u) ! i in
          highlight_items (i + 1)
            (if int i = g_bottom_sel_index u
             then lv_gui (Set_prop ''lv_obj_set_style_bg_opa'' x [Sym ''LV_OPA_COVER'', Num 0])
                    (lv_gui (Set_prop ''lv_obj_set_style_bg_color'' x [Hex 0xF58E27, Num 0]) u)
             else lv_gui (Set_prop ''lv_obj_set_style_bg_opa'' x [Sym ''LV_OPA_TRANSP'', Num 0]) u)
        else None
      else Some u)"
  by pat_completeness auto
termination
  by (relation "measure (\<lambda>(i, u). BOTTOM_ITEM_COUNT_gui - i)") auto

declare highlight_items.simps [simp del]

definition update_bottom_highlight_gui :: "'db gui \<Rightarrow> 'db gui option" where
  "update_bottom_highlight_gui u = highlight_items 0 u"

definition update_results_gui :: "'db gui \<Rightarrow> 'db gui option" where
  "update_results_gui u =
     (if 0 < length (gw_bottom_labels (g_wid u))
      then Some (lv_gui (Set_text_fmt (gw_bottom_labels (g_wid u) ! 0) ''%d found'' [g_results_count u]) u)
      else None)"

function populate_items_gui :: "lvgl \<Rightarrow> int \<Rightarrow> nat \<Rightarrow> 'db gui \<Rightarrow> 'db gui option" where
  "populate_items_gui L start i u =
     (if i < list_element_count_gui then
        if i < length (gw_list_items (g_wid u)) then do {
          let label = get_child L (objs (g_lvs u)) (gw_list_items (g_wid u) ! i) 0;
          let idx = start + int i;
          t \<leftarrow> (if idx < g_results_count u then entry_text_gui u idx WORD else Some []);
          populate_items_gui L start (i + 1) (lv_gui (Set_text label t) u) }
        else None
      else Some u)"
  by pat_completeness auto
termination
  by (relation "measure (\<lambda>(L, start, i, u). list_element_count_gui - i)") auto

declare populate_items_gui.simps [simp del]

definition populate_list_gui :: "lvgl \<Rightarrow> int \<Rightarrow> 'db gui \<Rightarrow> 'db gui option" where
  "populate_list_gui L start u = do {
     let u = u\<lparr>g_window_start := start\<rparr>;
     word \<leftarrow> entry_text_gui u start WORD;
     let u = lv_gui (Set_text (gw_selected_label (g_wid u)) word) u;
     accent \<leftarrow> entry_text_gui u start ACCENT;
     let u = lv_gui (Set_text (gw_accent_label (g_wid u)) accent) u;
     detail \<leftarrow> entry_text_gui u start DETAIL;
     let u = lv_gui (Set_text (gw_details_label (g_wid u)) detail) u;
     _ \<leftarrow> printf_noargs word;
     _ \<leftarrow> printf_noargs detail;
     populate_items_gui L start 0 u }"

section \<open>The key handler\<close>

definition convert_search_gui :: "'db gui \<Rightarrow> 'db gui option" where
  "convert_search_gui u = do {
     (_, f) \<leftarrow> romaji_to_kana (g_search_word u) (g_furigana_word u) (length (g_furigana_word u));
     Some (u\<lparr>g_furigana_word := f\<rparr>) }"

definition key_letter_gui :: "byte \<Rightarrow> 'db gui \<Rightarrow> 'db gui option" where
  "key_letter_gui c u = do {
     len \<leftarrow> strlen (g_search_word u) 0;
     m \<leftarrow> wr_int (g_search_word u) (int_of_size len) c;
     m \<leftarrow> wr_int m (int_of_size len + 1) 0;
     u \<leftarrow> convert_search_gui (u\<lparr>g_search_word := m\<rparr>);
     update_search_bar_gui (g_furigana_word u) (g_search_word u) u }"

definition key_backspace_gui :: "'db gui \<Rightarrow> 'db gui option" where
  "key_backspace_gui u = do {
     len \<leftarrow> strlen (g_search_word u) 0;
     m \<leftarrow> wr_int (g_search_word u) (int_of_size len - 1) 0;
     u \<leftarrow> convert_search_gui (u\<lparr>g_search_word := m\<rparr>);
     update_search_bar_gui (g_furigana_word u) (g_search_word u) u }"

definition key_enter_gui :: "'db env \<Rightarrow> 'db gui \<Rightarrow> 'db gui option" where
  "key_enter_gui E u = do {
     (n, d) \<leftarrow> dict_search_lib (engine E) (kata_buf E) (g_dict u) (g_furigana_word u);
     let u = u\<lparr>g_dict := d, g_entries_set := True, g_results_count := int n\<rparr>;
     m \<leftarrow> wr (g_search_word u) 0 0;
     let u = u\<lparr>g_search_word := m\<rparr>;
     u \<leftarrow> update_search_bar_gui (g_furigana_word u) (g_search_word u) u;
     f \<leftarrow> wr (g_furigana_word u) 0 0;
     u \<leftarrow> populate_list_gui (lvgl_api E) 0 (u\<lparr>g_furigana_word := f\<rparr>);
     update_results_gui u }"

definition poll_keyboard_gui :: "'db env \<Rightarrow> byte option \<Rightarrow> 'db gui \<Rightarrow> 'db gui option" where
  "poll_keyboard_gui E inp u = do {
     let c = (case inp of Some b \<Rightarrow> b | None \<Rightarrow> 0x30);
     u \<leftarrow> (if 0x61 \<le> sint c \<and> sint c \<le> 0x7A then key_letter_gui c u else Some u);
     u \<leftarrow> (if c = 127 then key_backspace_gui u else Some u);
     u \<leftarrow> (if c = 0x31 then
            if g_window_start u > 0 then populate_list_gui (lvgl_api E) (g_window_start u - 1) u
            else Some u
          else Some u);
     u \<leftarrow> (if c = 0x32 then
            if g_window_start u < g_results_count u - 1
            then populate_list_gui (lvgl_api E) (g_window_start u + 1) u else Some u
          else Some u);
     u \<leftarrow> (if c = 0x33 then
            if g_bottom_sel_index u > 0
            then update_bottom_highlight_gui (u\<lparr>g_bottom_sel_index := g_bottom_sel_index u - 1\<rparr>)
            else Some u
          else Some u);
     u \<leftarrow> (if c = 0x34 then
            if g_bottom_sel_index u < int BOTTOM_ITEM_COUNT_gui - 1
            then update_bottom_highlight_gui (u\<lparr>g_bottom_sel_index := g_bottom_sel_index u + 1\<rparr>)
            else Some u
          else Some u);
     if c = 0x0D \<or> c = 0x0A then key_enter_gui E u else Some u }"

definition keypad_read_cb_gui :: "'db env \<Rightarrow> byte option \<Rightarrow> 'db gui \<Rightarrow> 'db gui option" where
  "keypad_read_cb_gui E inp u = poll_keyboard_gui E inp u"

section \<open>Construction of the widgets\<close>

definition create_root_gui :: "lvgl \<Rightarrow> obj lvm" where
  "create_root_gui L = create_root L"

definition create_top_gui :: "lvgl \<Rightarrow> obj \<Rightarrow> (obj \<times> obj \<times> obj) lvm" where
  "create_top_gui L root = do {
     top \<leftarrow> lv_obj_create L root;
     lv ''lv_obj_set_width'' top [Pct 100];
     lv ''lv_obj_set_height'' top [Num 40];
     furigana \<leftarrow> lv_label_create L top;
     lv_label_set_text furigana (lit '''');
     lv ''lv_obj_set_style_text_font'' furigana [Sym ''jp_font_16_hiragana'', Num 0];
     lv ''lv_obj_set_height'' furigana [Num 16];
     search \<leftarrow> lv_label_create L top;
     lv_label_set_text search (lit ''type to search'');
     lv ''lv_obj_set_style_text_font'' search [Sym ''lv_font_montserrat_14'', Num 0];
     lv ''lv_obj_set_height'' search [Num 14];
     lv ''lv_obj_set_pos'' search [Num 0, Num 16];
     State_Monad.return (top, furigana, search) }"

definition create_selected_gui :: "lvgl \<Rightarrow> obj \<Rightarrow> (obj \<times> obj \<times> obj) lvm" where
  "create_selected_gui L root = create_selected L root"

definition create_middle_gui :: "lvgl \<Rightarrow> obj \<Rightarrow> (obj \<times> obj) lvm" where
  "create_middle_gui L root = create_middle L root"

definition create_list_items_gui :: "lvgl \<Rightarrow> obj \<Rightarrow> nat \<Rightarrow> obj list lvm" where
  "create_list_items_gui L list n = create_list_items L list n"

definition create_details_gui :: "lvgl \<Rightarrow> obj \<Rightarrow> (obj \<times> obj) lvm" where
  "create_details_gui L middle = create_details L middle"

text \<open>The container of the bottom row, and one of its items with its label.\<close>

definition create_bottom_gui :: "lvgl \<Rightarrow> obj \<Rightarrow> obj lvm" where
  "create_bottom_gui L root = do {
     bottom \<leftarrow> lv_obj_create L root;
     lv ''lv_obj_set_width'' bottom [Pct 100];
     lv ''lv_obj_set_height'' bottom [Num 30];
     lv ''lv_obj_set_flex_flow'' bottom [Sym ''LV_FLEX_FLOW_ROW''];
     State_Monad.return bottom }"

definition create_bottom_item_gui :: "lvgl \<Rightarrow> obj \<Rightarrow> (obj \<times> obj) lvm" where
  "create_bottom_item_gui L bottom = do {
     item \<leftarrow> lv_obj_create L bottom;
     lv ''lv_obj_set_height'' item [Pct 100];
     lv ''lv_obj_set_width'' item [Sym ''LV_SIZE_CONTENT''];
     lv ''lv_obj_set_flex_grow'' item [Num 1];
     label \<leftarrow> lv_label_create L item;
     lv ''lv_obj_set_style_text_font'' label [Sym ''lv_font_montserrat_10'', Num 0];
     lv ''lv_obj_set_width'' label [Sym ''LV_SIZE_CONTENT''];
     lv ''lv_obj_center'' label [];
     lv ''lv_obj_set_style_pad_all'' item [Num 0, Num 0];
     lv ''lv_obj_set_style_pad_row'' item [Num 0, Num 0];
     lv ''lv_obj_set_style_pad_column'' item [Num 0, Num 0];
     lv ''lv_obj_remove_flag'' item [Sym ''LV_OBJ_FLAG_SCROLLABLE''];
     lv ''lv_obj_set_style_radius'' item [Num 0, Num 0];
     lv ''lv_obj_set_style_pad_all'' label [Num 0, Num 0];
     lv ''lv_obj_set_style_pad_row'' label [Num 0, Num 0];
     lv ''lv_obj_set_style_pad_column'' label [Num 0, Num 0];
     lv ''lv_obj_remove_flag'' label [Sym ''LV_OBJ_FLAG_SCROLLABLE''];
     lv ''lv_obj_set_style_radius'' label [Num 0, Num 0];
     lv ''lv_obj_set_style_border_width'' label [Num 0, Num 0];
     State_Monad.return (item, label) }"

fun create_bottom_items_gui :: "lvgl \<Rightarrow> obj \<Rightarrow> nat \<Rightarrow> (obj \<times> obj) list lvm" where
  "create_bottom_items_gui L bottom 0 = State_Monad.return []"
| "create_bottom_items_gui L bottom (Suc n) = do {
     x \<leftarrow> create_bottom_item_gui L bottom;
     xs \<leftarrow> create_bottom_items_gui L bottom n;
     State_Monad.return (x # xs) }"

definition create_widgets_gui :: "lvgl \<Rightarrow> (containers \<times> gui_widgets) lvm" where
  "create_widgets_gui L = do {
     root \<leftarrow> create_root_gui L;
     (top, furigana, search) \<leftarrow> create_top_gui L root;
     (selected, selected_label, accent_label) \<leftarrow> create_selected_gui L root;
     (middle, list) \<leftarrow> create_middle_gui L root;
     items \<leftarrow> create_list_items_gui L list (list_element_count_gui - 1);
     (details, details_label) \<leftarrow> create_details_gui L middle;
     bottom \<leftarrow> create_bottom_gui L root;
     bs \<leftarrow> create_bottom_items_gui L bottom BOTTOM_ITEM_COUNT_gui;
     lv_label_set_text (map snd bs ! 1) (lit ''search'');
     lv_label_set_text (map snd bs ! 2) (lit ''EN -> JP'');
     lv_label_set_text (map snd bs ! 3) (lit ''options'');
     State_Monad.return
       (\<lparr>c_root = root, c_top = top, c_selected = selected, c_middle = middle, c_list = list,
         c_details = details, c_bottom = bottom\<rparr>,
        \<lparr>gw_selected_label = selected_label, gw_accent_label = accent_label,
         gw_details_label = details_label, gw_furigana = furigana, gw_search = search,
         gw_list_items = selected # items,
         gw_bottom_items = map fst bs, gw_bottom_labels = map snd bs\<rparr>) }"

definition style_gui :: "containers \<Rightarrow> gui_widgets \<Rightarrow> unit lvm" where
  "style_gui c w = do {
     style_top (c_root c) (c_top c) (gw_furigana w) (gw_search w);
     style_middle (c_selected c) (c_middle c) (c_list c);
     style_bottom (c_details c) (c_bottom c) }"

definition create_ui_gui :: "lvgl \<Rightarrow> 'db gui \<Rightarrow> 'db gui option" where
  "create_ui_gui L u = do {
     let ((c, w), s) = run_state (create_widgets_gui L) (g_lvs u);
     u \<leftarrow> populate_list_gui L 0 (u\<lparr>g_wid := w, g_lvs := s\<rparr>);
     u \<leftarrow> update_bottom_highlight_gui u;
     u \<leftarrow> update_results_gui u;
     Some (u\<lparr>g_lvs := snd (run_state (style_gui c w) (g_lvs u))\<rparr>) }"

definition main_init_gui :: "'db env \<Rightarrow> bool \<Rightarrow> lv_state \<Rightarrow> (int + 'db gui) option" where
  "main_init_gui E disp s =
     (if \<not> disp then Some (Inl 1)
      else do {
        let u = gui_init s;
        let u = u\<lparr>g_dict := snd (dict_open_lib (engine E) (g_dict u) (lit ''/host/dict.db''))\<rparr>;
        (n, d) \<leftarrow> dict_search_lib (engine E) (kata_buf E) (g_dict u) (lit ''ame'' @ [0]);
        u \<leftarrow> create_ui_gui (lvgl_api E) (u\<lparr>g_dict := d, g_entries_set := True\<rparr>);
        Some (Inr u) })"

end
