(* ===== verification/UiGuiProps.thy ===== *)
theory UiGuiProps
  imports UiGui
begin

text \<open>
  Properties of the user interface of \<open>GUI/nuttxspace\<close>: the invariant of its state, the exact
  condition under which a key is undefined behaviour, and what typing a word and Enter do.
\<close>

section \<open>Invariant\<close>

definition readable_lib :: "mem \<Rightarrow> bool" where
  "readable_lib d \<longleftrightarrow> entry_sized d \<and> (\<exists>w t. entry_shows d w t
     \<and> printf_noargs w = Some () \<and> printf_noargs t = Some ())"

definition printable_row_lib :: "row \<Rightarrow> bool" where
  "printable_row_lib r \<longleftrightarrow>
     printf_noargs (word_of_lib r) = Some () \<and> printf_noargs (detail_of_lib r) = Some ()"

definition env_gui_ok :: "'db env \<Rightarrow> bool" where
  "env_gui_ok E \<longleftrightarrow> length (kata_buf E) = 512
     \<and> (\<forall>db sql binds lim. list_all printable_row_lib (sqlite3_rows (engine E) db sql binds lim))"

definition gui_list_ok :: "'db gui \<Rightarrow> bool" where
  "gui_list_ok u \<longleftrightarrow> g_entries_set u \<and> results_ok readable_lib (g_results (g_dict u))
     \<and> 0 \<le> g_results_count u \<and> g_results_count u \<le> 64
     \<and> length (gw_list_items (g_wid u)) = 6
     \<and> length (gw_bottom_items (g_wid u)) = 4 \<and> length (gw_bottom_labels (g_wid u)) = 4"

text \<open>The search word is ASCII, so the query the dictionary gets is well-formed UTF-8.\<close>

definition gui_ok :: "'db gui \<Rightarrow> bool" where
  "gui_ok u \<longleftrightarrow> gui_list_ok u
     \<and> length (g_search_word u) = 512 \<and> (\<exists>s. cstr (g_search_word u) 0 s \<and> list_all ascii s)
     \<and> length (g_furigana_word u) = 512 \<and> (\<exists>f. cstr (g_furigana_word u) 0 f \<and> wf_utf8 f)
     \<and> 0 \<le> g_window_start u \<and> (g_window_start u = 0 \<or> g_window_start u < g_results_count u)
     \<and> 0 \<le> g_bottom_sel_index u \<and> g_bottom_sel_index u < 4"

section \<open>The list window\<close>

lemma entry_text_gui_eq:
  assumes "gui_list_ok u" and "0 \<le> i" and "i < 64"
  shows "entry_text_gui u i WORD = Some (word_at (g_results (g_dict u)) (nat i))"
    "entry_text_gui u i ACCENT = Some []"
    "entry_text_gui u i DETAIL = Some (detail_at (g_results (g_dict u)) (nat i))"
    "printf_noargs (word_at (g_results (g_dict u)) (nat i)) = Some ()"
    "printf_noargs (detail_at (g_results (g_dict u)) (nat i)) = Some ()"
proof -
  let ?rs = "g_results (g_dict u)"
  have len: "nat i < length ?rs" and "readable_lib (?rs ! nat i)"
    using assms by (auto simp: gui_list_ok_def results_ok_def DICT_MAX_RESULTS_def list_all_length)
  then obtain w t where s: "entry_shows (?rs ! nat i) w t"
      "printf_noargs w = Some ()" "printf_noargs t = Some ()"
    by (auto simp: readable_lib_def)
  note wt = entry_shows_texts [OF s(1) refl]
  show "entry_text_gui u i WORD = Some (word_at ?rs (nat i))" "entry_text_gui u i ACCENT = Some []"
    "entry_text_gui u i DETAIL = Some (detail_at ?rs (nat i))"
    using assms len s(1) wt by (auto simp: entry_text_gui_def gui_list_ok_def entry_shows_def cstring_cstr)
  show "printf_noargs (word_at ?rs (nat i)) = Some ()" "printf_noargs (detail_at ?rs (nat i)) = Some ()"
    using s wt by simp_all
qed

lemma entry_text_gui_cong [simp]:
  "entry_text_gui (u\<lparr>g_lvs := s\<rparr>) i f = entry_text_gui u i f"
  "entry_text_gui (u\<lparr>g_window_start := n\<rparr>) i f = entry_text_gui u i f"
  by (simp_all add: entry_text_gui_def)

definition label_of_gui :: "lvgl \<Rightarrow> 'db gui \<Rightarrow> nat \<Rightarrow> obj" where
  "label_of_gui L u k = get_child L (objs (g_lvs u)) (gw_list_items (g_wid u) ! k) 0"

definition item_text_gui :: "'db gui \<Rightarrow> int \<Rightarrow> nat \<Rightarrow> byte list" where
  "item_text_gui u start k =
     (if start + int k < g_results_count u then word_at (g_results (g_dict u)) (nat (start + int k)) else [])"

definition item_calls_gui :: "lvgl \<Rightarrow> 'db gui \<Rightarrow> int \<Rightarrow> nat list \<Rightarrow> lv_call list" where
  "item_calls_gui L u start ks = map (\<lambda>k. Set_text (label_of_gui L u k) (item_text_gui u start k)) ks"

lemma populate_items_gui_eq:
  assumes "gui_list_ok u" and "0 \<le> start" and "i \<le> 6"
  shows "populate_items_gui L start i (u\<lparr>g_lvs := (g_lvs u)\<lparr>calls := cs\<rparr>\<rparr>) =
    Some (u\<lparr>g_lvs := (g_lvs u)\<lparr>calls := rev (item_calls_gui L u start [i..<6]) @ cs\<rparr>\<rparr>)"
  using assms(3)
proof (induction "6 - i" arbitrary: i cs)
  case 0
  then show ?case
    by (subst populate_items_gui.simps) (simp add: list_element_count_gui_def item_calls_gui_def)
next
  case (Suc n)
  then have i: "i < 6" and n: "n = 6 - Suc i" by auto
  have items: "length (gw_list_items (g_wid u)) = 6" and rc: "g_results_count u \<le> 64"
    using assms(1) by (auto simp: gui_list_ok_def)
  have t: "(if start + int i < g_results_count u then entry_text_gui u (start + int i) WORD else Some [])
      = Some (item_text_gui u start i)"
    using entry_text_gui_eq(1) [OF assms(1), of "start + int i"] assms(2) rc by (simp add: item_text_gui_def)
  have "populate_items_gui L start i (u\<lparr>g_lvs := (g_lvs u)\<lparr>calls := cs\<rparr>\<rparr>) =
      populate_items_gui L start (Suc i)
        (u\<lparr>g_lvs := (g_lvs u)\<lparr>calls := Set_text (label_of_gui L u i) (item_text_gui u start i) # cs\<rparr>\<rparr>)"
    using i items t
    by (subst populate_items_gui.simps)
       (auto simp: Let_def list_element_count_gui_def lv_gui_def label_of_gui_def split: if_splits)
  also have "\<dots> = Some (u\<lparr>g_lvs := (g_lvs u)\<lparr>calls := rev (item_calls_gui L u start [Suc i..<6])
      @ Set_text (label_of_gui L u i) (item_text_gui u start i) # cs\<rparr>\<rparr>)"
    using Suc.hyps(1) [OF n] i by simp
  also have "[i..<6] = i # [Suc i..<6]" using i by (simp add: upt_conv_Cons)
  then have "rev (item_calls_gui L u start [Suc i..<6]) @ Set_text (label_of_gui L u i) (item_text_gui u start i) # cs
      = rev (item_calls_gui L u start [i..<6]) @ cs"
    by (simp add: item_calls_gui_def)
  finally show ?case .
qed

definition list_calls_gui :: "lvgl \<Rightarrow> 'db gui \<Rightarrow> int \<Rightarrow> lv_call list" where
  "list_calls_gui L u start = rev (item_calls_gui L u start [0..<6])
     @ [Set_text (gw_details_label (g_wid u)) (detail_at (g_results (g_dict u)) (nat start)),
        Set_text (gw_accent_label (g_wid u)) [],
        Set_text (gw_selected_label (g_wid u)) (word_at (g_results (g_dict u)) (nat start))]"

lemma populate_list_gui_eq:
  assumes "gui_list_ok u" and "0 \<le> start" and "start < 64"
  shows "populate_list_gui L start u = Some (u\<lparr>g_window_start := start,
            g_lvs := (g_lvs u)\<lparr>calls := list_calls_gui L u start @ calls (g_lvs u)\<rparr>\<rparr>)"
proof -
  let ?v = "u\<lparr>g_window_start := start\<rparr>"
  have "gui_list_ok ?v" using assms(1) by (simp add: gui_list_ok_def)
  moreover have "item_calls_gui L ?v start ks = item_calls_gui L u start ks" for ks
    by (simp add: item_calls_gui_def label_of_gui_def item_text_gui_def)
  ultimately have "populate_items_gui L start 0
        (u\<lparr>g_window_start := start, g_lvs := (g_lvs u)\<lparr>calls := cs\<rparr>\<rparr>) =
      Some (u\<lparr>g_window_start := start,
        g_lvs := (g_lvs u)\<lparr>calls := rev (item_calls_gui L u start [0..<6]) @ cs\<rparr>\<rparr>)" for cs
    using populate_items_gui_eq [of ?v start 0 L cs] assms(2) by simp
  then show ?thesis
    using entry_text_gui_eq [OF assms]
    by (simp add: populate_list_gui_def lv_gui_def list_calls_gui_def)
qed

text \<open>The highlight of the bottom row changes properties only.\<close>

lemma highlight_items_eq:
  assumes "length (gw_bottom_items (g_wid u)) = 4" and "i \<le> 4"
  shows "\<exists>cs. highlight_items i u = Some (u\<lparr>g_lvs := (g_lvs u)\<lparr>calls := cs\<rparr>\<rparr>)
    \<and> label_text cs = label_text (calls (g_lvs u))"
  using assms
proof (induction "4 - i" arbitrary: i u)
  case 0
  then show ?case
    by (subst highlight_items.simps)
       (auto simp: BOTTOM_ITEM_COUNT_gui_def intro!: exI [of _ "calls (g_lvs u)"])
next
  case (Suc n)
  define v where "v = (let x = gw_bottom_items (g_wid u) ! i in
     if int i = g_bottom_sel_index u
     then lv_gui (Set_prop ''lv_obj_set_style_bg_opa'' x [Sym ''LV_OPA_COVER'', Num 0])
            (lv_gui (Set_prop ''lv_obj_set_style_bg_color'' x [Hex 0xF58E27, Num 0]) u)
     else lv_gui (Set_prop ''lv_obj_set_style_bg_opa'' x [Sym ''LV_OPA_TRANSP'', Num 0]) u)"
  have "v = u\<lparr>g_lvs := (g_lvs u)\<lparr>calls := calls (g_lvs v)\<rparr>\<rparr>"
      "label_text (calls (g_lvs v)) = label_text (calls (g_lvs u))"
    by (simp_all add: v_def lv_gui_def Let_def fun_eq_iff)
  then obtain ds where v: "v = u\<lparr>g_lvs := (g_lvs u)\<lparr>calls := ds\<rparr>\<rparr>"
      "label_text ds = label_text (calls (g_lvs u))" by blast
  have "i < 4" using Suc.hyps(2) by simp
  then have "highlight_items i u = highlight_items (Suc i) v"
    using Suc.prems
    by (subst highlight_items.simps) (simp add: BOTTOM_ITEM_COUNT_gui_def v_def Let_def)
  then show ?case
    using Suc.hyps(1) [of "Suc i" v] Suc.hyps(2) Suc.prems v by auto
qed

section \<open>Keys\<close>

lemma convert_search_gui_eq:
  assumes "cstr (g_search_word u) 0 s" and "length (g_furigana_word u) = 512" and "list_all ascii s"
  shows "\<exists>f t. convert_search_gui u = Some (u\<lparr>g_furigana_word := f\<rparr>) \<and> length f = 512
    \<and> cstr f 0 t \<and> wf_utf8 t \<and> (3 * length s < 512 \<longrightarrow> t = concat (kana_chunks s))"
proof -
  have n: "(512 :: nat) < 2 ^ 31" by simp
  obtain r f t where f: "romaji_to_kana (g_search_word u) (g_furigana_word u) 512 = Some (r, f)"
      "cstr f 0 t" "length f = 512" "wf_utf8 t"
    using c_kana.conv_utf8 [OF assms(1), of 512 "g_furigana_word u"] assms(2,3) n by auto
  have "t = concat (kana_chunks s)" if "3 * length s < 512"
  proof -
    have "f = blit (g_furigana_word u) 0 (concat (kana_chunks s) @ [0])"
      using c_kana.conv_enough [OF assms(1) that] f(1) assms(2) n by simp
    moreover have "length (concat (kana_chunks s)) < 512" using kana_chunks_length [of s] that by simp
    ultimately have "cstr f 0 (concat (kana_chunks s))"
      using kana_chunks_nonzero [OF cstr_nonzero [OF assms(1)]] assms(2) by (auto intro: cstr_blit)
    then show ?thesis using f(2) cstr_unique by blast
  qed
  then show ?thesis using f assms(2) by (auto simp: convert_search_gui_def)
qed

definition edited_gui :: "'db gui \<Rightarrow> byte list \<Rightarrow> 'db gui \<Rightarrow> bool" where
  "edited_gui u s v \<longleftrightarrow> (\<exists>m f t.
     v = u\<lparr>g_search_word := m, g_furigana_word := f, g_lvs := (g_lvs u)\<lparr>calls :=
       Set_text (gw_search (g_wid u)) s # Set_text (gw_furigana (g_wid u)) t # calls (g_lvs u)\<rparr>\<rparr>
     \<and> length m = 512 \<and> cstr m 0 s \<and> list_all ascii s \<and> length f = 512 \<and> cstr f 0 t \<and> wf_utf8 t
     \<and> (3 * length s < 512 \<longrightarrow> t = concat (kana_chunks s)))"

lemma edited_gui_ok: "gui_ok u \<Longrightarrow> edited_gui u s v \<Longrightarrow> gui_ok v"
  by (auto simp: edited_gui_def gui_ok_def gui_list_ok_def)

text \<open>Both editing keys: store a word \<open>m\<close>, convert it and show it.\<close>

lemma show_edited:
  assumes "length m = 512" "cstr m 0 s" "list_all ascii s" "length (g_furigana_word u) = 512"
  shows "\<exists>v. do { x \<leftarrow> convert_search_gui (u\<lparr>g_search_word := m\<rparr>);
      update_search_bar_gui (g_furigana_word x) (g_search_word x) x } = Some v \<and> edited_gui u s v"
proof -
  obtain f t where f: "convert_search_gui (u\<lparr>g_search_word := m\<rparr>) = Some (u\<lparr>g_search_word := m, g_furigana_word := f\<rparr>)"
      "length f = 512" "cstr f 0 t" "wf_utf8 t" "3 * length s < 512 \<longrightarrow> t = concat (kana_chunks s)"
    using convert_search_gui_eq [of "u\<lparr>g_search_word := m\<rparr>" s] assms(2,3,4) by auto
  show ?thesis
    unfolding edited_gui_def
    using f(1) cstring_cstr [OF f(3)] cstring_cstr [OF assms(2)] f(2-5) assms(1-3)
    by (simp add: update_search_bar_gui_def lv_gui_def) blast
qed

lemma key_letter_gui_eq:
  assumes "cstr (g_search_word u) 0 s" and "length (g_search_word u) = 512" and "list_all ascii s"
    and "length (g_furigana_word u) = 512" and "length s < 511" and "c \<noteq> 0" and "ascii c"
  shows "\<exists>v. key_letter_gui c u = Some v \<and> edited_gui u (s @ [c]) v"
proof -
  let ?m = "blit (g_search_word u) (length s) [c, 0]"
  have m: "length ?m = 512" "cstr ?m 0 (s @ [c])"
    using cstr_after_blit_end [OF assms(1), of "[c]"] assms(2,5,6) by simp_all
  have w: "wr_int (g_search_word u) (int_of_size (length s)) c = Some ((g_search_word u)[length s := c])"
    "wr_int ((g_search_word u)[length s := c]) (int_of_size (length s) + 1) 0 = Some ?m"
    using assms(2,5) blit_Cons [of "length s" "[0]" "g_search_word u" c]
    by (simp_all add: wr_int_def int_of_size_small nat_add_distrib blit_single)
  show ?thesis
    using strlen_cstr [OF assms(1)] w show_edited [OF m _ assms(4)] assms(3,7)
    by (simp add: key_letter_gui_def)
qed

lemma key_backspace_gui_eq:
  assumes "cstr (g_search_word u) 0 s" and "length (g_search_word u) = 512" and "list_all ascii s"
    and "length (g_furigana_word u) = 512" and "s \<noteq> []"
  shows "\<exists>v. key_backspace_gui u = Some v \<and> edited_gui u (butlast s) v"
proof -
  let ?m = "(g_search_word u)[length s - 1 := 0]"
  have len: "length s < 512" using cstr_bounds [OF assms(1)] assms(2) by simp
  have m: "length ?m = 512" "cstr ?m 0 (butlast s)"
    using cstr_cut [OF assms(1), of "length s - 1"] assms(2) by (simp_all add: butlast_conv_take)
  have w: "wr_int (g_search_word u) (int_of_size (length s) - 1) 0 = Some ?m"
    using assms(2,5) len by (simp add: wr_int_def int_of_size_small nat_diff_distrib Suc_le_eq)
  have "list_all ascii (butlast s)" using assms(3) by (auto simp: list_all_iff dest: in_set_butlastD)
  then show ?thesis
    using strlen_cstr [OF assms(1)] w show_edited [OF m _ assms(4)] by (simp add: key_backspace_gui_def)
qed

text \<open>Enter: the search, the cleared words and the refilled list.\<close>

lemma readable_lib_after_search:
  assumes "results_ok readable_lib rs" and "results_ok entry_sized rs'" and "list_all printable_row_lib rows"
    and "\<forall>i < length rows. i < DICT_MAX_RESULTS \<longrightarrow>
      entry_shows (rs' ! i) (word_of_lib (rows ! i)) (detail_of_lib (rows ! i))"
    and "\<forall>i < DICT_MAX_RESULTS. length rows \<le> i \<longrightarrow> rs' ! i = rs ! i"
  shows "results_ok readable_lib rs'"
proof -
  have "readable_lib (rs' ! i)" if "i < DICT_MAX_RESULTS" for i
  proof (cases "i < length rows")
    case True
    then show ?thesis
      using assms(2-4) that
      by (auto simp: readable_lib_def results_ok_def list_all_length printable_row_lib_def)
  next
    case False
    then show ?thesis using assms(1,5) that by (auto simp: results_ok_def list_all_length)
  qed
  then show ?thesis using assms(2) by (simp add: results_ok_def list_all_length)
qed

lemma search_lib_readable:
  assumes "env_gui_ok E" and "results_ok readable_lib (g_results st)" and "cstr query 0 q"
    and "wf_utf8 q" and "length q < 512"
  shows "\<exists>n d. dict_search_lib (engine E) (kata_buf E) st query = Some (n, d) \<and> n \<le> 64
      \<and> results_ok readable_lib (g_results d)"
proof (cases "sqlite3_prepare_v2 (engine E) (g_db st) DICT_SQL_LIB = 0")
  case True
  have sized: "results_ok entry_sized (g_results st)"
    using assms(2) by (auto simp: results_ok_def readable_lib_def list_all_iff)
  define rows where "rows = sqlite3_rows (engine E) (g_db st) DICT_SQL_LIB [q, kata_str q] DICT_MAX_RESULTS"
  have "length (kata_buf E) = 512" and pr: "list_all printable_row_lib rows"
    using assms(1) by (auto simp: env_gui_ok_def rows_def)
  then obtain d where d: "dict_search_lib (engine E) (kata_buf E) st query =
        Some (min DICT_MAX_RESULTS (length rows), d)" "results_ok entry_sized (g_results d)"
      "\<forall>i < length rows. i < DICT_MAX_RESULTS \<longrightarrow>
        entry_shows (g_results d ! i) (word_of_lib (rows ! i)) (sanitized (senses (rows ! i)))"
      "\<forall>i < DICT_MAX_RESULTS. length rows \<le> i \<longrightarrow> g_results d ! i = g_results st ! i"
    using dict_search_lib_result [OF assms(3,4,5) _ sized True rows_def] by blast
  have "results_ok readable_lib (g_results d)"
    using readable_lib_after_search [OF assms(2) d(2) pr _ d(4)] d(3) by (simp add: detail_of_lib_def)
  then show ?thesis using d(1) by (simp add: DICT_MAX_RESULTS_def)
qed (use assms(2) in \<open>simp add: dict_search_lib_def\<close>)

definition after_search_gui :: "'db gui \<Rightarrow> nat \<Rightarrow> 'db dict_state \<Rightarrow> 'db gui" where
  "after_search_gui u n d = u\<lparr>g_dict := d, g_entries_set := True, g_results_count := int n,
     g_search_word := (g_search_word u)[0 := 0], g_furigana_word := (g_furigana_word u)[0 := 0]\<rparr>"

lemma key_enter_gui_eq:
  assumes "gui_ok u" and "cstr (g_furigana_word u) 0 q"
    and "dict_search_lib (engine E) (kata_buf E) (g_dict u) (g_furigana_word u) = Some (n, d)"
    and "n \<le> 64" and "results_ok readable_lib (g_results d)"
  shows "key_enter_gui E u = Some ((after_search_gui u n d)\<lparr>g_window_start := 0,
    g_lvs := (g_lvs u)\<lparr>calls := Set_text_fmt (gw_bottom_labels (g_wid u) ! 0) ''%d found'' [int n]
      # list_calls_gui (lvgl_api E) (after_search_gui u n d) 0
      @ Set_text (gw_search (g_wid u)) [] # Set_text (gw_furigana (g_wid u)) q # calls (g_lvs u)\<rparr>\<rparr>)"
proof -
  let ?L = "lvgl_api E"
  let ?cs = "Set_text (gw_search (g_wid u)) [] # Set_text (gw_furigana (g_wid u)) q # calls (g_lvs u)"
  let ?w = "(after_search_gui u n d)\<lparr>g_lvs := (g_lvs u)\<lparr>calls := ?cs\<rparr>\<rparr>"
  have len: "length (g_search_word u) = 512" "length (g_furigana_word u) = 512"
      "length (gw_bottom_labels (g_wid u)) = 4"
    using assms(1) by (auto simp: gui_ok_def gui_list_ok_def)
  have "gui_list_ok ?w"
    using assms(1,4,5) by (simp add: gui_ok_def gui_list_ok_def after_search_gui_def)
  from populate_list_gui_eq [OF this, of 0 ?L]
  have pop: "populate_list_gui ?L 0 ?w = Some (?w\<lparr>g_window_start := 0,
      g_lvs := (g_lvs u)\<lparr>calls := list_calls_gui ?L ?w 0 @ ?cs\<rparr>\<rparr>)" by simp
  have order: "u\<lparr>g_dict := d, g_entries_set := True, g_results_count := int n,
      g_search_word := (g_search_word u)[0 := 0], g_lvs := (g_lvs u)\<lparr>calls := ?cs\<rparr>,
      g_furigana_word := (g_furigana_word u)[0 := 0]\<rparr> = ?w"
    by (simp add: after_search_gui_def)
  have same: "list_calls_gui ?L ?w 0 = list_calls_gui ?L (after_search_gui u n d) 0"
    by (simp add: list_calls_gui_def item_calls_gui_def label_of_gui_def item_text_gui_def after_search_gui_def)
  have "cstring ((g_search_word u)[0 := 0]) 0 = Some []"
    using cstring_cstr [of "(g_search_word u)[0 := 0]" 0 "[]"] len by (simp add: cstr_Nil)
  then show ?thesis
    using assms(3) len cstring_cstr [OF assms(2)] pop [unfolded same, folded order]
    by (auto simp: key_enter_gui_def update_search_bar_gui_def update_results_gui_def lv_gui_def after_search_gui_def)
qed

lemma after_search_gui_ok:
  assumes "gui_ok u" and "n \<le> 64" and "results_ok readable_lib (g_results d)"
  shows "gui_ok ((after_search_gui u n d)\<lparr>g_window_start := 0, g_lvs := s\<rparr>)"
proof -
  have "cstr ((g_search_word u)[0 := 0]) 0 []" "cstr ((g_furigana_word u)[0 := 0]) 0 []" "wf_utf8 []"
    using assms(1) by (simp_all add: gui_ok_def cstr_Nil wf_utf8_def)
  then show ?thesis using assms by (force simp: gui_ok_def gui_list_ok_def after_search_gui_def)
qed

section \<open>The handler\<close>

lemma poll_gui_ok:
  assumes "gui_ok u" and "env_gui_ok E" and s: "cstr (g_search_word u) 0 s" and "\<not> fault_key s inp"
  shows "\<exists>v. poll_keyboard_gui E inp u = Some v \<and> gui_ok v"
proof -
  have len: "length (g_search_word u) = 512" "length (g_furigana_word u) = 512" and lo: "gui_list_ok u"
    using assms(1) by (simp_all add: gui_ok_def)
  have as: "list_all ascii s" using assms(1) s cstr_unique by (auto simp: gui_ok_def)
  have ls: "length s < 512" using cstr_bounds [OF s] len by simp
  have hl: "\<exists>v. update_bottom_highlight_gui (u\<lparr>g_bottom_sel_index := b\<rparr>) = Some v \<and> gui_ok v"
    if "0 \<le> b" "b < 4" for b
    using highlight_items_eq [of "u\<lparr>g_bottom_sel_index := b\<rparr>" 0] assms(1) that
    by (force simp: update_bottom_highlight_gui_def gui_ok_def gui_list_ok_def)
  have pl: "\<exists>v. populate_list_gui (lvgl_api E) st u = Some v \<and> gui_ok v" if "0 \<le> st" "st < g_results_count u" for st
    using populate_list_gui_eq [OF lo that(1), of "lvgl_api E"] that assms(1)
    by (auto simp: gui_ok_def gui_list_ok_def)
  show ?thesis
  proof (cases inp rule: key_cases)
    case other
    then have "poll_keyboard_gui E inp u = Some u" by (auto simp: poll_keyboard_gui_def letter_key_def)
    then show ?thesis using assms(1) by simp
  next
    case (letter c)
    then have "length s < 511" "c \<noteq> 0" using assms(4) ls letter_key_values [of c] by (auto simp: fault_key_def)
    then obtain v where "key_letter_gui c u = Some v" "edited_gui u (s @ [c]) v"
      using key_letter_gui_eq [OF s len(1) as len(2)] letter_key_ascii [OF letter(2)] by blast
    moreover have "poll_keyboard_gui E inp u = key_letter_gui c u"
      using letter letter_key_values [of c] by (simp add: poll_keyboard_gui_def letter_key_def)
    ultimately show ?thesis using edited_gui_ok [OF assms(1)] by auto
  next
    case bs
    then have "s \<noteq> []" using assms(4) by (auto simp: fault_key_def)
    then obtain v where "key_backspace_gui u = Some v" "edited_gui u (butlast s) v"
      using key_backspace_gui_eq [OF s len(1) as len(2)] by blast
    then show ?thesis using edited_gui_ok [OF assms(1)] bs by (auto simp: poll_keyboard_gui_def)
  next
    case up
    then show ?thesis
      using pl [of "g_window_start u - 1"] assms(1) by (auto simp: poll_keyboard_gui_def gui_ok_def)
  next
    case down
    then show ?thesis
      using pl [of "g_window_start u + 1"] assms(1) by (auto simp: poll_keyboard_gui_def gui_ok_def)
  next
    case mode
    then show ?thesis
      using hl [of "g_bottom_sel_index u - 1"] assms(1) by (auto simp: poll_keyboard_gui_def gui_ok_def)
  next
    case right
    then show ?thesis
      using hl [of "g_bottom_sel_index u + 1"] assms(1)
      by (auto simp: poll_keyboard_gui_def gui_ok_def BOTTOM_ITEM_COUNT_gui_def)
  next
    case (enter c)
    obtain f where f: "cstr (g_furigana_word u) 0 f" "wf_utf8 f" "length f < 512"
      using assms(1) cstr_bounds by (fastforce simp: gui_ok_def)
    obtain n d where nd: "dict_search_lib (engine E) (kata_buf E) (g_dict u) (g_furigana_word u) = Some (n, d)"
        "n \<le> 64" "results_ok readable_lib (g_results d)"
      using search_lib_readable [OF assms(2) _ f, of "g_dict u"] lo by (auto simp: gui_list_ok_def)
    show ?thesis
      using key_enter_gui_eq [OF assms(1) f(1) nd] after_search_gui_ok [OF assms(1) nd(2,3)] enter
      by (auto simp: poll_keyboard_gui_def)
  qed
qed

lemma poll_gui_fault:
  assumes "gui_ok u" and s: "cstr (g_search_word u) 0 s" and "fault_key s inp"
  shows "poll_keyboard_gui E inp u = None"
  using assms(3) unfolding fault_key_def
proof (elim disjE conjE exE)
  assume "inp = Some 127" "s = []"
  then show ?thesis
    using strlen_cstr [OF s] by (simp add: poll_keyboard_gui_def key_backspace_gui_def wr_int_def int_of_size_small)
next
  fix c assume c: "inp = Some c" "letter_key c" "length s = 511"
  have "length (g_search_word u) = 512" using assms(1) by (simp add: gui_ok_def)
  then have "key_letter_gui c u = None"
    using strlen_cstr [OF s] c(3) by (simp add: key_letter_gui_def wr_int_def int_of_size_small wr_def)
  then show ?thesis using c by (simp add: poll_keyboard_gui_def letter_key_def)
qed

section \<open>Start\<close>

lemma create_top_gui_eq:
  assumes "lvgl_fresh L" and "objs_ok L (objs s)"
  shows "\<exists>x1 x2 x3 s'. run_state (create_top_gui L r) s = ((x1, x2, x3), s')
    \<and> objs s' = objs s @ [(x1, r), (x2, x1), (x3, x1)] \<and> objs_ok L (objs s')"
proof -
  define x1 where "x1 = new_obj L (objs s)"
  define x2 where "x2 = new_obj L (objs s @ [(x1, r)])"
  define x3 where "x3 = new_obj L (objs s @ [(x1, r), (x2, x1)])"
  have "objs_ok L (objs s @ [(x1, r)])"
    using objs_ok_new [OF assms(1) _ x1_def] assms(2) by simp
  then have "objs_ok L (objs s @ [(x1, r), (x2, x1)])"
    using objs_ok_new [OF assms(1) _ x2_def] by simp
  then have "objs_ok L (objs s @ [(x1, r), (x2, x1), (x3, x1)])"
    using objs_ok_new [OF assms(1) _ x3_def] by simp
  then show ?thesis
    by (simp add: create_top_gui_def run_simps x1_def [symmetric] x2_def [symmetric] x3_def [symmetric])
qed

lemma create_bottom_item_gui_eq:
  assumes "lvgl_fresh L" and "objs_ok L (objs s)"
  shows "\<exists>x1 x2 s'. run_state (create_bottom_item_gui L r) s = ((x1, x2), s')
    \<and> objs s' = objs s @ [(x1, r), (x2, x1)] \<and> objs_ok L (objs s')"
proof -
  define x1 where "x1 = new_obj L (objs s)"
  define x2 where "x2 = new_obj L (objs s @ [(x1, r)])"
  have "objs_ok L (objs s @ [(x1, r)])"
    using objs_ok_new [OF assms(1) _ x1_def] assms(2) by simp
  then have "objs_ok L (objs s @ [(x1, r), (x2, x1)])"
    using objs_ok_new [OF assms(1) _ x2_def] by simp
  then show ?thesis
    by (simp add: create_bottom_item_gui_def run_simps x1_def [symmetric] x2_def [symmetric])
qed

lemma create_bottom_gui_eq:
  assumes "lvgl_fresh L" and "objs_ok L (objs s)"
  shows "\<exists>x1 s'. run_state (create_bottom_gui L r) s = (x1, s')
    \<and> objs s' = objs s @ [(x1, r)] \<and> objs_ok L (objs s')"
  using objs_ok_new [OF assms(1) assms(2) refl] by (simp add: create_bottom_gui_def run_simps)

lemma create_bottom_items_gui_eq:
  assumes "lvgl_fresh L" and "objs_ok L (objs s)"
  shows "\<exists>its s'. length its = n \<and> run_state (create_bottom_items_gui L r n) s = (its, s')
    \<and> objs s' = objs s @ concat (map (\<lambda>(i, l). [(i, r), (l, i)]) its) \<and> objs_ok L (objs s')"
  using assms(2)
proof (induction n arbitrary: s)
  case 0
  then show ?case by simp
next
  case (Suc n)
  obtain i l s1 where s1: "run_state (create_bottom_item_gui L r) s = ((i, l), s1)"
      "objs s1 = objs s @ [(i, r), (l, i)]" "objs_ok L (objs s1)"
    using create_bottom_item_gui_eq [OF assms(1) Suc.prems] by blast
  obtain its s2 where "length its = n" "run_state (create_bottom_items_gui L r n) s1 = (its, s2)"
      "objs s2 = objs s1 @ concat (map (\<lambda>(i, l). [(i, r), (l, i)]) its)" "objs_ok L (objs s2)"
    using Suc.IH [OF s1(3)] by blast
  then show ?case using s1 by (intro exI [of _ "(i, l) # its"] exI [of _ s2]) simp
qed

end
