(* ===== verification/UiSpec.thy ===== *)
theory UiSpec
  imports UiScreen
begin

text \<open>
  The properties of the simulator's user interface, over the lemmas of \<open>UiProps\<close>, \<open>UiKeys\<close> and
  \<open>UiScreen\<close>, with concrete parameters for the witnesses.
\<close>

section \<open>Parameters that satisfy the hypotheses\<close>

definition demo_lvgl :: lvgl where
  "demo_lvgl = \<lparr>lv_screen = 0, new_obj = (\<lambda>os. Suc (sum_list (map fst os))),
     get_child = (\<lambda>os p n. case filter (\<lambda>(c, q). q = p) os of [] \<Rightarrow> 0 | (c, q) # _ \<Rightarrow> c)\<rparr>"

lemma demo_lvgl_fresh: "lvgl_fresh demo_lvgl"
proof -
  have "c \<le> sum_list (map fst os)" if "c \<in> fst ` set os" for c and os :: "(obj \<times> obj) list"
    using that member_le_sum_list [of c "map fst os"] by simp
  then show ?thesis by (fastforce simp: lvgl_fresh_def demo_lvgl_def)
qed

lemma demo_lvgl_first_child: "lvgl_first_child demo_lvgl"
proof -
  have "filter (\<lambda>(c, q). q = p) os = []" if "p \<notin> snd ` set os" for p and os :: "(obj \<times> obj) list"
    using that by (force simp: filter_empty_conv)
  then show ?thesis by (simp add: lvgl_first_child_def demo_lvgl_def)
qed

definition demo_env :: "row list \<Rightarrow> unit env" where
  "demo_env rows = \<lparr>engine = fixed_engine rows, lvgl_api = demo_lvgl,
     sanitize_buf = replicate 512 0, kata_buf = replicate 512 0\<rparr>"

lemma demo_env_ok: "list_all printable_row rows \<Longrightarrow> env_ok (demo_env rows)"
  by (auto simp: env_ok_def demo_env_def fixed_engine_def list_all_iff dest: in_set_takeD)

lemma demo_start:
  assumes "list_all printable_row rows"
  obtains u where "main_init (demo_env rows) True \<lparr>objs = [], calls = []\<rparr> = Some (Inr u)"
    and "ui_inv (demo_env rows) u" and "\<not> en_mode u" and "cstr (search_word u) 0 []"
  using main_init_eq [OF demo_env_ok [OF assms], of "\<lparr>objs = [], calls = []\<rparr>"]
    demo_lvgl_fresh demo_lvgl_first_child by (auto simp: demo_env_def)

section \<open>Supporting lemmas\<close>

lemma poll_inv:
  assumes "ui_inv E u" and "env_ok E" and "keypad_read_cb E inp u = Some v"
  shows "ui_inv E v"
proof -
  obtain s where s: "cstr (search_word u) 0 s" using assms(1) by (auto simp: ui_inv_def ui_ok_def)
  have k: "poll_keyboard E inp u = Some v" using assms(3) by (simp add: keypad_read_cb_def)
  have "\<not> fault_key s inp" using poll_fault [OF _ s, of inp E] assms(1) k by (fastforce simp: ui_inv_def)
  then have "ui_ok v" using poll_ok [OF _ assms(2) s] assms(1) k by (fastforce simp: ui_inv_def)
  moreover have "screen_ok (lvgl_api E) v \<and> list_shown (lvgl_api E) v"
    using poll_shown [OF _ assms(2) _ k] same_list_shown [of u v "lvgl_api E"] assms(1)
    by (auto simp: ui_inv_def)
  ultimately show ?thesis by (simp add: ui_inv_def)
qed

lemma reach_inv: "ui_reach E u0 u \<Longrightarrow> env_ok E \<Longrightarrow> ui_inv E u0 \<Longrightarrow> ui_inv E u"
  by (induction rule: ui_reach.induct) (auto intro: poll_inv)

lemma run_keys_reach: "run_keys E ks u = Some v \<Longrightarrow> ui_reach E u0 u \<Longrightarrow> ui_reach E u0 v"
  by (induction ks arbitrary: u) (auto simp: bind_eq_Some_conv intro: ui_reach.key)

text \<open>Typing letters behind the word that is there.\<close>

lemma type_letters:
  assumes "ui_ok u" and "cstr (search_word u) 0 s" and "list_all letter_key ks"
    and "length s + length ks \<le> 511"
  shows "\<exists>v. run_keys E ks u = Some v \<and> ui_ok v \<and> same_list u v \<and> en_mode v = en_mode u
    \<and> cstr (search_word v) 0 (s @ ks)
    \<and> (ks \<noteq> [] \<longrightarrow> 3 * length (s @ ks) < 512 \<longrightarrow> cstr (furigana_word v) 0 (concat (kana_chunks (s @ ks))))"
  using assms(3,4)
proof (induction ks rule: rev_induct)
  case Nil
  then show ?case using assms(1,2) by simp
next
  case (snoc c ks)
  then obtain v where v: "run_keys E ks u = Some v" "ui_ok v" "same_list u v" "en_mode v = en_mode u"
      "cstr (search_word v) 0 (s @ ks)" by auto
  have len: "length (search_word v) = 512" "length (furigana_word v) = 512"
    using v(2) by (simp_all add: ui_ok_def)
  have "length (s @ ks) < 511" "c \<noteq> 0" "letter_key c"
    using snoc.prems letter_key_values [of c] by auto
  then obtain x where x: "poll_keyboard E (Some c) v = Some x" "edited v ((s @ ks) @ [c]) x"
    using key_letter_eq [OF v(5) len, of c] poll_letter [of c E v] by auto
  have "run_keys E (ks @ [c]) u = Some x"
    using v(1) x(1) by (simp add: run_keys_append keypad_read_cb_def)
  moreover have "same_list u x"
    using v(3) edited_same_list [OF x(2)] by (simp add: same_list_def)
  moreover have "ui_ok x" using edited_ok [OF v(2) x(2)] .
  ultimately show ?case
    using x(2) v(4) by (auto simp: edited_def)
qed

text \<open>What Enter leaves, in terms of the rows of the search.\<close>

lemma enter_jp:
  assumes "ui_ok u" and "env_ok E" and "screen_ok (lvgl_api E) u" and "\<not> en_mode u"
    and "cstr (furigana_word u) 0 q"
    and "sqlite3_prepare_v2 (engine E) (g_db (dict u)) DICT_SQL = 0"
    and "rows = sqlite3_rows (engine E) (g_db (dict u)) DICT_SQL [q, q] DICT_MAX_RESULTS"
  shows "\<exists>v. key_enter E u = Some v \<and> list_shown (lvgl_api E) v \<and> details_shown v
    \<and> results_count v = int (min 64 (length rows)) \<and> window_start v = 0 \<and> cstr (search_word v) 0 []
    \<and> (\<forall>i < min 64 (length rows). word_at (g_results (dict v)) i = word_of (rows ! i)
         \<and> detail_at (g_results (dict v)) i = detail_of (rows ! i))
    \<and> (\<forall>i < 64. length rows \<le> i \<longrightarrow> g_results (dict v) ! i = g_results (dict u) ! i)"
proof -
  have q: "length q < 512" using cstr_bounds [OF assms(5)] assms(1) by (simp add: ui_ok_def)
  have E: "length (kata_buf E) = 512" "length (sanitize_buf E) = DICT_DETAIL_LEN"
      "list_all printable_row rows"
    using assms(2,7) by (auto simp: env_ok_def DICT_DETAIL_LEN_def)
  have ok: "results_ok readable (g_results (dict u))" using assms(1) by (simp add: ui_ok_def list_ok_def)
  obtain d where d: "dict_search (engine E) (sanitize_buf E) (kata_buf E) (dict u) (furigana_word u) =
        Some (min DICT_MAX_RESULTS (length rows), d)" "results_ok entry_ok (g_results d)"
      "\<forall>i < length rows. i < DICT_MAX_RESULTS \<longrightarrow>
        entry_shows (g_results d ! i) (word_of (rows ! i)) (detail_of (rows ! i))"
      "\<forall>i < DICT_MAX_RESULTS. length rows \<le> i \<longrightarrow> g_results d ! i = g_results (dict u) ! i"
    using dict_search_result [OF assms(5) q E(1,2) readable_entry_ok [OF ok] assms(6,7)] by blast
  have rd: "results_ok readable (g_results d)" using readable_after_search [OF ok d(2) E(3) d(3,4)] .
  have es: "enter_search E u = Some (min 64 (length rows), d)"
    using assms(4) d(1) by (simp add: enter_search_def DICT_MAX_RESULTS_def)
  obtain v where v: "key_enter E u = Some v" using key_enter_eq [OF assms(1) es _ rd] by auto
  show ?thesis
    using key_enter_shown [OF assms(1,3) es _ rd v] v d(3,4) entry_shows_texts
    by (auto simp: DICT_MAX_RESULTS_def)
qed

section \<open>Properties\<close>

text \<open>
  C7. From the start of \<open>main\<close> on, whatever keys arrive: in every state the input callback
  reaches, the buffers hold C strings, the window lies inside the results, and the screen
  agrees with the state, that is every list label shows the word of its record (or nothing
  behind the last result) and the bottom label the position.
\<close>

theorem reachable_screen_consistent:
  assumes "env_ok E" and "lvgl_fresh (lvgl_api E)" and "lvgl_first_child (lvgl_api E)" and "objs s = []"
    and "main_init E True s = Some (Inr u0)" and "ui_reach E u0 u"
  shows "ui_ok u \<and> list_shown (lvgl_api E) u"
proof -
  have "ui_inv E u0" using main_init_eq [OF assms(1-4)] assms(5) by auto
  then show ?thesis using reach_inv [OF assms(6,1)] by (simp add: ui_inv_def)
qed

theorem reachable_screen_consistent_witness:
  "\<exists>u0 u. main_init (demo_env []) True \<lparr>objs = [], calls = []\<rparr> = Some (Inr u0)
     \<and> keypad_read_cb (demo_env []) (Some 0x33) u0 = Some u
     \<and> ui_ok u \<and> list_shown (lvgl_api (demo_env [])) u"
proof -
  obtain u0 where u0: "main_init (demo_env []) True \<lparr>objs = [], calls = []\<rparr> = Some (Inr u0)"
      "ui_inv (demo_env []) u0" "\<not> en_mode u0" "cstr (search_word u0) 0 []"
    using demo_start [of "[]"] by auto
  have e: "env_ok (demo_env [])" by (simp add: demo_env_ok)
  obtain u where u: "keypad_read_cb (demo_env []) (Some 0x33) u0 = Some u"
    using poll_ok [OF _ e u0(4), of "Some 0x33"] u0(2)
    by (auto simp: ui_inv_def fault_key_def not_letter_keys keypad_read_cb_def)
  have "ui_reach (demo_env []) u0 u" using u by (auto intro: ui_reach.intros)
  then show ?thesis
    using reachable_screen_consistent [OF e _ _ _ u0(1)] u0(1) u demo_lvgl_fresh demo_lvgl_first_child
    by (auto simp: demo_env_def)
qed

text \<open>
  C9. When a key is undefined behaviour: in a well-formed state the handler fails exactly for
  a backspace on an empty search word (it stores at index -1) and for a letter behind 511
  letters (it stores at index 512). Every other key returns with the invariant kept.
\<close>

theorem key_fault_iff:
  assumes "ui_ok u" and "env_ok E" and "cstr (search_word u) 0 s"
  shows "(keypad_read_cb E inp u = None \<longleftrightarrow>
      (inp = Some 127 \<and> s = []) \<or> (\<exists>c. inp = Some c \<and> letter_key c \<and> length s = 511))
    \<and> (\<forall>v. keypad_read_cb E inp u = Some v \<longrightarrow> ui_ok v)"
proof (cases "fault_key s inp")
  case True
  then have "keypad_read_cb E inp u = None"
    unfolding keypad_read_cb_def by (rule poll_fault [OF assms(1,3)])
  then show ?thesis using True by (simp add: fault_key_def)
next
  case False
  then obtain v where "keypad_read_cb E inp u = Some v" "ui_ok v"
    using poll_ok [OF assms False] by (auto simp: keypad_read_cb_def)
  then show ?thesis using False by (auto simp: fault_key_def)
qed

theorem key_fault_iff_witness:
  "\<exists>u. main_init (demo_env []) True \<lparr>objs = [], calls = []\<rparr> = Some (Inr u)
     \<and> keypad_read_cb (demo_env []) (Some 127) u = None
     \<and> (\<exists>v. keypad_read_cb (demo_env []) (Some 0x61) u = Some v \<and> ui_ok v)"
proof -
  obtain u where u: "main_init (demo_env []) True \<lparr>objs = [], calls = []\<rparr> = Some (Inr u)"
      "ui_inv (demo_env []) u" "\<not> en_mode u" "cstr (search_word u) 0 []"
    using demo_start [of "[]"] by auto
  have e: "env_ok (demo_env [])" by (simp add: demo_env_ok)
  have k: "(keypad_read_cb (demo_env []) inp u = None \<longleftrightarrow>
      (inp = Some 127 \<and> [] = ([] :: byte list)) \<or> (\<exists>c. inp = Some c \<and> letter_key c \<and> length ([] :: byte list) = 511))
    \<and> (\<forall>v. keypad_read_cb (demo_env []) inp u = Some v \<longrightarrow> ui_ok v)" for inp
    using key_fault_iff [OF _ e u(4)] u(2) by (simp add: ui_inv_def)
  show ?thesis
    using k [of "Some 127"] k [of "Some 0x61"] u(1)
    by (cases "keypad_read_cb (demo_env []) (Some 0x61) u") auto
qed

text \<open>Typing a word and Enter, as the whole run of the handler.\<close>

lemma typed_word_shown:
  assumes "ui_inv E u" and "env_ok E" and "\<not> en_mode u" and "cstr (search_word u) 0 []"
    and "list_all letter_key ks" and "ks \<noteq> []" and "3 * length ks < 512"
    and "q = concat (kana_chunks ks)"
    and "sqlite3_prepare_v2 (engine E) (g_db (dict u)) DICT_SQL = 0"
    and "rows = sqlite3_rows (engine E) (g_db (dict u)) DICT_SQL [q, q] DICT_MAX_RESULTS"
  shows "\<exists>v. run_keys E (ks @ [0x0A]) u = Some v
    \<and> results_count v = int (min 64 (length rows)) \<and> window_start v = 0
    \<and> cstr (search_word v) 0 []
    \<and> (\<forall>k < 5. label_text (calls (lvs v)) (label_of (lvgl_api E) v k) =
          Text (if k < length rows then word_of (rows ! k) else []))
    \<and> (rows \<noteq> [] \<longrightarrow> label_text (calls (lvs v)) (details_label (wid v)) = Text (detail_of (rows ! 0)))"
proof -
  obtain t where t: "run_keys E ks u = Some t" "ui_ok t" "same_list u t" "en_mode t = en_mode u"
      "cstr (furigana_word t) 0 q"
    using type_letters [OF _ assms(4,5), of E] assms(1,6,7,8) by (auto simp: ui_inv_def)
  have so: "screen_ok (lvgl_api E) t" using same_list_shown(1) [OF t(3)] assms(1) by (simp add: ui_inv_def)
  have "dict t = dict u" using t(3) by (simp add: same_list_def)
  then obtain v where v: "key_enter E t = Some v" "list_shown (lvgl_api E) v" "details_shown v"
      "results_count v = int (min 64 (length rows))" "window_start v = 0" "cstr (search_word v) 0 []"
      "\<forall>i < min 64 (length rows). word_at (g_results (dict v)) i = word_of (rows ! i)
         \<and> detail_at (g_results (dict v)) i = detail_of (rows ! i)"
    using enter_jp [OF t(2) assms(2) so _ t(5)] t(4) assms(3,9,10) by auto
  have "run_keys E (ks @ [0x0A]) u = Some v"
    using t(1) v(1) poll_enter [of "0x0A" E t] by (simp add: run_keys_append keypad_read_cb_def)
  then show ?thesis using v by (auto simp: list_shown_def details_shown_def item_text_def)
qed

text \<open>
  C8. A user types a word in romaji and presses Enter, in Japanese mode with an empty search
  word: the dictionary is searched for the kana of the word, at most 64 rows are counted,
  the window is at the first result, the labels of the list show the words of the first
  five rows and the details panel the senses of the first.
\<close>

theorem type_word_and_enter:
  assumes "ui_inv E u" and "env_ok E" and "\<not> en_mode u" and "cstr (search_word u) 0 []"
    and "list_all letter_key ks" and "ks \<noteq> []" and "3 * length ks < 512"
    and "q = concat (kana_chunks ks)"
    and "sqlite3_prepare_v2 (engine E) (g_db (dict u)) DICT_SQL = 0"
    and "rows = sqlite3_rows (engine E) (g_db (dict u)) DICT_SQL [q, q] DICT_MAX_RESULTS"
  shows "\<exists>v. run_keys E (ks @ [0x0A]) u = Some v
    \<and> results_count v = int (min 64 (length rows)) \<and> window_start v = 0
    \<and> cstr (search_word v) 0 []
    \<and> (\<forall>k < 5. label_text (calls (lvs v)) (label_of (lvgl_api E) v k) =
          Text (if k < length rows then word_of (rows ! k) else []))
    \<and> (rows \<noteq> [] \<longrightarrow> label_text (calls (lvs v)) (details_label (wid v)) = Text (detail_of (rows ! 0)))"
  using assms by (rule typed_word_shown)

theorem type_word_and_enter_witness:
  "\<exists>u v. main_init (demo_env [\<lparr>kanji = None, readings = Some (lit ''a''), senses = Some (lit ''dog'')\<rparr>])
         True \<lparr>objs = [], calls = []\<rparr> = Some (Inr u)
     \<and> run_keys (demo_env [\<lparr>kanji = None, readings = Some (lit ''a''), senses = Some (lit ''dog'')\<rparr>])
         (lit ''inu'' @ [0x0A]) u = Some v
     \<and> results_count v = 1 \<and> label_text (calls (lvs v)) (details_label (wid v)) = Text (lit ''dog'')"
proof -
  let ?r = "\<lparr>kanji = None, readings = Some (lit ''a''), senses = Some (lit ''dog'')\<rparr>"
  have r: "word_of ?r = lit ''a''" "detail_of ?r = lit ''dog''" by code_simp+
  then have p: "list_all printable_row [?r]" by (simp add: printable_row_def)
  obtain u where u: "main_init (demo_env [?r]) True \<lparr>objs = [], calls = []\<rparr> = Some (Inr u)"
      "ui_inv (demo_env [?r]) u" "\<not> en_mode u" "cstr (search_word u) 0 []"
    using demo_start [OF p] by auto
  have k: "list_all letter_key (lit ''inu'')" by (simp add: letter_key_def)
  show ?thesis
    using type_word_and_enter [OF u(2) demo_env_ok [OF p] u(3,4) k _ _ refl _ refl] u(1) r(2)
    by (auto simp: demo_env_def fixed_engine_def DICT_MAX_RESULTS_def)
qed

text \<open>
  When a search finds nothing the list is emptied, but the details panel is given the
  senses of record 0, which the search did not write: it shows the result of an earlier
  search.
\<close>

lemma no_match_shows_old_details:
  assumes "ui_inv E u" and "env_ok E" and "\<not> en_mode u" and "cstr (furigana_word u) 0 q"
    and "sqlite3_prepare_v2 (engine E) (g_db (dict u)) DICT_SQL = 0"
    and "sqlite3_rows (engine E) (g_db (dict u)) DICT_SQL [q, q] DICT_MAX_RESULTS = []"
  shows "\<exists>v. keypad_read_cb E (Some 0x0D) u = Some v \<and> results_count v = 0
    \<and> (\<forall>k < 5. label_text (calls (lvs v)) (label_of (lvgl_api E) v k) = Text [])
    \<and> label_text (calls (lvs v)) (details_label (wid v)) = Text (detail_at (g_results (dict u)) 0)"
proof -
  obtain v where v: "key_enter E u = Some v" "list_shown (lvgl_api E) v" "details_shown v"
      "results_count v = 0" "window_start v = 0"
      "\<forall>i < 64. g_results (dict v) ! i = g_results (dict u) ! i"
    using enter_jp [OF _ assms(2) _ assms(3,4,5) refl] assms(1,6) by (auto simp: ui_inv_def)
  then have "detail_at (g_results (dict v)) 0 = detail_at (g_results (dict u)) 0"
    by (simp add: detail_at_def)
  then show ?thesis
    using v poll_enter [of "0x0D" E u]
    by (auto simp: keypad_read_cb_def list_shown_def details_shown_def item_text_def)
qed

text \<open>
  \<open>populate_list\<close> passes texts of the database to \<open>printf\<close> as the format: when the senses of
  the first row contain a \<open>%\<close> that is not doubled, pressing Enter is undefined behaviour.
\<close>

lemma percent_sign_faults:
  assumes "ui_ok u" and "length (sanitize_buf E) = 512" and "length (kata_buf E) = 512"
    and "\<not> en_mode u" and "cstr (furigana_word u) 0 q"
    and "sqlite3_prepare_v2 (engine E) (g_db (dict u)) DICT_SQL = 0"
    and "sqlite3_rows (engine E) (g_db (dict u)) DICT_SQL [q, q] DICT_MAX_RESULTS = r # rows"
    and "printf_noargs (detail_of r) = None"
  shows "keypad_read_cb E (Some 0x0D) u = None"
proof -
  have q: "length q < 512" using cstr_bounds [OF assms(5)] assms(1) by (simp add: ui_ok_def)
  have ok: "results_ok entry_ok (g_results (dict u))"
    using assms(1) readable_entry_ok by (auto simp: ui_ok_def list_ok_def)
  have buf: "length (sanitize_buf E) = DICT_DETAIL_LEN" using assms(2) by (simp add: DICT_DETAIL_LEN_def)
  obtain n d where d: "dict_search (engine E) (sanitize_buf E) (kata_buf E) (dict u) (furigana_word u) = Some (n, d)"
      "results_ok entry_ok (g_results d)" "entry_shows (g_results d ! 0) (word_of r) (detail_of r)"
    using dict_search_result [OF assms(5) q assms(3) buf ok assms(6) assms(7) [symmetric]]
    by (auto simp: DICT_MAX_RESULTS_def)
  have "0 < length (g_results d)" using d(2) by (simp add: results_ok_def DICT_MAX_RESULTS_def)
  then have shown: "entry_text v 0 WORD = Some (word_of r)" "entry_text v 0 ACCENT = Some []"
      "entry_text v 0 DETAIL = Some (detail_of r)" if "dict v = d" "entries_set v" for v :: "'a ui"
    using d(3) that by (simp_all add: entry_text_def entry_shows_def cstring_cstr)
  have "populate_list L 0 v = None" if "dict v = d" "entries_set v" for L and v :: "'a ui"
    using shown [OF that] assms(8)
    by (cases "printf_noargs (word_of r)") (simp_all add: populate_list_def lv_call_ui_eq)
  moreover have "length (search_word u) = 512" using assms(1) by (simp add: ui_ok_def)
  ultimately show ?thesis
    using assms(4) d(1) poll_enter [of "0x0D" E u]
    by (simp add: keypad_read_cb_def key_enter_def lv_call_ui_eq)
qed



end
