(* ===== verification/UiGuiSpec.thy ===== *)
theory UiGuiSpec
  imports UiGuiProps UiSpec
begin

text \<open>
  The widget tree of the \<open>GUI/nuttxspace\<close> interface, the state its \<open>main\<close> enters the loop with,
  and the properties of its key handler.
\<close>

section \<open>The screen\<close>

definition widget_tree_gui ::
  "lvgl \<Rightarrow> containers \<Rightarrow> gui_widgets \<Rightarrow> (obj \<times> obj) list \<Rightarrow> (obj \<times> obj) list \<Rightarrow> (obj \<times> obj) list" where
  "widget_tree_gui L c w its bs =
     [(c_root c, lv_screen L), (c_top c, c_root c), (gw_furigana w, c_top c), (gw_search w, c_top c),
      (c_selected c, c_root c), (gw_selected_label w, c_selected c), (gw_accent_label w, c_selected c),
      (c_middle c, c_root c), (c_list c, c_middle c)]
     @ concat (map (\<lambda>(i, l). [(i, c_list c), (l, i)]) its)
     @ [(c_details c, c_middle c), (gw_details_label w, c_details c), (c_bottom c, c_root c)]
     @ concat (map (\<lambda>(i, l). [(i, c_bottom c), (l, i)]) bs)"

lemma create_widgets_gui_eq:
  assumes "lvgl_fresh L" and "objs s = []"
  shows "\<exists>c w its bs s'. run_state (create_widgets_gui L) s = ((c, w), s') \<and> length its = 5 \<and> length bs = 4
    \<and> gw_list_items w = c_selected c # map fst its
    \<and> gw_bottom_items w = map fst bs \<and> gw_bottom_labels w = map snd bs
    \<and> objs s' = widget_tree_gui L c w its bs \<and> objs_ok L (objs s')"
proof -
  have "objs_ok L (objs s)" using assms(2) by (simp add: objs_ok_def)
  then obtain root s1 where 1: "run_state (create_root L) s = (root, s1)" "objs s1 = [(root, lv_screen L)]"
      "objs_ok L (objs s1)"
    using create_root_eq [OF assms(1)] assms(2) by fastforce
  obtain tp fu se s2 where 2: "run_state (create_top_gui L root) s1 = ((tp, fu, se), s2)"
      "objs s2 = objs s1 @ [(tp, root), (fu, tp), (se, tp)]" "objs_ok L (objs s2)"
    using create_top_gui_eq [OF assms(1) 1(3)] by blast
  obtain sel sl al s3 where 3: "run_state (create_selected L root) s2 = ((sel, sl, al), s3)"
      "objs s3 = objs s2 @ [(sel, root), (sl, sel), (al, sel)]" "objs_ok L (objs s3)"
    using create_selected_eq [OF assms(1) 2(3)] by blast
  obtain mid lst s4 where 4: "run_state (create_middle L root) s3 = ((mid, lst), s4)"
      "objs s4 = objs s3 @ [(mid, root), (lst, mid)]" "objs_ok L (objs s4)"
    using create_middle_eq [OF assms(1) 3(3)] by blast
  obtain its s5 where 5: "length its = 5" "run_state (create_list_items L lst 5) s4 = (map fst its, s5)"
      "objs s5 = objs s4 @ concat (map (\<lambda>(i, l). [(i, lst), (l, i)]) its)" "objs_ok L (objs s5)"
    using create_list_items_eq [OF assms(1) 4(3)] by blast
  obtain det dl s6 where 6: "run_state (create_details L mid) s5 = ((det, dl), s6)"
      "objs s6 = objs s5 @ [(det, mid), (dl, det)]" "objs_ok L (objs s6)"
    using create_details_eq [OF assms(1) 5(4)] by blast
  obtain bot s7 where 7: "run_state (create_bottom_gui L root) s6 = (bot, s7)"
      "objs s7 = objs s6 @ [(bot, root)]" "objs_ok L (objs s7)"
    using create_bottom_gui_eq [OF assms(1) 6(3)] by blast
  obtain bs s8 where 8: "length bs = 4" "run_state (create_bottom_items_gui L bot 4) s7 = (bs, s8)"
      "objs s8 = objs s7 @ concat (map (\<lambda>(i, l). [(i, bot), (l, i)]) bs)" "objs_ok L (objs s8)"
    using create_bottom_items_gui_eq [OF assms(1) 7(3)] by blast
  let ?c = "\<lparr>c_root = root, c_top = tp, c_selected = sel, c_middle = mid, c_list = lst,
         c_details = det, c_bottom = bot\<rparr>"
  let ?w = "\<lparr>gw_selected_label = sl, gw_accent_label = al, gw_details_label = dl, gw_furigana = fu,
         gw_search = se, gw_list_items = sel # map fst its, gw_bottom_items = map fst bs,
         gw_bottom_labels = map snd bs\<rparr>"
  have "\<exists>s'. run_state (create_widgets_gui L) s = ((?c, ?w), s') \<and> objs s' = objs s8"
    using 1(1) 2(1) 3(1) 4(1) 5(2) 6(1) 7(1) 8(2)
    by (simp add: create_widgets_gui_def create_root_gui_def create_selected_gui_def create_middle_gui_def
        create_list_items_gui_def create_details_gui_def list_element_count_gui_def
        BOTTOM_ITEM_COUNT_gui_def run_lv_do)
  moreover have "objs s8 = widget_tree_gui L ?c ?w its bs"
    using 1(2) 2(2) 3(2) 4(2) 5(3) 6(2) 7(2) 8(3) by (simp add: widget_tree_gui_def)
  ultimately show ?thesis
    using 5(1) 8(1,4) by (elim exE) (intro exI [of _ ?c] exI [of _ ?w] exI [of _ its] exI [of _ bs], auto)
qed

definition screen_gui_ok :: "lvgl \<Rightarrow> 'db gui \<Rightarrow> bool" where
  "screen_gui_ok L u \<longleftrightarrow> label_of_gui L u 0 = gw_selected_label (g_wid u)
     \<and> distinct ([gw_furigana (g_wid u), gw_search (g_wid u), gw_accent_label (g_wid u),
          gw_details_label (g_wid u), gw_bottom_labels (g_wid u) ! 0] @ map (label_of_gui L u) [0..<6])"

lemma tree_screen_gui_ok:
  assumes "lvgl_first_child L" and "length its = 5" and "length bs = 4"
    and "gw_list_items w = c_selected c # map fst its" and "gw_bottom_labels w = map snd bs"
    and "objs (g_lvs u) = widget_tree_gui L c w its bs" and "objs_ok L (objs (g_lvs u))" and "g_wid u = w"
  shows "screen_gui_ok L u"
proof -
  obtain i1 l1 i2 l2 i3 l3 i4 l4 i5 l5 where its: "its = [(i1, l1), (i2, l2), (i3, l3), (i4, l4), (i5, l5)]"
    using assms(2) by (auto simp: numeral_eq_Suc length_Suc_conv)
  obtain j b bs' where bs: "bs = (j, b) # bs'" using assms(3) by (cases bs) auto
  let ?pre = "[(c_root c, lv_screen L), (c_top c, c_root c), (gw_furigana w, c_top c), (gw_search w, c_top c),
      (c_selected c, c_root c), (gw_selected_label w, c_selected c), (gw_accent_label w, c_selected c),
      (c_middle c, c_root c), (c_list c, c_middle c)]"
  note os = assms(6) [unfolded widget_tree_gui_def its bs]
  let ?xs = "lv_screen L # map fst (objs (g_lvs u))"
  let ?n = "take 22 ?xs @ [b]"
  have "distinct ?xs" using assms(7) by (simp add: objs_ok_def)
  then have "distinct (take 22 ?xs)" "set (take 22 ?xs) \<inter> set (drop 22 ?xs) = {}"
    using set_take_disj_set_drop_if_distinct [of ?xs 22 22] distinct_take by blast+
  moreover have "b \<in> set (drop 22 ?xs)" by (simp add: os)
  ultimately have dn: "distinct ?n" unfolding distinct_append by (simp del: take_Suc_Cons) blast
  note d = dn [unfolded os, simplified]
  have "distinct (rev ?n)" using dn by (simp only: distinct_rev)
  note r = this [unfolded os, simplified]
  have "get_child L (objs (g_lvs u)) (c_selected c) 0 = gw_selected_label w"
    by (rule first_child [OF assms(1), where ?os1.0 = "take 5 ?pre"]) (simp_all add: os r)
  moreover have "get_child L (objs (g_lvs u)) i1 0 = l1"
    by (rule first_child [OF assms(1), where ?os1.0 = "?pre @ [(i1, c_list c)]"]) (simp_all add: os r)
  moreover have "get_child L (objs (g_lvs u)) i2 0 = l2"
    by (rule first_child [OF assms(1), where ?os1.0 = "?pre @ [(i1, c_list c), (l1, i1), (i2, c_list c)]"])
       (simp_all add: os r)
  moreover have "get_child L (objs (g_lvs u)) i3 0 = l3"
    by (rule first_child [OF assms(1), where ?os1.0 = "?pre @ [(i1, c_list c), (l1, i1), (i2, c_list c),
       (l2, i2), (i3, c_list c)]"]) (simp_all add: os r)
  moreover have "get_child L (objs (g_lvs u)) i4 0 = l4"
    by (rule first_child [OF assms(1), where ?os1.0 = "?pre @ [(i1, c_list c), (l1, i1), (i2, c_list c),
       (l2, i2), (i3, c_list c), (l3, i3), (i4, c_list c)]"]) (simp_all add: os r)
  moreover have "get_child L (objs (g_lvs u)) i5 0 = l5"
    by (rule first_child [OF assms(1), where ?os1.0 = "?pre @ [(i1, c_list c), (l1, i1), (i2, c_list c),
       (l2, i2), (i3, c_list c), (l3, i3), (i4, c_list c), (l4, i4), (i5, c_list c)]"]) (simp_all add: os r)
  ultimately have "map (label_of_gui L u) [0, 1, 2, 3, 4, 5] = [gw_selected_label w, l1, l2, l3, l4, l5]"
    using assms(4,8) its by (simp add: label_of_gui_def)
  moreover have "[0..<6] = [0, 1, 2, 3, 4, 5]" by (simp add: upt_rec)
  ultimately show ?thesis by (simp add: screen_gui_ok_def assms(5,8) bs d r)
qed

text \<open>What the list shows after a call of \<open>populate_list\<close>.\<close>

lemma list_calls_gui_shown:
  assumes "screen_gui_ok L u" and "k < 6"
  shows "label_text (list_calls_gui L u start @ cs) (label_of_gui L u k) = Text (item_text_gui u start k)"
    and "label_text (list_calls_gui L u start @ cs) (gw_details_label (g_wid u)) =
      Text (detail_at (g_results (g_dict u)) (nat start))"
proof -
  have d: "distinct (map (label_of_gui L u) [0..<6])"
      "gw_details_label (g_wid u) \<notin> label_of_gui L u ` set [0..<6]"
    using assms(1) unfolding screen_gui_ok_def by (auto simp del: upt_Suc)
  show "label_text (list_calls_gui L u start @ cs) (label_of_gui L u k) = Text (item_text_gui u start k)"
    using label_text_items [OF d(1), of k] assms(2)
    by (simp add: list_calls_gui_def item_calls_gui_def del: upt_Suc)
  show "label_text (list_calls_gui L u start @ cs) (gw_details_label (g_wid u)) =
      Text (detail_at (g_results (g_dict u)) (nat start))"
    using d(2) label_text_skip [of "gw_details_label (g_wid u)" "label_of_gui L u" "[0..<6]"]
    by (simp add: list_calls_gui_def item_calls_gui_def del: upt_Suc set_upt)
qed

lemma styling_gui: "styling (style_gui c w)"
  unfolding style_gui_def by (intro styling_bind styling_top styling_middle styling_bottom)

lemma screen_gui_ok_cong:
  "screen_gui_ok L u \<Longrightarrow> g_wid v = g_wid u \<Longrightarrow> objs (g_lvs v) = objs (g_lvs u) \<Longrightarrow> screen_gui_ok L v"
  by (simp add: screen_gui_ok_def label_of_gui_def [abs_def])

lemma create_ui_gui_eq:
  assumes "lvgl_fresh L" and "lvgl_first_child L" and "objs (g_lvs u) = []"
    and "g_entries_set u" and "results_ok readable_lib (g_results (g_dict u))"
    and "0 \<le> g_results_count u" and "g_results_count u \<le> 64"
  shows "\<exists>w s. create_ui_gui L u = Some (u\<lparr>g_wid := w, g_window_start := 0, g_lvs := s\<rparr>)
    \<and> gui_list_ok (u\<lparr>g_wid := w, g_window_start := 0, g_lvs := s\<rparr>)
    \<and> screen_gui_ok L (u\<lparr>g_wid := w, g_window_start := 0, g_lvs := s\<rparr>)"
proof -
  obtain c w its bs s1 where cw: "run_state (create_widgets_gui L) (g_lvs u) = ((c, w), s1)"
      "length its = 5" "length bs = 4" "gw_list_items w = c_selected c # map fst its"
      "gw_bottom_items w = map fst bs" "gw_bottom_labels w = map snd bs"
      "objs s1 = widget_tree_gui L c w its bs" "objs_ok L (objs s1)"
    using create_widgets_gui_eq [OF assms(1,3)] by blast
  define u1 where "u1 = u\<lparr>g_wid := w, g_lvs := s1\<rparr>"
  have lo: "gui_list_ok u1" using assms(4-7) cw(2-6) by (simp add: u1_def gui_list_ok_def)
  have so: "screen_gui_ok L u1"
    using tree_screen_gui_ok [OF assms(2) cw(2,3,4,6), of u1] cw(7,8) by (simp add: u1_def)
  define u2 where "u2 = u1\<lparr>g_window_start := 0,
    g_lvs := (g_lvs u1)\<lparr>calls := list_calls_gui L u1 0 @ calls (g_lvs u1)\<rparr>\<rparr>"
  have pop: "populate_list_gui L 0 u1 = Some u2"
    using populate_list_gui_eq [OF lo, of 0 L] by (simp add: u2_def)
  obtain cs where hl: "highlight_items 0 u2 = Some (u2\<lparr>g_lvs := (g_lvs u2)\<lparr>calls := cs\<rparr>\<rparr>)"
    using highlight_items_eq [of u2 0] lo by (auto simp: u2_def gui_list_ok_def)
  define s4 where "s4 = snd (run_state (style_gui c w) ((g_lvs u2)\<lparr>calls :=
    Set_text_fmt (gw_bottom_labels w ! 0) ''%d found'' [g_results_count u2] # cs\<rparr>))"
  have s4: "objs s4 = objs s1" using stylingD(1) [OF styling_gui] by (simp add: s4_def u2_def u1_def)
  have fin: "u2\<lparr>g_lvs := s4\<rparr> = u\<lparr>g_wid := w, g_window_start := 0, g_lvs := s4\<rparr>" "g_wid u2 = w"
    by (simp_all add: u2_def u1_def)
  have "gw_bottom_labels w \<noteq> []" using cw(3,6) by auto
  then have "create_ui_gui L u = Some (u\<lparr>g_wid := w, g_window_start := 0, g_lvs := s4\<rparr>)"
    using cw(1) pop hl fin
    by (simp add: create_ui_gui_def u1_def [symmetric] update_bottom_highlight_gui_def
        update_results_gui_def lv_gui_def s4_def)
  moreover have "screen_gui_ok L (u\<lparr>g_wid := w, g_window_start := 0, g_lvs := s4\<rparr>)"
    by (rule screen_gui_ok_cong [OF so]) (simp_all add: u1_def s4)
  moreover have "gui_list_ok (u\<lparr>g_wid := w, g_window_start := 0, g_lvs := s4\<rparr>)"
    using lo by (simp add: u1_def gui_list_ok_def)
  ultimately show ?thesis by blast
qed

lemma main_init_gui_eq:
  assumes "env_gui_ok E" and "lvgl_fresh (lvgl_api E)" and "lvgl_first_child (lvgl_api E)" and "objs s = []"
  shows "\<exists>u. main_init_gui E True s = Some (Inr u) \<and> gui_ok u \<and> screen_gui_ok (lvgl_api E) u
    \<and> cstr (g_search_word u) 0 []"
proof -
  let ?u = "(gui_init s) :: 'a gui"
  define d0 where "d0 = snd (dict_open_lib (engine E) (g_dict ?u) (lit ''/host/dict.db''))"
  have res: "g_results d0 = g_results (dict_init :: 'a dict_state)"
    by (simp add: d0_def gui_init_def dict_open_lib_def case_prod_unfold Let_def)
  have "readable_lib (replicate RESULT_SIZE 0)"
    by (auto simp: readable_lib_def entry_sized_def entry_shows_def dict_consts intro!: exI [of _ "[]"] cstr_Nil)
  then have "results_ok readable_lib (g_results d0)" unfolding res by (rule results_ok_init)
  moreover have "cstr (lit ''ame'' @ [0]) 0 (lit ''ame'')" "wf_utf8 (lit ''ame'')"
    by (simp add: cstr_def, code_simp)
  ultimately obtain n d where d: "dict_search_lib (engine E) (kata_buf E) d0 (lit ''ame'' @ [0]) = Some (n, d)"
      "results_ok readable_lib (g_results d)"
    using search_lib_readable [OF assms(1), of d0 "lit ''ame'' @ [0]" "lit ''ame''"] by auto
  let ?v = "?u\<lparr>g_dict := d, g_entries_set := True\<rparr>"
  obtain w s' where ws: "create_ui_gui (lvgl_api E) ?v = Some (?v\<lparr>g_wid := w, g_window_start := 0, g_lvs := s'\<rparr>)"
      "gui_list_ok (?v\<lparr>g_wid := w, g_window_start := 0, g_lvs := s'\<rparr>)"
      "screen_gui_ok (lvgl_api E) (?v\<lparr>g_wid := w, g_window_start := 0, g_lvs := s'\<rparr>)"
    using create_ui_gui_eq [OF assms(2,3), of ?v] assms(4) d(2) by (auto simp: gui_init_def)
  let ?r = "?v\<lparr>g_wid := w, g_window_start := 0, g_lvs := s'\<rparr>"
  have "main_init_gui E True s = Some (Inr ?r)"
    using d(1) ws(1) by (simp add: main_init_gui_def d0_def)
  moreover have z: "cstr (g_search_word ?r) 0 []" "cstr (g_furigana_word ?r) 0 []" "wf_utf8 []"
    by (simp_all add: gui_init_def cstr_Nil wf_utf8_def)
  moreover have "gui_ok ?r"
    unfolding gui_ok_def using ws(2) z by (intro conjI exI [of _ "[]"]) (simp_all add: gui_init_def)
  ultimately show ?thesis using ws(3) by blast
qed

section \<open>Runs\<close>

fun run_keys_gui :: "'db env \<Rightarrow> byte list \<Rightarrow> 'db gui \<Rightarrow> 'db gui option" where
  "run_keys_gui E [] u = Some u"
| "run_keys_gui E (c # cs) u = do { u \<leftarrow> keypad_read_cb_gui E (Some c) u; run_keys_gui E cs u }"

inductive gui_reach :: "'db env \<Rightarrow> 'db gui \<Rightarrow> 'db gui \<Rightarrow> bool" for E u0 where
  gui_start: "gui_reach E u0 u0"
| gui_key: "gui_reach E u0 u \<Longrightarrow> keypad_read_cb_gui E inp u = Some v \<Longrightarrow> gui_reach E u0 v"

lemma run_keys_gui_append: "run_keys_gui E (a @ b) u = do { v \<leftarrow> run_keys_gui E a u; run_keys_gui E b v }"
  by (induction a arbitrary: u) (auto intro!: Option.bind_cong)

lemma gui_step_ok:
  assumes "gui_ok u" and "env_gui_ok E" and "keypad_read_cb_gui E inp u = Some v"
  shows "gui_ok v"
proof -
  obtain s where s: "cstr (g_search_word u) 0 s" using assms(1) by (auto simp: gui_ok_def)
  have "\<not> fault_key s inp"
    using poll_gui_fault [OF assms(1) s, of inp E] assms(3) by (auto simp: keypad_read_cb_gui_def)
  then show ?thesis using poll_gui_ok [OF assms(1,2) s] assms(3) by (fastforce simp: keypad_read_cb_gui_def)
qed

lemma type_letters_gui:
  assumes "gui_ok u" and "cstr (g_search_word u) 0 s" and "list_all ascii s" and "list_all letter_key ks"
    and "length s + length ks \<le> 511"
  shows "\<exists>v. run_keys_gui E ks u = Some v \<and> gui_ok v \<and> g_dict v = g_dict u \<and> g_wid v = g_wid u
    \<and> objs (g_lvs v) = objs (g_lvs u) \<and> cstr (g_search_word v) 0 (s @ ks)
    \<and> (ks \<noteq> [] \<longrightarrow> 3 * length (s @ ks) < 512 \<longrightarrow> cstr (g_furigana_word v) 0 (concat (kana_chunks (s @ ks))))"
  using assms(4,5)
proof (induction ks rule: rev_induct)
  case Nil
  then show ?case using assms(1,2) by simp
next
  case (snoc c ks)
  then obtain v where v: "run_keys_gui E ks u = Some v" "gui_ok v" "g_dict v = g_dict u" "g_wid v = g_wid u"
      "objs (g_lvs v) = objs (g_lvs u)" "cstr (g_search_word v) 0 (s @ ks)" by auto
  have len: "length (g_search_word v) = 512" "length (g_furigana_word v) = 512"
    using v(2) by (simp_all add: gui_ok_def)
  have c: "length (s @ ks) < 511" "c \<noteq> 0" "letter_key c" "list_all ascii (s @ ks)" "ascii c"
    using snoc.prems assms(3) letter_key_values [of c] letter_key_ascii by (auto simp: list_all_iff)
  obtain x where x: "key_letter_gui c v = Some x" "edited_gui v ((s @ ks) @ [c]) x"
    using key_letter_gui_eq [OF v(6) len(1) c(4) len(2) c(1,2,5)] by blast
  have "keypad_read_cb_gui E (Some c) v = Some x"
    using x(1) c(3) letter_key_values [OF c(3)]
    by (simp add: keypad_read_cb_gui_def poll_keyboard_gui_def letter_key_def)
  then have "run_keys_gui E (ks @ [c]) u = Some x" using v(1) by (simp add: run_keys_gui_append)
  moreover have "gui_ok x" using edited_gui_ok [OF v(2) x(2)] .
  ultimately show ?case using x(2) v(3-5) by (auto simp: edited_gui_def)
qed

lemma gui_demo_start:
  assumes "list_all printable_row_lib rows"
  obtains u where "main_init_gui (demo_env rows) True \<lparr>objs = [], calls = []\<rparr> = Some (Inr u)"
    and "gui_ok u" and "screen_gui_ok demo_lvgl u" and "cstr (g_search_word u) 0 []"
    and "env_gui_ok (demo_env rows)"
proof -
  have "env_gui_ok (demo_env rows)"
    using assms by (auto simp: env_gui_ok_def demo_env_def fixed_engine_def list_all_iff dest: in_set_takeD)
  then show thesis
    using main_init_gui_eq [of "demo_env rows" "\<lparr>objs = [], calls = []\<rparr>"]
      demo_lvgl_fresh demo_lvgl_first_child that by (auto simp: demo_env_def)
qed

text \<open>What Enter leaves on the screen for the rows of a search.\<close>

definition entered_gui :: "lvgl \<Rightarrow> row list \<Rightarrow> 'db gui \<Rightarrow> bool" where
  "entered_gui L rows v \<longleftrightarrow>
     g_results_count v = int (min 64 (length rows)) \<and> g_window_start v = 0
     \<and> cstr (g_search_word v) 0 [] \<and> cstr (g_furigana_word v) 0 []
     \<and> (\<forall>k < 6. label_text (calls (g_lvs v)) (label_of_gui L v k) =
          Text (if k < length rows then word_of_lib (rows ! k) else []))
     \<and> (rows \<noteq> [] \<longrightarrow> label_text (calls (g_lvs v)) (gw_details_label (g_wid v)) =
          Text (sanitized (senses (rows ! 0))))"

lemma entered_guiI:
  assumes "gui_ok t" and "screen_gui_ok L t"
    and rows: "\<And>i. i < length rows \<Longrightarrow> i < 64 \<Longrightarrow>
      entry_shows (g_results d ! i) (word_of_lib (rows ! i)) (sanitized (senses (rows ! i)))"
    and n: "n = min 64 (length rows)" and w: "w = after_search_gui t n d"
  shows "entered_gui L rows (w\<lparr>g_window_start := 0, g_lvs := (g_lvs t)\<lparr>calls :=
      Set_text_fmt (gw_bottom_labels (g_wid t) ! 0) ''%d found'' [int n] # list_calls_gui L w 0 @ cs\<rparr>\<rparr>)"
    (is "entered_gui L rows ?v")
proof -
  have len: "length (g_furigana_word t) = 512" "length (g_search_word t) = 512"
    using assms(1) by (simp_all add: gui_ok_def)
  have sw: "screen_gui_ok L w"
    by (rule screen_gui_ok_cong [OF assms(2)]) (simp_all add: w after_search_gui_def)
  have lab: "label_of_gui L ?v = label_of_gui L w" "g_wid w = g_wid t"
    by (simp_all add: label_of_gui_def [abs_def] w after_search_gui_def)
  have ne: "label_of_gui L w k \<noteq> gw_bottom_labels (g_wid t) ! 0" if "k < 6" for k
  proof -
    have "label_of_gui L w k \<in> set (map (label_of_gui L w) [0..<6])" using that by auto
    then show ?thesis using sw lab(2) unfolding screen_gui_ok_def by (auto simp del: upt_Suc)
  qed
  have nd: "gw_details_label (g_wid t) \<noteq> gw_bottom_labels (g_wid t) ! 0"
    using assms(2) by (auto simp: screen_gui_ok_def)
  note texts = entry_shows_texts [OF rows refl]
  have it: "item_text_gui w 0 k = (if k < length rows then word_of_lib (rows ! k) else [])" if "k < 6" for k
    using that texts(1) [of k] by (simp add: item_text_gui_def w after_search_gui_def n)
  have "\<forall>k < 6. label_text (calls (g_lvs ?v)) (label_of_gui L ?v k) =
      Text (if k < length rows then word_of_lib (rows ! k) else [])"
    using list_calls_gui_shown(1) [OF sw] ne it lab(1) by simp
  moreover have "rows \<noteq> [] \<longrightarrow> label_text (calls (g_lvs ?v)) (gw_details_label (g_wid ?v)) =
      Text (sanitized (senses (rows ! 0)))"
    using list_calls_gui_shown(2) [OF sw, of 0 0 cs] nd texts(2) [of 0] by (simp add: w after_search_gui_def)
  ultimately show ?thesis
    using len by (simp add: entered_gui_def w after_search_gui_def cstr_Nil n)
qed

lemma enter_gui:
  assumes "gui_ok t" and "env_gui_ok E" and "screen_gui_ok (lvgl_api E) t" and "cstr (g_furigana_word t) 0 q"
    and "sqlite3_prepare_v2 (engine E) (g_db (g_dict t)) DICT_SQL_LIB = 0"
    and "rows = sqlite3_rows (engine E) (g_db (g_dict t)) DICT_SQL_LIB [q, kata_str q] DICT_MAX_RESULTS"
  shows "\<exists>v. key_enter_gui E t = Some v \<and> entered_gui (lvgl_api E) rows v"
proof -
  have ok: "results_ok readable_lib (g_results (g_dict t))" and len: "length (g_furigana_word t) = 512"
    using assms(1) by (simp_all add: gui_ok_def gui_list_ok_def)
  have wf: "wf_utf8 q" using assms(1,4) cstr_unique by (auto simp: gui_ok_def)
  have lq: "length q < 512" using cstr_bounds [OF assms(4)] len by simp
  have sized: "results_ok entry_sized (g_results (g_dict t))"
    using ok by (auto simp: results_ok_def readable_lib_def list_all_iff)
  have E: "length (kata_buf E) = 512" "list_all printable_row_lib rows"
    using assms(2,6) by (auto simp: env_gui_ok_def)
  obtain d where d: "dict_search_lib (engine E) (kata_buf E) (g_dict t) (g_furigana_word t) =
        Some (min DICT_MAX_RESULTS (length rows), d)" "results_ok entry_sized (g_results d)"
      "\<forall>i < length rows. i < DICT_MAX_RESULTS \<longrightarrow>
        entry_shows (g_results d ! i) (word_of_lib (rows ! i)) (sanitized (senses (rows ! i)))"
      "\<forall>i < DICT_MAX_RESULTS. length rows \<le> i \<longrightarrow> g_results d ! i = g_results (g_dict t) ! i"
    using dict_search_lib_result [OF assms(4) wf lq E(1) sized assms(5,6)] by blast
  have rd: "results_ok readable_lib (g_results d)"
    using readable_lib_after_search [OF ok d(2) E(2) _ d(4)] d(3) by (simp add: detail_of_lib_def)
  show ?thesis
    using key_enter_gui_eq [OF assms(1,4), of E "min 64 (length rows)" d] d(1,3) rd
      entered_guiI [OF assms(1,3) _ refl refl, of rows d]
    by (simp add: DICT_MAX_RESULTS_def)
qed

section \<open>Properties\<close>

text \<open>
  C14. From the start of \<open>main\<close> of the \<open>GUI/nuttxspace\<close> copy on, every state the input callback
  reaches satisfies the invariant: C strings in the buffers, an ASCII search word, a kana
  word of well-formed UTF-8, window and selection in range.
\<close>

theorem gui_reachable_ok:
  assumes "env_gui_ok E" and "lvgl_fresh (lvgl_api E)" and "lvgl_first_child (lvgl_api E)" and "objs s = []"
    and "main_init_gui E True s = Some (Inr u0)" and "gui_reach E u0 u"
  shows "gui_ok u"
proof -
  have "gui_ok u0" using main_init_gui_eq [OF assms(1-4)] assms(5) by auto
  with assms(6) show ?thesis by (induction rule: gui_reach.induct) (auto intro: gui_step_ok assms(1))
qed

theorem gui_reachable_ok_witness:
  "\<exists>u. main_init_gui (demo_env []) True \<lparr>objs = [], calls = []\<rparr> = Some (Inr u) \<and> gui_ok u"
proof -
  obtain u where u: "main_init_gui (demo_env []) True \<lparr>objs = [], calls = []\<rparr> = Some (Inr u)"
      "env_gui_ok (demo_env [])"
    using gui_demo_start [of "[]"] by auto
  have "lvgl_fresh (lvgl_api (demo_env []))" "lvgl_first_child (lvgl_api (demo_env []))"
    using demo_lvgl_fresh demo_lvgl_first_child by (simp_all add: demo_env_def)
  then have "gui_ok u" using u by (intro gui_reachable_ok [OF u(2) _ _ _ u(1)]) (auto intro: gui_start)
  then show ?thesis using u(1) by blast
qed

text \<open>
  A key of the \<open>GUI/nuttxspace\<close> copy is undefined behaviour exactly for a backspace on an
  empty word and for a letter behind 511 letters.
\<close>

lemma gui_key_fault_iff:
  assumes "gui_ok u" and "env_gui_ok E" and "cstr (g_search_word u) 0 s"
  shows "keypad_read_cb_gui E inp u = None \<longleftrightarrow>
      (inp = Some 127 \<and> s = []) \<or> (\<exists>c. inp = Some c \<and> letter_key c \<and> length s = 511)"
proof (cases "fault_key s inp")
  case True
  then have "keypad_read_cb_gui E inp u = None"
    unfolding keypad_read_cb_gui_def by (rule poll_gui_fault [OF assms(1,3)])
  then show ?thesis using True by (simp add: fault_key_def)
next
  case False
  then obtain v where "keypad_read_cb_gui E inp u = Some v"
    using poll_gui_ok [OF assms False] by (auto simp: keypad_read_cb_gui_def)
  then show ?thesis using False by (auto simp: fault_key_def)
qed

text \<open>
  Typing a romaji word and pressing Enter in the \<open>GUI/nuttxspace\<close> copy: the dictionary is
  searched for the hiragana and for the katakana form of the word, both words are cleared,
  and the six labels of the list show the words of the first rows.
\<close>

lemma gui_type_word_and_enter:
  assumes "gui_ok u" and "env_gui_ok E" and "screen_gui_ok (lvgl_api E) u" and "cstr (g_search_word u) 0 []"
    and "list_all letter_key ks" and "ks \<noteq> []" and "3 * length ks < 512"
    and "q = concat (kana_chunks ks)"
    and "sqlite3_prepare_v2 (engine E) (g_db (g_dict u)) DICT_SQL_LIB = 0"
    and "rows = sqlite3_rows (engine E) (g_db (g_dict u)) DICT_SQL_LIB [q, kata_str q] DICT_MAX_RESULTS"
  shows "\<exists>v. run_keys_gui E (ks @ [0x0A]) u = Some v
    \<and> g_results_count v = int (min 64 (length rows)) \<and> g_window_start v = 0
    \<and> cstr (g_search_word v) 0 [] \<and> cstr (g_furigana_word v) 0 []
    \<and> (\<forall>k < 6. label_text (calls (g_lvs v)) (label_of_gui (lvgl_api E) v k) =
          Text (if k < length rows then word_of_lib (rows ! k) else []))
    \<and> (rows \<noteq> [] \<longrightarrow> label_text (calls (g_lvs v)) (gw_details_label (g_wid v)) = Text (sanitized (senses (rows ! 0))))"
proof -
  let ?L = "lvgl_api E"
  obtain t where t: "run_keys_gui E ks u = Some t" "gui_ok t" "g_dict t = g_dict u" "g_wid t = g_wid u"
      "objs (g_lvs t) = objs (g_lvs u)" "cstr (g_furigana_word t) 0 q"
    using type_letters_gui [OF assms(1,4) _ assms(5), of E] assms(6,7,8) by auto
  have so: "screen_gui_ok ?L t" using screen_gui_ok_cong [OF assms(3) t(4,5)] .
  obtain v where v: "key_enter_gui E t = Some v" "entered_gui ?L rows v"
    using enter_gui [OF t(2) assms(2) so t(6), of rows] assms(9,10) t(3) by auto
  have "run_keys_gui E (ks @ [0x0A]) u = Some v"
    using t(1) v(1) by (simp add: run_keys_gui_append keypad_read_cb_gui_def poll_keyboard_gui_def)
  then show ?thesis using v(2) by (auto simp: entered_gui_def)
qed

end
