(* ===== verification/Ring.thy ===== *)
theory Ring
  imports LibcString
begin

text \<open>
  Rings: the bytes of a C object read cyclically from a position on, and what the two copies of a
  wrapped transfer do to them. The circular buffer of the C library and the buffers of the serial
  driver are such rings.
\<close>

section \<open>Definition\<close>

text \<open>The bytes of a ring of \<open>s\<close> cells from position \<open>t\<close> on.\<close>

definition ring :: "mem \<Rightarrow> nat \<Rightarrow> nat \<Rightarrow> nat \<Rightarrow> byte list" where
  "ring b s t n = map (\<lambda>i. b ! ((t + i) mod s)) [0..<n]"

section \<open>Transfers\<close>

lemma length_ring [simp]: "length (ring b s t n) = n"
  by (simp add: ring_def)

lemma nth_ring [simp]: "i < n \<Longrightarrow> ring b s t n ! i = b ! ((t + i) mod s)"
  by (simp add: ring_def)

lemma ring_mod: "t mod s = t' mod s \<Longrightarrow> ring b s t n = ring b s t' n"
  by (simp add: ring_def) (metis mod_add_left_eq)

lemma ring_drop: "ring b s (t + k) n = drop k (ring b s t (k + n))"
  by (intro nth_equalityI) (simp_all add: add.assoc)

lemma mod_add_wrap: "a < (s::nat) \<Longrightarrow> i \<le> s \<Longrightarrow> (a + i) mod s = (if a + i < s then a + i else a + i - s)"
  by (auto simp: mod_if)

lemma mod_before:
  assumes "(i::nat) < n" and "n \<le> s"
  shows "(t + i) mod s = (let off = (t + n) mod s in if n - i \<le> off then off - (n - i) else off + s - (n - i))"
proof -
  define r where "r = (t + i) mod s"
  define m where "m = n - i"
  have rm: "r < s" "m \<le> s" "0 < m" using assms by (auto simp: r_def m_def)
  have "t + n = t + i + m" using assms by (simp add: m_def)
  then have "(t + n) mod s = (r + m) mod s" unfolding r_def by (metis mod_add_left_eq)
  also have "\<dots> = (if r + m < s then r + m else r + m - s)" using rm by (intro mod_add_wrap) auto
  finally show ?thesis
    unfolding r_def [symmetric] m_def [symmetric] Let_def using rm by (auto split: if_splits)
qed

text \<open>The two copies of a write store the bytes behind the \<open>n\<close> that are there.\<close>

lemma ring_write:
  assumes "length b = s" and "0 < s" and "n + length x \<le> s" and "off = (t + n) mod s"
    and "sp = min (length x) (s - off)"
  shows "ring (blit (blit b off (take sp x)) 0 (drop sp x)) s t (n + length x) = ring b s t n @ x"
proof -
  let ?b = "blit (blit b off (take sp x)) 0 (drop sp x)"
  have off: "off < s" using assms by simp
  have h: "sp \<le> length x" "off + sp \<le> s" "length x - sp \<le> off" "length x \<le> s"
    using assms(3,5) off by auto
  have nth: "?b ! j = (if j < length x - sp then x ! (sp + j)
      else if off \<le> j \<and> j < off + sp then x ! (j - off) else b ! j)" if "j < s" for j
    using that h assms(1) by (auto simp: nth_blit)
  have old: "?b ! ((t + i) mod s) = b ! ((t + i) mod s)" if "i < n" for i
  proof -
    define j where "j = (t + i) mod s"
    have "j < s" using assms(2) by (simp add: j_def)
    moreover have "j = (if n - i \<le> off then off - (n - i) else off + s - (n - i))"
      using mod_before [OF that, of s t] assms(3,4) by (simp add: j_def Let_def)
    ultimately have j: "j < s" "j = (if n - i \<le> off then off - (n - i) else off + s - (n - i))" by simp_all
    have sp: "sp = length x \<or> sp = s - off" using assms(5) by auto
    have "length x - sp \<le> j \<and> \<not> (off \<le> j \<and> j < off + sp)"
    proof (cases "n - i \<le> off")
      case True
      then have "j + (n - i) = off" using j(2) by simp
      then show ?thesis using sp h off that assms(3) by linarith
    next
      case False
      then have "j + (n - i) = off + s" using j(2) that assms(3) by simp
      then show ?thesis using sp h off that assms(3) by linarith
    qed
    then have "?b ! j = b ! j" using nth [OF j(1)] by auto
    then show ?thesis by (simp only: j_def)
  qed
  have new: "?b ! ((t + (n + i)) mod s) = x ! i" if "i < length x" for i
  proof -
    define j where "j = (t + (n + i)) mod s"
    have "j = (off + i) mod s"
      using assms(4) by (simp add: j_def mod_add_left_eq add.assoc [symmetric])
    also have "\<dots> = (if off + i < s then off + i else off + i - s)"
      using that h off by (intro mod_add_wrap) auto
    finally have j: "j = (if off + i < s then off + i else off + i - s)" .
    have sp: "sp = length x \<or> sp = s - off" using assms(5) by auto
    have "?b ! j = x ! i"
    proof (cases "off + i < s")
      case True
      then have "j = off + i" "i < sp" "\<not> j < length x - sp" using j sp that h by auto
      then show ?thesis using nth [of j] True by simp
    next
      case False
      then have "sp + j = i" "j < length x - sp" "j < s" using j sp that h off by auto
      then show ?thesis using nth [of j] by simp
    qed
    then show ?thesis by (simp only: j_def)
  qed
  show ?thesis
  proof (rule nth_equalityI)
    fix i assume "i < length (ring ?b s t (n + length x))"
    then show "ring ?b s t (n + length x) ! i = (ring b s t n @ x) ! i"
      using old [of i] new [of "i - n"] by (cases "i < n") (auto simp: nth_append)
  qed simp
qed

text \<open>The two copies of a read deliver the first \<open>k\<close> bytes.\<close>

lemma ring_read:
  assumes "length b = s" and "0 < s" and "k \<le> n" and "n \<le> s" and "off = t mod s" and "sp = min k (s - off)"
  shows "take sp (drop off b) @ take (k - sp) b = take k (ring b s t n)"
proof (rule nth_equalityI)
  have off: "off < s" using assms by simp
  show "length (take sp (drop off b) @ take (k - sp) b) = length (take k (ring b s t n))"
    using assms off by auto
  fix i assume "i < length (take sp (drop off b) @ take (k - sp) b)"
  then have i: "i < k" using assms off by auto
  have "(t + i) mod s = (off + i) mod s" using assms(5) by (simp add: mod_add_left_eq)
  also have "\<dots> = (if off + i < s then off + i else off + i - s)"
    using i assms off by (intro mod_add_wrap) auto
  finally show "(take sp (drop off b) @ take (k - sp) b) ! i = take k (ring b s t n) ! i"
    using i assms off by (auto simp: nth_append add.commute split: if_splits)
qed

lemma memcpy_two:
  assumes "off + sp \<le> length b" and "k \<le> length b" and "sp \<le> k" and "i + k \<le> length src"
    and "x = take k (drop i src)"
  shows "memcpy b off src i sp = Some (blit b off (take sp x))"
    and "memcpy (blit b off (take sp x)) 0 src (i + sp) (k - sp) = Some (blit (blit b off (take sp x)) 0 (drop sp x))"
proof -
  have len: "length (blit b off (take sp x)) = length b" using assms by simp
  show "memcpy b off src i sp = Some (blit b off (take sp x))"
    using memcpy_eq [of i sp src off b] assms by (simp add: min_def)
  show "memcpy (blit b off (take sp x)) 0 src (i + sp) (k - sp) = Some (blit (blit b off (take sp x)) 0 (drop sp x))"
    using memcpy_eq [of "i + sp" "k - sp" src 0 "blit b off (take sp x)"] assms(2-5) len
    by (simp add: drop_take add.commute)
qed

text \<open>A transfer of more bytes than are free keeps the newest.\<close>

lemma ring_overwrite:
  assumes b: "length b = S" "0 < S" "n \<le> S" and x: "length x = N" and ov: "ov = n + N - S"
    and off: "off = (t + (n + (N - S))) mod S" and sp: "sp = min (min N S) (S - off)" and y: "y = drop (N - S) x"
  shows "ring (blit (blit b off (take sp y)) 0 (drop sp y)) S (t + ov) (n + N - ov) = drop ov (ring b S t n @ x)"
proof -
  define keep where "keep = n + (N - S) - ov"
  have ly: "length y = min N S" using x y by auto
  have eqs: "ov + keep = n + (N - S)" "keep + length y = n + N - ov" "keep + length y \<le> S"
    using ov b(3) by (auto simp: keep_def ly)
  have "drop ov (ring b S t n) = ring b S (t + ov) keep"
  proof (cases "N \<le> S")
    case True
    then show ?thesis using ring_drop [of b S t ov keep] eqs(1) by simp
  next
    case False
    then have "keep = 0" "n \<le> ov" using ov by (auto simp: keep_def)
    then show ?thesis by (simp add: ring_def)
  qed
  moreover have "drop (ov - n) x = y"
  proof (cases "N \<le> S")
    case True
    then show ?thesis using ov b(3) y by simp
  next
    case False
    then show ?thesis using ov y by (simp add: add_diff_assoc)
  qed
  moreover have "off = (t + ov + keep) mod S" using off eqs(1) by (simp add: add.assoc)
  ultimately show ?thesis
    using ring_write [of b S keep y off "t + ov" sp] b eqs sp ly by simp
qed

end
