(* ===== verification/ByteQueue.thy ===== *)
theory ByteQueue
  imports Prelude
begin

text \<open>
  The contract of a bounded queue of bytes, as the readers and writers of the NuttX buffers rely
  on it: a put accepts the bytes that fit, in order; a get delivers the oldest bytes. The client
  lemmas hold for every sequence of operations. The circular buffer (\<open>Circbuf\<close>) is the instance.
\<close>

section \<open>Sequences of operations\<close>

datatype queue_op = Put "byte list" | Get nat

text \<open>
  The bytes the queue accepted and the bytes it delivered, in order; \<open>None\<close> if an operation is
  undefined.
\<close>

fun run_ops ::
  "('q \<Rightarrow> byte list \<Rightarrow> (nat \<times> 'q) option) \<Rightarrow> ('q \<Rightarrow> nat \<Rightarrow> (byte list \<times> 'q) option) \<Rightarrow>
   queue_op list \<Rightarrow> 'q \<Rightarrow> (byte list \<times> byte list \<times> 'q) option" where
  "run_ops put get [] q = Some ([], [], q)"
| "run_ops put get (Put x # ops) q = do {
     (n, q) \<leftarrow> put q x;
     (acc, del, q) \<leftarrow> run_ops put get ops q;
     Some (take n x @ acc, del, q) }"
| "run_ops put get (Get n # ops) q = do {
     (y, q) \<leftarrow> get q n;
     (acc, del, q) \<leftarrow> run_ops put get ops q;
     Some (acc, y @ del, q) }"

fun op_fits :: "nat \<Rightarrow> queue_op \<Rightarrow> bool" where
  "op_fits lim (Put x) \<longleftrightarrow> length x < lim"
| "op_fits lim (Get n) \<longleftrightarrow> n < lim"

section \<open>The contract\<close>

locale byte_queue =
  fixes invar :: "'q \<Rightarrow> bool"
    and abs :: "'q \<Rightarrow> byte list"
    and cap :: "'q \<Rightarrow> nat"
    and lim :: nat
    and put :: "'q \<Rightarrow> byte list \<Rightarrow> (nat \<times> 'q) option"
    and get :: "'q \<Rightarrow> nat \<Rightarrow> (byte list \<times> 'q) option"
  assumes invar_cap: "invar q \<Longrightarrow> length (abs q) \<le> cap q"
    and put_law: "invar q \<Longrightarrow> length x < lim \<Longrightarrow>
      \<exists>q'. put q x = Some (min (length x) (cap q - length (abs q)), q') \<and> invar q' \<and> cap q' = cap q
        \<and> abs q' = abs q @ take (cap q - length (abs q)) x"
    and get_law: "invar q \<Longrightarrow> n < lim \<Longrightarrow>
      \<exists>q'. get q n = Some (take n (abs q), q') \<and> invar q' \<and> cap q' = cap q \<and> abs q' = drop n (abs q)"
begin

text \<open>First in, first out: what came out and what is left is what was there and what went in.\<close>

lemma fifo:
  "invar q \<Longrightarrow> \<forall>op\<in>set ops. op_fits lim op \<Longrightarrow>
   \<exists>acc del q'. run_ops put get ops q = Some (acc, del, q') \<and> invar q' \<and> cap q' = cap q
     \<and> del @ abs q' = abs q @ acc \<and> length (abs q') \<le> cap q"
proof (induction ops arbitrary: q)
  case Nil
  then show ?case using invar_cap by simp
next
  case (Cons op ops)
  show ?case
  proof (cases op)
    case (Put x)
    define k where "k = min (length x) (cap q - length (abs q))"
    obtain q1 where q1: "put q x = Some (k, q1)" "invar q1" "cap q1 = cap q" "abs q1 = abs q @ take k x"
      using put_law [of q x] Cons.prems Put unfolding k_def by (auto simp: min_def)
    obtain acc del q' where "run_ops put get ops q1 = Some (acc, del, q')" "invar q'" "cap q' = cap q"
        "del @ abs q' = abs q @ take k x @ acc" "length (abs q') \<le> cap q"
      using Cons.IH [of q1] Cons.prems q1 by auto
    then show ?thesis using Put q1 by simp
  next
    case (Get n)
    obtain q1 where q1: "get q n = Some (take n (abs q), q1)" "invar q1" "cap q1 = cap q"
        "abs q1 = drop n (abs q)"
      using get_law [of q n] Cons.prems Get by auto
    obtain acc del q' where r: "run_ops put get ops q1 = Some (acc, del, q')" "invar q'" "cap q' = cap q"
        "del @ abs q' = drop n (abs q) @ acc" "length (abs q') \<le> cap q"
      using Cons.IH [of q1] Cons.prems q1 by auto
    then have "(take n (abs q) @ del) @ abs q' = abs q @ acc" by simp
    then show ?thesis using Get q1 r by simp
  qed
qed

text \<open>What fits is accepted whole and comes back as it was.\<close>

lemma put_get:
  assumes "invar q" and "abs q = []" and "length x < lim" and "length x \<le> cap q"
  shows "\<exists>q1 q2. put q x = Some (length x, q1) \<and> get q1 (length x) = Some (x, q2) \<and> abs q2 = []"
proof -
  obtain q1 where q1: "put q x = Some (length x, q1)" "invar q1" "abs q1 = x"
    using put_law [of q x] assms by auto
  then show ?thesis using get_law [of q1 "length x"] assms by auto
qed

end

end
