(* ===== verification/Circbuf.thy ===== *)
theory Circbuf
  imports Ring ByteQueue
begin

text \<open>
  The circular buffer of the NuttX C library, \<open>libs/libc/misc/lib_circbuf.c\<close> with
  \<open>include/nuttx/circbuf.h\<close>. \<open>size_t\<close> is a 64-bit word: the positions \<open>head\<close> and \<open>tail\<close>
  count bytes and wrap around at \<open>2^64\<close>, and the offset into the storage is their remainder
  modulo the size. A null \<open>base\<close> is \<open>None\<close>; \<open>lib_malloc\<close> is a parameter that returns an object
  or nothing. The assertions (\<open>DEBUGASSERT\<close>: the arguments are not null, and a resized buffer owns
  its storage) are preconditions of the callers and not part of the model.
\<close>

section \<open>Definitions\<close>

type_synonym size_t = "64 word"

record circbuf_s =
  base :: "mem option"
  csize :: "size_t"
  head :: "size_t"
  tail :: "size_t"
  external :: bool

definition ENOMEM :: int where "ENOMEM = 12"

definition circbuf_init ::
  "(nat \<Rightarrow> mem option) \<Rightarrow> mem option \<Rightarrow> size_t \<Rightarrow> circbuf_s \<Rightarrow> int \<times> circbuf_s" where
  "circbuf_init lib_malloc b bytes circ =
     (let circ = circ\<lparr>external := b \<noteq> None\<rparr>;
          b = (if b = None \<and> bytes \<noteq> 0 then lib_malloc (unat bytes) else b)
      in if b = None \<and> bytes \<noteq> 0 then (- ENOMEM, circ)
         else (0, circ\<lparr>base := b, csize := bytes, head := 0, tail := 0\<rparr>))"

definition circbuf_reset :: "circbuf_s \<Rightarrow> circbuf_s" where
  "circbuf_reset circ = circ\<lparr>head := 0, tail := 0\<rparr>"

definition circbuf_uninit :: "circbuf_s \<Rightarrow> circbuf_s" where
  "circbuf_uninit circ = \<lparr>base = None, csize = 0, head = 0, tail = 0, external = False\<rparr>"

definition circbuf_size :: "circbuf_s \<Rightarrow> size_t" where
  "circbuf_size circ = csize circ"

definition circbuf_used :: "circbuf_s \<Rightarrow> size_t" where
  "circbuf_used circ = head circ - tail circ"

definition circbuf_space :: "circbuf_s \<Rightarrow> size_t" where
  "circbuf_space circ = circbuf_size circ - circbuf_used circ"

definition circbuf_is_init :: "circbuf_s \<Rightarrow> bool" where
  "circbuf_is_init circ \<longleftrightarrow> base circ \<noteq> None"

definition circbuf_is_empty :: "circbuf_s \<Rightarrow> bool" where
  "circbuf_is_empty circ \<longleftrightarrow> circbuf_used circ = 0"

definition circbuf_is_full :: "circbuf_s \<Rightarrow> bool" where
  "circbuf_is_full circ \<longleftrightarrow> circbuf_space circ = 0"

text \<open>The destination is an object that is not the storage of the buffer.\<close>

definition circbuf_peekat ::
  "circbuf_s \<Rightarrow> size_t \<Rightarrow> mem \<Rightarrow> size_t \<Rightarrow> (size_t \<times> mem) option" where
  "circbuf_peekat circ pos dst bytes =
     (if csize circ = 0 then Some (0, dst)
      else do {
        b \<leftarrow> base circ;
        let pos = (if head circ - pos > head circ - tail circ then tail circ else pos);
        let len = head circ - pos;
        let off = pos mod csize circ;
        let bytes = (if bytes > len then len else bytes);
        let len = csize circ - off;
        let len = (if bytes < len then bytes else len);
        dst \<leftarrow> memcpy dst 0 b (unat off) (unat len);
        dst \<leftarrow> memcpy dst (unat len) b 0 (unat (bytes - len));
        Some (bytes, dst) })"

definition circbuf_peek :: "circbuf_s \<Rightarrow> mem \<Rightarrow> size_t \<Rightarrow> (size_t \<times> mem) option" where
  "circbuf_peek circ dst bytes = circbuf_peekat circ (tail circ) dst bytes"

definition circbuf_read ::
  "circbuf_s \<Rightarrow> mem \<Rightarrow> size_t \<Rightarrow> (size_t \<times> mem \<times> circbuf_s) option" where
  "circbuf_read circ dst bytes = do {
     (bytes, dst) \<leftarrow> circbuf_peek circ dst bytes;
     Some (bytes, dst, circ\<lparr>tail := tail circ + bytes\<rparr>) }"

definition circbuf_skip :: "circbuf_s \<Rightarrow> size_t \<Rightarrow> size_t \<times> circbuf_s" where
  "circbuf_skip circ bytes =
     (let len = circbuf_used circ;
          bytes = (if bytes > len then len else bytes)
      in (bytes, circ\<lparr>tail := tail circ + bytes\<rparr>))"

definition circbuf_write ::
  "circbuf_s \<Rightarrow> mem \<Rightarrow> size_t \<Rightarrow> (size_t \<times> circbuf_s) option" where
  "circbuf_write circ src bytes =
     (if csize circ = 0 then Some (0, circ)
      else do {
        b \<leftarrow> base circ;
        let space = circbuf_space circ;
        let off = head circ mod csize circ;
        let bytes = (if bytes > space then space else bytes);
        let space = csize circ - off;
        let space = (if bytes < space then bytes else space);
        b \<leftarrow> memcpy b (unat off) src 0 (unat space);
        b \<leftarrow> memcpy b 0 src (unat space) (unat (bytes - space));
        Some (bytes, circ\<lparr>base := Some b, head := head circ + bytes\<rparr>) })"

definition circbuf_overwrite ::
  "circbuf_s \<Rightarrow> mem \<Rightarrow> size_t \<Rightarrow> (size_t \<times> circbuf_s) option" where
  "circbuf_overwrite circ src bytes =
     (if csize circ = 0 then Some (0, circ)
      else do {
        b \<leftarrow> base circ;
        let skip = (if bytes > csize circ then bytes - csize circ else 0);
        let bytes = (if bytes > csize circ then csize circ else bytes);
        let space = circbuf_space circ;
        let over = (if bytes > space then bytes - space + skip else 0);
        let hd = head circ + skip;
        let off = hd mod csize circ;
        let space = csize circ - off;
        let space = (if bytes < space then bytes else space);
        b \<leftarrow> memcpy b (unat off) src (unat skip) (unat space);
        b \<leftarrow> memcpy b 0 src (unat skip + unat space) (unat (bytes - space));
        Some (over, circ\<lparr>base := Some b, head := hd + bytes, tail := tail circ + over\<rparr>) })"

text \<open>The pointers are offsets into the storage; \<open>None\<close> is the division by a zero size.\<close>

definition circbuf_get_writeptr :: "circbuf_s \<Rightarrow> (nat \<times> size_t) option" where
  "circbuf_get_writeptr circ =
     (if csize circ = 0 then None
      else let sz = circbuf_space circ; off = head circ mod csize circ;
               sz = (if off + sz > csize circ then csize circ - off else sz)
           in Some (unat off, sz))"

definition circbuf_get_readptr :: "circbuf_s \<Rightarrow> (nat \<times> size_t) option" where
  "circbuf_get_readptr circ =
     (if csize circ = 0 then None
      else let sz = circbuf_used circ; off = tail circ mod csize circ;
               sz = (if off + sz > csize circ then csize circ - off else sz)
           in Some (unat off, sz))"

definition circbuf_writecommit :: "circbuf_s \<Rightarrow> size_t \<Rightarrow> circbuf_s" where
  "circbuf_writecommit circ writtensize = circ\<lparr>head := head circ + writtensize\<rparr>"

definition circbuf_readcommit :: "circbuf_s \<Rightarrow> size_t \<Rightarrow> circbuf_s" where
  "circbuf_readcommit circ readsize = circ\<lparr>tail := tail circ + readsize\<rparr>"

definition circbuf_resize ::
  "(nat \<Rightarrow> mem option) \<Rightarrow> circbuf_s \<Rightarrow> size_t \<Rightarrow> (int \<times> circbuf_s) option" where
  "circbuf_resize lib_malloc circ bytes =
     (if bytes = csize circ then Some (0, circ)
      else if bytes \<noteq> 0 then
        (case lib_malloc (unat bytes) of
           None \<Rightarrow> Some (- ENOMEM, circ)
         | Some tmp \<Rightarrow> do {
             let len = circbuf_used circ;
             let circ = (if bytes < len then snd (circbuf_skip circ (len - bytes)) else circ);
             let len = (if bytes < len then bytes else len);
             (_, tmp, circ) \<leftarrow> circbuf_read circ tmp len;
             Some (0, circ\<lparr>base := Some tmp, csize := bytes, head := len, tail := 0\<rparr>) })
      else Some (0, circ\<lparr>base := None, csize := 0, head := 0, tail := 0\<rparr>))"

section \<open>Specification: a bounded queue of bytes\<close>

definition content :: "circbuf_s \<Rightarrow> byte list" where
  "content c = (case base c of None \<Rightarrow> []
     | Some b \<Rightarrow> ring b (unat (csize c)) (unat (tail c)) (unat (circbuf_used c)))"

definition circbuf_ok :: "circbuf_s \<Rightarrow> bool" where
  "circbuf_ok c \<longleftrightarrow> circbuf_used c \<le> csize c
     \<and> (case base c of None \<Rightarrow> csize c = 0 | Some b \<Rightarrow> length b = unat (csize c))"

text \<open>
  Positions can be told apart modulo the size as long as the size divides \<open>2^64\<close> or the
  counters do not pass \<open>2^64\<close>: \<open>linear c n\<close> for the \<open>n\<close> bytes from the tail on.
\<close>

definition linear :: "circbuf_s \<Rightarrow> nat \<Rightarrow> bool" where
  "linear c n \<longleftrightarrow>
     unat (csize c) dvd 2 ^ 64 \<or> unat (tail c) + n < 2 ^ 64"

section \<open>The operations on the queue\<close>

lemma tail_pos:
  assumes "linear c (unat k)"
  shows "unat (tail c + k) mod unat (csize c) = (unat (tail c) + unat k) mod unat (csize c)"
proof -
  have "unat (tail c + k) = (unat (tail c) + unat k) mod 2 ^ 64" by (simp add: unat_word_ariths)
  then show ?thesis using assms by (auto simp: linear_def mod_mod_cancel)
qed

lemma head_pos:
  assumes "linear c (unat (circbuf_used c))"
  shows "unat (head c) mod unat (csize c) =
    (unat (tail c) + unat (circbuf_used c)) mod unat (csize c)"
  using tail_pos [OF assms] by (simp add: circbuf_used_def)

lemma unat_if_min: "unat (if a > b then b else a) = min (unat a) (unat b)"
  by (auto simp: word_less_nat_alt min_def)

lemma unat_if_min': "unat (if a < b then a else b) = min (unat a) (unat b)"
  by (auto simp: word_less_nat_alt min_def)

lemma unat_space: "circbuf_ok c \<Longrightarrow> unat (circbuf_space c) = unat (csize c) - unat (circbuf_used c)"
  by (simp add: circbuf_ok_def circbuf_space_def circbuf_size_def unat_sub)

lemma used_le: "circbuf_ok c \<Longrightarrow> unat (circbuf_used c) \<le> unat (csize c)"
  by (simp add: circbuf_ok_def word_le_nat_alt)

lemma length_content: "circbuf_ok c \<Longrightarrow> length (content c) = unat (circbuf_used c)"
  by (auto simp: content_def circbuf_ok_def split: option.splits)

lemma linear_mono: "linear c n \<Longrightarrow> m \<le> n \<Longrightarrow> linear c m"
  by (auto simp: linear_def)

lemma linear_advance:
  assumes "linear c n" and "unat k \<le> n"
  shows "linear (c\<lparr>tail := tail c + k\<rparr>) (n - unat k)"
  using assms by (auto simp: linear_def unat_plus_if')

text \<open>A write accepts what fits and appends it.\<close>

lemma circbuf_write_eq:
  assumes ok: "circbuf_ok c" and src: "unat bytes \<le> length src"
    and k: "k = min (unat bytes) (unat (circbuf_space c))" and lin: "linear c (unat (circbuf_used c) + k)"
  shows "\<exists>c'. circbuf_write c src bytes = Some (of_nat k, c') \<and> circbuf_ok c'
    \<and> content c' = content c @ take k src \<and> csize c' = csize c \<and> tail c' = tail c
    \<and> unat (circbuf_used c') = unat (circbuf_used c) + k"
proof (cases "csize c = 0")
  case True
  then have "k = 0" using unat_space [OF ok] k by simp
  then show ?thesis using True ok by (simp add: circbuf_write_def)
next
  case False
  define S where "S = unat (csize c)"
  define n where "n = unat (circbuf_used c)"
  define t where "t = unat (tail c)"
  define off where "off = (t + n) mod S"
  define sp where "sp = min k (S - off)"
  obtain b where b: "base c = Some b" "length b = S"
    using ok False by (auto simp: circbuf_ok_def S_def split: option.splits)
  have S: "0 < S" using False by (simp add: S_def unat_gt_0)
  have n: "n + k \<le> S" using used_le [OF ok] unat_space [OF ok] k by (simp add: n_def S_def)
  define kw where "kw = (if bytes > circbuf_space c then circbuf_space c else bytes)"
  have "unat kw = k" using k by (simp add: kw_def unat_if_min)
  then have kw: "unat kw = k" "kw = of_nat k" by auto
  have offw: "unat (head c mod csize c) = off"
    using head_pos [OF linear_mono [OF lin]] by (simp add: unat_mod_distrib off_def S_def n_def t_def)
  have "head c mod csize c < csize c" using False by (simp add: word_mod_less_divisor word_gt_0)
  then have rest: "unat (csize c - head c mod csize c) = S - off"
    using offw by (simp add: unat_sub S_def less_imp_le)
  define spw where "spw = (if kw < csize c - head c mod csize c then kw else csize c - head c mod csize c)"
  have spw: "unat spw = sp" using kw(1) rest by (simp add: spw_def unat_if_min' sp_def)
  have dif: "unat (kw - spw) = k - sp"
    using kw(1) spw by (subst unat_sub) (auto simp: word_le_nat_alt sp_def)
  define b' where "b' = blit (blit b off (take sp (take k src))) 0 (drop sp (take k src))"
  have len: "length (take k src) = k" using src k by simp
  have offS: "off < S" using S by (simp add: off_def)
  have "k \<le> length src" using src k by simp
  then have fit: "off + sp \<le> S" "sp \<le> k" "k - sp \<le> S" "off < S" "k \<le> length src"
    using offS n by (auto simp: sp_def)
  have "memcpy b off src 0 sp = Some (blit b off (take sp (take k src)))"
    using memcpy_eq [of 0 sp src off b] fit b(2) by (simp add: min_def)
  moreover have "memcpy (blit b off (take sp (take k src))) 0 src sp (k - sp) = Some b'"
    using memcpy_eq [of sp "k - sp" src 0 "blit b off (take sp (take k src))"] fit b(2)
    by (simp add: b'_def drop_take min_def)
  ultimately have w: "circbuf_write c src bytes = Some (kw, c\<lparr>base := Some b', head := head c + kw\<rparr>)"
    unfolding circbuf_write_def Let_def kw_def [symmetric] spw_def [symmetric]
    using False b(1) offw spw dif by simp
  have "head c + kw - tail c = circbuf_used c + kw" by (simp add: circbuf_used_def)
  moreover have "unat (circbuf_used c + kw) = n + k"
    using n kw(1) unsigned_less [of "csize c", where ?'a = nat] by (subst unat_plus_if') (auto simp: n_def S_def)
  ultimately have used: "unat (head c + kw - tail c) = n + k" by (simp only:)
  have "ring b' S t (n + k) = ring b S t n @ take k src"
    using ring_write [of b S n "take k src" off t sp] b(2) S n len by (simp add: b'_def off_def sp_def)
  moreover have "length b' = S" using fit b(2) len by (simp add: b'_def)
  ultimately show ?thesis
    using w kw(2) used n b
    by (simp add: circbuf_ok_def content_def circbuf_used_def word_le_nat_alt S_def n_def t_def)
qed

text \<open>A read delivers the oldest bytes and removes them.\<close>

lemma circbuf_peek_eq:
  assumes ok: "circbuf_ok c" and k: "k = min (unat bytes) (unat (circbuf_used c))" and dst: "k \<le> length dst"
  shows "circbuf_peek c dst bytes = Some (of_nat k, blit dst 0 (take k (content c)))"
proof (cases "csize c = 0")
  case True
  then have "k = 0" using used_le [OF ok] k by simp
  then show ?thesis using True by (simp add: circbuf_peek_def circbuf_peekat_def)
next
  case False
  define S where "S = unat (csize c)"
  define n where "n = unat (circbuf_used c)"
  define off where "off = unat (tail c) mod S"
  define sp where "sp = min k (S - off)"
  obtain b where b: "base c = Some b" "length b = S"
    using ok False by (auto simp: circbuf_ok_def S_def split: option.splits)
  have S: "0 < S" using False by (simp add: S_def unat_gt_0)
  have n: "k \<le> n" "n \<le> S" using used_le [OF ok] k by (simp_all add: n_def S_def)
  define kw where "kw = (if bytes > head c - tail c then head c - tail c else bytes)"
  have "unat kw = k" using k by (simp add: kw_def unat_if_min circbuf_used_def)
  then have kw: "unat kw = k" "kw = of_nat k" by auto
  have offw: "unat (tail c mod csize c) = off" by (simp add: unat_mod_distrib off_def S_def)
  have "tail c mod csize c < csize c" using False by (simp add: word_mod_less_divisor word_gt_0)
  then have rest: "unat (csize c - tail c mod csize c) = S - off"
    using offw by (simp add: unat_sub S_def less_imp_le)
  define spw where "spw = (if kw < csize c - tail c mod csize c then kw else csize c - tail c mod csize c)"
  have spw: "unat spw = sp" using kw(1) rest by (simp add: spw_def unat_if_min' sp_def)
  have dif: "unat (kw - spw) = k - sp"
    using kw(1) spw by (subst unat_sub) (auto simp: word_le_nat_alt sp_def)
  have offS: "off < S" using S by (simp add: off_def)
  then have fit: "off + sp \<le> S" "sp \<le> k" "k - sp \<le> S" using n by (auto simp: sp_def)
  let ?a = "take sp (drop off b)" and ?z = "take (k - sp) b"
  have la: "length ?a = sp" "length ?z = k - sp" using fit b(2) by auto
  have "memcpy dst 0 b off sp = Some (blit dst 0 ?a)"
    using memcpy_eq [of off sp b 0 dst] fit b(2) dst by simp
  moreover have "memcpy (blit dst 0 ?a) sp b 0 (k - sp) = Some (blit dst 0 (?a @ ?z))"
    using memcpy_eq [of 0 "k - sp" b sp "blit dst 0 ?a"] blit_append [of 0 ?a ?z dst] fit b(2) dst la by simp
  moreover have "?a @ ?z = take k (content c)"
    using ring_read [of b S k n off "unat (tail c)" sp] b S n
    by (simp add: content_def off_def sp_def S_def n_def)
  ultimately have "circbuf_peek c dst bytes = Some (kw, blit dst 0 (take k (content c)))"
    unfolding circbuf_peek_def circbuf_peekat_def Let_def if_cancel kw_def [symmetric] spw_def [symmetric]
    using False b(1) offw spw dif by simp
  then show ?thesis using kw(2) by simp
qed

lemma circbuf_advance:
  assumes ok: "circbuf_ok c" and k: "unat kw \<le> unat (circbuf_used c)" and lin: "linear c (unat (circbuf_used c))"
  shows "circbuf_ok (c\<lparr>tail := tail c + kw\<rparr>)"
    and "content (c\<lparr>tail := tail c + kw\<rparr>) = drop (unat kw) (content c)"
    and "unat (circbuf_used (c\<lparr>tail := tail c + kw\<rparr>)) = unat (circbuf_used c) - unat kw"
proof -
  have eq: "circbuf_used (c\<lparr>tail := tail c + kw\<rparr>) = circbuf_used c - kw" by (simp add: circbuf_used_def)
  show used: "unat (circbuf_used (c\<lparr>tail := tail c + kw\<rparr>)) = unat (circbuf_used c) - unat kw"
    unfolding eq using k by (simp add: unat_sub word_le_nat_alt)
  show "circbuf_ok (c\<lparr>tail := tail c + kw\<rparr>)"
    using ok used used_le [OF ok] by (auto simp: circbuf_ok_def word_le_nat_alt split: option.splits)
  have "ring b (unat (csize c)) (unat (tail c + kw)) m = ring b (unat (csize c)) (unat (tail c) + unat kw) m" for b m
    using tail_pos [OF linear_mono [OF lin k]] by (rule ring_mod)
  then show "content (c\<lparr>tail := tail c + kw\<rparr>) = drop (unat kw) (content c)"
    using used k ring_drop [where k = "unat kw" and n = "unat (circbuf_used c) - unat kw"]
    by (auto simp: content_def split: option.splits)
qed

lemma circbuf_read_eq:
  assumes ok: "circbuf_ok c" and k: "k = min (unat bytes) (unat (circbuf_used c))" and dst: "k \<le> length dst"
    and lin: "linear c (unat (circbuf_used c))"
  shows "\<exists>c'. circbuf_read c dst bytes = Some (of_nat k, blit dst 0 (take k (content c)), c')
    \<and> circbuf_ok c' \<and> content c' = drop k (content c) \<and> csize c' = csize c
    \<and> unat (circbuf_used c') = unat (circbuf_used c) - k"
proof -
  define kw :: size_t where "kw = of_nat k"
  have "k < 2 ^ 64" using k unsigned_less [of bytes, where ?'a = nat] by simp
  then have kw: "unat kw = k" by (simp add: kw_def unat_of_nat)
  have "circbuf_read c dst bytes = Some (kw, blit dst 0 (take k (content c)), c\<lparr>tail := tail c + kw\<rparr>)"
    using circbuf_peek_eq [OF ok k dst] by (simp add: circbuf_read_def kw_def)
  moreover have "unat kw \<le> unat (circbuf_used c)" using k kw by simp
  ultimately show ?thesis using circbuf_advance [OF ok _ lin, of kw] kw by (simp add: kw_def)
qed

lemma circbuf_skip_eq:
  assumes ok: "circbuf_ok c" and k: "k = min (unat bytes) (unat (circbuf_used c))"
    and lin: "linear c (unat (circbuf_used c))"
  shows "\<exists>c'. circbuf_skip c bytes = (of_nat k, c') \<and> linear c' (unat (circbuf_used c'))
    \<and> circbuf_ok c' \<and> content c' = drop k (content c) \<and> csize c' = csize c
    \<and> unat (circbuf_used c') = unat (circbuf_used c) - k"
proof -
  define kw where "kw = (if bytes > circbuf_used c then circbuf_used c else bytes)"
  have "unat kw = k" using k by (simp add: kw_def unat_if_min)
  then have kw: "unat kw = k" "kw = of_nat k" by auto
  have "circbuf_skip c bytes = (kw, c\<lparr>tail := tail c + kw\<rparr>)" by (simp add: circbuf_skip_def kw_def Let_def)
  then show ?thesis
    using circbuf_advance [OF ok _ lin, of kw] linear_advance [OF lin, of kw] k kw by simp
qed

text \<open>
  An overwriting write keeps the newest bytes: what is dropped from the front is the overflow.
  A block larger than the storage needs a byte in the buffer, see \<open>circbuf_overwrite_empty\<close>.
\<close>

lemma pos_nat:
  assumes "linear c m"
  shows "unat (tail c + of_nat m) mod unat (csize c) = (unat (tail c) + m) mod unat (csize c)"
proof -
  have "unat (tail c + of_nat m) = (unat (tail c) + m) mod 2 ^ 64"
    by (simp add: unat_word_ariths unat_of_nat mod_simps)
  then show ?thesis using assms by (auto simp: linear_def mod_mod_cancel)
qed

text \<open>The number of overwritten bytes the code computes.\<close>

definition overflow :: "circbuf_s \<Rightarrow> size_t \<Rightarrow> size_t" where
  "overflow c bytes =
     (let sk = (if bytes > csize c then bytes - csize c else 0);
          k = (if bytes > csize c then csize c else bytes)
      in if k > circbuf_space c then k - circbuf_space c + sk else 0)"

lemma circbuf_over:
  assumes ok: "circbuf_ok c" and sz: "csize c \<noteq> 0" and fits: "bytes \<le> csize c \<or> circbuf_used c \<noteq> 0"
    and sk: "unat sk = unat bytes - unat (csize c)" and kw: "unat kw = min (unat bytes) (unat (csize c))"
  shows "unat (if kw > circbuf_space c then kw - circbuf_space c + sk else 0)
    = unat (circbuf_used c) + unat bytes - unat (csize c)"
proof -
  define S n N where "S = unat (csize c)" "n = unat (circbuf_used c)" "N = unat bytes"
  note d = this
  have nS: "n \<le> S" "0 < S" using used_le [OF ok] sz by (simp_all add: d unat_gt_0)
  have fits': "N \<le> S \<or> 0 < n" using fits by (auto simp: d word_le_nat_alt unat_gt_0)
  have sp: "unat (circbuf_space c) = S - n" using unat_space [OF ok] by (simp add: d)
  have k: "unat kw = min N S" "unat sk = N - S" "N < 2 ^ 64"
    using kw sk unsigned_less [of bytes, where ?'a = nat] by (simp_all add: d)
  have "unat (if kw > circbuf_space c then kw - circbuf_space c + sk else 0) = n + N - S"
  proof (cases "kw > circbuf_space c")
    case True
    then have "min N S > S - n" "unat (kw - circbuf_space c) = min N S - (S - n)"
      using k sp by (simp_all add: word_less_nat_alt unat_sub word_le_nat_alt)
    then have "unat (kw - circbuf_space c) + unat sk = n + N - S" "n + N - S < 2 ^ 64"
      using nS k(2,3) by auto
    then show ?thesis using True by (simp add: unat_plus_if')
  next
    case False
    then have "unat kw \<le> unat (circbuf_space c)" by (simp add: word_less_nat_alt)
    then have "min N S \<le> S - n" by (simp only: k sp)
    then have "n + N - S = 0" using fits' nS by auto
    then show ?thesis using False by simp
  qed
  then show ?thesis by (simp only: d)
qed

lemma overflow_skip: "unat (if bytes > csize c then bytes - csize c else 0) = unat bytes - unat (csize c)"
  by (auto simp: unat_sub word_less_nat_alt less_imp_le word_le_nat_alt)

lemma unat_overflow:
  assumes "circbuf_ok c" and "csize c \<noteq> 0" and "bytes \<le> csize c \<or> circbuf_used c \<noteq> 0"
  shows "unat (overflow c bytes) = unat (circbuf_used c) + unat bytes - unat (csize c)"
  unfolding overflow_def Let_def using overflow_skip unat_if_min by (rule circbuf_over [OF assms])

lemma circbuf_overwrite_run:
  assumes ok: "circbuf_ok c" and sz: "csize c \<noteq> 0"
    and d: "S = unat (csize c)" "n = unat (circbuf_used c)" "N = unat bytes"
    and src: "N \<le> length src" and lin: "linear c (n + N)"
    and off: "off = (unat (tail c) + (n + (N - S))) mod S" and sp: "sp = min (min N S) (S - off)"
    and y: "y = drop (N - S) (take N src)" and b: "base c = Some b" "length b = S"
  shows "circbuf_overwrite c src bytes = Some (overflow c bytes,
    c\<lparr>base := Some (blit (blit b off (take sp y)) 0 (drop sp y)),
      head := tail c + of_nat (n + N), tail := tail c + overflow c bytes\<rparr>)"
proof -
  have S: "0 < S" "n \<le> S" using sz used_le [OF ok] by (simp_all add: d unat_gt_0)
  define skw where "skw = (if bytes > csize c then bytes - csize c else 0)"
  have skw: "unat skw = N - S" unfolding skw_def d by (rule overflow_skip)
  define kw where "kw = (if bytes > csize c then csize c else bytes)"
  have kw: "unat kw = min N S" by (simp add: kw_def unat_if_min d)
  have ovw: "overflow c bytes = (if kw > circbuf_space c then kw - circbuf_space c + skw else 0)"
    unfolding overflow_def Let_def skw_def kw_def by (rule refl)
  define hdw where "hdw = head c + skw"
  have "head c = tail c + of_nat n" by (simp add: d circbuf_used_def)
  moreover have "skw = of_nat (N - S)" "kw = of_nat (min N S)" by (simp_all flip: skw kw)
  ultimately have hdw: "hdw = tail c + of_nat (n + (N - S))" "hdw + kw = tail c + of_nat (n + N)"
    by (simp_all add: hdw_def of_nat_diff min_def)
  have offS: "off < S" using S by (simp add: off)
  have "unat hdw mod S = off"
    unfolding off using pos_nat [of c "n + (N - S)"] linear_mono [OF lin] hdw(1) by (simp add: d)
  then have offw: "unat (hdw mod csize c) = off" by (simp add: unat_mod_distrib d)
  define spw where "spw = (if kw < csize c - hdw mod csize c then kw else csize c - hdw mod csize c)"
  have "unat (csize c - hdw mod csize c) = S - off"
    using offw offS by (simp add: unat_sub word_le_nat_alt d)
  then have spw: "unat spw = sp" using kw by (simp add: spw_def unat_if_min' sp)
  have dif: "unat (kw - spw) = min N S - sp"
    using kw spw by (subst unat_sub) (auto simp: word_le_nat_alt sp)
  have y': "y = take (min N S) (drop (N - S) src)" by (auto simp: y drop_take min_def)
  have le: "off + sp \<le> length b" "min N S \<le> length b" "sp \<le> min N S" "N - S + min N S \<le> length src"
    using offS b(2) src by (auto simp: sp)
  show ?thesis
    unfolding circbuf_overwrite_def Let_def skw_def [symmetric] kw_def [symmetric] ovw [symmetric]
      hdw_def [symmetric] spw_def [symmetric]
    using sz b(1) offw spw dif skw memcpy_two [OF le y'] hdw(2) by simp
qed

lemma circbuf_overwrite_eq:
  assumes ok: "circbuf_ok c" and src: "unat bytes \<le> length src" and sz: "csize c \<noteq> 0"
    and fits: "bytes \<le> csize c \<or> circbuf_used c \<noteq> 0"
    and ov: "ov = unat (circbuf_used c) + unat bytes - unat (csize c)"
    and lin: "linear c (unat (circbuf_used c) + unat bytes)"
  shows "\<exists>c'. circbuf_overwrite c src bytes = Some (of_nat ov, c') \<and> circbuf_ok c'
    \<and> content c' = drop ov (content c @ take (unat bytes) src) \<and> csize c' = csize c"
proof -
  define S n t N where "S = unat (csize c)" "n = unat (circbuf_used c)" "t = unat (tail c)" "N = unat bytes"
  note d = this
  obtain b where b: "base c = Some b" "length b = S"
    using ok sz by (auto simp: circbuf_ok_def d split: option.splits)
  have S: "0 < S" "n \<le> S" "ov = n + N - S" using sz used_le [OF ok] ov by (simp_all add: d unat_gt_0)
  define off where "off = (t + (n + (N - S))) mod S"
  define sp where "sp = min (min N S) (S - off)"
  define y where "y = drop (N - S) (take N src)"
  define b' where "b' = blit (blit b off (take sp y)) 0 (drop sp y)"
  have "unat (overflow c bytes) = ov" using unat_overflow [OF ok sz fits] ov by simp
  then have "overflow c bytes = of_nat ov" by auto
  then have w: "circbuf_overwrite c src bytes = Some (of_nat ov,
      c\<lparr>base := Some b', head := tail c + of_nat (n + N), tail := tail c + of_nat ov\<rparr>)"
    unfolding b'_def using circbuf_overwrite_run [OF ok sz, of S n N bytes src off sp y b] src lin b
    by (simp add: off_def sp_def y_def d)
  have "unat (tail c + of_nat ov) mod S = (t + ov) mod S"
    unfolding d using pos_nat [of c ov] linear_mono [OF lin, of ov] ov by simp
  then have ring: "ring b' S (unat (tail c + of_nat ov)) (n + N - ov) = drop ov (ring b S t n @ take N src)"
    using ring_overwrite [of b S n "take N src" N ov off t sp y] S b(2) src
      ring_mod [of "unat (tail c + of_nat ov)" S "t + ov" b' "n + N - ov"]
    by (simp add: off_def sp_def y_def b'_def d)
  have offS: "off < S" using S by (simp add: off_def)
  have "length y = min N S" using src by (auto simp: y_def d)
  then have len: "length b' = S" using offS b(2) by (simp add: b'_def sp_def)
  have m: "n + N - ov \<le> S" "S < 2 ^ 64"
    using S unsigned_less [of "csize c", where ?'a = nat] by (simp_all add: d)
  have "tail c + of_nat (n + N) - (tail c + of_nat ov) = of_nat (n + N - ov)"
    using S(3) by (simp add: of_nat_diff)
  then have "unat (tail c + of_nat (n + N) - (tail c + of_nat ov)) = n + N - ov"
    using m by (simp add: unat_of_nat)
  then show ?thesis
    using w ring len m b by (simp add: circbuf_ok_def content_def circbuf_used_def word_le_nat_alt d)
qed

text \<open>
  An empty buffer and a block larger than the storage: the overflow is computed as zero, the
  tail stays behind and the buffer claims more bytes than it can hold.
\<close>

lemma circbuf_overwrite_empty:
  assumes ok: "circbuf_ok c" and sz: "csize c \<noteq> 0" and emp: "circbuf_is_empty c"
    and big: "csize c < bytes" and src: "unat bytes \<le> length src" and lin: "linear c (unat bytes)"
  shows "\<exists>c'. circbuf_overwrite c src bytes = Some (0, c') \<and> circbuf_used c' = bytes \<and> \<not> circbuf_ok c'"
proof -
  obtain b where b: "base c = Some b" "length b = unat (csize c)"
    using ok sz by (auto simp: circbuf_ok_def split: option.splits)
  have "overflow c bytes = 0"
    using emp big by (simp add: overflow_def circbuf_space_def circbuf_size_def circbuf_is_empty_def)
  then obtain b' where "circbuf_overwrite c src bytes = Some (0,
      c\<lparr>base := Some b', head := tail c + of_nat (unat bytes), tail := tail c + 0\<rparr>)"
    using circbuf_overwrite_run [OF ok sz refl refl refl src _ refl refl refl b] emp lin
    by (simp add: circbuf_is_empty_def)
  moreover have "\<not> bytes \<le> csize c" using big by simp
  ultimately show ?thesis by (auto simp: circbuf_used_def circbuf_ok_def)
qed

text \<open>A resize moves the newest bytes that fit into the new storage.\<close>

lemma circbuf_resize_eq:
  assumes ok: "circbuf_ok c" and lin: "linear c (unat (circbuf_used c))" and new: "bytes \<noteq> csize c" "bytes \<noteq> 0"
    and mal: "lib_malloc (unat bytes) = Some tmp" "length tmp = unat bytes"
  shows "\<exists>c'. circbuf_resize lib_malloc c bytes = Some (0, c') \<and> circbuf_ok c' \<and> csize c' = bytes
    \<and> content c' = drop (length (content c) - unat bytes) (content c)"
proof -
  define N n where "N = unat bytes" "n = unat (circbuf_used c)"
  note d = this
  define c1 where "c1 = (if bytes < circbuf_used c then snd (circbuf_skip c (circbuf_used c - bytes)) else c)"
  have c1: "linear c1 (unat (circbuf_used c1)) \<and> circbuf_ok c1 \<and> content c1 = drop (n - N) (content c)
    \<and> unat (circbuf_used c1) = min n N"
  proof (cases "bytes < circbuf_used c")
    case True
    then have lt: "N < n" "unat (circbuf_used c - bytes) = n - N"
      by (simp_all add: d unat_sub less_imp_le word_less_nat_alt)
    then have "n - N = min (unat (circbuf_used c - bytes)) (unat (circbuf_used c))" by (simp add: d)
    from circbuf_skip_eq [OF ok this lin] obtain c' where
      "circbuf_skip c (circbuf_used c - bytes) = (of_nat (n - N), c')" "linear c' (unat (circbuf_used c'))"
      "circbuf_ok c'" "content c' = drop (n - N) (content c)" "unat (circbuf_used c') = n - (n - N)"
      unfolding d by blast
    then show ?thesis using True lt(1) by (simp add: c1_def)
  next
    case False
    then have "n \<le> N" by (simp add: d word_less_nat_alt)
    then show ?thesis using ok lin False by (simp add: c1_def d)
  qed
  define len where "len = (if bytes < circbuf_used c then bytes else circbuf_used c)"
  have len: "unat len = min n N" by (simp add: len_def unat_if_min' d min.commute)
  define X where "X = content c1"
  have X: "length X = min n N" using length_content [of c1] c1 by (simp add: X_def)
  obtain c2 where c2: "circbuf_read c1 tmp len = Some (of_nat (min n N), blit tmp 0 X, c2)"
    using circbuf_read_eq [of c1 "min n N" len tmp] c1 len mal(2) X by (auto simp: d X_def)
  then have w: "circbuf_resize lib_malloc c bytes
      = Some (0, c2\<lparr>base := Some (blit tmp 0 X), csize := bytes, head := len, tail := 0\<rparr>)"
    unfolding circbuf_resize_def Let_def c1_def [symmetric] len_def [symmetric]
    using new mal(1) by (simp add: c1_def [symmetric] len_def [symmetric])
  have "ring (blit tmp 0 X) N 0 (min n N) = X"
    using X mal(2) by (intro nth_equalityI) (auto simp: nth_blit d)
  then show ?thesis using w len X mal(2) c1 length_content [OF ok]
    by (simp add: circbuf_ok_def content_def circbuf_used_def word_le_nat_alt d X_def)
qed

section \<open>The circular buffer as a byte queue\<close>

text \<open>A write of a whole object, and a read into an object of the size asked for.\<close>

definition circ_put :: "circbuf_s \<Rightarrow> byte list \<Rightarrow> (nat \<times> circbuf_s) option" where
  "circ_put c x = map_option (apfst unat) (circbuf_write c x (of_nat (length x)))"

definition circ_get :: "circbuf_s \<Rightarrow> nat \<Rightarrow> (byte list \<times> circbuf_s) option" where
  "circ_get c n = do {
     (k, dst, c) \<leftarrow> circbuf_read c (replicate n 0) (of_nat n);
     Some (take (unat k) dst, c) }"

definition circ_inv :: "circbuf_s \<Rightarrow> bool" where
  "circ_inv c \<longleftrightarrow> circbuf_ok c \<and> unat (csize c) dvd 2 ^ 64"

lemma circ_inv_linear: "circ_inv c \<Longrightarrow> linear c n"
  by (simp add: circ_inv_def linear_def)

lemma circ_put_law:
  assumes "circ_inv c" and "length x < 2 ^ 64"
  shows "\<exists>c'. circ_put c x = Some (min (length x) (unat (csize c) - length (content c)), c') \<and> circ_inv c'
    \<and> unat (csize c') = unat (csize c) \<and> content c' = content c @ take (unat (csize c) - length (content c)) x"
proof -
  have ok: "circbuf_ok c" using assms by (simp add: circ_inv_def)
  define k where "k = min (length x) (unat (csize c) - length (content c))"
  have len: "unat (of_nat (length x) :: size_t) = length x" using assms(2) by (simp add: unat_of_nat)
  then have k: "k = min (unat (of_nat (length x) :: size_t)) (unat (circbuf_space c))"
    using unat_space [OF ok] length_content [OF ok] by (simp add: k_def)
  obtain c' where c': "circbuf_write c x (of_nat (length x)) = Some (of_nat k, c')" "circbuf_ok c'"
      "content c' = content c @ take k x" "csize c' = csize c"
    using circbuf_write_eq [OF ok _ k circ_inv_linear [OF assms(1)]] len by auto
  moreover have "unat (of_nat k :: size_t) = k" using assms(2) by (simp add: unat_of_nat k_def)
  ultimately show ?thesis
    using assms(1) unfolding k_def [symmetric] by (auto simp: circ_put_def circ_inv_def k_def min_def)
qed

lemma circ_get_law:
  assumes "circ_inv c" and "n < 2 ^ 64"
  shows "\<exists>c'. circ_get c n = Some (take n (content c), c') \<and> circ_inv c'
    \<and> unat (csize c') = unat (csize c) \<and> content c' = drop n (content c)"
proof -
  have ok: "circbuf_ok c" using assms by (simp add: circ_inv_def)
  define k where "k = min n (length (content c))"
  have k: "k = min (unat (of_nat n :: size_t)) (unat (circbuf_used c))"
    using assms(2) length_content [OF ok] by (simp add: unat_of_nat k_def)
  obtain c' where c': "circbuf_read c (replicate n 0) (of_nat n)
        = Some (of_nat k, blit (replicate n 0) 0 (take k (content c)), c')" "circbuf_ok c'"
      "content c' = drop k (content c)" "csize c' = csize c"
    using circbuf_read_eq [OF ok k _ circ_inv_linear [OF assms(1)], of "replicate n 0"] by (auto simp: k_def)
  have "take k (blit (replicate n 0) 0 (take k (content c))) = take k (content c)"
    by (simp add: blit_def k_def)
  moreover have "unat (of_nat k :: size_t) = k" using assms(2) by (simp add: unat_of_nat k_def)
  ultimately show ?thesis
    using c' assms(1) by (auto simp: circ_get_def circ_inv_def k_def min_def)
qed

interpretation circ: byte_queue circ_inv content "\<lambda>c. unat (csize c)" "2 ^ 64" circ_put circ_get
proof unfold_locales
  fix c assume "circ_inv c"
  then show "length (content c) \<le> unat (csize c)"
    using length_content used_le by (simp add: circ_inv_def)
qed (use circ_put_law circ_get_law in auto)

section \<open>Properties\<close>

text \<open>
  C21. The circular buffer is a first-in-first-out byte queue. For a storage whose size divides
  \<open>2^64\<close> and every sequence of writes and reads, each of them returns, and the bytes read
  followed by the bytes left are the bytes that were there followed by the bytes accepted; the
  buffer never holds more than its size.
\<close>

theorem circbuf_fifo:
  "circ_inv c \<Longrightarrow> \<forall>op\<in>set ops. op_fits (2 ^ 64) op \<Longrightarrow>
   \<exists>acc del c'. run_ops circ_put circ_get ops c = Some (acc, del, c') \<and> circ_inv c'
     \<and> csize c' = csize c \<and> del @ content c' = content c @ acc \<and> length (content c') \<le> unat (csize c)"
  unfolding word_unat_eq_iff by (rule circ.fifo)

theorem circbuf_fifo_witness:
  "\<exists>acc del c'. run_ops circ_put circ_get [Put [1, 2, 3], Get 2, Put [4, 5, 6, 7], Get 9]
       \<lparr>base = Some [0, 0, 0, 0], csize = 4, head = 2 ^ 64 - 1, tail = 2 ^ 64 - 1, external = False\<rparr> = Some (acc, del, c')
     \<and> circ_inv c' \<and> csize c' = 4 \<and> del @ content c' = acc \<and> length (content c') \<le> 4"
proof -
  let ?c = "\<lparr>base = Some [0, 0, 0, 0], csize = 4, head = 2 ^ 64 - 1, tail = 2 ^ 64 - 1, external = False\<rparr>"
  have "circ_inv ?c" "content ?c = []"
    by (simp_all add: circ_inv_def circbuf_ok_def circbuf_used_def content_def ring_def)
  then show ?thesis using circbuf_fifo [of ?c "[Put [1, 2, 3], Get 2, Put [4, 5, 6, 7], Get 9]"] by simp
qed

text \<open>
  An overwriting write keeps the newest bytes: the content becomes the last bytes of the old
  content followed by the block, as many as the storage holds, and the number of overwritten bytes
  is returned. It holds for a block that fits into the storage, and for a larger one when the
  buffer is not empty.
\<close>

lemma circbuf_overwrite_keeps_newest:
  "circbuf_ok c \<Longrightarrow> unat bytes \<le> length src \<Longrightarrow> csize c \<noteq> 0 \<Longrightarrow>
   bytes \<le> csize c \<or> \<not> circbuf_is_empty c \<Longrightarrow> linear c (unat (circbuf_used c) + unat bytes) \<Longrightarrow>
   \<exists>c'. circbuf_overwrite c src bytes = Some (of_nat (length (content c) + unat bytes - unat (csize c)), c')
     \<and> circbuf_ok c' \<and> csize c' = csize c
     \<and> content c' = drop (length (content c) + unat bytes - unat (csize c)) (content c @ take (unat bytes) src)"
  using circbuf_overwrite_eq [of c bytes src] by (auto simp: circbuf_is_empty_def length_content)

text \<open>
  An overwriting write of a block larger than the storage into an empty buffer reports no
  overwritten byte and leaves the tail behind: the buffer then claims to hold the whole block,
  more than its size, and the invariant of the buffer is lost.
\<close>

lemma circbuf_overwrite_empty_breaks:
  "circbuf_ok c \<Longrightarrow> csize c \<noteq> 0 \<Longrightarrow> circbuf_is_empty c \<Longrightarrow> csize c < bytes \<Longrightarrow> unat bytes \<le> length src \<Longrightarrow>
   linear c (unat bytes) \<Longrightarrow>
   \<exists>c'. circbuf_overwrite c src bytes = Some (0, c') \<and> circbuf_used c' = bytes \<and> \<not> circbuf_ok c'"
  by (rule circbuf_overwrite_empty)

text \<open>
  A resize to a new size keeps the newest bytes that fit into the new storage, in order; the
  allocator has to return an object of the size it was asked for.
\<close>

lemma circbuf_resize_keeps_newest:
  "circbuf_ok c \<Longrightarrow> linear c (unat (circbuf_used c)) \<Longrightarrow> bytes \<noteq> csize c \<Longrightarrow> bytes \<noteq> 0 \<Longrightarrow>
   lib_malloc (unat bytes) = Some tmp \<Longrightarrow> length tmp = unat bytes \<Longrightarrow>
   \<exists>c'. circbuf_resize lib_malloc c bytes = Some (0, c') \<and> circbuf_ok c' \<and> csize c' = bytes
     \<and> content c' = drop (length (content c) - unat bytes) (content c)"
  by (rule circbuf_resize_eq)

text \<open>
  A size that does not divide \<open>2^64\<close> loses data when the counters wrap around: with three
  cells and both counters at the last 64-bit value, the bytes 1 and 2 and then the byte 3 are
  written, the third write lands on the unread 2, and the read delivers 1, 3 and the old cell.
\<close>

lemma circbuf_wrap_corrupts:
  "(let c = \<lparr>base = Some [0, 0, 9], csize = 3, head = 2 ^ 64 - 1, tail = 2 ^ 64 - 1, external = False\<rparr> in
    circbuf_ok c \<and>
    map_option (\<lambda>(acc, del, _). (acc, del)) (run_ops circ_put circ_get [Put [1, 2], Put [3], Get 3] c)
      = Some ([1, 2, 3], [1, 3, 9]))"
  by code_simp

end
