(* ===== verification/SerialBuf.thy ===== *)
theory SerialBuf
  imports Ring ByteQueue
begin

text \<open>
  The circular buffers of the NuttX serial driver, \<open>struct uart_buffer_s\<close> of
  \<open>include/nuttx/serial/serial.h\<close>, with the index computations \<open>drivers/serial/serial.c\<close>,
  \<open>serial_io.c\<close> and \<open>serial_dma.c\<close> repeat at each use. One cell stays free to tell a full buffer
  from an empty one. \<open>sbuf_size_t\<close> is \<open>int16_t\<close>: the indices are natural numbers below the size,
  and the size is below \<open>2^15\<close>, so that no sum of the code leaves the range.
\<close>

section \<open>Definitions\<close>

record uart_buffer =
  rb_head :: nat
  rb_tail :: nat
  rb_size :: nat
  rb_buf :: mem

definition nexthead :: "uart_buffer \<Rightarrow> nat" where
  "nexthead b = (if rb_head b + 1 < rb_size b then rb_head b + 1 else 0)"

definition nbuffered :: "uart_buffer \<Rightarrow> nat" where
  "nbuffered b = (if rb_head b \<ge> rb_tail b then rb_head b - rb_tail b
                  else rb_size b - rb_tail b + rb_head b)"

text \<open>Store a character at the head; take one from the tail.\<close>

definition rb_put :: "uart_buffer \<Rightarrow> byte \<Rightarrow> uart_buffer option" where
  "rb_put b ch = do {
     m \<leftarrow> wr (rb_buf b) (rb_head b) ch;
     Some (b\<lparr>rb_buf := m, rb_head := nexthead b\<rparr>) }"

definition rb_take :: "uart_buffer \<Rightarrow> (byte \<times> uart_buffer) option" where
  "rb_take b = do {
     ch \<leftarrow> rd (rb_buf b) (rb_tail b);
     let tail = rb_tail b + 1;
     let tail = (if tail \<ge> rb_size b then 0 else tail);
     Some (ch, b\<lparr>rb_tail := tail\<rparr>) }"

section \<open>Specification\<close>

definition rb_ok :: "uart_buffer \<Rightarrow> bool" where
  "rb_ok b \<longleftrightarrow> rb_head b < rb_size b \<and> rb_tail b < rb_size b \<and> length (rb_buf b) = rb_size b
     \<and> 1 < rb_size b \<and> rb_size b < 2 ^ 15"

definition rb_content :: "uart_buffer \<Rightarrow> byte list" where
  "rb_content b = ring (rb_buf b) (rb_size b) (rb_tail b) (nbuffered b)"

definition rb_full :: "uart_buffer \<Rightarrow> bool" where
  "rb_full b \<longleftrightarrow> nexthead b = rb_tail b"

section \<open>Lemmas\<close>

lemma length_rb_content [simp]: "length (rb_content b) = nbuffered b"
  by (simp add: rb_content_def)

lemma nbuffered_less: "rb_ok b \<Longrightarrow> nbuffered b < rb_size b"
  by (auto simp: rb_ok_def nbuffered_def)

lemma rb_full_iff: "rb_ok b \<Longrightarrow> rb_full b \<longleftrightarrow> nbuffered b = rb_size b - 1"
  by (auto simp: rb_ok_def rb_full_def nbuffered_def nexthead_def)

lemma rb_empty_iff: "rb_ok b \<Longrightarrow> rb_head b = rb_tail b \<longleftrightarrow> rb_content b = []"
  by (auto simp: rb_ok_def nbuffered_def simp flip: length_0_conv)

text \<open>The head stands \<open>nbuffered\<close> cells behind the tail.\<close>

lemma rb_head_pos: "rb_ok b \<Longrightarrow> rb_head b = (rb_tail b + nbuffered b) mod rb_size b"
  by (auto simp: rb_ok_def nbuffered_def)

lemma nbuffered_moved:
  assumes "rb_ok b" and "nbuffered b + k < rb_size b"
  shows "nbuffered (b\<lparr>rb_buf := m, rb_head := (rb_head b + k) mod rb_size b\<rparr>) = nbuffered b + k"
  using assms by (auto simp: rb_ok_def nbuffered_def mod_if split: if_splits)

text \<open>A transfer into the free cells behind the head, wrapped or not.\<close>

lemma rb_fill:
  assumes ok: "rb_ok b" and fit: "nbuffered b + length x < rb_size b"
    and sp: "sp = min (length x) (rb_size b - rb_head b)"
    and b': "b' = b\<lparr>rb_buf := blit (blit (rb_buf b) (rb_head b) (take sp x)) 0 (drop sp x),
                   rb_head := (rb_head b + length x) mod rb_size b\<rparr>"
  shows "rb_ok b' \<and> rb_content b' = rb_content b @ x \<and> nbuffered b' = nbuffered b + length x"
proof -
  have le: "rb_head b + sp \<le> rb_size b" "length x \<le> rb_size b" "length (rb_buf b) = rb_size b" "0 < rb_size b"
    using ok fit sp by (auto simp: rb_ok_def)
  have "length (blit (blit (rb_buf b) (rb_head b) (take sp x)) 0 (drop sp x)) = rb_size b"
    using le by simp
  then have "rb_ok b'" using ok by (simp add: rb_ok_def b')
  moreover have n: "nbuffered b' = nbuffered b + length x"
    unfolding b' by (rule nbuffered_moved [OF ok fit])
  moreover have "rb_content b' = rb_content b @ x"
    using ring_write [of "rb_buf b" "rb_size b" "nbuffered b" x "rb_head b" "rb_tail b" sp] le fit sp n
      rb_head_pos [OF ok] by (simp add: rb_content_def b')
  ultimately show ?thesis by simp
qed

lemma rb_put_eq:
  assumes ok: "rb_ok b" and room: "\<not> rb_full b"
  shows "\<exists>b'. rb_put b ch = Some b' \<and> rb_ok b' \<and> rb_content b' = rb_content b @ [ch]
    \<and> rb_size b' = rb_size b \<and> rb_tail b' = rb_tail b"
proof -
  have n: "nbuffered b + length [ch] < rb_size b"
    using rb_full_iff [OF ok] nbuffered_less [OF ok] room by simp
  have h: "rb_head b < rb_size b" "length (rb_buf b) = rb_size b" using ok by (simp_all add: rb_ok_def)
  have "min (length [ch]) (rb_size b - rb_head b) = 1" using h by simp
  moreover have "nexthead b = (rb_head b + length [ch]) mod rb_size b"
    using h by (auto simp: nexthead_def mod_if)
  ultimately show ?thesis
    using rb_fill [OF ok n refl refl] h by (simp add: rb_put_def wr_def blit_single)
qed

lemma rb_take_eq:
  assumes ok: "rb_ok b" and ne: "rb_content b = ch # x"
  shows "\<exists>b'. rb_take b = Some (ch, b') \<and> rb_ok b' \<and> rb_content b' = x
    \<and> rb_size b' = rb_size b \<and> rb_head b' = rb_head b"
proof -
  define t' where "t' = (if rb_tail b + 1 \<ge> rb_size b then 0 else rb_tail b + 1)"
  have t: "rb_tail b < rb_size b" "length (rb_buf b) = rb_size b" "rb_head b < rb_size b"
    using ok by (simp_all add: rb_ok_def)
  have n: "nbuffered b = Suc (length x)" using arg_cong [OF ne, of length] by simp
  have "rb_buf b ! rb_tail b = ch"
    using arg_cong [OF ne, of "\<lambda>l. l ! 0"] n t by (simp add: rb_content_def)
  moreover have n': "nbuffered (b\<lparr>rb_tail := t'\<rparr>) = length x"
    using n t by (auto simp: nbuffered_def t'_def split: if_splits)
  moreover have "t' mod rb_size b = (rb_tail b + 1) mod rb_size b" using t by (auto simp: t'_def mod_Suc)
  then have "ring (rb_buf b) (rb_size b) t' (length x) = drop 1 (rb_content b)"
    using ring_mod [of t' "rb_size b" "rb_tail b + 1" "rb_buf b" "length x"]
      ring_drop [of "rb_buf b" "rb_size b" "rb_tail b" 1 "length x"] n by (simp add: rb_content_def)
  ultimately show ?thesis
    using ok t ne unfolding rb_take_def Let_def t'_def [symmetric]
    by (auto simp: rd_def rb_ok_def rb_content_def t'_def)
qed

lemma rb_drop:
  assumes ok: "rb_ok b" and k: "k \<le> nbuffered b"
  shows "rb_ok (b\<lparr>rb_tail := (rb_tail b + k) mod rb_size b\<rparr>)"
    and "rb_content (b\<lparr>rb_tail := (rb_tail b + k) mod rb_size b\<rparr>) = drop k (rb_content b)"
    and "nbuffered (b\<lparr>rb_tail := (rb_tail b + k) mod rb_size b\<rparr>) = nbuffered b - k"
proof -
  show "rb_ok (b\<lparr>rb_tail := (rb_tail b + k) mod rb_size b\<rparr>)" using ok by (auto simp: rb_ok_def)
  show n: "nbuffered (b\<lparr>rb_tail := (rb_tail b + k) mod rb_size b\<rparr>) = nbuffered b - k"
    using ok k mod_add_wrap [of "rb_tail b" "rb_size b" k] nbuffered_less [OF ok]
    by (auto simp: rb_ok_def nbuffered_def split: if_splits)
  have "ring (rb_buf b) (rb_size b) ((rb_tail b + k) mod rb_size b) (nbuffered b - k)
      = ring (rb_buf b) (rb_size b) (rb_tail b + k) (nbuffered b - k)"
    by (rule ring_mod) simp
  then show "rb_content (b\<lparr>rb_tail := (rb_tail b + k) mod rb_size b\<rparr>) = drop k (rb_content b)"
    using n k ring_drop [of "rb_buf b" "rb_size b" "rb_tail b" k "nbuffered b - k"]
    by (simp add: rb_content_def)
qed

text \<open>The readable bytes lie in one or two stretches of the storage.\<close>

lemma rb_segments:
  assumes ok: "rb_ok b"
  shows "rb_content b = (if rb_tail b \<le> rb_head b
      then take (rb_head b - rb_tail b) (drop (rb_tail b) (rb_buf b))
      else drop (rb_tail b) (rb_buf b) @ take (rb_head b) (rb_buf b))"
proof -
  define n where "n = nbuffered b"
  define sp where "sp = min n (rb_size b - rb_tail b)"
  have t: "rb_tail b < rb_size b" "length (rb_buf b) = rb_size b" "rb_head b < rb_size b" "n < rb_size b"
    using ok nbuffered_less [OF ok] by (simp_all add: rb_ok_def n_def)
  have "take sp (drop (rb_tail b) (rb_buf b)) @ take (n - sp) (rb_buf b) = take n (rb_content b)"
    using ring_read [of "rb_buf b" "rb_size b" n n "rb_tail b" "rb_tail b" sp] t
    by (simp add: rb_content_def sp_def n_def)
  then show ?thesis
    using t by (auto simp: sp_def n_def nbuffered_def split: if_splits)
qed

end
