(* ===== verification/Uio.thy ===== *)
theory Uio
  imports LibcString
begin

text \<open>
  Scatter-gather requests of the NuttX virtual file system, \<open>fs/vfs/fs_uio.c\<close> with
  \<open>include/nuttx/fs/uio.h\<close>. The buffers of the caller are a list of objects, an \<open>iovec\<close> per object;
  the pointer \<open>uio_iov\<close> is an index into that list. A read behind the last \<open>iovec\<close> is \<open>None\<close>. Sizes
  are natural numbers; \<open>uio_calc_resid\<close> keeps their sum below \<open>SSIZE_MAX\<close>.
\<close>

section \<open>Definitions\<close>

definition SSIZE_MAX :: nat where "SSIZE_MAX = 2 ^ 63 - 1"
definition EINVAL :: int where "EINVAL = 22"

record uio =
  uio_mem :: "mem list"
  uio_iov :: nat
  uio_iovcnt :: nat
  uio_resid :: nat
  uio_offset_in_iov :: nat

definition uio_vecs :: "uio \<Rightarrow> mem list" where
  "uio_vecs u = take (uio_iovcnt u) (drop (uio_iov u) (uio_mem u))"

fun calc_resid_loop :: "mem list \<Rightarrow> nat \<Rightarrow> int" where
  "calc_resid_loop [] len = int len"
| "calc_resid_loop (v # vs) len =
     (if SSIZE_MAX - len < length v then - EINVAL else calc_resid_loop vs (len + length v))"

definition uio_calc_resid :: "uio \<Rightarrow> int" where
  "uio_calc_resid u = calc_resid_loop (uio_vecs u) 0"

text \<open>The loop returns the number of vectors it passes and the offset in the next one.\<close>

fun advance_loop :: "mem list \<Rightarrow> nat \<Rightarrow> nat \<Rightarrow> nat \<times> nat" where
  "advance_loop [] sz off = (0, off)"
| "advance_loop (v # vs) sz off =
     (if sz < length v - off then (0, off + sz)
      else let (k, off) = advance_loop vs (sz - (length v - off)) 0 in (Suc k, off))"

definition uio_advance :: "uio \<Rightarrow> nat \<Rightarrow> uio" where
  "uio_advance u sz =
     (let (k, off) = advance_loop (uio_vecs u) sz (uio_offset_in_iov u)
      in u\<lparr>uio_resid := uio_resid u - sz, uio_iov := uio_iov u + k, uio_iovcnt := uio_iovcnt u - k,
           uio_offset_in_iov := off\<rparr>)"

definition uio_init :: "mem list \<Rightarrow> int \<times> uio" where
  "uio_init iov =
     (let u = \<lparr>uio_mem = iov, uio_iov = 0, uio_iovcnt = length iov, uio_resid = 0, uio_offset_in_iov = 0\<rparr>;
          resid = uio_calc_resid u
      in if resid < 0 then (resid, u) else (0, u\<lparr>uio_resid := nat resid\<rparr>))"

fun uio_seek :: "mem list \<Rightarrow> nat \<Rightarrow> (nat \<times> nat) option" where
  "uio_seek [] off = None"
| "uio_seek (v # vs) off =
     (if off > length v then map_option (apfst Suc) (uio_seek vs (off - length v)) else Some (0, off))"

fun uio_fill :: "mem list \<Rightarrow> nat \<Rightarrow> byte list \<Rightarrow> mem list option" where
  "uio_fill vs off [] = Some vs"
| "uio_fill [] off (b # bs) = None"
| "uio_fill (v # vs) off (b # bs) = do {
     let blen = (if length (b # bs) > length v - off then length v - off else length (b # bs));
     v \<leftarrow> memcpy v off (b # bs) 0 blen;
     vs \<leftarrow> uio_fill vs 0 (drop blen (b # bs));
     Some (v # vs) }"

fun uio_gather :: "mem list \<Rightarrow> nat \<Rightarrow> nat \<Rightarrow> byte list option" where
  "uio_gather vs off 0 = Some []"
| "uio_gather [] off (Suc n) = None"
| "uio_gather (v # vs) off (Suc n) = do {
     let blen = (if Suc n > length v - off then length v - off else Suc n);
     bs \<leftarrow> uio_gather vs 0 (Suc n - blen);
     Some (take blen (drop off v) @ bs) }"

definition uio_copyfrom :: "uio \<Rightarrow> nat \<Rightarrow> byte list \<Rightarrow> uio option" where
  "uio_copyfrom u offset buf = do {
     (k, off) \<leftarrow> uio_seek (drop (uio_iov u) (uio_mem u)) (offset + uio_offset_in_iov u);
     vs \<leftarrow> uio_fill (drop (uio_iov u + k) (uio_mem u)) off buf;
     Some (u\<lparr>uio_mem := take (uio_iov u + k) (uio_mem u) @ vs\<rparr>) }"

definition uio_copyto :: "uio \<Rightarrow> nat \<Rightarrow> nat \<Rightarrow> byte list option" where
  "uio_copyto u offset len = do {
     (k, off) \<leftarrow> uio_seek (drop (uio_iov u) (uio_mem u)) (offset + uio_offset_in_iov u);
     uio_gather (drop (uio_iov u + k) (uio_mem u)) off len }"

section \<open>Specification: one linear buffer\<close>

text \<open>The buffers of the caller in a row, and the position of the request in them.\<close>

definition uio_all :: "uio \<Rightarrow> byte list" where
  "uio_all u = concat (uio_mem u)"

definition uio_pos :: "uio \<Rightarrow> nat" where
  "uio_pos u = length (concat (take (uio_iov u) (uio_mem u))) + uio_offset_in_iov u"

definition uio_ok :: "uio \<Rightarrow> bool" where
  "uio_ok u \<longleftrightarrow> uio_iov u + uio_iovcnt u = length (uio_mem u)
     \<and> uio_offset_in_iov u + uio_resid u = length (concat (uio_vecs u))
     \<and> uio_offset_in_iov u + uio_resid u \<le> SSIZE_MAX
     \<and> uio_offset_in_iov u \<le> length (concat (take 1 (uio_vecs u)))"

section \<open>Lemmas\<close>

lemma uio_vecs_ok: "uio_ok u \<Longrightarrow> uio_vecs u = drop (uio_iov u) (uio_mem u)"
  by (auto simp: uio_ok_def uio_vecs_def intro: take_all)

lemma uio_split: "uio_all u = concat (take k (uio_mem u)) @ concat (drop k (uio_mem u))"
  by (metis append_take_drop_id concat_append uio_all_def)

lemma uio_seek_eq:
  "off < length (concat vs) \<or> vs \<noteq> [] \<and> off \<le> length (concat vs) \<Longrightarrow>
   \<exists>k off'. uio_seek vs off = Some (k, off') \<and> k < length vs \<and> off' \<le> length (vs ! k)
     \<and> length (concat (take k vs)) + off' = off"
proof (induction vs arbitrary: off)
  case (Cons v vs)
  show ?case
  proof (cases "off > length v")
    case True
    then have "vs \<noteq> []" "off - length v \<le> length (concat vs)" using Cons.prems by auto
    then obtain k off' where "uio_seek vs (off - length v) = Some (k, off')" "k < length vs"
        "off' \<le> length (vs ! k)" "length (concat (take k vs)) + off' = off - length v"
      using Cons.IH [of "off - length v"] by blast
    then show ?thesis using True by auto
  qed auto
qed simp

lemma blit_left: "p + length x \<le> length a \<Longrightarrow> blit (a @ b) p x = blit a p x @ b"
  by (simp add: blit_def)

lemma blit_right: "blit (a @ b) (length a + p) x = a @ blit b p x"
  by (simp add: blit_def)

lemma blit_across:
  assumes "off \<le> length v" and "length v - off \<le> length x"
  shows "blit (v @ w) off x = blit v off (take (length v - off) x) @ blit w 0 (drop (length v - off) x)"
proof -
  have "drop (off + length x) (v @ w) = drop (length x - (length v - off)) w" using assms
    by (simp add: add.commute)
  then show ?thesis using assms by (simp add: blit_def min_def add.commute)
qed

lemma uio_fill_eq:
  "off + length buf \<le> length (concat vs) \<Longrightarrow> off \<le> length (concat (take 1 vs)) \<Longrightarrow>
   \<exists>vs'. uio_fill vs off buf = Some vs' \<and> concat vs' = blit (concat vs) off buf
     \<and> map length vs' = map length vs"
proof (induction vs off buf rule: uio_fill.induct)
  case (3 v vs off b bs)
  define x where "x = b # bs"
  define blen where "blen = (if length x > length v - off then length v - off else length x)"
  have le: "off \<le> length v" "blen \<le> length x" "off + blen \<le> length v" using 3(3) by (auto simp: blen_def)
  have m: "memcpy v off x 0 blen = Some (blit v off (take blen x))"
    using memcpy_eq [of 0 blen x off v] le by simp
  have rest: "0 + length (drop blen x) \<le> length (concat vs)" using 3(2) le(1) by (auto simp: blen_def x_def)
  obtain vs' where vs': "uio_fill vs 0 (drop blen x) = Some vs'" "concat vs' = blit (concat vs) 0 (drop blen x)"
      "map length vs' = map length vs"
    using 3(1) [OF refl] m rest unfolding x_def [symmetric] blen_def by auto
  have "blit (v @ concat vs) off x = blit v off (take blen x) @ blit (concat vs) 0 (drop blen x)"
  proof (cases "length x > length v - off")
    case True
    then show ?thesis using blit_across [of off v x "concat vs"] le by (simp add: blen_def)
  next
    case False
    then show ?thesis using blit_left [of off x v "concat vs"] le by (simp add: blen_def)
  qed
  moreover have "uio_fill (v # vs) off x = Some (blit v off (take blen x) # vs')"
    unfolding x_def uio_fill.simps unfolding x_def [symmetric] Let_def blen_def [symmetric]
    using m vs'(1) by simp
  ultimately show ?case using vs'(2,3) le unfolding x_def [symmetric] by simp
qed auto

lemma uio_gather_eq:
  "off + n \<le> length (concat vs) \<Longrightarrow> off \<le> length (concat (take 1 vs)) \<Longrightarrow>
   uio_gather vs off n = Some (take n (drop off (concat vs)))"
proof (induction vs off n rule: uio_gather.induct)
  case (3 v vs off n)
  define blen where "blen = (if Suc n > length v - off then length v - off else Suc n)"
  have le: "off \<le> length v" "blen \<le> Suc n" "off + blen \<le> length v" using 3(3) by (auto simp: blen_def)
  have "uio_gather vs 0 (Suc n - blen) = Some (take (Suc n - blen) (concat vs))"
    using 3(1) [OF refl] 3(2) le unfolding blen_def by auto
  then show ?case
    using le unfolding uio_gather.simps Let_def blen_def [symmetric] by (auto simp: blen_def)
qed auto

lemma uio_ok_lengths:
  assumes "map length m = map length (uio_mem u)"
  shows "uio_ok (u\<lparr>uio_mem := m\<rparr>) = uio_ok u" and "uio_pos (u\<lparr>uio_mem := m\<rparr>) = uio_pos u"
proof -
  have "length m = length (uio_mem u)" using arg_cong [OF assms, of length] by simp
  then show "uio_ok (u\<lparr>uio_mem := m\<rparr>) = uio_ok u" "uio_pos (u\<lparr>uio_mem := m\<rparr>) = uio_pos u"
    using assms by (simp_all add: uio_ok_def uio_vecs_def uio_pos_def length_concat take_map [symmetric]
        drop_map [symmetric])
qed

text \<open>A copy into the request writes through to the linear buffer, a copy out of it reads it.\<close>

lemma uio_copyfrom_eq:
  assumes ok: "uio_ok u" and fit: "offset + length buf \<le> uio_resid u" and ne: "buf \<noteq> []"
  shows "\<exists>u'. uio_copyfrom u offset buf = Some u' \<and> uio_ok u' \<and> uio_all u' = blit (uio_all u) (uio_pos u + offset) buf
    \<and> uio_pos u' = uio_pos u \<and> uio_resid u' = uio_resid u \<and> map length (uio_mem u') = map length (uio_mem u)"
proof -
  define vs where "vs = drop (uio_iov u) (uio_mem u)"
  have vs: "uio_vecs u = vs" using uio_vecs_ok [OF ok] by (simp add: vs_def)
  have len: "uio_offset_in_iov u + uio_resid u = length (concat vs)" using ok vs by (simp add: uio_ok_def)
  have "offset + uio_offset_in_iov u < length (concat vs)" using fit ne len by (cases buf) auto
  then obtain k off where s: "uio_seek vs (offset + uio_offset_in_iov u) = Some (k, off)" "k < length vs"
      "off \<le> length (vs ! k)" "length (concat (take k vs)) + off = offset + uio_offset_in_iov u"
    using uio_seek_eq by blast
  have split: "length (concat vs) = length (concat (take k vs)) + length (concat (drop k vs))"
    by (metis append_take_drop_id concat_append length_append)
  have "off + length buf \<le> length (concat (drop k vs))" using s(4) fit len split by simp
  moreover have "off \<le> length (concat (take 1 (drop k vs)))"
    using s(2,3) by (simp add: Cons_nth_drop_Suc [symmetric])
  ultimately obtain vs' where f: "uio_fill (drop k vs) off buf = Some vs'"
      "concat vs' = blit (concat (drop k vs)) off buf" "map length vs' = map length (drop k vs)"
    using uio_fill_eq by blast
  define n where "n = uio_iov u + k"
  define m where "m = take n (uio_mem u) @ vs'"
  have dk: "drop k vs = drop n (uio_mem u)" by (simp add: vs_def n_def add.commute)
  have lens: "map length m = map length (uio_mem u)"
    using f(3) unfolding m_def dk by (metis append_take_drop_id map_append)
  have "length (concat (take n (uio_mem u))) + off = uio_pos u + offset"
    using s(4) by (simp add: n_def take_add vs_def uio_pos_def)
  then have "concat m = blit (uio_all u) (uio_pos u + offset) buf"
    using f(2) uio_split [of u n] blit_right [of "concat (take n (uio_mem u))" "concat (drop n (uio_mem u))" off buf]
    unfolding m_def dk by simp
  moreover have "uio_copyfrom u offset buf = Some (u\<lparr>uio_mem := m\<rparr>)"
    using s(1) f(1) unfolding uio_copyfrom_def dk by (simp add: vs_def m_def n_def)
  ultimately show ?thesis using ok lens by (simp add: uio_ok_lengths uio_all_def)
qed

lemma uio_copyto_eq:
  assumes ok: "uio_ok u" and fit: "offset + len \<le> uio_resid u" and ne: "0 < len"
  shows "uio_copyto u offset len = Some (take len (drop (uio_pos u + offset) (uio_all u)))"
proof -
  define vs where "vs = drop (uio_iov u) (uio_mem u)"
  have vs: "uio_vecs u = vs" using uio_vecs_ok [OF ok] by (simp add: vs_def)
  have total: "uio_offset_in_iov u + uio_resid u = length (concat vs)" using ok vs by (simp add: uio_ok_def)
  then obtain k off where s: "uio_seek vs (offset + uio_offset_in_iov u) = Some (k, off)" "k < length vs"
      "off \<le> length (vs ! k)" "length (concat (take k vs)) + off = offset + uio_offset_in_iov u"
    using uio_seek_eq [of "offset + uio_offset_in_iov u" vs] fit ne by auto
  have split: "concat vs = concat (take k vs) @ concat (drop k vs)"
    by (metis append_take_drop_id concat_append)
  have "off + len \<le> length (concat (drop k vs))"
    using s(4) fit total arg_cong [OF split, of length] by simp
  moreover have "off \<le> length (concat (take 1 (drop k vs)))"
    using s(2,3) by (simp add: Cons_nth_drop_Suc [symmetric])
  ultimately have "uio_gather (drop k vs) off len = Some (take len (drop off (concat (drop k vs))))"
    by (rule uio_gather_eq)
  moreover have "drop off (concat (drop k vs)) = drop (offset + uio_offset_in_iov u) (concat vs)"
    unfolding s(4) [symmetric] using arg_cong [OF split, of "drop (length (concat (take k vs)) + off)"] by simp
  moreover have "drop (offset + uio_offset_in_iov u) (concat vs) = drop (uio_pos u + offset) (uio_all u)"
    using uio_split [of u "uio_iov u"] by (simp add: uio_pos_def vs_def add.commute add.left_commute)
  ultimately show ?thesis
    using s(1) by (simp add: uio_copyto_def vs_def add.commute)
qed

lemma advance_loop_eq:
  "off \<le> length (concat (take 1 vs)) \<Longrightarrow> off + sz \<le> length (concat vs) \<Longrightarrow> advance_loop vs sz off = (k, off') \<Longrightarrow>
   k \<le> length vs \<and> off + sz = length (concat (take k vs)) + off' \<and> off' \<le> length (concat (take 1 (drop k vs)))"
proof (induction vs sz off arbitrary: k off' rule: advance_loop.induct)
  case (2 v vs sz off)
  show ?case
  proof (cases "sz < length v - off")
    case True
    then show ?thesis using 2(4) by auto
  next
    case False
    obtain j where j: "advance_loop vs (sz - (length v - off)) 0 = (j, off')" "k = Suc j"
      using 2(4) False by (auto split: prod.splits)
    have "sz - (length v - off) \<le> length (concat vs)" using 2(2,3) False by simp
    then have "j \<le> length vs \<and> sz - (length v - off) = length (concat (take j vs)) + off'
        \<and> off' \<le> length (concat (take 1 (drop j vs)))"
      using 2(1) [OF False _ _ j(1)] by simp
    then show ?thesis using 2(2) False j(2) by auto
  qed
qed auto

lemma uio_advance_eq:
  assumes ok: "uio_ok u" and sz: "sz \<le> uio_resid u"
  shows "uio_ok (uio_advance u sz)" and "uio_pos (uio_advance u sz) = uio_pos u + sz"
    and "uio_all (uio_advance u sz) = uio_all u" and "uio_resid (uio_advance u sz) = uio_resid u - sz"
proof -
  define vs where "vs = drop (uio_iov u) (uio_mem u)"
  have vs: "uio_vecs u = vs" using uio_vecs_ok [OF ok] by (simp add: vs_def)
  obtain k off where a: "advance_loop vs sz (uio_offset_in_iov u) = (k, off)" by fastforce
  have adv: "uio_advance u sz = u\<lparr>uio_resid := uio_resid u - sz, uio_iov := uio_iov u + k,
      uio_iovcnt := uio_iovcnt u - k, uio_offset_in_iov := off\<rparr>"
    using a by (simp add: uio_advance_def vs)
  have total: "uio_offset_in_iov u + uio_resid u = length (concat vs)"
      "uio_offset_in_iov u + uio_resid u \<le> SSIZE_MAX" using ok vs by (simp_all add: uio_ok_def)
  have k: "k \<le> length vs" "uio_offset_in_iov u + sz = length (concat (take k vs)) + off"
      "off \<le> length (concat (take 1 (drop k vs)))"
    using advance_loop_eq [OF _ _ a] ok sz total vs by (auto simp: uio_ok_def)
  have split: "length (concat vs) = length (concat (take k vs)) + length (concat (drop k vs))"
    by (metis append_take_drop_id concat_append length_append)
  have cnt: "uio_iov u + uio_iovcnt u = length (uio_mem u)" using ok by (simp add: uio_ok_def)
  then have vs': "uio_vecs (uio_advance u sz) = drop k vs"
    using k(1) by (simp add: adv uio_vecs_def vs_def add.commute)
  have "off + (uio_resid u - sz) = length (concat (drop k vs))" "off + (uio_resid u - sz) \<le> SSIZE_MAX"
    using k(2) total split sz by linarith+
  then show "uio_ok (uio_advance u sz)"
    unfolding uio_ok_def vs' using k(1,3) cnt by (simp add: adv vs_def)
  show "uio_pos (uio_advance u sz) = uio_pos u + sz"
    using k(2) by (simp add: adv uio_pos_def take_add vs_def)
  show "uio_all (uio_advance u sz) = uio_all u" "uio_resid (uio_advance u sz) = uio_resid u - sz"
    by (simp_all add: adv uio_all_def)
qed

lemma calc_resid_eq:
  "len \<le> SSIZE_MAX \<Longrightarrow> calc_resid_loop vs len =
     (if len + length (concat vs) \<le> SSIZE_MAX then int (len + length (concat vs)) else - EINVAL)"
  by (induction vs len rule: calc_resid_loop.induct) auto

lemma uio_init_eq:
  "length (concat iov) \<le> SSIZE_MAX \<Longrightarrow>
   \<exists>u. uio_init iov = (0, u) \<and> uio_ok u \<and> uio_pos u = 0 \<and> uio_mem u = iov \<and> uio_resid u = length (concat iov)"
  by (simp add: uio_init_def uio_calc_resid_def uio_vecs_def calc_resid_eq uio_ok_def uio_pos_def)

section \<open>Properties\<close>

text \<open>
  A request over scattered buffers behaves as one linear buffer: copying bytes into it at an
  offset returns, changes exactly that stretch of the buffers in a row, keeps their sizes and the
  position of the request, and copying the stretch out again delivers the bytes.
\<close>

lemma uio_copy_roundtrip:
  assumes "uio_ok u" and "offset + length buf \<le> uio_resid u" and "buf \<noteq> []"
  shows "\<exists>u'. uio_copyfrom u offset buf = Some u' \<and> uio_copyto u' offset (length buf) = Some buf
    \<and> uio_all u' = blit (uio_all u) (uio_pos u + offset) buf
    \<and> map length (uio_mem u') = map length (uio_mem u) \<and> uio_ok u' \<and> uio_pos u' = uio_pos u"
proof -
  obtain u' where u': "uio_copyfrom u offset buf = Some u'" "uio_ok u'"
      "uio_all u' = blit (uio_all u) (uio_pos u + offset) buf" "uio_pos u' = uio_pos u"
      "uio_resid u' = uio_resid u" "map length (uio_mem u') = map length (uio_mem u)"
    using uio_copyfrom_eq [OF assms] by blast
  have "uio_pos u + uio_resid u \<le> length (uio_all u)"
    using arg_cong [OF uio_split [of u "uio_iov u"], of length] uio_vecs_ok [OF assms(1)] assms(1)
    unfolding uio_ok_def uio_pos_def by simp
  then have "take (length buf) (drop (uio_pos u + offset) (uio_all u')) = buf"
    using assms(2) unfolding u'(3) by (simp add: blit_def)
  then show ?thesis
    using u' uio_copyto_eq [OF u'(2), of offset "length buf"] assms(2,3) by simp
qed

end
