(* ===== verification/Serial.thy ===== *)
theory Serial
  imports SerialBuf Uio
begin

text \<open>
  The serial console of the simulator: the upper half of the NuttX serial driver
  (\<open>drivers/serial/serial.c\<close>, \<open>serial_io.c\<close>, \<open>serial_dma.c\<close>), the simulated UART
  (\<open>arch/sim/src/sim/sim_uart.c\<close>) and its host side (\<open>arch/sim/src/sim/posix/sim_hostuart.c\<close>).
  The user interface reads its keys from this device and prints to it.

  The configuration is that of the simulator: \<open>SERIAL_IFLOWCONTROL\<close>, \<open>SERIAL_RXDMA\<close> and
  \<open>SERIAL_TXDMA\<close> are on, \<open>SERIAL_TERMIOS\<close>, \<open>SERIAL_REMOVABLE\<close>, \<open>DEV_SERIAL_FULLBLOCKS\<close>, watermarks
  and the \<open>TTY_*\<close> signals are off.

  The device with its private data and the host it talks to is one record. The host operating
  system is the parameter \<open>host_os\<close>; what other threads and interrupts do while the caller sleeps
  is the parameter \<open>kernel\<close>. Critical sections and unlocking have no effect of their own here:
  between two waits the driver runs alone. \<open>None\<close> is a fault or a loop that does not end.
\<close>

section \<open>Constants\<close>

definition EINTR :: int where "EINTR = 4"
definition EBADF :: int where "EBADF = 9"
definition EAGAIN :: int where "EAGAIN = 11"
definition EACCES :: int where "EACCES = 13"
definition EBUSY :: int where "EBUSY = 16"
definition EMFILE :: int where "EMFILE = 24"
definition ENOTTY :: int where "ENOTTY = 25"
definition ETIMEDOUT :: int where "ETIMEDOUT = 110"
definition EBADFD :: int where "EBADFD = 77"
definition ENOSYS :: int where "ENOSYS = 38"
definition EOVERFLOW :: int where "EOVERFLOW = 75"

type_synonym tcflag = "32 word"

definition INLCR :: tcflag where "INLCR = 0x40"
definition IGNCR :: tcflag where "IGNCR = 0x80"
definition ICRNL :: tcflag where "ICRNL = 0x100"
definition OPOST :: tcflag where "OPOST = 0x01"
definition ONLCR :: tcflag where "ONLCR = 0x04"
definition OCRNL :: tcflag where "OCRNL = 0x08"
definition ONLRET :: tcflag where "ONLRET = 0x20"
definition ISIG :: tcflag where "ISIG = 0x01"
definition ICANON :: tcflag where "ICANON = 0x02"
definition ECHO :: tcflag where "ECHO = 0x08"

definition POLLIN :: tcflag where "POLLIN = 0x01"
definition POLLOUT :: tcflag where "POLLOUT = 0x04"
definition POLLERR :: tcflag where "POLLERR = 0x08"
definition POLLHUP :: tcflag where "POLLHUP = 0x10"
definition POLLALWAYS :: tcflag where "POLLALWAYS = 0x10000"
definition CONFIG_SERIAL_NPOLLWAITERS :: nat where "CONFIG_SERIAL_NPOLLWAITERS = 4"
definition CONFIG_SIM_UART_BUFFER_SIZE :: nat where "CONFIG_SIM_UART_BUFFER_SIZE = 256"

abbreviation NL :: byte where "NL \<equiv> 0x0a"
abbreviation CR :: byte where "CR \<equiv> 0x0d"
abbreviation ASCII_BS :: byte where "ASCII_BS \<equiv> 0x08"
abbreviation ASCII_DEL :: byte where "ASCII_DEL \<equiv> 0x7f"
abbreviation ASCII_ESC :: byte where "ASCII_ESC \<equiv> 0x1b"
abbreviation ASCII_LBRACKET :: byte where "ASCII_LBRACKET \<equiv> 0x5b"
abbreviation SPACE :: byte where "SPACE \<equiv> 0x20"

definition flag :: "tcflag \<Rightarrow> tcflag \<Rightarrow> bool" where
  "flag w m \<longleftrightarrow> w AND m \<noteq> 0"

definition iscntrl :: "byte \<Rightarrow> bool" where
  "iscntrl c \<longleftrightarrow> c < 0x20 \<or> c = 0x7f"

section \<open>State and parameters\<close>

record dmaxfer =
  x_buffer :: nat
  x_nbuffer :: "nat option"
  x_length :: nat
  x_nlength :: nat
  x_nbytes :: nat

record pollfd =
  pf_events :: tcflag
  pf_revents :: tcflag
  pf_cb :: bool
  pf_calls :: nat
  pf_priv :: "nat option"

record 'h uart_dev =
  open_count :: "8 word"
  escape :: "8 word"
  isconsole :: bool
  unlinked :: bool
  tc_iflag :: tcflag
  tc_oflag :: tcflag
  tc_lflag :: tcflag
  xmitsem :: int
  recvsem :: int
  xmit :: uart_buffer
  recv :: uart_buffer
  dmatx :: dmaxfer
  dmarx :: dmaxfer
  fds :: "nat option list"
  pollfds :: "pollfd list"
  tty_path :: "byte list"
  tty_fd :: int
  txint :: bool
  rxint :: bool
  wdog :: bool
  released :: bool
  host :: 'h

text \<open>
  The host: \<open>read\<close> returns a count or a negated error with the bytes it stored, and nothing while
  it blocks; \<open>write\<close> returns a count or a negated error; \<open>poll\<close> tells whether a descriptor is
  readable or writable.
\<close>

record 'h host_os =
  os_read :: "int \<Rightarrow> nat \<Rightarrow> 'h \<Rightarrow> (int \<times> byte list \<times> 'h) option"
  os_write :: "int \<Rightarrow> byte list \<Rightarrow> 'h \<Rightarrow> int \<times> 'h"
  os_pollin :: "int \<Rightarrow> 'h \<Rightarrow> bool"
  os_pollout :: "int \<Rightarrow> 'h \<Rightarrow> bool"
  os_open :: "byte list \<Rightarrow> 'h \<Rightarrow> int \<times> 'h"
  os_setraw :: "int \<Rightarrow> 'h \<Rightarrow> 'h"
  os_close :: "int \<Rightarrow> 'h \<Rightarrow> 'h"

text \<open>
  The kernel: taking a mutex and waiting on a semaphore return an error code and the device after
  whatever ran in between.
\<close>

record 'h kernel =
  k_lock :: "'h uart_dev \<Rightarrow> int \<times> 'h uart_dev"
  k_wait_xmit :: "'h uart_dev \<Rightarrow> int \<times> 'h uart_dev"
  k_wait_recv :: "'h uart_dev \<Rightarrow> int \<times> 'h uart_dev"
  k_tickwait_xmit :: "nat \<Rightarrow> 'h uart_dev \<Rightarrow> int \<times> 'h uart_dev"
  k_ticks :: "'h uart_dev \<Rightarrow> nat"
  k_usleep :: "'h uart_dev \<Rightarrow> 'h uart_dev"

record file_s =
  f_nonblock :: bool
  f_wronly :: bool
  f_inode :: bool

section \<open>The host side\<close>

partial_function (option) host_uart_puts ::
  "'h host_os \<Rightarrow> int \<Rightarrow> byte list \<Rightarrow> 'h \<Rightarrow> (int \<times> 'h) option" where
  "host_uart_puts H fd buf h =
     (let (ret, h) = os_write H fd buf h
      in if ret = - EINTR then host_uart_puts H fd buf h else Some (ret, h))"

partial_function (option) host_uart_gets ::
  "'h host_os \<Rightarrow> int \<Rightarrow> nat \<Rightarrow> 'h \<Rightarrow> (int \<times> byte list \<times> 'h) option" where
  "host_uart_gets H fd n h =
     do {
       (ret, x, h) \<leftarrow> os_read H fd n h;
       if ret = - EINTR then host_uart_gets H fd n h else Some (ret, x, h) }"

definition host_uart_checkin :: "'h host_os \<Rightarrow> int \<Rightarrow> 'h \<Rightarrow> bool" where
  "host_uart_checkin H fd h = os_pollin H fd h"

definition host_uart_checkout :: "'h host_os \<Rightarrow> int \<Rightarrow> 'h \<Rightarrow> bool" where
  "host_uart_checkout H fd h = os_pollout H fd h"

definition host_uart_open :: "'h host_os \<Rightarrow> byte list \<Rightarrow> 'h \<Rightarrow> int \<times> 'h" where
  "host_uart_open H path h =
     (let (fd, h) = os_open H path h
      in (fd, if fd \<ge> 0 then os_setraw H fd h else h))"

definition host_uart_close :: "'h host_os \<Rightarrow> int \<Rightarrow> 'h \<Rightarrow> 'h" where
  "host_uart_close H fd h = os_close H fd h"

section \<open>Wake-ups and poll notification\<close>

function wake_loop :: "int \<Rightarrow> int \<Rightarrow> int" where
  "wake_loop sval sem = (if sval < 1 then wake_loop (sval + 1) (sem + 1) else sem)"
  by auto
termination by (relation "measure (\<lambda>(sval, _). nat (1 - sval))") auto

declare wake_loop.simps [simp del]

definition uart_wakeup :: "int \<Rightarrow> int" where
  "uart_wakeup sem = wake_loop sem sem"

definition notify_one :: "tcflag \<Rightarrow> pollfd \<Rightarrow> pollfd" where
  "notify_one eventset p =
     (let p = p\<lparr>pf_revents := pf_revents p OR (eventset AND (pf_events p OR POLLERR OR POLLHUP))\<rparr>;
          p = (if pf_revents p AND (POLLERR OR POLLHUP) \<noteq> 0
               then p\<lparr>pf_revents := pf_revents p AND NOT POLLOUT\<rparr> else p)
      in if (pf_revents p \<noteq> 0 \<or> pf_events p AND POLLALWAYS \<noteq> 0) \<and> pf_cb p
         then p\<lparr>pf_calls := pf_calls p + 1\<rparr> else p)"

fun poll_notify :: "nat option list \<Rightarrow> tcflag \<Rightarrow> pollfd list \<Rightarrow> pollfd list" where
  "poll_notify [] eventset ps = ps"
| "poll_notify (s # afds) eventset ps =
     (if eventset = 0 then ps
      else poll_notify afds eventset
        (case s of None \<Rightarrow> ps | Some i \<Rightarrow> ps[i := notify_one eventset (ps ! i)]))"

definition uart_poll_notify :: "'h uart_dev \<Rightarrow> nat \<Rightarrow> nat \<Rightarrow> tcflag \<Rightarrow> 'h uart_dev" where
  "uart_poll_notify d mn mx eventset =
     d\<lparr>pollfds := poll_notify (take (mx - mn) (drop mn (fds d))) eventset (pollfds d)\<rparr>"

definition uart_datareceived :: "'h uart_dev \<Rightarrow> 'h uart_dev" where
  "uart_datareceived d =
     (let d = uart_poll_notify d 0 CONFIG_SERIAL_NPOLLWAITERS POLLIN
      in d\<lparr>recvsem := uart_wakeup (recvsem d)\<rparr>)"

definition uart_datasent :: "'h uart_dev \<Rightarrow> 'h uart_dev" where
  "uart_datasent d =
     (let d = uart_poll_notify d 0 CONFIG_SERIAL_NPOLLWAITERS POLLOUT
      in d\<lparr>xmitsem := uart_wakeup (xmitsem d)\<rparr>)"

definition uart_reset_sem :: "'h uart_dev \<Rightarrow> 'h uart_dev" where
  "uart_reset_sem d = d\<lparr>xmitsem := 0, recvsem := 0\<rparr>"

section \<open>Transfers between the buffers and the host\<close>

text \<open>A stretch of an object that is read or written as a whole.\<close>

definition rds :: "mem \<Rightarrow> nat \<Rightarrow> nat \<Rightarrow> byte list option" where
  "rds m p n = (if p + n \<le> length m then Some (take n (drop p m)) else None)"

definition wrs :: "mem \<Rightarrow> nat \<Rightarrow> byte list \<Rightarrow> mem option" where
  "wrs m p x = (if p + length x \<le> length m then Some (blit m p x) else None)"

definition out_fd :: "'h uart_dev \<Rightarrow> int" where
  "out_fd d = (if isconsole d then 1 else tty_fd d)"

definition tty_txready :: "'h host_os \<Rightarrow> 'h uart_dev \<Rightarrow> bool" where
  "tty_txready H d = host_uart_checkout H (out_fd d) (host d)"

definition tty_txempty :: "'h uart_dev \<Rightarrow> bool" where
  "tty_txempty d = True"

definition tty_rxavailable :: "'h host_os \<Rightarrow> 'h uart_dev \<Rightarrow> bool" where
  "tty_rxavailable H d = host_uart_checkin H (tty_fd d) (host d)"

definition tty_rxflowcontrol :: "'h uart_dev \<Rightarrow> nat \<Rightarrow> bool \<Rightarrow> bool" where
  "tty_rxflowcontrol d n upper \<longleftrightarrow> n = rb_size (recv d)"

definition tty_txint :: "'h uart_dev \<Rightarrow> bool \<Rightarrow> 'h uart_dev" where
  "tty_txint d enable = d\<lparr>txint := enable, wdog := wdog d \<or> enable\<rparr>"

definition tty_rxint :: "'h uart_dev \<Rightarrow> bool \<Rightarrow> 'h uart_dev" where
  "tty_rxint d enable = d\<lparr>rxint := enable, wdog := wdog d \<or> enable\<rparr>"

definition uart_xmitchars_done :: "'h uart_dev \<Rightarrow> 'h uart_dev option" where
  "uart_xmitchars_done d =
     (let xfer = dmatx d; nbytes = x_nbytes xfer; txbuf = xmit d
      in if x_buffer xfer = rb_tail txbuf \<and> rb_size txbuf = 0 then None
         else let txbuf = (if x_buffer xfer = rb_tail txbuf
                           then txbuf\<lparr>rb_tail := (rb_tail txbuf + nbytes) mod rb_size txbuf\<rparr> else txbuf);
                  d = d\<lparr>xmit := txbuf, dmatx := xfer\<lparr>x_nbytes := 0, x_length := 0, x_nlength := 0\<rparr>\<rparr>
              in Some (if nbytes \<noteq> 0 then uart_datasent d else d))"

definition uart_recvchars_done :: "'h uart_dev \<Rightarrow> 'h uart_dev option" where
  "uart_recvchars_done d =
     (let xfer = dmarx d; rxbuf = recv d; nbytes = x_nbytes xfer
      in if rb_size rxbuf = 0 then None
         else let rxbuf = rxbuf\<lparr>rb_head := (rb_head rxbuf + nbytes) mod rb_size rxbuf\<rparr>;
                  d = d\<lparr>recv := rxbuf, dmarx := xfer\<lparr>x_nbytes := 0, x_length := 0, x_nlength := 0\<rparr>\<rparr>;
                  nbytes = nbuffered rxbuf
              in Some (if nbytes \<noteq> 0 then uart_datareceived d else d))"

text \<open>The second transfer takes place if the first one was complete and a second region exists.\<close>

definition tty_dmasend :: "'h host_os \<Rightarrow> 'h uart_dev \<Rightarrow> 'h uart_dev option" where
  "tty_dmasend H d = do {
     let fd = out_fd d;
     let xfer = dmatx d;
     x \<leftarrow> rds (rb_buf (xmit d)) (x_buffer xfer) (x_length xfer);
     (ret, h) \<leftarrow> host_uart_puts H fd x (host d);
     (nbytes, h) \<leftarrow>
       (if ret > 0 then
          (if nat ret = x_length xfer \<and> x_nlength xfer > 0 then do {
             nbuf \<leftarrow> x_nbuffer xfer;
             y \<leftarrow> rds (rb_buf (xmit d)) nbuf (x_nlength xfer);
             (ret2, h) \<leftarrow> host_uart_puts H fd y h;
             Some (if ret2 > 0 then nat ret + nat ret2 else nat ret, h) }
           else Some (nat ret, h))
        else Some (0, h));
     uart_xmitchars_done (d\<lparr>dmatx := xfer\<lparr>x_nbytes := nbytes\<rparr>, host := h\<rparr>) }"

definition tty_dmareceive :: "'h host_os \<Rightarrow> 'h uart_dev \<Rightarrow> 'h uart_dev option" where
  "tty_dmareceive H d = do {
     let xfer = dmarx d;
     (ret, x, h) \<leftarrow> host_uart_gets H (tty_fd d) (x_length xfer) (host d);
     m \<leftarrow> wrs (rb_buf (recv d)) (x_buffer xfer) x;
     (nbytes, m, h) \<leftarrow>
       (if ret > 0 then
          (if nat ret = x_length xfer \<and> x_nlength xfer > 0 then do {
             nbuf \<leftarrow> x_nbuffer xfer;
             (ret2, y, h) \<leftarrow> host_uart_gets H (tty_fd d) (x_nlength xfer) h;
             m \<leftarrow> wrs m nbuf y;
             Some (if ret2 > 0 then nat ret + nat ret2 else nat ret, m, h) }
           else Some (nat ret, m, h))
        else Some (0, m, h));
     uart_recvchars_done (d\<lparr>recv := (recv d)\<lparr>rb_buf := m\<rparr>, dmarx := xfer\<lparr>x_nbytes := nbytes\<rparr>, host := h\<rparr>) }"

definition uart_xmitchars_dma :: "'h host_os \<Rightarrow> 'h uart_dev \<Rightarrow> 'h uart_dev option" where
  "uart_xmitchars_dma H d =
     (let b = xmit d
      in if rb_head b = rb_tail b then Some d
         else let xfer = (if rb_tail b < rb_head b
                then (dmatx d)\<lparr>x_buffer := rb_tail b, x_length := rb_head b - rb_tail b,
                               x_nbuffer := None, x_nlength := 0\<rparr>
                else (dmatx d)\<lparr>x_buffer := rb_tail b, x_length := rb_size b - rb_tail b,
                               x_nbuffer := Some 0, x_nlength := rb_head b\<rparr>)
              in tty_dmasend H (d\<lparr>dmatx := xfer\<rparr>))"

definition uart_recvchars_dma :: "'h host_os \<Rightarrow> 'h uart_dev \<Rightarrow> 'h uart_dev option" where
  "uart_recvchars_dma H d =
     (let b = recv d; is_full = (nexthead b = rb_tail b)
      in if is_full \<and> tty_rxflowcontrol d (rb_size b) True then Some d
         else if is_full then Some d
         else let xfer = (if rb_tail b \<le> rb_head b
                then (if rb_tail b > 0
                      then (dmarx d)\<lparr>x_buffer := rb_head b, x_nbuffer := Some 0,
                                     x_length := rb_size b - rb_head b, x_nlength := rb_tail b - 1\<rparr>
                      else (dmarx d)\<lparr>x_buffer := rb_head b, x_nbuffer := Some 0,
                                     x_length := rb_size b - rb_head b - 1, x_nlength := 0\<rparr>)
                else (dmarx d)\<lparr>x_buffer := rb_head b, x_length := rb_tail b - rb_head b - 1,
                               x_nbuffer := None, x_nlength := 0\<rparr>)
              in tty_dmareceive H (d\<lparr>dmarx := xfer\<rparr>))"

definition tty_dmatxavail :: "'h host_os \<Rightarrow> 'h uart_dev \<Rightarrow> 'h uart_dev option" where
  "tty_dmatxavail H d = (if tty_txready H d then uart_xmitchars_dma H d else Some d)"

definition tty_dmarxfree :: "'h host_os \<Rightarrow> 'h uart_dev \<Rightarrow> 'h uart_dev option" where
  "tty_dmarxfree H d = (if tty_rxavailable H d then uart_recvchars_dma H d else Some d)"

subsection \<open>Character by character\<close>

partial_function (option) uart_nputs :: "'h host_os \<Rightarrow> int \<Rightarrow> byte list \<Rightarrow> 'h \<Rightarrow> 'h option" where
  "uart_nputs H fd buf h =
     (if buf = [] then Some h
      else do {
        (ret, h) \<leftarrow> host_uart_puts H fd buf h;
        if ret < 0 then uart_nputs H fd buf h else uart_nputs H fd (drop (nat ret) buf) h })"

definition tty_send :: "'h host_os \<Rightarrow> 'h uart_dev \<Rightarrow> byte \<Rightarrow> 'h uart_dev option" where
  "tty_send H d ch = do {
     h \<leftarrow> uart_nputs H (out_fd d) [ch] (host d);
     Some (d\<lparr>host := h\<rparr>) }"

definition tty_receive :: "'h host_os \<Rightarrow> 'h uart_dev \<Rightarrow> (byte \<times> 'h uart_dev) option" where
  "tty_receive H d = do {
     (ret, x, h) \<leftarrow> host_uart_gets H (tty_fd d) 1 (host d);
     Some (case x of [] \<Rightarrow> 0 | ch # _ \<Rightarrow> ch, d\<lparr>host := h\<rparr>) }"

text \<open>The loops return the device and whether a byte was sent; the simulated UART has no block operations.\<close>

partial_function (option) xmitchars_loop ::
  "'h host_os \<Rightarrow> 'h uart_dev \<Rightarrow> nat \<Rightarrow> ('h uart_dev \<times> nat) option" where
  "xmitchars_loop H d nbytes =
     (if rb_head (xmit d) \<noteq> rb_tail (xmit d) \<and> tty_txready H d
      then do {
        (ch, b) \<leftarrow> rb_take (xmit d);
        d \<leftarrow> tty_send H d ch;
        xmitchars_loop H (d\<lparr>xmit := b\<rparr>) ((nbytes + 1) mod 2 ^ 16) }
      else Some (d, nbytes))"

definition uart_xmitchars :: "'h host_os \<Rightarrow> 'h uart_dev \<Rightarrow> 'h uart_dev option" where
  "uart_xmitchars H d = do {
     (d, nbytes) \<leftarrow> xmitchars_loop H d 0;
     let d = (if rb_head (xmit d) = rb_tail (xmit d) then tty_txint d False else d);
     Some (if nbytes \<noteq> 0 then uart_datasent d else d) }"

partial_function (option) recvchars_loop :: "'h host_os \<Rightarrow> 'h uart_dev \<Rightarrow> 'h uart_dev option" where
  "recvchars_loop H d =
     (if tty_rxavailable H d
      then let is_full = (nexthead (recv d) = rb_tail (recv d))
           in if is_full \<and> tty_rxflowcontrol d (rb_size (recv d)) True then Some d
              else do {
                (ch, d) \<leftarrow> tty_receive H d;
                b \<leftarrow> (if is_full then Some (recv d) else rb_put (recv d) ch);
                recvchars_loop H (d\<lparr>recv := b\<rparr>) }
      else Some d)"

definition uart_recvchars :: "'h host_os \<Rightarrow> 'h uart_dev \<Rightarrow> 'h uart_dev option" where
  "uart_recvchars H d = do {
     d \<leftarrow> recvchars_loop H d;
     Some (if nbuffered (recv d) \<noteq> 0 then uart_datareceived d else d) }"

text \<open>The timer of the UART; \<open>dma\<close> is \<open>CONFIG_SIM_UART_DMA\<close>.\<close>

definition sim_tty_interrupt :: "bool \<Rightarrow> 'h host_os \<Rightarrow> 'h uart_dev \<Rightarrow> 'h uart_dev option" where
  "sim_tty_interrupt dma H d =
     (if tty_fd d < 0 then Some (d\<lparr>wdog := False\<rparr>)
      else do {
        d \<leftarrow> (if txint d then (if dma then tty_dmatxavail H d else uart_xmitchars H d) else Some d);
        d \<leftarrow> (if rxint d then (if dma then tty_dmarxfree H d else uart_recvchars H d) else Some d);
        Some (d\<lparr>wdog := True\<rparr>) })"

section \<open>Writing\<close>

text \<open>
  Waiting for space: the transfer is started, the transmit interrupt is on while the thread
  sleeps, and a negative result of the wait ends the loop with \<open>EINTR\<close>.
\<close>

partial_function (option) uart_putxmitchar ::
  "'h host_os \<Rightarrow> 'h kernel \<Rightarrow> 'h uart_dev \<Rightarrow> byte \<Rightarrow> bool \<Rightarrow> (int \<times> 'h uart_dev) option" where
  "uart_putxmitchar H K d ch oktoblock =
     (if nexthead (xmit d) \<noteq> rb_tail (xmit d)
      then do { b \<leftarrow> rb_put (xmit d) ch; Some (0, d\<lparr>xmit := b\<rparr>) }
      else if oktoblock
      then do {
        d \<leftarrow> tty_dmatxavail H d;
        let (ret, d) = k_wait_xmit K (tty_txint d True);
        let d = tty_txint d False;
        if ret < 0 then Some (- EINTR, d) else uart_putxmitchar H K d ch oktoblock }
      else Some (- EAGAIN, d))"

partial_function (option) uart_putchars ::
  "'h host_os \<Rightarrow> 'h uart_dev \<Rightarrow> byte list \<Rightarrow> 'h uart_dev option" where
  "uart_putchars H d buf =
     (case buf of [] \<Rightarrow> Some d
      | ch # rest \<Rightarrow>
        if tty_txready H d then do { d \<leftarrow> tty_send H d ch; uart_putchars H d rest }
        else uart_putchars H d buf)"

text \<open>The loop of \<open>uart_irqwrite\<close>: \<open>tail\<close> is the first byte that is not sent yet.\<close>

function irqwrite_loop ::
  "'h host_os \<Rightarrow> 'h uart_dev \<Rightarrow> byte list \<Rightarrow> nat \<Rightarrow> nat \<Rightarrow> ('h uart_dev \<times> nat) option" where
  "irqwrite_loop H d buffer tail head =
     (if head < length buffer
      then let ch = buffer ! head
           in do {
             (d, tail) \<leftarrow>
               (if ch = CR \<and> flag (tc_oflag d) OCRNL then do {
                  d \<leftarrow> uart_putchars H d (take (head - tail) (drop tail buffer));
                  d \<leftarrow> uart_putchars H d [NL];
                  Some (d, head + 1) }
                else Some (d, tail));
             (d, tail) \<leftarrow>
               (if ch = NL \<and> flag (tc_oflag d) (ONLCR OR ONLRET) then do {
                  d \<leftarrow> uart_putchars H d (take (head - tail) (drop tail buffer));
                  d \<leftarrow> uart_putchars H d [CR];
                  Some (d, head) }
                else Some (d, tail));
             irqwrite_loop H d buffer tail (head + 1) }
      else Some (d, tail))"
  by pat_completeness auto
termination by (relation "measure (\<lambda>(H, d, buffer, tail, head). length buffer - head)") auto

declare irqwrite_loop.simps [simp del]

definition uart_irqwrite :: "'h host_os \<Rightarrow> 'h uart_dev \<Rightarrow> byte list \<Rightarrow> (int \<times> 'h uart_dev) option" where
  "uart_irqwrite H d buffer = do {
     (d, tail) \<leftarrow> (if flag (tc_oflag d) OPOST then irqwrite_loop H d buffer 0 0 else Some (d, 0));
     d \<leftarrow> uart_putchars H d (drop tail buffer);
     Some (int (length buffer), d) }"

fun uart_irqwritev_loop ::
  "'h host_os \<Rightarrow> 'h uart_dev \<Rightarrow> mem list \<Rightarrow> int \<Rightarrow> (int \<times> int \<times> 'h uart_dev) option" where
  "uart_irqwritev_loop H d [] tot = Some (0, tot, d)"
| "uart_irqwritev_loop H d (v # vs) tot =
     (if v = [] then uart_irqwritev_loop H d vs tot
      else do {
        (written, d) \<leftarrow> uart_irqwrite H d v;
        if written < 0 then Some (written, tot, d)
        else if int SSIZE_MAX - tot < written then Some (- EOVERFLOW, tot, d)
        else uart_irqwritev_loop H d vs (tot + written) })"

definition uart_irqwritev :: "'h host_os \<Rightarrow> 'h uart_dev \<Rightarrow> uio \<Rightarrow> (int \<times> 'h uart_dev) option" where
  "uart_irqwritev H d u = do {
     (err, tot, d) \<leftarrow> uart_irqwritev_loop H d (uio_vecs u) 0;
     Some (if err \<noteq> 0 \<and> tot = 0 then err else tot, d) }"

text \<open>One byte of \<open>uart_writev\<close>: output processing and the transmit buffer.\<close>

definition writev_char ::
  "'h host_os \<Rightarrow> 'h kernel \<Rightarrow> 'h uart_dev \<Rightarrow> byte \<Rightarrow> bool \<Rightarrow> (int \<times> 'h uart_dev) option" where
  "writev_char H K d ch oktoblock = do {
     let ch = (if flag (tc_oflag d) OPOST \<and> ch = CR \<and> flag (tc_oflag d) OCRNL then NL else ch);
     (ret, d) \<leftarrow>
       (if flag (tc_oflag d) OPOST \<and> ch = NL \<and> flag (tc_oflag d) (ONLCR OR ONLRET)
        then uart_putxmitchar H K d CR oktoblock else Some (0, d));
     if ret \<ge> 0 then uart_putxmitchar H K d ch oktoblock else Some (ret, d) }"

fun writev_loop ::
  "'h host_os \<Rightarrow> 'h kernel \<Rightarrow> 'h uart_dev \<Rightarrow> uio \<Rightarrow> bool \<Rightarrow> nat \<Rightarrow> nat \<Rightarrow> (int \<times> 'h uart_dev \<times> uio) option" where
  "writev_loop H K d u oktoblock nwritten 0 = Some (int nwritten, d, u)"
| "writev_loop H K d u oktoblock nwritten (Suc buflen) = do {
     x \<leftarrow> uio_copyto u 0 1;
     (ret, d) \<leftarrow> writev_char H K d (hd x) oktoblock;
     if ret < 0
     then Some (if Suc buflen < nwritten then int nwritten - int (Suc buflen) else ret, d, u)
     else writev_loop H K d (uio_advance u 1) oktoblock nwritten buflen }"

text \<open>\<open>irq\<close>: the caller is an interrupt handler or the idle task.\<close>

definition uart_writev ::
  "'h host_os \<Rightarrow> 'h kernel \<Rightarrow> bool \<Rightarrow> file_s \<Rightarrow> 'h uart_dev \<Rightarrow> uio \<Rightarrow> (int \<times> 'h uart_dev \<times> uio) option" where
  "uart_writev H K irq F d u =
     (if irq then do { (ret, d) \<leftarrow> uart_irqwritev H d u; Some (ret, d, u) }
      else let (ret, d) = k_lock K d
           in if ret < 0 then Some (ret, d, u)
              else do {
                let d = tty_txint d False;
                (nwritten, d, u) \<leftarrow> writev_loop H K d u (\<not> f_nonblock F) (uio_resid u) (uio_resid u);
                d \<leftarrow> (if rb_head (xmit d) \<noteq> rb_tail (xmit d)
                     then do { d \<leftarrow> tty_dmatxavail H d; Some (tty_txint d True) }
                     else Some d);
                Some (nwritten, d, u) })"

section \<open>Reading\<close>

text \<open>Input processing; \<open>None\<close> is a discarded carriage return.\<close>

definition uart_input_map :: "'h uart_dev \<Rightarrow> byte \<Rightarrow> byte option" where
  "uart_input_map d ch =
     (if flag (tc_iflag d) (INLCR OR IGNCR OR ICRNL)
      then let ch = (if ch = NL \<and> flag (tc_iflag d) INLCR then CR
                     else if ch = CR \<and> flag (tc_iflag d) ICRNL then NL else ch)
           in if ch = CR \<and> flag (tc_iflag d) IGNCR then None else Some ch
      else Some ch)"

text \<open>Erasing a character in canonical mode.\<close>

definition uart_erase ::
  "'h host_os \<Rightarrow> 'h kernel \<Rightarrow> 'h uart_dev \<Rightarrow> uio \<Rightarrow> nat \<Rightarrow> ('h uart_dev \<times> uio \<times> nat) option" where
  "uart_erase H K d u recvd =
     (if recvd > 0 then do {
        u \<leftarrow> uio_copyfrom u recvd [0];
        d \<leftarrow> (if flag (tc_lflag d) ECHO then do {
               let (_, d) = k_lock K d;
               (_, d) \<leftarrow> uart_putxmitchar H K d ASCII_BS True;
               (_, d) \<leftarrow> uart_putxmitchar H K d SPACE True;
               (_, d) \<leftarrow> uart_putxmitchar H K d ASCII_BS True;
               d \<leftarrow> tty_dmatxavail H d;
               Some (tty_txint d True) }
             else Some d);
        Some (d, u, recvd - 1) }
      else Some (d, u, recvd))"

text \<open>
  Echo. The first component tells whether the loop continues at once, the last whether a byte
  was echoed outside canonical mode.
\<close>

definition uart_echo ::
  "'h host_os \<Rightarrow> 'h kernel \<Rightarrow> 'h uart_dev \<Rightarrow> byte \<Rightarrow> bool \<Rightarrow> (bool \<times> 'h uart_dev \<times> bool) option" where
  "uart_echo H K d ch echoed =
     (if ch = ASCII_ESC then Some (True, d\<lparr>escape := 2\<rparr>, echoed)
      else if \<not> (escape d = 2 \<and> ch \<noteq> ASCII_LBRACKET) \<and> escape d > 0
      then Some (True, d\<lparr>escape := escape d - 1\<rparr>, echoed)
      else let d = (if escape d = 2 \<and> ch \<noteq> ASCII_LBRACKET then d\<lparr>escape := 0\<rparr> else d)
           in if \<not> iscntrl ch \<or> ch = NL
              then do {
                let (_, d) = k_lock K d;
                d \<leftarrow> (if ch = NL then do { (_, d) \<leftarrow> uart_putxmitchar H K d CR True; Some d } else Some d);
                (_, d) \<leftarrow> uart_putxmitchar H K d ch True;
                if flag (tc_lflag d) ICANON
                then do { d \<leftarrow> tty_dmatxavail H d; Some (False, tty_txint d True, echoed) }
                else Some (False, d, True) }
              else Some (False, d, echoed))"

text \<open>
  The branch for an empty buffer. \<open>Inl r\<close> leaves the loop with \<open>recvd = r\<close>, \<open>Inr\<close> continues it.
\<close>

definition uart_wait_data ::
  "'h host_os \<Rightarrow> 'h kernel \<Rightarrow> file_s \<Rightarrow> 'h uart_dev \<Rightarrow> nat \<Rightarrow> ((int + unit) \<times> 'h uart_dev) option" where
  "uart_wait_data H K F d recvd = do {
     let d = tty_rxint d False;
     if rb_head (recv d) = rb_tail (recv d)
     then do {
       d \<leftarrow> tty_dmarxfree H d;
       let d = tty_rxint d True;
       if rb_head (recv d) \<noteq> rb_tail (recv d) then Some (Inr (), d)
       else if recvd > 0 \<and> \<not> flag (tc_lflag d) ICANON then Some (Inl (int recvd), d)
       else if \<not> f_inode F then Some (Inl (- EBADFD), d)
       else if f_nonblock F then Some (Inl (- EAGAIN), d)
       else do {
         let (ret, d) = k_wait_recv K d;
         let (_, d) = k_lock K d;
         if ret < 0 then Some (Inl (if recvd = 0 then ret else int recvd), d)
         else Some (Inr (), d) } }
     else Some (Inr (), tty_rxint d True) }"

partial_function (option) readv_loop ::
  "'h host_os \<Rightarrow> 'h kernel \<Rightarrow> file_s \<Rightarrow> nat \<Rightarrow> 'h uart_dev \<Rightarrow> uio \<Rightarrow> nat \<Rightarrow> bool \<Rightarrow>
   (int \<times> 'h uart_dev \<times> uio \<times> bool) option" where
  "readv_loop H K F buflen d u recvd echoed =
     (if \<not> recvd < buflen then Some (int recvd, d, u, echoed)
      else if rb_head (recv d) \<noteq> rb_tail (recv d)
      then do {
        (ch, b) \<leftarrow> rb_take (recv d);
        let d = d\<lparr>recv := b\<rparr>;
        (case uart_input_map d ch of
           None \<Rightarrow> readv_loop H K F buflen d u recvd echoed
         | Some ch \<Rightarrow>
           if flag (tc_lflag d) ICANON \<and> (ch = ASCII_BS \<or> ch = ASCII_DEL)
           then do {
             (d, u, recvd) \<leftarrow> uart_erase H K d u recvd;
             readv_loop H K F buflen d u recvd echoed }
           else do {
             u \<leftarrow> uio_copyfrom u recvd [ch];
             (skip, d, echoed) \<leftarrow>
               (if flag (tc_lflag d) ECHO then uart_echo H K d ch echoed else Some (False, d, echoed));
             if \<not> skip \<and> flag (tc_lflag d) ICANON \<and> ch = NL
             then Some (int (recvd + 1), d, u, echoed)
             else readv_loop H K F buflen d u (recvd + 1) echoed }) }
      else do {
        (r, d) \<leftarrow> uart_wait_data H K F d recvd;
        (case r of
           Inl n \<Rightarrow> Some (n, d, u, echoed)
         | Inr _ \<Rightarrow> readv_loop H K F buflen d u recvd echoed) })"

definition uart_readv ::
  "'h host_os \<Rightarrow> 'h kernel \<Rightarrow> file_s \<Rightarrow> 'h uart_dev \<Rightarrow> uio \<Rightarrow> (int \<times> 'h uart_dev \<times> uio) option" where
  "uart_readv H K F d u =
     (let (ret, d) = k_lock K d
      in if ret < 0 then Some (ret, d, u)
         else do {
           (recvd, d, u, echoed) \<leftarrow> readv_loop H K F (uio_resid u) d u 0 False;
           d \<leftarrow> (if echoed then do { d \<leftarrow> tty_dmatxavail H d; Some (tty_txint d True) } else Some d);
           d \<leftarrow> tty_dmarxfree H d;
           let d = tty_rxint d True;
           Some (recvd, d, if recvd \<ge> 0 then uio_advance u (nat recvd) else u) })"

text \<open>
  \<open>read\<close> on the device: one \<open>iovec\<close> for the buffer of the caller, the checks of the virtual file
  system, and the driver.
\<close>

definition file_readv ::
  "'h host_os \<Rightarrow> 'h kernel \<Rightarrow> file_s \<Rightarrow> 'h uart_dev \<Rightarrow> mem list \<Rightarrow> (int \<times> 'h uart_dev \<times> mem list) option" where
  "file_readv H K F d iov =
     (if iov = [] then Some (0, d, iov)
      else if f_wronly F then Some (- EACCES, d, iov)
      else if f_inode F
      then let (ret, u) = uio_init iov
           in if ret = 0 then do {
                (ret, d, u) \<leftarrow> uart_readv H K F d u;
                Some (ret, d, uio_mem u) }
              else Some (ret, d, iov)
      else Some (- EBADF, d, iov))"

definition file_read ::
  "'h host_os \<Rightarrow> 'h kernel \<Rightarrow> file_s \<Rightarrow> 'h uart_dev \<Rightarrow> mem \<Rightarrow> (int \<times> 'h uart_dev \<times> mem) option" where
  "file_read H K F d buf = do {
     (ret, d, iov) \<leftarrow> file_readv H K F d [buf];
     Some (ret, d, hd iov) }"

section \<open>Opening, draining and closing\<close>

definition tty_setup :: "'h host_os \<Rightarrow> 'h uart_dev \<Rightarrow> int \<times> 'h uart_dev" where
  "tty_setup H d =
     (let (fd, h) = host_uart_open H (tty_path d) (host d)
      in (fd, d\<lparr>tty_fd := fd, host := h\<rparr>))"

definition tty_shutdown :: "'h host_os \<Rightarrow> 'h uart_dev \<Rightarrow> 'h uart_dev" where
  "tty_shutdown H d = d\<lparr>host := host_uart_close H (tty_fd d) (host d), tty_fd := - 1\<rparr>"

definition tty_attach :: "'h uart_dev \<Rightarrow> int" where
  "tty_attach d = 0"

definition tty_detach :: "'h uart_dev \<Rightarrow> 'h uart_dev" where
  "tty_detach d = d"

text \<open>The count of references is a byte.\<close>

definition uart_open :: "'h host_os \<Rightarrow> 'h kernel \<Rightarrow> 'h uart_dev \<Rightarrow> (int \<times> 'h uart_dev) option" where
  "uart_open H K d =
     (let (ret, d) = k_lock K d
      in if ret < 0 then Some (ret, d)
         else let tmp = open_count d + 1
              in if tmp = 0 then Some (- EMFILE, d)
                 else if tmp = 1 then
                   (let (ret, d) = (if \<not> isconsole d then tty_setup H d else (ret, d))
                    in if \<not> isconsole d \<and> ret < 0 then Some (ret, d)
                       else let ret = tty_attach d
                            in if ret < 0 then Some (ret, if \<not> isconsole d then tty_shutdown H d else d)
                               else do {
                                 d \<leftarrow> tty_dmarxfree H d;
                                 Some (ret, (tty_rxint d True)\<lparr>open_count := tmp\<rparr>) })
                 else Some (ret, d\<lparr>open_count := tmp\<rparr>))"

text \<open>
  Draining: the first loop waits for an empty transmit buffer, the second for an empty FIFO;
  both stop when the time is up. Without \<open>CANCELLATION_POINTS\<close> the flag \<open>cancelable\<close> has no effect.
\<close>

partial_function (option) drain_xmit ::
  "'h host_os \<Rightarrow> 'h kernel \<Rightarrow> nat \<Rightarrow> nat \<Rightarrow> 'h uart_dev \<Rightarrow> (int \<times> 'h uart_dev) option" where
  "drain_xmit H K start timeout d =
     (if rb_head (xmit d) \<noteq> rb_tail (xmit d)
      then do {
        d \<leftarrow> tty_dmatxavail H d;
        let d = tty_txint d True;
        let elapsed = k_ticks K d - start;
        let (ret, d) = (if elapsed \<ge> timeout then (- ETIMEDOUT, d)
                        else k_tickwait_xmit K (timeout - elapsed) d);
        let d = tty_txint d False;
        if ret \<ge> 0 then drain_xmit H K start timeout d else Some (ret, d) }
      else Some (0, d))"

partial_function (option) drain_fifo ::
  "'h kernel \<Rightarrow> nat \<Rightarrow> nat \<Rightarrow> 'h uart_dev \<Rightarrow> (int \<times> 'h uart_dev) option" where
  "drain_fifo K start timeout d =
     (if \<not> tty_txempty d
      then let d = k_usleep K d
           in if k_ticks K d - start \<ge> timeout then Some (- ETIMEDOUT, d)
              else drain_fifo K start timeout d
      else Some (0, d))"

definition uart_tcdrain :: "'h host_os \<Rightarrow> 'h kernel \<Rightarrow> nat \<Rightarrow> 'h uart_dev \<Rightarrow> (int \<times> 'h uart_dev) option" where
  "uart_tcdrain H K timeout d =
     (let (ret, d) = k_lock K d
      in if ret \<ge> 0 then do {
           let start = k_ticks K d;
           (ret, d) \<leftarrow> drain_xmit H K start timeout d;
           if ret \<ge> 0 then do {
             (ret2, d) \<leftarrow> drain_fifo K start timeout d;
             Some (if ret2 < 0 then ret2 else ret, d) }
           else Some (ret, d) }
         else Some (ret, d))"

definition TICK_PER_SEC :: nat where "TICK_PER_SEC = 1000"

text \<open>The simulated UART has no \<open>release\<close> operation; \<open>released\<close> records that the locks are destroyed.\<close>

definition uart_close :: "'h host_os \<Rightarrow> 'h kernel \<Rightarrow> file_s \<Rightarrow> 'h uart_dev \<Rightarrow> (int \<times> 'h uart_dev) option" where
  "uart_close H K F d =
     (let (_, d) = k_lock K d
      in if open_count d > 1 then Some (0, d\<lparr>open_count := open_count d - 1\<rparr>)
         else do {
           let d = tty_rxint (d\<lparr>open_count := 0\<rparr>) False;
           d \<leftarrow> (if \<not> f_nonblock F
                then do { (_, d) \<leftarrow> uart_tcdrain H K (4 * TICK_PER_SEC) d; Some d } else Some d);
           let d = tty_detach d;
           let d = (if \<not> isconsole d then tty_shutdown H d else d);
           let d = uart_reset_sem (uart_datareceived d);
           Some (0, if unlinked d then d\<lparr>released := True\<rparr> else d) })"

definition uart_unlink :: "'h kernel \<Rightarrow> 'h uart_dev \<Rightarrow> int \<times> 'h uart_dev" where
  "uart_unlink K d =
     (let (ret, d) = k_lock K d
      in if ret < 0 then (ret, d)
         else if open_count d \<le> 0 then (0, d\<lparr>released := True\<rparr>)
         else (0, d\<lparr>unlinked := True\<rparr>))"

definition uart_register :: "'h uart_dev \<Rightarrow> 'h uart_dev" where
  "uart_register d =
     (let d = (if isconsole d
               then d\<lparr>tc_lflag := tc_lflag d OR (ISIG OR ECHO OR ICANON), tc_oflag := OPOST OR ONLCR,
                      tc_iflag := tc_iflag d OR ICRNL, escape := 0\<rparr>
               else d)
      in d\<lparr>xmitsem := 0, recvsem := 0\<rparr>)"

text \<open>The console device as the simulator declares it.\<close>

definition new_buffer :: uart_buffer where
  "new_buffer = \<lparr>rb_head = 0, rb_tail = 0, rb_size = CONFIG_SIM_UART_BUFFER_SIZE,
                 rb_buf = replicate CONFIG_SIM_UART_BUFFER_SIZE 0\<rparr>"

definition g_console_dev :: "'h \<Rightarrow> 'h uart_dev" where
  "g_console_dev h =
     \<lparr>open_count = 0, escape = 0, isconsole = True, unlinked = False, tc_iflag = 0, tc_oflag = 0,
      tc_lflag = 0, xmitsem = 0, recvsem = 0, xmit = new_buffer, recv = new_buffer,
      dmatx = \<lparr>x_buffer = 0, x_nbuffer = None, x_length = 0, x_nlength = 0, x_nbytes = 0\<rparr>,
      dmarx = \<lparr>x_buffer = 0, x_nbuffer = None, x_length = 0, x_nlength = 0, x_nbytes = 0\<rparr>,
      fds = replicate CONFIG_SERIAL_NPOLLWAITERS None, pollfds = [], tty_path = lit ''console'', tty_fd = 0,
      txint = False, rxint = False, wdog = False, released = False, host = h\<rparr>"

section \<open>Control\<close>

record termios =
  c_iflag :: tcflag
  c_oflag :: tcflag
  c_lflag :: tcflag

datatype ioctl_cmd =
  FIONREAD | FIONWRITE | FIONSPACE | TCFLSH nat | TCDRN | TCSBRK | TCSBRKP
  | TCGETS | TCSETS termios | Other_cmd

datatype ioctl_reply = No_reply | Count int | Termios termios

definition TCIFLUSH :: nat where "TCIFLUSH = 0"
definition TCOFLUSH :: nat where "TCOFLUSH = 1"
definition TCIOFLUSH :: nat where "TCIOFLUSH = 2"

text \<open>The operation of the lower half: without \<open>SERIAL_TERMIOS\<close> it knows no command.\<close>

definition tty_ioctl :: "ioctl_cmd \<Rightarrow> int" where
  "tty_ioctl cmd = - ENOTTY"

definition uart_is_termios_hw_change :: "termios \<Rightarrow> bool" where
  "uart_is_termios_hw_change new \<longleftrightarrow> tty_ioctl TCGETS \<ge> 0"

definition nspace :: "uart_buffer \<Rightarrow> int" where
  "nspace b = (if rb_head b < rb_tail b then int (rb_tail b) - int (rb_head b) - 1
               else int (rb_size b) - (int (rb_head b) - int (rb_tail b)) - 1)"

definition uart_flush :: "nat \<Rightarrow> 'h uart_dev \<Rightarrow> 'h uart_dev" where
  "uart_flush arg d =
     (let d = (if arg = TCIFLUSH \<or> arg = TCIOFLUSH
               then d\<lparr>recv := (recv d)\<lparr>rb_tail := rb_head (recv d)\<rparr>\<rparr> else d)
      in if arg = TCOFLUSH \<or> arg = TCIOFLUSH
         then uart_datasent (d\<lparr>xmit := (xmit d)\<lparr>rb_tail := rb_head (xmit d)\<rparr>\<rparr>) else d)"

text \<open>
  A break needs the lower half, which refuses it. The first \<open>switch\<close> is \<open>ioctl_upper\<close>; its
  commands leave the terminal flags alone.
\<close>

definition uart_tcsendbreak :: "'h kernel \<Rightarrow> 'h uart_dev \<Rightarrow> int \<times> 'h uart_dev" where
  "uart_tcsendbreak K d =
     (let (ret, d) = k_lock K d in (if ret \<ge> 0 then tty_ioctl Other_cmd else ret, d))"

definition ioctl_upper ::
  "'h host_os \<Rightarrow> 'h kernel \<Rightarrow> ioctl_cmd \<Rightarrow> 'h uart_dev \<Rightarrow> (int \<times> ioctl_reply \<times> 'h uart_dev) option" where
  "ioctl_upper H K cmd d =
     (case cmd of
        FIONREAD \<Rightarrow> Some (0, Count (int (nbuffered (recv d))), d)
      | FIONWRITE \<Rightarrow> Some (0, Count (int (nbuffered (xmit d))), d)
      | FIONSPACE \<Rightarrow> Some (0, Count (nspace (xmit d)), d)
      | TCFLSH arg \<Rightarrow> Some (0, No_reply, uart_flush arg d)
      | TCDRN \<Rightarrow> do { (ret, d) \<leftarrow> uart_tcdrain H K (10 * TICK_PER_SEC) d; Some (ret, No_reply, d) }
      | TCSBRK \<Rightarrow> (let (ret, d) = uart_tcsendbreak K d in Some (ret, No_reply, d))
      | TCSBRKP \<Rightarrow> (let (ret, d) = uart_tcsendbreak K d in Some (ret, No_reply, d))
      | _ \<Rightarrow> Some (- ENOTTY, No_reply, d))"

definition uart_ioctl ::
  "'h host_os \<Rightarrow> 'h kernel \<Rightarrow> ioctl_cmd \<Rightarrow> 'h uart_dev \<Rightarrow> (int \<times> ioctl_reply \<times> 'h uart_dev) option" where
  "uart_ioctl H K cmd d = do {
     let ret = (case cmd of TCSETS t \<Rightarrow> if uart_is_termios_hw_change t then tty_ioctl cmd else - ENOTTY
                | _ \<Rightarrow> tty_ioctl cmd);
     (ret, reply, d) \<leftarrow> (if ret = - ENOTTY then ioctl_upper H K cmd d else Some (ret, No_reply, d));
     if ret = 0 \<or> ret = - ENOTTY
     then (case cmd of
             TCGETS \<Rightarrow> Some (0, Termios \<lparr>c_iflag = tc_iflag d, c_oflag = tc_oflag d, c_lflag = tc_lflag d\<rparr>, d)
           | TCSETS t \<Rightarrow> Some (0, No_reply,
               d\<lparr>tc_iflag := c_iflag t, tc_oflag := c_oflag t, tc_lflag := c_lflag t\<rparr>)
           | _ \<Rightarrow> Some (ret, reply, d))
     else Some (ret, reply, d) }"

section \<open>Polling\<close>

text \<open>The first free slot takes the request; without one the call fails.\<close>

fun free_slot :: "nat option list \<Rightarrow> nat \<Rightarrow> nat option" where
  "free_slot [] i = None"
| "free_slot (s # ss) i = (if s = None then Some i else free_slot ss (i + 1))"

definition poll_events :: "'h uart_dev \<Rightarrow> tcflag" where
  "poll_events d =
     (let ndx = (if rb_head (xmit d) + 1 \<ge> rb_size (xmit d) then 0 else rb_head (xmit d) + 1);
          eventset = (if ndx \<noteq> rb_tail (xmit d) then POLLOUT else 0)
      in if rb_head (recv d) \<noteq> rb_tail (recv d) then eventset OR POLLIN else eventset)"

definition uart_poll :: "'h uart_dev \<Rightarrow> nat \<Rightarrow> bool \<Rightarrow> (int \<times> 'h uart_dev) option" where
  "uart_poll d p setup_poll =
     (if p \<ge> length (pollfds d) then None
      else if setup_poll then
        (case free_slot (take CONFIG_SERIAL_NPOLLWAITERS (fds d)) 0 of
           None \<Rightarrow> Some (- EBUSY, d\<lparr>pollfds := (pollfds d)[p := (pollfds d ! p)\<lparr>pf_priv := None\<rparr>]\<rparr>)
         | Some i \<Rightarrow>
             let d = d\<lparr>fds := (fds d)[i := Some p],
                       pollfds := (pollfds d)[p := (pollfds d ! p)\<lparr>pf_priv := Some i\<rparr>]\<rparr>
             in Some (0, uart_poll_notify d i (i + 1) (poll_events d)))
      else
        (case pf_priv (pollfds d ! p) of
           None \<Rightarrow> Some (0, d)
         | Some i \<Rightarrow>
             if i \<ge> length (fds d) then None
             else Some (0, d\<lparr>fds := (fds d)[i := None],
                             pollfds := (pollfds d)[p := (pollfds d ! p)\<lparr>pf_priv := None\<rparr>]\<rparr>)))"

end
