(* ===== verification/SerialProps.thy ===== *)
theory SerialProps
  imports Serial
begin

text \<open>
  The serial console as two streams of bytes: what is typed on the host and not yet read, and what
  is written and not yet on the host. The transfers of the simulated UART move bytes between the
  driver's buffers and the host and leave both streams as they are.
\<close>

section \<open>The host\<close>

text \<open>
  The host's terminal as POSIX documents it for raw mode: \<open>inp\<close> are the bytes waiting on descriptor
  0, \<open>out\<close> the bytes written to descriptor 1. A read of a readable descriptor delivers the waiting
  bytes up to the size of the buffer; a write takes a prefix or fails. A read with nothing waiting
  is not specified: it blocks.
\<close>

definition host_ok :: "'h host_os \<Rightarrow> ('h \<Rightarrow> byte list) \<Rightarrow> ('h \<Rightarrow> byte list) \<Rightarrow> bool" where
  "host_ok H inp out \<longleftrightarrow>
     (\<forall>h. os_pollin H 0 h \<longleftrightarrow> inp h \<noteq> []) \<and>
     (\<forall>h n. inp h \<noteq> [] \<longrightarrow> 0 < n \<longrightarrow>
        (\<exists>h'. os_read H 0 n h = Some (int (length (take n (inp h))), take n (inp h), h')
           \<and> inp h' = drop n (inp h) \<and> out h' = out h)) \<and>
     (\<forall>h x. \<exists>r h'. os_write H 1 x h = (r, h') \<and> r \<noteq> - EINTR \<and> r \<le> int (length x)
           \<and> out h' = out h @ take (nat r) x \<and> inp h' = inp h)"

lemma host_gets:
  assumes "host_ok H inp out" and "inp h \<noteq> []" and "0 < n"
  shows "\<exists>h'. host_uart_gets H 0 n h = Some (int (length (take n (inp h))), take n (inp h), h')
    \<and> inp h' = drop n (inp h) \<and> out h' = out h"
proof -
  obtain h' where "os_read H 0 n h = Some (int (length (take n (inp h))), take n (inp h), h')"
      "inp h' = drop n (inp h)" "out h' = out h"
    using assms unfolding host_ok_def by blast
  then show ?thesis by (subst host_uart_gets.simps) (simp add: EINTR_def)
qed

lemma host_puts:
  assumes "host_ok H inp out"
  shows "\<exists>r h'. host_uart_puts H 1 x h = Some (r, h') \<and> r \<le> int (length x)
    \<and> out h' = out h @ take (nat r) x \<and> inp h' = inp h"
proof -
  obtain r h' where "os_write H 1 x h = (r, h')" "r \<noteq> - EINTR" "r \<le> int (length x)"
      "out h' = out h @ take (nat r) x" "inp h' = inp h"
    using assms unfolding host_ok_def by blast
  then show ?thesis by (subst host_uart_puts.simps) simp
qed

section \<open>What the wake-ups leave alone\<close>

lemma wake_loop_eq: "wake_loop sval sem = (if sval < 1 then sem + (1 - sval) else sem)"
  by (induction sval sem rule: wake_loop.induct) (subst wake_loop.simps, simp)

lemma uart_wakeup_eq: "uart_wakeup sem = max 1 sem"
  by (simp add: uart_wakeup_def wake_loop_eq)

lemma length_poll_notify [simp]: "length (poll_notify afds ev ps) = length ps"
  by (induction afds ev ps rule: poll_notify.induct) (auto split: option.splits)

lemma uart_poll_notify_sel [simp]:
  "xmit (uart_poll_notify d i j ev) = xmit d" "recv (uart_poll_notify d i j ev) = recv d"
  "host (uart_poll_notify d i j ev) = host d" "tty_fd (uart_poll_notify d i j ev) = tty_fd d"
  "isconsole (uart_poll_notify d i j ev) = isconsole d" "fds (uart_poll_notify d i j ev) = fds d"
  "tc_iflag (uart_poll_notify d i j ev) = tc_iflag d" "tc_oflag (uart_poll_notify d i j ev) = tc_oflag d"
  "tc_lflag (uart_poll_notify d i j ev) = tc_lflag d" "escape (uart_poll_notify d i j ev) = escape d"
  "open_count (uart_poll_notify d i j ev) = open_count d"
  "length (pollfds (uart_poll_notify d i j ev)) = length (pollfds d)"
  by (simp_all add: uart_poll_notify_def)

text \<open>The part of the device a transfer does not touch.\<close>

definition same_mode :: "'h uart_dev \<Rightarrow> 'h uart_dev \<Rightarrow> bool" where
  "same_mode d d' \<longleftrightarrow> tc_iflag d' = tc_iflag d \<and> tc_oflag d' = tc_oflag d \<and> tc_lflag d' = tc_lflag d
     \<and> tty_fd d' = tty_fd d \<and> isconsole d' = isconsole d \<and> escape d' = escape d \<and> fds d' = fds d
     \<and> open_count d' = open_count d \<and> length (pollfds d') = length (pollfds d)"

lemma same_mode_refl [simp]: "same_mode d d"
  by (simp add: same_mode_def)

lemma same_mode_trans: "same_mode d e \<Longrightarrow> same_mode e f \<Longrightarrow> same_mode d f"
  by (simp add: same_mode_def)

lemma same_mode_upd [simp]:
  "same_mode e (d\<lparr>host := h\<rparr>) = same_mode e d" "same_mode e (d\<lparr>recv := b\<rparr>) = same_mode e d"
  "same_mode e (d\<lparr>xmit := b\<rparr>) = same_mode e d" "same_mode e (d\<lparr>dmarx := x\<rparr>) = same_mode e d"
  "same_mode e (d\<lparr>dmatx := x\<rparr>) = same_mode e d" "same_mode e (d\<lparr>wdog := w\<rparr>) = same_mode e d"
  "same_mode (d\<lparr>dmarx := x\<rparr>) e = same_mode d e" "same_mode (d\<lparr>dmatx := x\<rparr>) e = same_mode d e"
  "same_mode (d\<lparr>recv := b\<rparr>) e = same_mode d e" "same_mode (d\<lparr>xmit := b\<rparr>) e = same_mode d e"
  by (simp_all add: same_mode_def)

lemma uart_datareceived_sel [simp]:
  "xmit (uart_datareceived d) = xmit d" "recv (uart_datareceived d) = recv d"
  "host (uart_datareceived d) = host d" "same_mode e (uart_datareceived d) = same_mode e d"
  by (simp_all add: uart_datareceived_def same_mode_def Let_def)

lemma uart_datasent_sel [simp]:
  "xmit (uart_datasent d) = xmit d" "recv (uart_datasent d) = recv d"
  "host (uart_datasent d) = host d" "same_mode e (uart_datasent d) = same_mode e d"
  by (simp_all add: uart_datasent_def same_mode_def Let_def)

lemma tty_int_sel [simp]:
  "xmit (tty_txint d e) = xmit d" "recv (tty_txint d e) = recv d" "host (tty_txint d e) = host d"
  "same_mode f (tty_txint d e) = same_mode f d"
  "xmit (tty_rxint d e) = xmit d" "recv (tty_rxint d e) = recv d" "host (tty_rxint d e) = host d"
  "same_mode f (tty_rxint d e) = same_mode f d"
  by (simp_all add: tty_txint_def tty_rxint_def same_mode_def)

section \<open>Receiving\<close>

text \<open>
  The regions of a transfer into the receive buffer: the second exists only behind a first one
  that ends at the end of the storage.
\<close>

lemma tty_dmareceive_eq:
  assumes H: "host_ok H inp out" and fd: "tty_fd d = 0" and ok: "rb_ok (recv d)" and ne: "inp (host d) \<noteq> []"
    and r1: "x_buffer (dmarx d) = rb_head (recv d)" "x_length (dmarx d) = L1" "0 < L1"
      "rb_head (recv d) + L1 \<le> rb_size (recv d)"
    and r2: "x_nlength (dmarx d) = L2" "0 < L2 \<Longrightarrow> x_nbuffer (dmarx d) = Some 0 \<and> rb_head (recv d) + L1 = rb_size (recv d)"
    and free: "nbuffered (recv d) + L1 + L2 < rb_size (recv d)"
    and ex: "0 < L2 \<Longrightarrow> length (inp (host d)) \<noteq> L1"
  shows "\<exists>d'. tty_dmareceive H d = Some d' \<and> rb_ok (recv d') \<and> xmit d' = xmit d \<and> same_mode d d'
    \<and> rb_size (recv d') = rb_size (recv d) \<and> rb_tail (recv d') = rb_tail (recv d)
    \<and> rb_content (recv d') = rb_content (recv d) @ take (L1 + L2) (inp (host d))
    \<and> inp (host d') = drop (L1 + L2) (inp (host d)) \<and> out (host d') = out (host d)"
proof -
  define b where "b = recv d"
  define i where "i = inp (host d)"
  define x where "x = take (L1 + L2) i"
  define sp where "sp = min (length x) (rb_size b - rb_head b)"
  have x: "length x \<noteq> 0" "nbuffered b + length x < rb_size b" using ne free r1(3) by (auto simp: x_def i_def b_def)
  obtain h1 where g1: "host_uart_gets H 0 L1 (host d) = Some (int (length (take L1 i)), take L1 i, h1)"
      "inp h1 = drop L1 i" "out h1 = out (host d)"
    using host_gets [OF H ne r1(3)] by (auto simp: i_def)
  have buf: "length (rb_buf b) = rb_size b" "rb_head b + L1 \<le> rb_size b" "0 < rb_size b"
    using ok r1(4) by (auto simp: rb_ok_def b_def)
  define m where "m = blit (blit (rb_buf b) (rb_head b) (take sp x)) 0 (drop sp x)"
  have run: "\<exists>h'. tty_dmareceive H d = uart_recvchars_done
      (d\<lparr>recv := b\<lparr>rb_buf := m\<rparr>, dmarx := (dmarx d)\<lparr>x_nbytes := length x\<rparr>, host := h'\<rparr>)
    \<and> inp h' = drop (L1 + L2) i \<and> out h' = out (host d)"
  proof (cases "0 < L2 \<and> L1 < length i")
    case True
    obtain h2 where g2: "host_uart_gets H 0 L2 h1 = Some (int (length (take L2 (drop L1 i))), take L2 (drop L1 i), h2)"
        "inp h2 = drop L2 (drop L1 i)" "out h2 = out (host d)"
      using host_gets [OF H, of h1 L2] g1 True by auto
    have "rb_size b - rb_head b = L1" using True r2(2) by (auto simp: b_def)
    then have "sp = L1" using True by (auto simp: sp_def x_def)
    then have xs: "take sp x = take L1 i" "drop sp x = take L2 (drop L1 i)" "length x = L1 + length (take L2 (drop L1 i))"
      using True by (auto simp: x_def take_add)
    have ws: "wrs (rb_buf b) (rb_head b) (take L1 i) = Some (blit (rb_buf b) (rb_head b) (take L1 i))"
        "wrs (blit (rb_buf b) (rb_head b) (take L1 i)) 0 (take L2 (drop L1 i)) = Some m"
      using True buf x(2) xs by (simp_all add: wrs_def m_def)
    show ?thesis
      using True fd g1 g2 r1 r2 ws xs(3)
      by (intro exI [of _ h2]) (simp add: tty_dmareceive_def b_def add.commute)
  next
    case False
    then have xs: "x = take L1 i" "length x \<le> L1" "L2 = 0 \<or> length x \<noteq> L1" "drop (L1 + L2) i = drop L1 i"
      using ex by (auto simp: x_def i_def)
    have "sp = length x" using xs buf by (simp add: sp_def)
    then have "wrs (rb_buf b) (rb_head b) x = Some m" using buf xs(2) by (simp add: wrs_def m_def)
    then show ?thesis
      using False fd g1 r1 r2 xs x(1) by (auto simp: tty_dmareceive_def b_def)
  qed
  then obtain h' where h': "tty_dmareceive H d = uart_recvchars_done
      (d\<lparr>recv := b\<lparr>rb_buf := m\<rparr>, dmarx := (dmarx d)\<lparr>x_nbytes := length x\<rparr>, host := h'\<rparr>)"
    "inp h' = drop (L1 + L2) i" "out h' = out (host d)" by blast
  have "rb_ok (b\<lparr>rb_buf := m, rb_head := (rb_head b + length x) mod rb_size b\<rparr>)
    \<and> rb_content (b\<lparr>rb_buf := m, rb_head := (rb_head b + length x) mod rb_size b\<rparr>) = rb_content b @ x"
    using rb_fill [of b x sp] ok x(2) by (simp add: m_def sp_def b_def)
  then show ?thesis
    using h' buf by (simp add: uart_recvchars_done_def Let_def x_def i_def b_def)
qed

text \<open>The free cells of the receive buffer.\<close>

definition rx_free :: "'h uart_dev \<Rightarrow> nat" where
  "rx_free d = rb_size (recv d) - 1 - nbuffered (recv d)"

text \<open>
  A transfer blocks when the waiting bytes end exactly where the storage ends and a second region
  is left: the second read finds nothing. \<open>rx_exact\<close> covers that case.
\<close>

definition rx_exact :: "('h \<Rightarrow> byte list) \<Rightarrow> 'h uart_dev \<Rightarrow> bool" where
  "rx_exact inp d \<longleftrightarrow> inp (host d) \<noteq> [] \<and> length (inp (host d)) = rb_size (recv d) - rb_head (recv d)"

lemma tty_dmarxfree_eq:
  assumes H: "host_ok H inp out" and fd: "tty_fd d = 0" and ok: "rb_ok (recv d)" and ex: "\<not> rx_exact inp d"
  shows "\<exists>d'. tty_dmarxfree H d = Some d' \<and> rb_ok (recv d') \<and> xmit d' = xmit d \<and> same_mode d d'
    \<and> rb_size (recv d') = rb_size (recv d) \<and> rb_tail (recv d') = rb_tail (recv d)
    \<and> rb_content (recv d') = rb_content (recv d) @ take (rx_free d) (inp (host d))
    \<and> inp (host d') = drop (rx_free d) (inp (host d)) \<and> out (host d') = out (host d)"
proof (cases "inp (host d) = [] \<or> rb_full (recv d)")
  case True
  have "tty_dmarxfree H d = Some d"
    using H fd True
    by (auto simp: tty_dmarxfree_def tty_rxavailable_def host_uart_checkin_def host_ok_def
        uart_recvchars_dma_def rb_full_def Let_def)
  moreover have "rb_full (recv d) \<Longrightarrow> rx_free d = 0"
    using rb_full_iff [OF ok] by (simp add: rx_free_def)
  ultimately show ?thesis using ok True by auto
next
  case False
  define b where "b = recv d"
  have h: "rb_head b < rb_size b" "rb_tail b < rb_size b" using ok by (simp_all add: rb_ok_def b_def)
  have avail: "tty_dmarxfree H d = uart_recvchars_dma H d"
    using H fd False by (simp add: tty_dmarxfree_def tty_rxavailable_def host_uart_checkin_def host_ok_def)
  have nf: "\<not> nexthead b = rb_tail b" using False by (simp add: rb_full_def b_def)
  define xfer where "xfer = (if rb_tail b \<le> rb_head b
     then (if rb_tail b > 0
           then (dmarx d)\<lparr>x_buffer := rb_head b, x_nbuffer := Some 0,
                          x_length := rb_size b - rb_head b, x_nlength := rb_tail b - 1\<rparr>
           else (dmarx d)\<lparr>x_buffer := rb_head b, x_nbuffer := Some 0,
                          x_length := rb_size b - rb_head b - 1, x_nlength := 0\<rparr>)
     else (dmarx d)\<lparr>x_buffer := rb_head b, x_length := rb_tail b - rb_head b - 1,
                    x_nbuffer := None, x_nlength := 0\<rparr>)"
  have run: "uart_recvchars_dma H d = tty_dmareceive H (d\<lparr>dmarx := xfer\<rparr>)"
    using nf by (simp add: uart_recvchars_dma_def Let_def b_def xfer_def)
  have reg: "x_buffer xfer = rb_head b" "0 < x_length xfer" "rb_head b + x_length xfer \<le> rb_size b"
      "0 < x_nlength xfer \<Longrightarrow> x_nbuffer xfer = Some 0 \<and> rb_head b + x_length xfer = rb_size b"
      "x_length xfer + x_nlength xfer = rx_free d"
      "0 < x_nlength xfer \<Longrightarrow> x_length xfer = rb_size b - rb_head b"
    using h nf by (auto simp: xfer_def nexthead_def rx_free_def nbuffered_def b_def split: if_splits)
  have "nbuffered b + x_length xfer + x_nlength xfer < rb_size b"
    using reg(5) nbuffered_less [OF ok] by (simp add: rx_free_def b_def)
  then show ?thesis
    using tty_dmareceive_eq [OF H, of "d\<lparr>dmarx := xfer\<rparr>" "x_length xfer" "x_nlength xfer"] fd ok False reg ex run
    unfolding avail by (simp add: b_def rx_exact_def)
qed

section \<open>Transmitting\<close>

text \<open>The bytes that are out or on their way.\<close>

definition sent :: "('h \<Rightarrow> byte list) \<Rightarrow> 'h uart_dev \<Rightarrow> byte list" where
  "sent out d = out (host d) @ rb_content (xmit d)"

lemma tty_dmasend_eq:
  assumes H: "host_ok H inp out" and con: "isconsole d" and ok: "rb_ok (xmit d)"
    and r: "x_buffer (dmatx d) = rb_tail (xmit d)"
      "rds (rb_buf (xmit d)) (x_buffer (dmatx d)) (x_length (dmatx d)) = Some (take L1 (rb_content (xmit d)))"
      "x_length (dmatx d) = L1" "L1 \<le> nbuffered (xmit d)"
      "0 < x_nlength (dmatx d) \<Longrightarrow> x_nbuffer (dmatx d) = Some 0
        \<and> rds (rb_buf (xmit d)) 0 (x_nlength (dmatx d)) = Some (drop L1 (rb_content (xmit d)))"
  shows "\<exists>d'. tty_dmasend H d = Some d' \<and> rb_ok (xmit d') \<and> recv d' = recv d \<and> same_mode d d'
    \<and> rb_size (xmit d') = rb_size (xmit d) \<and> nbuffered (xmit d') \<le> nbuffered (xmit d)
    \<and> (nbuffered (xmit d') < nbuffered (xmit d) \<or> xmitsem d' = xmitsem d)
    \<and> sent out d' = sent out d \<and> inp (host d') = inp (host d)"
proof -
  define C where "C = rb_content (xmit d)"
  have C: "length C = nbuffered (xmit d)" by (simp add: C_def)
  obtain r1 h1 where p1: "host_uart_puts H 1 (take L1 C) (host d) = Some (r1, h1)" "r1 \<le> int L1"
      "out h1 = out (host d) @ take (nat r1) (take L1 C)" "inp h1 = inp (host d)"
    using host_puts [OF H, of "take L1 C" "host d"] r(4) C by auto
  have "\<exists>k h'. k \<le> length C \<and> tty_dmasend H d
      = uart_xmitchars_done (d\<lparr>dmatx := (dmatx d)\<lparr>x_nbytes := k\<rparr>, host := h'\<rparr>)
    \<and> out h' = out (host d) @ take k C \<and> inp h' = inp (host d)"
  proof (cases "0 < r1 \<and> nat r1 = L1 \<and> 0 < x_nlength (dmatx d)")
    case True
    obtain r2 h2 where p2: "host_uart_puts H 1 (drop L1 C) h1 = Some (r2, h2)" "r2 \<le> int (length (drop L1 C))"
        "out h2 = out h1 @ take (nat r2) (drop L1 C)" "inp h2 = inp h1"
      using host_puts [OF H] by blast
    have "tty_dmasend H d = uart_xmitchars_done (d\<lparr>dmatx := (dmatx d)\<lparr>x_nbytes := L1 + nat r2\<rparr>, host := h2\<rparr>)"
      using True con r p1(1) p2(1) by (auto simp: tty_dmasend_def Let_def out_fd_def C_def)
    moreover have "out h2 = out (host d) @ take (L1 + nat r2) C"
      using True p1(3) p2(3) by (simp add: take_add)
    ultimately show ?thesis
      using p1(4) p2(2,4) r(4) C by (intro exI [of _ "L1 + nat r2"] exI [of _ h2]) auto
  next
    case False
    have "tty_dmasend H d = uart_xmitchars_done (d\<lparr>dmatx := (dmatx d)\<lparr>x_nbytes := nat r1\<rparr>, host := h1\<rparr>)"
      using False con r p1(1) by (auto simp: tty_dmasend_def Let_def out_fd_def C_def)
    then show ?thesis
      using p1 r(4) C by (intro exI [of _ "nat r1"] exI [of _ h1]) (auto simp: min_def)
  qed
  then obtain k h' where k: "k \<le> nbuffered (xmit d)" "tty_dmasend H d
      = uart_xmitchars_done (d\<lparr>dmatx := (dmatx d)\<lparr>x_nbytes := k\<rparr>, host := h'\<rparr>)"
    "out h' = out (host d) @ take k C" "inp h' = inp (host d)" using C by auto
  define b' where "b' = (xmit d)\<lparr>rb_tail := (rb_tail (xmit d) + k) mod rb_size (xmit d)\<rparr>"
  have b': "rb_ok b'" "rb_content b' = drop k C" "nbuffered b' = nbuffered (xmit d) - k" "rb_size b' = rb_size (xmit d)"
    using rb_drop [OF ok k(1)] by (simp_all add: b'_def C_def)
  have "rb_size (xmit d) \<noteq> 0" using ok by (simp add: rb_ok_def)
  then obtain D where "tty_dmasend H d = Some (if k \<noteq> 0 then uart_datasent D else D)" "xmit D = b'" "host D = h'"
      "recv D = recv d" "same_mode d D" "xmitsem D = xmitsem d"
    using k(2) r(1) by (simp add: uart_xmitchars_done_def Let_def b'_def)
  then show ?thesis using b' k(1,3,4) by (auto simp: sent_def C_def)
qed

lemma tty_dmatxavail_eq:
  assumes H: "host_ok H inp out" and con: "isconsole d" and ok: "rb_ok (xmit d)"
  shows "\<exists>d'. tty_dmatxavail H d = Some d' \<and> rb_ok (xmit d') \<and> recv d' = recv d \<and> same_mode d d'
    \<and> rb_size (xmit d') = rb_size (xmit d) \<and> nbuffered (xmit d') \<le> nbuffered (xmit d)
    \<and> (nbuffered (xmit d') < nbuffered (xmit d) \<or> xmitsem d' = xmitsem d)
    \<and> sent out d' = sent out d \<and> inp (host d') = inp (host d)"
proof (cases "tty_txready H d \<and> rb_head (xmit d) \<noteq> rb_tail (xmit d)")
  case False
  then have "tty_dmatxavail H d = Some d" by (auto simp: tty_dmatxavail_def uart_xmitchars_dma_def Let_def)
  then show ?thesis using ok by simp
next
  case True
  define b where "b = xmit d"
  define xfer where "xfer = (if rb_tail b < rb_head b
     then (dmatx d)\<lparr>x_buffer := rb_tail b, x_length := rb_head b - rb_tail b, x_nbuffer := None, x_nlength := 0\<rparr>
     else (dmatx d)\<lparr>x_buffer := rb_tail b, x_length := rb_size b - rb_tail b,
                    x_nbuffer := Some 0, x_nlength := rb_head b\<rparr>)"
  have run: "tty_dmatxavail H d = tty_dmasend H (d\<lparr>dmatx := xfer\<rparr>)"
    using True by (simp add: tty_dmatxavail_def uart_xmitchars_dma_def Let_def b_def xfer_def)
  have h: "rb_head b < rb_size b" "rb_tail b < rb_size b" "length (rb_buf b) = rb_size b" "rb_head b \<noteq> rb_tail b"
    using ok True by (simp_all add: rb_ok_def b_def)
  have reg: "x_buffer xfer = rb_tail b" "x_length xfer \<le> nbuffered b"
      "rds (rb_buf b) (x_buffer xfer) (x_length xfer) = Some (take (x_length xfer) (rb_content b))"
      "0 < x_nlength xfer \<Longrightarrow> x_nbuffer xfer = Some 0
         \<and> rds (rb_buf b) 0 (x_nlength xfer) = Some (drop (x_length xfer) (rb_content b))"
    using h ok by (auto simp: xfer_def nbuffered_def rds_def rb_segments b_def split: if_splits)
  then show ?thesis
    using tty_dmasend_eq [OF H, of "d\<lparr>dmatx := xfer\<rparr>" "x_length xfer"] con ok
    unfolding run by (simp add: b_def sent_def)
qed

section \<open>Reading a key\<close>

text \<open>The typed bytes that are not read yet.\<close>

definition pending :: "('h \<Rightarrow> byte list) \<Rightarrow> 'h uart_dev \<Rightarrow> byte list" where
  "pending inp d = rb_content (recv d) @ inp (host d)"

definition dev_ok :: "'h uart_dev \<Rightarrow> bool" where
  "dev_ok d \<longleftrightarrow> rb_ok (xmit d) \<and> rb_ok (recv d) \<and> isconsole d \<and> tty_fd d = 0
     \<and> length (fds d) = CONFIG_SERIAL_NPOLLWAITERS"

text \<open>The mode the user interface sets: neither canonical nor echoing; carriage returns may be mapped.\<close>

definition raw_mode :: "'h uart_dev \<Rightarrow> bool" where
  "raw_mode d \<longleftrightarrow> \<not> flag (tc_lflag d) ICANON \<and> \<not> flag (tc_lflag d) ECHO
     \<and> \<not> flag (tc_iflag d) INLCR \<and> \<not> flag (tc_iflag d) IGNCR"

definition icrnl :: "'h uart_dev \<Rightarrow> byte \<Rightarrow> byte" where
  "icrnl d ch = (if ch = CR \<and> flag (tc_iflag d) ICRNL then NL else ch)"

definition lock_free :: "'h kernel \<Rightarrow> bool" where
  "lock_free K \<longleftrightarrow> (\<forall>d. k_lock K d = (0, d))"

lemma flag_or: "flag w (a OR b) \<longleftrightarrow> flag w a \<or> flag w b"
  unfolding flag_def by (simp add: bit.conj_disj_distrib or_eq_0_iff)

lemma uart_input_map_raw: "raw_mode d \<Longrightarrow> uart_input_map d ch = Some (icrnl d ch)"
  by (auto simp: uart_input_map_def raw_mode_def icrnl_def flag_or Let_def)

lemma same_mode_keeps:
  "same_mode d e \<Longrightarrow> raw_mode e = raw_mode d" "same_mode d e \<Longrightarrow> icrnl e ch = icrnl d ch"
  by (simp_all add: same_mode_def raw_mode_def icrnl_def)

abbreviation one_byte :: "byte \<Rightarrow> uio" where
  "one_byte b \<equiv> \<lparr>uio_mem = [[b]], uio_iov = 0, uio_iovcnt = 1, uio_resid = 1, uio_offset_in_iov = 0\<rparr>"

lemma uio_copyfrom_one: "uio_copyfrom (one_byte b) 0 [ch] = Some (one_byte ch)"
  by (simp add: uio_copyfrom_def memcpy_eq blit_def)

lemma readv_loop_take:
  assumes ok: "rb_ok (recv d)" and raw: "raw_mode d" and c: "rb_content (recv d) = ch # x"
  shows "\<exists>b'. readv_loop H K F 1 d (one_byte b) 0 False
      = Some (1, d\<lparr>recv := b'\<rparr>, one_byte (icrnl d ch), False)
    \<and> rb_ok b' \<and> rb_content b' = x \<and> rb_size b' = rb_size (recv d) \<and> rb_head b' = rb_head (recv d)"
proof -
  obtain b' where b': "rb_take (recv d) = Some (ch, b')" "rb_ok b'" "rb_content b' = x"
      "rb_size b' = rb_size (recv d)" "rb_head b' = rb_head (recv d)"
    using rb_take_eq [OF ok c] by blast
  have ne: "rb_head (recv d) \<noteq> rb_tail (recv d)" using rb_empty_iff [OF ok] c by simp
  have raw': "raw_mode (d\<lparr>recv := b'\<rparr>)" "icrnl (d\<lparr>recv := b'\<rparr>) ch = icrnl d ch"
    using raw by (simp_all add: raw_mode_def icrnl_def)
  have "readv_loop H K F 1 (d\<lparr>recv := b'\<rparr>) (one_byte c) 1 False = Some (1, d\<lparr>recv := b'\<rparr>, one_byte c, False)" for c
    by (subst readv_loop.simps) simp
  then have "readv_loop H K F 1 d (one_byte b) 0 False
      = Some (1, d\<lparr>recv := b'\<rparr>, one_byte (icrnl d ch), False)"
    using ne b'(1) raw raw' uart_input_map_raw [OF raw'(1), of ch] uio_copyfrom_one [of b "icrnl d ch"]
    by (subst readv_loop.simps) (simp add: raw_mode_def)
  then show ?thesis using b' by auto
qed

text \<open>The end of a read: a further transfer, the receive interrupt on, and the request advanced.\<close>

lemma readv_end:
  assumes H: "host_ok H inp out" and lk: "lock_free K" and ok: "dev_ok d'" and ex: "\<not> rx_exact inp d'"
    and loop: "readv_loop H K F 1 d (one_byte b) 0 False = Some (r, d', one_byte c, False)"
  shows "\<exists>e u. uart_readv H K F d (one_byte b) = Some (r, e, u) \<and> uio_mem u = [[c]] \<and> dev_ok e \<and> same_mode d' e
    \<and> pending inp e = pending inp d' \<and> sent out e = sent out d' \<and> rb_size (recv e) = rb_size (recv d')
    \<and> (length (pending inp d') < rb_size (recv d') \<longrightarrow> inp (host e) = [])"
proof -
  have d': "tty_fd d' = 0" "rb_ok (recv d')" using ok by (simp_all add: dev_ok_def)
  obtain e where e: "tty_dmarxfree H d' = Some e" "rb_ok (recv e)" "xmit e = xmit d'" "same_mode d' e"
      "rb_size (recv e) = rb_size (recv d')"
      "rb_content (recv e) = rb_content (recv d') @ take (rx_free d') (inp (host d'))"
      "inp (host e) = drop (rx_free d') (inp (host d'))" "out (host e) = out (host d')"
    using tty_dmarxfree_eq [OF H d' ex] by blast
  have "uart_readv H K F d (one_byte b)
      = Some (r, tty_rxint e True, if r \<ge> 0 then uio_advance (one_byte c) (nat r) else one_byte c)"
    using lk loop e(1) by (simp add: uart_readv_def lock_free_def)
  moreover have "dev_ok (tty_rxint e True)"
    using ok e by (simp add: dev_ok_def same_mode_def tty_rxint_def)
  moreover have "uio_mem (if r \<ge> 0 then uio_advance (one_byte c) (nat r) else one_byte c) = [[c]]"
    by (simp add: uio_advance_def split: prod.split)
  moreover have "same_mode d' (tty_rxint e True)" "pending inp (tty_rxint e True) = pending inp d'"
      "sent out (tty_rxint e True) = sent out d'" "rb_size (recv (tty_rxint e True)) = rb_size (recv d')"
    using e by (simp_all add: pending_def sent_def)
  moreover have "inp (host (tty_rxint e True)) = []" if "length (pending inp d') < rb_size (recv d')"
    using that e(7) by (auto simp: pending_def rx_free_def)
  ultimately show ?thesis by blast
qed

definition key_result :: "('h \<Rightarrow> byte list) \<Rightarrow> 'h uart_dev \<Rightarrow> byte \<Rightarrow> int \<times> byte \<times> byte list" where
  "key_result inp d b = (case pending inp d of [] \<Rightarrow> (- EAGAIN, b, []) | ch # x \<Rightarrow> (1, icrnl d ch, x))"

lemma uart_readv_key:
  assumes H: "host_ok H inp out" and lk: "lock_free K" and F: "f_nonblock F" "f_inode F"
    and ok: "dev_ok d" and raw: "raw_mode d" and fit: "length (pending inp d) < rb_size (recv d)"
    and ex: "\<not> rx_exact inp d" and res: "key_result inp d b = (r, c, x)"
  shows "\<exists>e u. uart_readv H K F d (one_byte b) = Some (r, e, u) \<and> uio_mem u = [[c]] \<and> dev_ok e \<and> same_mode d e
    \<and> pending inp e = x \<and> sent out e = sent out d \<and> rb_size (recv e) = rb_size (recv d) \<and> inp (host e) = []"
proof (cases "rb_content (recv d)")
  case (Cons ch y)
  have okr: "rb_ok (recv d)" using ok by (simp add: dev_ok_def)
  obtain b' where l: "readv_loop H K F 1 d (one_byte b) 0 False = Some (1, d\<lparr>recv := b'\<rparr>, one_byte (icrnl d ch), False)"
      "rb_ok b'" "rb_content b' = y" "rb_size b' = rb_size (recv d)" "rb_head b' = rb_head (recv d)"
    using readv_loop_take [OF okr raw Cons] by blast
  have "dev_ok (d\<lparr>recv := b'\<rparr>)" "\<not> rx_exact inp (d\<lparr>recv := b'\<rparr>)"
    using ok ex l by (simp_all add: dev_ok_def rx_exact_def)
  from readv_end [OF H lk this l(1)] show ?thesis
    using res Cons l(3,4) fit arg_cong [OF l(3), of length] arg_cong [OF Cons, of length]
    by (auto simp: key_result_def pending_def sent_def)
next
  case Nil
  have okr: "rb_ok (recv d)" "tty_fd d = 0" using ok by (simp_all add: dev_ok_def)
  define d0 where "d0 = tty_rxint d False"
  have d0: "tty_fd d0 = 0" "rb_ok (recv d0)" "\<not> rx_exact inp d0" "recv d0 = recv d" "host d0 = host d"
    using okr ex by (simp_all add: d0_def tty_rxint_def rx_exact_def)
  obtain e where e: "tty_dmarxfree H d0 = Some e" "rb_ok (recv e)" "xmit e = xmit d0" "same_mode d0 e"
      "rb_size (recv e) = rb_size (recv d)" "rb_content (recv e) = take (rx_free d0) (inp (host d))"
      "inp (host e) = drop (rx_free d0) (inp (host d))" "out (host e) = out (host d)"
    using tty_dmarxfree_eq [OF H d0(1-3)] d0(4,5) Nil by auto
  have "nbuffered (recv d) = 0" by (metis Nil length_rb_content list.size(3))
  then have "length (inp (host d)) \<le> rx_free d0"
    using fit Nil by (simp add: pending_def rx_free_def d0)
  then have all: "rb_content (recv e) = inp (host d)" "inp (host e) = []" using e by simp_all
  define d1 where "d1 = tty_rxint e True"
  have d1: "dev_ok d1" "raw_mode d1" "same_mode d d1" "pending inp d1 = pending inp d" "sent out d1 = sent out d"
      "\<not> rx_exact inp d1" "rb_size (recv d1) = rb_size (recv d)" "icrnl d1 ch = icrnl d ch" for ch
    using ok raw e all Nil
    by (simp_all add: d1_def d0_def dev_ok_def same_mode_def raw_mode_def pending_def sent_def rx_exact_def
        icrnl_def tty_rxint_def)
  have em: "rb_head (recv d) = rb_tail (recv d)" using rb_empty_iff [OF okr(1)] Nil by simp
  have h1: "rb_head (recv e) = rb_tail (recv e) \<longleftrightarrow> inp (host d) = []"
    using rb_empty_iff [OF e(2)] all by simp
  have wait: "uart_wait_data H K F d 0 = Some (if inp (host d) = [] then Inl (- EAGAIN) else Inr (), d1)"
    using em e(1) F h1 by (simp add: uart_wait_data_def Let_def d0_def [symmetric] d0(4) d1_def [symmetric])
  show ?thesis
  proof (cases "inp (host d)")
    case empty: Nil
    then have "readv_loop H K F 1 d (one_byte b) 0 False = Some (- EAGAIN, d1, one_byte b, False)"
      using em wait by (subst readv_loop.simps) simp
    from readv_end [OF H lk d1(1,6) this] show ?thesis
      using res d1 same_mode_trans empty Nil fit by (fastforce simp: key_result_def pending_def)
  next
    case (Cons ch y)
    then have step: "readv_loop H K F 1 d (one_byte b) 0 False = readv_loop H K F 1 d1 (one_byte b) 0 False"
      using em wait by (subst readv_loop.simps) simp
    have r1: "rb_ok (recv d1)" "rb_content (recv d1) = ch # y" using e(2) all Cons by (simp_all add: d1_def)
    obtain b' where l: "readv_loop H K F 1 d1 (one_byte b) 0 False = Some (1, d1\<lparr>recv := b'\<rparr>, one_byte (icrnl d1 ch), False)"
        "rb_ok b'" "rb_content b' = y" "rb_size b' = rb_size (recv d1)" "rb_head b' = rb_head (recv d1)"
      using readv_loop_take [OF r1(1) d1(2) r1(2)] by blast
    have "dev_ok (d1\<lparr>recv := b'\<rparr>)" "\<not> rx_exact inp (d1\<lparr>recv := b'\<rparr>)"
      using d1(1,6) l by (simp_all add: dev_ok_def rx_exact_def)
    from readv_end [OF H lk this l(1) [folded step]] obtain e' u where
      e': "uart_readv H K F d (one_byte b) = Some (1, e', u)" "uio_mem u = [[icrnl d1 ch]]" "dev_ok e'" "same_mode d1 e'"
      "pending inp e' = pending inp (d1\<lparr>recv := b'\<rparr>)" "sent out e' = sent out d1" "rb_size (recv e') = rb_size b'"
      "length (pending inp (d1\<lparr>recv := b'\<rparr>)) < rb_size b' \<longrightarrow> inp (host e') = []"
      by (auto simp: sent_def)
    have y: "pending inp (d1\<lparr>recv := b'\<rparr>) = y" using l(3) all(2) by (simp add: pending_def d1_def)
    have p: "pending inp d = ch # y" using Cons Nil by (simp add: pending_def)
    then have "length y < rb_size b'" using fit l(4) d1(7) by simp
    then show ?thesis
      using e' y p res d1 l(4) same_mode_trans [OF d1(3)] by (simp add: key_result_def)
  qed
qed

text \<open>The call of the user interface: \<open>read(STDIN_FILENO, &c, 1)\<close>.\<close>

lemma file_read_key:
  assumes H: "host_ok H inp out" and lk: "lock_free K" and F: "f_nonblock F" "f_inode F" "\<not> f_wronly F"
    and ok: "dev_ok d" and raw: "raw_mode d" and fit: "length (pending inp d) < rb_size (recv d)"
    and ex: "\<not> rx_exact inp d" and res: "key_result inp d b = (r, c, x)"
  shows "\<exists>e. file_read H K F d [b] = Some (r, e, [c]) \<and> dev_ok e \<and> same_mode d e
    \<and> pending inp e = x \<and> sent out e = sent out d \<and> rb_size (recv e) = rb_size (recv d) \<and> inp (host e) = []"
proof -
  have "uio_init [[b]] = (0, one_byte b)"
    by (simp add: uio_init_def uio_calc_resid_def uio_vecs_def SSIZE_MAX_def)
  moreover obtain e u where "uart_readv H K F d (one_byte b) = Some (r, e, u)" "uio_mem u = [[c]]" "dev_ok e"
      "same_mode d e" "pending inp e = x" "sent out e = sent out d" "rb_size (recv e) = rb_size (recv d)"
      "inp (host e) = []"
    using uart_readv_key [OF H lk F(1,2) ok raw fit ex res] by blast
  ultimately show ?thesis using F by (simp add: file_read_def file_readv_def)
qed

text \<open>The blocking transfer: the first region takes all that is waiting, the second read finds nothing.\<close>

lemma tty_dmarxfree_blocks:
  assumes H: "host_ok H inp out" and blk: "\<forall>h n. inp h = [] \<longrightarrow> os_read H 0 n h = None"
    and fd: "tty_fd d = 0" and ok: "rb_ok (recv d)" and ex: "rx_exact inp d"
    and two: "rb_tail (recv d) \<le> rb_head (recv d)" "2 \<le> rb_tail (recv d)"
  shows "tty_dmarxfree H d = None"
proof -
  define L where "L = rb_size (recv d) - rb_head (recv d)"
  have i: "inp (host d) \<noteq> []" "length (inp (host d)) = L" using ex by (simp_all add: rx_exact_def L_def)
  have h: "rb_head (recv d) < rb_size (recv d)" "length (rb_buf (recv d)) = rb_size (recv d)" "0 < L"
    using ok by (simp_all add: rb_ok_def L_def)
  obtain h1 where g1: "host_uart_gets H 0 L (host d) = Some (int L, inp (host d), h1)" "inp h1 = []"
    using host_gets [OF H i(1) h(3)] i(2) by auto
  have g2: "host_uart_gets H 0 n h1 = None" for n
    using blk g1(2) by (subst host_uart_gets.simps) simp
  have "tty_rxavailable H d" using H fd i by (simp add: tty_rxavailable_def host_uart_checkin_def host_ok_def)
  moreover have "\<not> nexthead (recv d) = rb_tail (recv d)" using h two by (auto simp: nexthead_def)
  ultimately show ?thesis
    using fd two h g1 g2 i(2)
    by (simp add: tty_dmarxfree_def uart_recvchars_dma_def Let_def tty_dmareceive_def L_def [symmetric] wrs_def)
qed

end
