(* ===== verification/SerialWrite.thy ===== *)
theory SerialWrite
  imports SerialProps
begin

text \<open>
  Writing to the serial console: every byte of a blocking write reaches the output stream in
  order, with the output processing the flags ask for; the direct path of interrupt handlers does
  the same processing up to one flag.
\<close>

section \<open>The transmit buffer\<close>

definition opost :: "'h uart_dev \<Rightarrow> byte \<Rightarrow> byte list" where
  "opost d ch =
     (let c = (if flag (tc_oflag d) OPOST \<and> ch = CR \<and> flag (tc_oflag d) OCRNL then NL else ch)
      in if flag (tc_oflag d) OPOST \<and> c = NL \<and> flag (tc_oflag d) (ONLCR OR ONLRET) then [CR, c] else [c])"

text \<open>A wait on the transmit semaphore ends when the interrupt has made room; it loses nothing.\<close>

definition wait_ok :: "'h kernel \<Rightarrow> ('h \<Rightarrow> byte list) \<Rightarrow> ('h \<Rightarrow> byte list) \<Rightarrow> bool" where
  "wait_ok K inp out \<longleftrightarrow> (\<forall>d. dev_ok d \<longrightarrow>
     (\<exists>d'. k_wait_xmit K d = (0, d') \<and> dev_ok d' \<and> same_mode d d' \<and> \<not> rb_full (xmit d')
        \<and> sent out d' = sent out d \<and> pending inp d' = pending inp d))"

lemma dev_ok_txint [simp]: "dev_ok (tty_txint d e) = dev_ok d"
  by (simp add: dev_ok_def tty_txint_def)

lemma sent_txint [simp]: "sent out (tty_txint d e) = sent out d" "pending inp (tty_txint d e) = pending inp d"
  by (simp_all add: sent_def pending_def)

lemma same_mode_txint: "same_mode (tty_txint d e) f = same_mode d f"
  by (simp add: same_mode_def tty_txint_def)

lemma uart_putxmitchar_room:
  assumes ok: "dev_ok d" and room: "\<not> rb_full (xmit d)"
  shows "\<exists>b'. uart_putxmitchar H K d ch blk = Some (0, d\<lparr>xmit := b'\<rparr>) \<and> dev_ok (d\<lparr>xmit := b'\<rparr>)
    \<and> nbuffered b' = nbuffered (xmit d) + 1 \<and> rb_size b' = rb_size (xmit d)
    \<and> sent out (d\<lparr>xmit := b'\<rparr>) = sent out d @ [ch]"
proof -
  have "rb_ok (xmit d)" using ok by (simp add: dev_ok_def)
  then obtain b' where b': "rb_put (xmit d) ch = Some b'" "rb_ok b'" "rb_content b' = rb_content (xmit d) @ [ch]"
      "rb_size b' = rb_size (xmit d)"
    using rb_put_eq [OF _ room] by blast
  have "nexthead (xmit d) \<noteq> rb_tail (xmit d)" using room by (simp add: rb_full_def)
  then have "uart_putxmitchar H K d ch blk = Some (0, d\<lparr>xmit := b'\<rparr>)"
    using b'(1) by (subst uart_putxmitchar.simps) simp
  moreover have "nbuffered b' = nbuffered (xmit d) + 1"
    using arg_cong [OF b'(3), of length] by simp
  ultimately show ?thesis using ok b' by (intro exI [of _ b']) (simp add: dev_ok_def sent_def)
qed

lemma uart_putxmitchar_block:
  assumes H: "host_ok H inp out" and K: "wait_ok K inp out" and ok: "dev_ok d"
  shows "\<exists>d'. uart_putxmitchar H K d ch True = Some (0, d') \<and> dev_ok d' \<and> same_mode d d'
    \<and> sent out d' = sent out d @ [ch] \<and> pending inp d' = pending inp d"
proof (cases "rb_full (xmit d)")
  case False
  then obtain b' where "uart_putxmitchar H K d ch True = Some (0, d\<lparr>xmit := b'\<rparr>)" "dev_ok (d\<lparr>xmit := b'\<rparr>)"
      "sent out (d\<lparr>xmit := b'\<rparr>) = sent out d @ [ch]"
    using uart_putxmitchar_room [OF ok] by blast
  then show ?thesis by (simp add: pending_def)
next
  case True
  have "isconsole d" "rb_ok (xmit d)" using ok by (simp_all add: dev_ok_def)
  from tty_dmatxavail_eq [OF H this] obtain d1 where t: "tty_dmatxavail H d = Some d1" "rb_ok (xmit d1)"
      "recv d1 = recv d" "same_mode d d1" "sent out d1 = sent out d" "inp (host d1) = inp (host d)" by blast
  have d1: "dev_ok (tty_txint d1 True)" "pending inp d1 = pending inp d"
    using ok t by (simp_all add: dev_ok_def same_mode_def pending_def tty_txint_def)
  obtain d2 where w: "k_wait_xmit K (tty_txint d1 True) = (0, d2)" "dev_ok d2" "same_mode (tty_txint d1 True) d2"
      "\<not> rb_full (xmit d2)" "sent out d2 = sent out d1" "pending inp d2 = pending inp d1"
    using K d1 unfolding wait_ok_def by fastforce
  define d3 where "d3 = tty_txint d2 False"
  have d3: "dev_ok d3" "\<not> rb_full (xmit d3)" "same_mode d d3" "sent out d3 = sent out d" "pending inp d3 = pending inp d"
    using w t d1 same_mode_trans [OF t(4)] by (simp_all add: d3_def same_mode_txint)
  obtain b' where b': "uart_putxmitchar H K d3 ch True = Some (0, d3\<lparr>xmit := b'\<rparr>)" "dev_ok (d3\<lparr>xmit := b'\<rparr>)"
      "sent out (d3\<lparr>xmit := b'\<rparr>) = sent out d3 @ [ch]"
    using uart_putxmitchar_room [OF d3(1,2)] by blast
  have "uart_putxmitchar H K d ch True = uart_putxmitchar H K d3 ch True"
    using True t(1) w(1) by (subst uart_putxmitchar.simps) (simp add: rb_full_def d3_def)
  then show ?thesis using b' d3 by (simp add: pending_def)
qed

text \<open>One byte, and the loop over the request.\<close>

lemma writev_char_block:
  assumes H: "host_ok H inp out" and K: "wait_ok K inp out" and ok: "dev_ok d"
  shows "\<exists>d'. writev_char H K d ch True = Some (0, d') \<and> dev_ok d' \<and> same_mode d d'
    \<and> sent out d' = sent out d @ opost d ch \<and> pending inp d' = pending inp d"
proof -
  define c where "c = (if flag (tc_oflag d) OPOST \<and> ch = CR \<and> flag (tc_oflag d) OCRNL then NL else ch)"
  show ?thesis
  proof (cases "flag (tc_oflag d) OPOST \<and> c = NL \<and> flag (tc_oflag d) (ONLCR OR ONLRET)")
    case True
    obtain d1 where d1: "uart_putxmitchar H K d CR True = Some (0, d1)" "dev_ok d1" "same_mode d d1"
        "sent out d1 = sent out d @ [CR]" "pending inp d1 = pending inp d"
      using uart_putxmitchar_block [OF H K ok] by blast
    obtain d2 where d2: "uart_putxmitchar H K d1 c True = Some (0, d2)" "dev_ok d2" "same_mode d1 d2"
        "sent out d2 = sent out d1 @ [c]" "pending inp d2 = pending inp d1"
      using uart_putxmitchar_block [OF H K d1(2)] by blast
    have "writev_char H K d ch True = Some (0, d2)"
      unfolding writev_char_def Let_def c_def [symmetric] using True d1(1) d2(1) by simp
    moreover have "opost d ch = [CR, c]"
      unfolding opost_def Let_def c_def [symmetric] using True by simp
    ultimately show ?thesis using d1 d2 same_mode_trans [OF d1(3) d2(3)] by simp
  next
    case False
    obtain d2 where d2: "uart_putxmitchar H K d c True = Some (0, d2)" "dev_ok d2" "same_mode d d2"
        "sent out d2 = sent out d @ [c]" "pending inp d2 = pending inp d"
      using uart_putxmitchar_block [OF H K ok] by blast
    have "writev_char H K d ch True = Some (0, d2)"
      unfolding writev_char_def Let_def c_def [symmetric] using False d2(1) by auto
    moreover have "opost d ch = [c]"
      unfolding opost_def Let_def c_def [symmetric] using False by auto
    ultimately show ?thesis using d2 by simp
  qed
qed

lemma opost_mode: "same_mode d e \<Longrightarrow> opost e = opost d"
  by (simp add: opost_def same_mode_def fun_eq_iff)

text \<open>The bytes of a request.\<close>

definition request :: "uio \<Rightarrow> byte list" where
  "request u = take (uio_resid u) (drop (uio_pos u) (uio_all u))"

lemma uio_len: "uio_ok u \<Longrightarrow> uio_pos u + uio_resid u \<le> length (uio_all u)"
  using arg_cong [OF uio_split [of u "uio_iov u"], of length] uio_vecs_ok [of u]
  unfolding uio_ok_def uio_pos_def by simp

lemma request_Cons:
  assumes "uio_ok u" and "uio_resid u = Suc n"
  shows "request u = (uio_all u ! uio_pos u) # request (uio_advance u 1)"
    and "uio_copyto u 0 1 = Some [uio_all u ! uio_pos u]"
proof -
  have lt: "uio_pos u < length (uio_all u)" using uio_len [OF assms(1)] assms(2) by simp
  have d: "drop (uio_pos u) (uio_all u) = uio_all u ! uio_pos u # drop (Suc (uio_pos u)) (uio_all u)"
    by (rule Cons_nth_drop_Suc [OF lt, symmetric])
  show "request u = (uio_all u ! uio_pos u) # request (uio_advance u 1)"
    using uio_advance_eq [OF assms(1), of 1] assms(2) d by (simp add: request_def)
  show "uio_copyto u 0 1 = Some [uio_all u ! uio_pos u]"
    using uio_copyto_eq [OF assms(1), of 0 1] assms(2) d by simp
qed

lemma writev_loop_block:
  assumes H: "host_ok H inp out" and K: "wait_ok K inp out"
  shows "dev_ok d \<Longrightarrow> uio_ok u \<Longrightarrow> uio_resid u = n \<Longrightarrow>
    \<exists>d' u'. writev_loop H K d u True nw n = Some (int nw, d', u') \<and> dev_ok d' \<and> same_mode d d'
      \<and> sent out d' = sent out d @ concat (map (opost d) (request u)) \<and> pending inp d' = pending inp d
      \<and> uio_resid u' = 0 \<and> uio_all u' = uio_all u"
proof (induction n arbitrary: d u)
  case 0
  then show ?case by (simp add: request_def)
next
  case (Suc n)
  define ch where "ch = uio_all u ! uio_pos u"
  have r: "request u = ch # request (uio_advance u 1)" "uio_copyto u 0 1 = Some [ch]"
    using request_Cons [OF Suc.prems(2,3)] by (simp_all add: ch_def)
  obtain d1 where d1: "writev_char H K d ch True = Some (0, d1)" "dev_ok d1" "same_mode d d1"
      "sent out d1 = sent out d @ opost d ch" "pending inp d1 = pending inp d"
    using writev_char_block [OF H K Suc.prems(1)] by blast
  have a: "uio_ok (uio_advance u 1)" "uio_resid (uio_advance u 1) = n" "uio_all (uio_advance u 1) = uio_all u"
    using uio_advance_eq [OF Suc.prems(2), of 1] Suc.prems(3) by simp_all
  from Suc.IH [OF d1(2) a(1,2)] show ?case
    using r d1 a(3) opost_mode [OF d1(3)] same_mode_trans [OF d1(3)] by auto
qed

lemma uart_writev_block:
  assumes H: "host_ok H inp out" and K: "wait_ok K inp out" and lk: "lock_free K" and ok: "dev_ok d" and u: "uio_ok u"
  shows "\<exists>d' u'. uart_writev H K False \<lparr>f_nonblock = False, f_wronly = w, f_inode = i\<rparr> d u
      = Some (int (uio_resid u), d', u')
    \<and> dev_ok d' \<and> same_mode d d' \<and> uio_all u' = uio_all u \<and> uio_resid u' = 0
    \<and> sent out d' = sent out d @ concat (map (opost d) (request u)) \<and> pending inp d' = pending inp d"
proof -
  define d0 where "d0 = tty_txint d False"
  have d0: "dev_ok d0" "same_mode d d0" "sent out d0 = sent out d" "opost d0 = opost d" "pending inp d0 = pending inp d"
    using ok by (simp_all add: d0_def opost_mode)
  obtain d1 u' where l: "writev_loop H K d0 u True (uio_resid u) (uio_resid u) = Some (int (uio_resid u), d1, u')"
      "dev_ok d1" "same_mode d0 d1" "sent out d1 = sent out d0 @ concat (map (opost d0) (request u))"
      "pending inp d1 = pending inp d0" "uio_resid u' = 0" "uio_all u' = uio_all u"
    using writev_loop_block [OF H K d0(1) u refl] by blast
  have c: "isconsole d1" "rb_ok (xmit d1)" using l(2) by (simp_all add: dev_ok_def)
  obtain d2 where t: "tty_dmatxavail H d1 = Some d2" "rb_ok (xmit d2)" "recv d2 = recv d1" "same_mode d1 d2"
      "sent out d2 = sent out d1" "inp (host d2) = inp (host d1)"
    using tty_dmatxavail_eq [OF H c] by blast
  define d3 where "d3 = (if rb_head (xmit d1) \<noteq> rb_tail (xmit d1) then tty_txint d2 True else d1)"
  have d3: "dev_ok d3" "same_mode d1 d3" "sent out d3 = sent out d1" "pending inp d3 = pending inp d1"
    using l(2) t by (auto simp: d3_def dev_ok_def same_mode_def pending_def tty_txint_def sent_def)
  have "uart_writev H K False \<lparr>f_nonblock = False, f_wronly = w, f_inode = i\<rparr> d u = Some (int (uio_resid u), d3, u')"
    using lk l(1) t(1) by (simp add: uart_writev_def lock_free_def d0_def [symmetric] d3_def)
  then show ?thesis
    using d3 l d0 same_mode_trans [OF same_mode_trans [OF d0(2) l(3)] d3(2)] by simp
qed

section \<open>The direct path\<close>

text \<open>A host that is always writable and takes at least one byte.\<close>

definition host_ready :: "'h host_os \<Rightarrow> bool" where
  "host_ready H \<longleftrightarrow> (\<forall>h. os_pollout H 1 h) \<and> (\<forall>h x. x \<noteq> [] \<longrightarrow> fst (os_write H 1 x h) > 0)"

lemma tty_txready_con: "host_ready H \<Longrightarrow> isconsole d \<Longrightarrow> tty_txready H d"
  by (simp add: tty_txready_def host_uart_checkout_def out_fd_def host_ready_def)

lemma tty_send_eq:
  assumes H: "host_ok H inp out" and rdy: "host_ready H" and con: "isconsole d"
  shows "\<exists>h'. tty_send H d ch = Some (d\<lparr>host := h'\<rparr>) \<and> out h' = out (host d) @ [ch] \<and> inp h' = inp (host d)"
proof -
  obtain r h1 where w: "os_write H 1 [ch] (host d) = (r, h1)" "r \<noteq> - EINTR" "r \<le> 1"
      "out h1 = out (host d) @ take (nat r) [ch]" "inp h1 = inp (host d)"
    using H unfolding host_ok_def by (metis length_Cons list.size(3) of_nat_1 One_nat_def)
  then have r: "r = 1" using rdy unfolding host_ready_def by (metis fst_conv list.discI order_antisym_conv zless_imp_add1_zle add_0)
  have "host_uart_puts H 1 [ch] (host d) = Some (1, h1)"
    using w(1) r by (subst host_uart_puts.simps) (simp add: EINTR_def)
  moreover have "uart_nputs H 1 [] h1 = Some h1" by (subst uart_nputs.simps) simp
  ultimately have "uart_nputs H 1 [ch] (host d) = Some h1" by (subst uart_nputs.simps) simp
  then show ?thesis using con w(4,5) r by (intro exI [of _ h1]) (simp add: tty_send_def out_fd_def)
qed

lemma uart_putchars_eq:
  assumes H: "host_ok H inp out" and rdy: "host_ready H"
  shows "isconsole d \<Longrightarrow> \<exists>h'. uart_putchars H d x = Some (d\<lparr>host := h'\<rparr>) \<and> out h' = out (host d) @ x \<and> inp h' = inp (host d)"
proof (induction x arbitrary: d)
  case Nil
  then show ?case by (subst uart_putchars.simps) (auto intro: exI [of _ "host d"])
next
  case (Cons ch x)
  obtain h1 where h1: "tty_send H d ch = Some (d\<lparr>host := h1\<rparr>)" "out h1 = out (host d) @ [ch]" "inp h1 = inp (host d)"
    using tty_send_eq [OF H rdy Cons.prems] by blast
  obtain h2 where "uart_putchars H (d\<lparr>host := h1\<rparr>) x = Some (d\<lparr>host := h1\<rparr>\<lparr>host := h2\<rparr>)" "out h2 = out h1 @ x" "inp h2 = inp h1"
    using Cons.IH [of "d\<lparr>host := h1\<rparr>"] Cons.prems by auto
  then show ?case
    using tty_txready_con [OF rdy Cons.prems] h1 by (subst uart_putchars.simps) auto
qed

definition irq_opost :: "'h uart_dev \<Rightarrow> byte \<Rightarrow> byte list" where
  "irq_opost d ch =
     (if ch = CR \<and> flag (tc_oflag d) OCRNL then [NL]
      else if ch = NL \<and> flag (tc_oflag d) (ONLCR OR ONLRET) then [CR, NL] else [ch])"

text \<open>The bytes that are out and those between \<open>tail\<close> and \<open>head\<close> are the processed prefix.\<close>

lemma irqwrite_step:
  assumes H: "host_ok H inp out" and rdy: "host_ready H" and con: "isconsole d" and h: "tail \<le> head" "head < length buf"
    and inv: "out (host d) @ take (head - tail) (drop tail buf) = done"
  shows "\<exists>h1 tail1. irqwrite_loop H d buf tail head = irqwrite_loop H (d\<lparr>host := h1\<rparr>) buf tail1 (head + 1)
    \<and> tail1 \<le> head + 1 \<and> inp h1 = inp (host d)
    \<and> out h1 @ take (head + 1 - tail1) (drop tail1 buf) = done @ irq_opost d (buf ! head)"
proof -
  define ch where "ch = buf ! head"
  define pre where "pre = take (head - tail) (drop tail buf)"
  obtain h1 where p1: "uart_putchars H d pre = Some (d\<lparr>host := h1\<rparr>)" "out h1 = done" "inp h1 = inp (host d)"
    using uart_putchars_eq [OF H rdy con, of pre] inv by (auto simp: pre_def)
  have p2: "\<exists>h2. uart_putchars H (d\<lparr>host := h1\<rparr>) [c] = Some (d\<lparr>host := h2\<rparr>) \<and> out h2 = done @ [c] \<and> inp h2 = inp (host d)" for c
    using uart_putchars_eq [OF H rdy, of "d\<lparr>host := h1\<rparr>" "[c]"] con p1 by auto
  have dh: "drop head buf = ch # drop (Suc head) buf" using Cons_nth_drop_Suc [OF h(2)] by (simp add: ch_def)
  consider (cr) "ch = CR" "flag (tc_oflag d) OCRNL"
    | (nl) "ch = NL" "flag (tc_oflag d) (ONLCR OR ONLRET)"
    | (other) "\<not> (ch = CR \<and> flag (tc_oflag d) OCRNL)" "\<not> (ch = NL \<and> flag (tc_oflag d) (ONLCR OR ONLRET))"
    by blast
  then show ?thesis
  proof cases
    case cr
    obtain h2 where h2: "uart_putchars H (d\<lparr>host := h1\<rparr>) [NL] = Some (d\<lparr>host := h2\<rparr>)" "out h2 = done @ [NL]" "inp h2 = inp (host d)"
      using p2 by blast
    have "irqwrite_loop H d buf tail head = irqwrite_loop H (d\<lparr>host := h2\<rparr>) buf (head + 1) (head + 1)"
      using cr h(2) p1(1) h2(1) by (subst irqwrite_loop.simps) (simp add: ch_def pre_def)
    then show ?thesis using cr h2 by (intro exI [of _ h2] exI [of _ "head + 1"]) (simp add: irq_opost_def ch_def)
  next
    case nl
    obtain h2 where h2: "uart_putchars H (d\<lparr>host := h1\<rparr>) [CR] = Some (d\<lparr>host := h2\<rparr>)" "out h2 = done @ [CR]" "inp h2 = inp (host d)"
      using p2 by blast
    have "irqwrite_loop H d buf tail head = irqwrite_loop H (d\<lparr>host := h2\<rparr>) buf head (head + 1)"
      using nl h(2) p1(1) h2(1) by (subst irqwrite_loop.simps) (simp add: ch_def pre_def)
    then show ?thesis using nl h2 dh by (intro exI [of _ h2] exI [of _ head]) (simp add: irq_opost_def ch_def)
  next
    case other
    have "irqwrite_loop H d buf tail head = irqwrite_loop H d buf tail (head + 1)"
      using other h(2) by (subst irqwrite_loop.simps) (auto simp: ch_def Let_def)
    moreover have "take (head + 1 - tail) (drop tail buf) = pre @ [ch]"
      using h by (simp add: pre_def ch_def Suc_diff_le take_Suc_conv_app_nth)
    moreover have "irq_opost d ch = [ch]" using other by (auto simp: irq_opost_def)
    ultimately show ?thesis
      using h(1) inv by (intro exI [of _ "host d"] exI [of _ tail]) (simp add: ch_def pre_def)
  qed
qed

lemma irqwrite_loop_eq:
  assumes H: "host_ok H inp out" and rdy: "host_ready H"
  shows "isconsole d \<Longrightarrow> tail \<le> head \<Longrightarrow> head \<le> length buf \<Longrightarrow>
    out (host d) @ take (head - tail) (drop tail buf) = o0 @ concat (map (irq_opost d) (take head buf)) \<Longrightarrow>
    \<exists>h' tail'. irqwrite_loop H d buf tail head = Some (d\<lparr>host := h'\<rparr>, tail')
      \<and> out h' @ drop tail' buf = o0 @ concat (map (irq_opost d) buf) \<and> inp h' = inp (host d)"
proof (induction "length buf - head" arbitrary: d tail head)
  case 0
  then have "head = length buf" by simp
  then have "irqwrite_loop H d buf tail head = Some (d, tail)" by (subst irqwrite_loop.simps) simp
  then show ?case
    using 0 \<open>head = length buf\<close> by (intro exI [of _ "host d"] exI [of _ tail]) simp
next
  case (Suc n)
  then have lt: "head < length buf" by simp
  obtain h1 tail1 where s: "irqwrite_loop H d buf tail head = irqwrite_loop H (d\<lparr>host := h1\<rparr>) buf tail1 (head + 1)"
      "tail1 \<le> head + 1" "inp h1 = inp (host d)"
      "out h1 @ take (head + 1 - tail1) (drop tail1 buf)
        = (o0 @ concat (map (irq_opost d) (take head buf))) @ irq_opost d (buf ! head)"
    using irqwrite_step [OF H rdy Suc.prems(1,2) lt Suc.prems(4)] by blast
  have mode: "irq_opost (d\<lparr>host := h1\<rparr>) = irq_opost d" by (simp add: irq_opost_def fun_eq_iff)
  have "out (host (d\<lparr>host := h1\<rparr>)) @ take (head + 1 - tail1) (drop tail1 buf)
      = o0 @ concat (map (irq_opost (d\<lparr>host := h1\<rparr>)) (take (head + 1) buf))"
    using s(4) lt by (simp add: mode take_Suc_conv_app_nth)
  moreover have "n = length buf - (head + 1)" "head + 1 \<le> length buf" "isconsole (d\<lparr>host := h1\<rparr>)"
    using Suc.hyps(2) Suc.prems(1) lt by auto
  ultimately obtain h' tail' where "irqwrite_loop H (d\<lparr>host := h1\<rparr>) buf tail1 (head + 1) = Some (d\<lparr>host := h1\<rparr>\<lparr>host := h'\<rparr>, tail')"
      "out h' @ drop tail' buf = o0 @ concat (map (irq_opost d) buf)" "inp h' = inp h1"
    using Suc.hyps(1) [OF _ _ s(2)] by (fastforce simp: mode)
  then show ?case using s(1,3) by auto
qed

lemma uart_irqwrite_eq:
  assumes H: "host_ok H inp out" and rdy: "host_ready H" and con: "isconsole d"
  shows "\<exists>h'. uart_irqwrite H d buf = Some (int (length buf), d\<lparr>host := h'\<rparr>) \<and> inp h' = inp (host d)
    \<and> out h' = out (host d) @ (if flag (tc_oflag d) OPOST then concat (map (irq_opost d) buf) else buf)"
proof -
  obtain h1 tail where l: "(if flag (tc_oflag d) OPOST then irqwrite_loop H d buf 0 0 else Some (d, 0)) = Some (d\<lparr>host := h1\<rparr>, tail)"
      "out h1 @ drop tail buf = out (host d) @ (if flag (tc_oflag d) OPOST then concat (map (irq_opost d) buf) else buf)"
      "inp h1 = inp (host d)"
    using irqwrite_loop_eq [OF H rdy con, of 0 0 buf "out (host d)"]
    by (cases "flag (tc_oflag d) OPOST") (auto intro: that [of "host d"])
  obtain h2 where "uart_putchars H (d\<lparr>host := h1\<rparr>) (drop tail buf) = Some (d\<lparr>host := h2\<rparr>)"
      "out h2 = out h1 @ drop tail buf" "inp h2 = inp h1"
    using uart_putchars_eq [OF H rdy, of "d\<lparr>host := h1\<rparr>" "drop tail buf"] con by auto
  then show ?thesis using l by (auto simp: uart_irqwrite_def)
qed

text \<open>The two paths agree when carriage returns are not mapped.\<close>

lemma irq_opost_eq: "flag (tc_oflag d) OPOST \<Longrightarrow> \<not> flag (tc_oflag d) OCRNL \<Longrightarrow> irq_opost d = opost d"
  by (auto simp: irq_opost_def opost_def fun_eq_iff)

lemma opost_off: "\<not> flag (tc_oflag d) OPOST \<Longrightarrow> concat (map (opost d) buf) = buf"
  by (induction buf) (simp_all add: opost_def)

end
