(* ===== verification/SerialDrain.thy ===== *)
theory SerialDrain
  imports SerialWrite
begin

text \<open>
  The two ways the simulated UART is served, block transfers and character by character, and the
  bounded waits at the end: draining and closing.
\<close>

section \<open>Character by character\<close>

lemma xmitchars_loop_eq:
  assumes H: "host_ok H inp out" and rdy: "host_ready H"
  shows "isconsole d \<Longrightarrow> rb_ok (xmit d) \<Longrightarrow> rb_content (xmit d) = x \<Longrightarrow>
    \<exists>d' n. xmitchars_loop H d k = Some (d', n) \<and> rb_ok (xmit d') \<and> rb_content (xmit d') = []
      \<and> recv d' = recv d \<and> same_mode d d' \<and> out (host d') = out (host d) @ x \<and> inp (host d') = inp (host d)"
proof (induction x arbitrary: d k)
  case Nil
  then show ?case using rb_empty_iff [of "xmit d"] by (subst xmitchars_loop.simps) auto
next
  case (Cons ch x)
  have ne: "rb_head (xmit d) \<noteq> rb_tail (xmit d)" using rb_empty_iff [of "xmit d"] Cons.prems by auto
  obtain b where b: "rb_take (xmit d) = Some (ch, b)" "rb_ok b" "rb_content b = x"
    using rb_take_eq [OF Cons.prems(2,3)] by blast
  obtain h1 where h1: "tty_send H d ch = Some (d\<lparr>host := h1\<rparr>)" "out h1 = out (host d) @ [ch]" "inp h1 = inp (host d)"
    using tty_send_eq [OF H rdy Cons.prems(1)] by blast
  define d1 where "d1 = d\<lparr>host := h1\<rparr>\<lparr>xmit := b\<rparr>"
  have d1: "isconsole d1" "rb_ok (xmit d1)" "rb_content (xmit d1) = x" "recv d1 = recv d" "same_mode d d1" "host d1 = h1"
    using Cons.prems(1) b by (simp_all add: d1_def)
  obtain d' n where r: "xmitchars_loop H d1 ((k + 1) mod 2 ^ 16) = Some (d', n)" "rb_ok (xmit d')"
      "rb_content (xmit d') = []" "recv d' = recv d1" "same_mode d1 d'" "out (host d') = out (host d1) @ x"
      "inp (host d') = inp (host d1)"
    using Cons.IH [OF d1(1-3)] by blast
  have "xmitchars_loop H d k = xmitchars_loop H d1 ((k + 1) mod 2 ^ 16)"
    using ne tty_txready_con [OF rdy Cons.prems(1)] b(1) h1(1)
    by (subst xmitchars_loop.simps) (simp add: d1_def)
  then show ?case using r d1 h1 same_mode_trans [OF d1(5) r(5)] by auto
qed

lemma uart_xmitchars_eq:
  assumes "host_ok H inp out" and "host_ready H" and "isconsole d" and "rb_ok (xmit d)"
  shows "\<exists>d'. uart_xmitchars H d = Some d' \<and> rb_ok (xmit d') \<and> rb_content (xmit d') = [] \<and> recv d' = recv d
    \<and> same_mode d d' \<and> sent out d' = sent out d \<and> inp (host d') = inp (host d)"
  using xmitchars_loop_eq [OF assms refl, of 0]
  by (auto simp: uart_xmitchars_def Let_def sent_def)

lemma tty_receive_eq:
  assumes "host_ok H inp out" and "tty_fd d = 0" and "inp (host d) = ch # x"
  shows "\<exists>h'. tty_receive H d = Some (ch, d\<lparr>host := h'\<rparr>) \<and> inp h' = x \<and> out h' = out (host d)"
  using host_gets [OF assms(1), of "host d" 1] assms(2,3) by (auto simp: tty_receive_def)

lemma recvchars_loop_eq:
  assumes H: "host_ok H inp out"
  shows "tty_fd d = 0 \<Longrightarrow> rb_ok (recv d) \<Longrightarrow> inp (host d) = x \<Longrightarrow>
    \<exists>d'. recvchars_loop H d = Some d' \<and> rb_ok (recv d') \<and> xmit d' = xmit d \<and> same_mode d d'
      \<and> rb_size (recv d') = rb_size (recv d) \<and> rb_content (recv d') = rb_content (recv d) @ take (rx_free d) x
      \<and> inp (host d') = drop (rx_free d) x \<and> out (host d') = out (host d)"
proof (induction x arbitrary: d)
  case Nil
  then show ?case
    using H by (subst recvchars_loop.simps)
      (simp add: tty_rxavailable_def host_uart_checkin_def host_ok_def)
next
  case (Cons ch x)
  have avail: "tty_rxavailable H d"
    using H Cons.prems by (simp add: tty_rxavailable_def host_uart_checkin_def host_ok_def)
  show ?case
  proof (cases "rb_full (recv d)")
    case True
    then have "recvchars_loop H d = Some d"
      using avail by (subst recvchars_loop.simps) (simp add: rb_full_def tty_rxflowcontrol_def)
    moreover have "rx_free d = 0" using True rb_full_iff [OF Cons.prems(2)] by (simp add: rx_free_def)
    ultimately show ?thesis using Cons.prems by simp
  next
    case False
    obtain h1 where h1: "tty_receive H d = Some (ch, d\<lparr>host := h1\<rparr>)" "inp h1 = x" "out h1 = out (host d)"
      using tty_receive_eq [OF H Cons.prems(1,3)] by blast
    obtain b where b: "rb_put (recv d) ch = Some b" "rb_ok b" "rb_content b = rb_content (recv d) @ [ch]"
        "rb_size b = rb_size (recv d)"
      using rb_put_eq [OF Cons.prems(2) False] by blast
    define d1 where "d1 = d\<lparr>host := h1\<rparr>\<lparr>recv := b\<rparr>"
    have d1: "tty_fd d1 = 0" "rb_ok (recv d1)" "inp (host d1) = x" "same_mode d d1" "xmit d1 = xmit d"
      using Cons.prems(1) b h1 by (simp_all add: d1_def)
    have "nbuffered b = nbuffered (recv d) + 1" using arg_cong [OF b(3), of length] by simp
    moreover have "nbuffered (recv d) < rb_size (recv d) - 1"
      using False rb_full_iff [OF Cons.prems(2)] nbuffered_less [OF Cons.prems(2)] by linarith
    ultimately have fr: "rx_free d = Suc (rx_free d1)" using b(4) by (simp add: rx_free_def d1_def)
    have "recvchars_loop H d = recvchars_loop H d1"
      using avail False h1(1) b(1) by (subst recvchars_loop.simps) (simp add: rb_full_def d1_def)
    then show ?thesis
      using Cons.IH [OF d1(1-3)] d1 fr b h1 Cons.prems(3) same_mode_trans [OF d1(4)]
      by (auto simp: d1_def)
  qed
qed

lemma uart_recvchars_eq:
  assumes "host_ok H inp out" and "tty_fd d = 0" and "rb_ok (recv d)"
  shows "\<exists>d'. uart_recvchars H d = Some d' \<and> rb_ok (recv d') \<and> xmit d' = xmit d \<and> same_mode d d'
    \<and> rb_content (recv d') = rb_content (recv d) @ take (rx_free d) (inp (host d))
    \<and> inp (host d') = drop (rx_free d) (inp (host d)) \<and> out (host d') = out (host d)"
  using recvchars_loop_eq [OF assms refl] by (auto simp: uart_recvchars_def)

section \<open>The timer of the UART\<close>

text \<open>
  Block transfers may leave output behind and must not end at the end of the storage; the loops over
  single characters need a host that takes the bytes.
\<close>

lemma tx_service:
  assumes H: "host_ok H inp out" and d: "isconsole d" "rb_ok (xmit d)" and r: "dma \<or> host_ready H"
  shows "\<exists>d'. (if dma then tty_dmatxavail H d else uart_xmitchars H d) = Some d' \<and> rb_ok (xmit d')
    \<and> recv d' = recv d \<and> same_mode d d' \<and> sent out d' = sent out d \<and> inp (host d') = inp (host d)"
  using tty_dmatxavail_eq [OF H d] uart_xmitchars_eq [OF H _ d] r by auto

lemma rx_service:
  assumes H: "host_ok H inp out" and d: "tty_fd d = 0" "rb_ok (recv d)" and r: "dma \<Longrightarrow> \<not> rx_exact inp d"
  shows "\<exists>d'. (if dma then tty_dmarxfree H d else uart_recvchars H d) = Some d' \<and> rb_ok (recv d')
    \<and> xmit d' = xmit d \<and> same_mode d d' \<and> rb_content (recv d') = rb_content (recv d) @ take (rx_free d) (inp (host d))
    \<and> inp (host d') = drop (rx_free d) (inp (host d)) \<and> out (host d') = out (host d)"
proof (cases dma)
  case True
  then show ?thesis using tty_dmarxfree_eq [OF H d r] by auto
next
  case False
  then show ?thesis using uart_recvchars_eq [OF H d] by simp
qed

lemma sim_tty_interrupt_eq:
  assumes H: "host_ok H inp out" and ok: "dev_ok d" and r: "if dma then \<not> rx_exact inp d else host_ready H"
  shows "\<exists>d'. sim_tty_interrupt dma H d = Some d' \<and> dev_ok d' \<and> same_mode d d'
    \<and> pending inp d' = pending inp d \<and> sent out d' = sent out d"
proof -
  have d: "isconsole d" "tty_fd d = 0" "rb_ok (xmit d)" "rb_ok (recv d)" using ok by (simp_all add: dev_ok_def)
  have rr: "dma \<or> host_ready H" using r by (auto split: if_splits)
  obtain d1 where t: "(if txint d then (if dma then tty_dmatxavail H d else uart_xmitchars H d) else Some d) = Some d1"
      "rb_ok (xmit d1)" "recv d1 = recv d" "same_mode d d1" "sent out d1 = sent out d" "inp (host d1) = inp (host d)"
    using tx_service [OF H d(1,3) rr] d(3) by (cases "txint d") auto
  have d1: "tty_fd d1 = 0" "rb_ok (recv d1)" "dma \<Longrightarrow> \<not> rx_exact inp d1"
    using t d r by (simp_all add: same_mode_def rx_exact_def)
  obtain d2 where q: "(if rxint d1 then (if dma then tty_dmarxfree H d1 else uart_recvchars H d1) else Some d1) = Some d2"
      "rb_ok (recv d2)" "xmit d2 = xmit d1" "same_mode d1 d2" "pending inp d2 = pending inp d1"
      "out (host d2) = out (host d1)"
    using rx_service [OF H d1(1,2), of dma] d1(2,3) by (cases "rxint d1") (auto simp: pending_def)
  have "sim_tty_interrupt dma H d = Some (d2\<lparr>wdog := True\<rparr>)"
    unfolding sim_tty_interrupt_def t(1) using d(2) q(1) by simp
  moreover have "dev_ok (d2\<lparr>wdog := True\<rparr>)"
    using ok t q by (simp add: dev_ok_def same_mode_def)
  ultimately show ?thesis
    using t q same_mode_trans [OF t(4) q(4)] by (simp add: pending_def sent_def)
qed

section \<open>Draining\<close>

text \<open>
  Time: \<open>clk\<close> is the clock the kernel shows; it does not run backwards while the driver writes to the
  host. A wait on the transmit semaphore that ends without an error has taken a count of the semaphore
  that was there, has taken time or has seen the buffer shrink; nothing is added to the buffer
  meanwhile, since the caller holds its lock.
\<close>

definition clock_ok :: "'h host_os \<Rightarrow> 'h kernel \<Rightarrow> ('h \<Rightarrow> nat) \<Rightarrow> bool" where
  "clock_ok H K clk \<longleftrightarrow> (\<forall>d. k_ticks K d = clk (host d)) \<and> (\<forall>h x. clk h \<le> clk (snd (os_write H 1 x h)))"

definition tickwait_ok :: "'h kernel \<Rightarrow> ('h \<Rightarrow> byte list) \<Rightarrow> ('h \<Rightarrow> byte list) \<Rightarrow> bool" where
  "tickwait_ok K inp out \<longleftrightarrow> (\<forall>n d. dev_ok d \<longrightarrow>
     (\<exists>r d'. k_tickwait_xmit K n d = (r, d') \<and> dev_ok d' \<and> same_mode d d' \<and> sent out d' = sent out d
        \<and> pending inp d' = pending inp d \<and> k_ticks K d \<le> k_ticks K d' \<and> nbuffered (xmit d') \<le> nbuffered (xmit d)
        \<and> (r \<ge> 0 \<longrightarrow> k_ticks K d < k_ticks K d' \<or> nbuffered (xmit d') < nbuffered (xmit d)
                    \<or> nat (xmitsem d') < nat (xmitsem d))))"

text \<open>What becomes smaller: the time and the bytes left, and behind them the count of the semaphore.\<close>

definition drain_left :: "'h kernel \<Rightarrow> nat \<Rightarrow> 'h uart_dev \<Rightarrow> nat" where
  "drain_left K end_time d = (end_time - k_ticks K d) + nbuffered (xmit d)"

definition drain_rel :: "'h kernel \<Rightarrow> nat \<Rightarrow> ('h uart_dev \<times> 'h uart_dev) set" where
  "drain_rel K end_time = inv_image (less_than <*lex*> less_than) (\<lambda>d. (drain_left K end_time d, nat (xmitsem d)))"

lemma wf_drain_rel: "wf (drain_rel K end_time)"
  unfolding drain_rel_def by (intro wf_inv_image wf_lex_prod wf_less_than)

lemma xmitsem_txint: "xmitsem (tty_txint d e) = xmitsem d"
  by (simp add: tty_txint_def)

lemma host_puts_clock:
  assumes "host_ok H inp out" and "clock_ok H K clk" and "host_uart_puts H 1 x h = Some (r, h')"
  shows "clk h \<le> clk h'"
proof -
  obtain q g where w: "os_write H 1 x h = (q, g)" "q \<noteq> - EINTR"
    using assms(1) unfolding host_ok_def by blast
  then have "h' = g" using assms(3) by (subst (asm) host_uart_puts.simps) simp
  then show ?thesis using assms(2) w(1) unfolding clock_ok_def by (metis snd_conv)
qed

lemma uart_xmitchars_done_host: "uart_xmitchars_done d = Some e \<Longrightarrow> host e = host d"
  by (auto simp: uart_xmitchars_done_def Let_def split: if_splits)

lemma tty_dmasend_clock:
  assumes "host_ok H inp out" and "clock_ok H K clk" and "isconsole d" and "tty_dmasend H d = Some e"
  shows "clk (host d) \<le> clk (host e)"
  using assms(3,4) host_puts_clock [OF assms(1,2)]
  by (auto simp: tty_dmasend_def Let_def out_fd_def bind_eq_Some_conv split: if_splits
      dest!: uart_xmitchars_done_host) (blast intro: order_trans)+

lemma tty_dmatxavail_clock:
  assumes "host_ok H inp out" and "clock_ok H K clk" and "isconsole d" and "tty_dmatxavail H d = Some e"
  shows "clk (host d) \<le> clk (host e)"
proof (cases "e = d")
  case False
  then obtain x where "tty_dmasend H (d\<lparr>dmatx := x\<rparr>) = Some e"
    using assms(4) by (auto simp: tty_dmatxavail_def uart_xmitchars_dma_def Let_def split: if_splits)
  then show ?thesis using tty_dmasend_clock [OF assms(1,2), of "d\<lparr>dmatx := x\<rparr>" e] assms(3) by simp
qed simp

lemma drain_xmit_step:
  assumes H: "host_ok H inp out" and C: "clock_ok H K clk" and W: "tickwait_ok K inp out" and ok: "dev_ok d"
    and ne: "rb_head (xmit d) \<noteq> rb_tail (xmit d)"
  shows "\<exists>r e. drain_xmit H K start timeout d = (if r \<ge> 0 then drain_xmit H K start timeout e else Some (r, e))
    \<and> dev_ok e \<and> same_mode d e \<and> sent out e = sent out d \<and> pending inp e = pending inp d
    \<and> (r \<ge> 0 \<longrightarrow> (e, d) \<in> drain_rel K (start + timeout))"
proof -
  have d: "isconsole d" "rb_ok (xmit d)" using ok by (simp_all add: dev_ok_def)
  obtain d1 where t: "tty_dmatxavail H d = Some d1" "rb_ok (xmit d1)" "recv d1 = recv d" "same_mode d d1"
      "nbuffered (xmit d1) \<le> nbuffered (xmit d)" "nbuffered (xmit d1) < nbuffered (xmit d) \<or> xmitsem d1 = xmitsem d"
      "sent out d1 = sent out d" "inp (host d1) = inp (host d)"
    using tty_dmatxavail_eq [OF H d] by blast
  define d2 where "d2 = tty_txint d1 True"
  have d2: "dev_ok d2" "pending inp d2 = pending inp d" "sent out d2 = sent out d" "same_mode d d2"
      "nbuffered (xmit d2) \<le> nbuffered (xmit d)" "nbuffered (xmit d2) < nbuffered (xmit d) \<or> xmitsem d2 = xmitsem d"
    using ok t by (simp_all add: d2_def xmitsem_txint) (simp_all add: dev_ok_def same_mode_def pending_def)
  have k: "k_ticks K d \<le> k_ticks K d2"
    using tty_dmatxavail_clock [OF H C d(1) t(1)] C by (simp add: clock_ok_def d2_def)
  have run: "drain_xmit H K start timeout d =
      (let (r, f) = (if k_ticks K d2 - start \<ge> timeout then (- ETIMEDOUT, d2)
                     else k_tickwait_xmit K (timeout - (k_ticks K d2 - start)) d2)
       in if r \<ge> 0 then drain_xmit H K start timeout (tty_txint f False) else Some (r, tty_txint f False))"
    using ne t(1) by (subst drain_xmit.simps) (simp add: d2_def Let_def)
  show ?thesis
  proof (cases "k_ticks K d2 - start \<ge> timeout")
    case True
    then show ?thesis using d2 run
      by (intro exI [of _ "- ETIMEDOUT"] exI [of _ "tty_txint d2 False"]) (simp add: ETIMEDOUT_def)
  next
    case False
    obtain r f where w: "k_tickwait_xmit K (timeout - (k_ticks K d2 - start)) d2 = (r, f)" "dev_ok f"
        "same_mode d2 f" "sent out f = sent out d2" "pending inp f = pending inp d2" "k_ticks K d2 \<le> k_ticks K f"
        "nbuffered (xmit f) \<le> nbuffered (xmit d2)"
        "r \<ge> 0 \<longrightarrow> k_ticks K d2 < k_ticks K f \<or> nbuffered (xmit f) < nbuffered (xmit d2) \<or> nat (xmitsem f) < nat (xmitsem d2)"
      using W d2(1) unfolding tickwait_ok_def by blast
    have "k_ticks K (tty_txint f False) = k_ticks K f" using C by (simp add: clock_ok_def)
    then have "r \<ge> 0 \<longrightarrow> (tty_txint f False, d) \<in> drain_rel K (start + timeout)"
      using False w(6-8) d2(5,6) k by (auto simp: drain_rel_def drain_left_def xmitsem_txint)
    then show ?thesis
      using False w(1-5) d2 run same_mode_trans [OF d2(4) w(3)]
      by (intro exI [of _ r] exI [of _ "tty_txint f False"]) simp
  qed
qed

lemma drain_xmit_returns:
  assumes H: "host_ok H inp out" and C: "clock_ok H K clk" and W: "tickwait_ok K inp out"
  shows "dev_ok d \<Longrightarrow> \<exists>r e. drain_xmit H K start timeout d = Some (r, e) \<and> r \<le> 0 \<and> dev_ok e \<and> same_mode d e
    \<and> sent out e = sent out d \<and> pending inp e = pending inp d \<and> (r = 0 \<longrightarrow> rb_content (xmit e) = [])"
proof (induction d rule: wf_induct_rule [OF wf_drain_rel [of K "start + timeout"]])
  case less: (1 d)
  have okx: "rb_ok (xmit d)" using less.prems by (simp add: dev_ok_def)
  show ?case
  proof (cases "rb_head (xmit d) = rb_tail (xmit d)")
    case True
    then show ?thesis using less.prems rb_empty_iff [OF okx] by (subst drain_xmit.simps) simp
  next
    case False
    obtain r e where s: "drain_xmit H K start timeout d = (if r \<ge> 0 then drain_xmit H K start timeout e else Some (r, e))"
        "dev_ok e" "same_mode d e" "sent out e = sent out d" "pending inp e = pending inp d"
        "r \<ge> 0 \<longrightarrow> (e, d) \<in> drain_rel K (start + timeout)"
      using drain_xmit_step [OF H C W less.prems False] by blast
    show ?thesis
    proof (cases "r \<ge> 0")
      case True
      then show ?thesis using less.IH [of e] s same_mode_trans [OF s(3)] by fastforce
    next
      case False
      then show ?thesis using s by auto
    qed
  qed
qed

lemma uart_tcdrain_returns:
  assumes "host_ok H inp out" and "clock_ok H K clk" and "tickwait_ok K inp out" and "lock_free K" and "dev_ok d"
  shows "\<exists>r e. uart_tcdrain H K timeout d = Some (r, e) \<and> r \<le> 0 \<and> dev_ok e \<and> same_mode d e
    \<and> sent out e = sent out d \<and> pending inp e = pending inp d \<and> (r = 0 \<longrightarrow> rb_content (xmit e) = [])"
proof -
  have "drain_fifo K start timeout e = Some (0, e)" for start e
    by (subst drain_fifo.simps) (simp add: tty_txempty_def)
  then show ?thesis
    using drain_xmit_returns [OF assms(1-3,5), of "k_ticks K d" timeout] assms(4)
    by (fastforce simp: uart_tcdrain_def lock_free_def)
qed

lemma uart_close_returns:
  assumes "host_ok H inp out" and "clock_ok H K clk" and "tickwait_ok K inp out" and "lock_free K" and "dev_ok d"
  shows "\<exists>e. uart_close H K F d = Some (0, e) \<and> dev_ok e \<and> sent out e = sent out d \<and> pending inp e = pending inp d"
proof (cases "open_count d > 1")
  case True
  then show ?thesis using assms(4,5) by (simp add: uart_close_def lock_free_def dev_ok_def sent_def pending_def)
next
  case False
  define d1 where "d1 = tty_rxint (d\<lparr>open_count := 0\<rparr>) False"
  have d1: "dev_ok d1" "sent out d1 = sent out d" "pending inp d1 = pending inp d"
    using assms(5) by (simp_all add: d1_def dev_ok_def sent_def pending_def tty_rxint_def)
  obtain e where e: "(if \<not> f_nonblock F then do { (_, d) \<leftarrow> uart_tcdrain H K (4 * TICK_PER_SEC) d1; Some d } else Some d1) = Some e"
      "dev_ok e" "sent out e = sent out d" "pending inp e = pending inp d"
    using uart_tcdrain_returns [OF assms(1-4) d1(1), of "4 * TICK_PER_SEC"] d1 by (cases "f_nonblock F") auto
  have con: "isconsole e" using e(2) by (simp add: dev_ok_def)
  define f where "f = uart_reset_sem (uart_datareceived e)"
  have "dev_ok f" "sent out f = sent out d" "pending inp f = pending inp d"
    using e by (simp_all add: f_def uart_reset_sem_def uart_datareceived_def Let_def dev_ok_def sent_def pending_def)
  moreover have "uart_close H K F d = Some (0, if unlinked f then f\<lparr>released := True\<rparr> else f)"
    using False assms(4) e(1) con
    by (simp add: uart_close_def lock_free_def d1_def [symmetric] Let_def tty_detach_def f_def)
  ultimately show ?thesis by (simp add: dev_ok_def sent_def pending_def)
qed

end
