(* ===== verification/SerialSpec.thy ===== *)
theory SerialSpec
  imports SerialDrain
begin

text \<open>
  The properties of the serial console, with a concrete host and kernel for the witnesses: a
  terminal with a queue of typed bytes and the bytes shown, and a kernel that empties the transmit
  buffer during a wait.
\<close>

section \<open>A concrete host and kernel\<close>

definition demo_os :: "(byte list \<times> byte list) host_os" where
  "demo_os = \<lparr>os_read = (\<lambda>fd n (i, o'). if i = [] then None
                else Some (int (length (take n i)), take n i, (drop n i, o'))),
     os_write = (\<lambda>fd x (i, o'). (int (length x), (i, o' @ x))),
     os_pollin = (\<lambda>fd (i, o'). i \<noteq> []), os_pollout = (\<lambda>fd h. True),
     os_open = (\<lambda>path h. (3, h)), os_setraw = (\<lambda>fd h. h), os_close = (\<lambda>fd h. h)\<rparr>"

definition flushed :: "(byte list \<times> byte list) uart_dev \<Rightarrow> (byte list \<times> byte list) uart_dev" where
  "flushed d = d\<lparr>host := (fst (host d), snd (host d) @ rb_content (xmit d)),
                 xmit := (xmit d)\<lparr>rb_tail := rb_head (xmit d)\<rparr>\<rparr>"

definition demo_kernel :: "(byte list \<times> byte list) kernel" where
  "demo_kernel = \<lparr>k_lock = (\<lambda>d. (0, d)), k_wait_xmit = (\<lambda>d. (0, flushed d)), k_wait_recv = (\<lambda>d. (- EINTR, d)),
     k_tickwait_xmit = (\<lambda>n d. if rb_content (xmit d) \<noteq> [] then (0, flushed d)
        else if 0 < xmitsem d then (0, d\<lparr>xmitsem := xmitsem d - 1\<rparr>) else (- ETIMEDOUT, d)), k_ticks = (\<lambda>d. 0), k_usleep = (\<lambda>d. d)\<rparr>"

lemma demo_os_ok: "host_ok demo_os fst snd"
  by (auto simp: host_ok_def demo_os_def EINTR_def)

lemma demo_os_ready: "host_ready demo_os"
  by (auto simp: host_ready_def demo_os_def)

lemma demo_lock: "lock_free demo_kernel"
  by (simp add: lock_free_def demo_kernel_def)

text \<open>The console as the simulator registers it, in the mode of the user interface.\<close>

definition raw_console :: "'h \<Rightarrow> 'h uart_dev" where
  "raw_console h = (uart_register (g_console_dev h))\<lparr>tc_lflag := ISIG\<rparr>"

lemma new_buffer_ok: "rb_ok new_buffer" "rb_content new_buffer = []" "nbuffered new_buffer = 0"
    "rb_size new_buffer = 256" "rb_head new_buffer = 0" "rb_tail new_buffer = 0"
  by (simp_all add: rb_ok_def new_buffer_def CONFIG_SIM_UART_BUFFER_SIZE_def rb_content_def nbuffered_def ring_def)

lemma raw_console_ok: "dev_ok (raw_console h)" "raw_mode (raw_console h)" "host (raw_console h) = h"
    "recv (raw_console h) = new_buffer" "xmit (raw_console h) = new_buffer" "icrnl (raw_console h) CR = NL"
    "tc_oflag (raw_console h) = OPOST OR ONLCR"
  by (simp_all add: raw_console_def uart_register_def g_console_dev_def dev_ok_def raw_mode_def icrnl_def
      new_buffer_ok flag_def Let_def CONFIG_SERIAL_NPOLLWAITERS_def
      ISIG_def ICANON_def ECHO_def INLCR_def IGNCR_def ICRNL_def)

lemma raw_console_recv: "rb_ok b \<Longrightarrow> dev_ok ((raw_console h)\<lparr>recv := b\<rparr>)"
  using raw_console_ok(1) [of h] by (simp add: dev_ok_def)

lemma raw_console_xmit: "rb_ok b \<Longrightarrow> dev_ok ((raw_console h)\<lparr>xmit := b\<rparr>)"
  using raw_console_ok(1) [of h] by (simp add: dev_ok_def)

definition demo_console :: "byte list \<Rightarrow> (byte list \<times> byte list) uart_dev" where
  "demo_console i = raw_console (i, [])"

lemmas demo_console_ok = raw_console_ok [where h = "(i, []) :: byte list \<times> byte list" for i, folded demo_console_def]
  and demo_console_recv = raw_console_recv [where h = "(i, []) :: byte list \<times> byte list" for i, folded demo_console_def]
  and demo_console_xmit = raw_console_xmit [where h = "(i, []) :: byte list \<times> byte list" for i, folded demo_console_def]

lemma flushed_ok:
  assumes "dev_ok d"
  shows "dev_ok (flushed d) \<and> same_mode d (flushed d) \<and> \<not> rb_full (xmit (flushed d))
    \<and> sent snd (flushed d) = sent snd d \<and> pending fst (flushed d) = pending fst d"
proof -
  define b where "b = (xmit d)\<lparr>rb_tail := rb_head (xmit d)\<rparr>"
  have "rb_ok b" "\<not> rb_full b" "rb_content b = []"
    using assms by (auto simp: b_def dev_ok_def rb_ok_def rb_full_def nexthead_def rb_content_def nbuffered_def ring_def)
  moreover have "flushed d = d\<lparr>host := (fst (host d), snd (host d) @ rb_content (xmit d)), xmit := b\<rparr>"
    by (simp add: flushed_def b_def)
  ultimately show ?thesis using assms by (simp add: dev_ok_def sent_def pending_def)
qed

lemma demo_wait: "wait_ok demo_kernel fst snd"
  using flushed_ok by (auto simp: wait_ok_def demo_kernel_def)

lemma demo_tickwait: "tickwait_ok demo_kernel fst snd"
proof -
  have "nbuffered (xmit (flushed d)) = 0" for d by (simp add: flushed_def nbuffered_def)
  then show ?thesis
    using flushed_ok by (auto simp: tickwait_ok_def demo_kernel_def dev_ok_def same_mode_def sent_def pending_def
        ETIMEDOUT_def simp flip: length_0_conv)
qed

lemma demo_clock: "clock_ok demo_os demo_kernel (\<lambda>h. 0)"
  by (simp add: clock_ok_def demo_kernel_def)

section \<open>Poll slots\<close>

lemma free_slot_Some: "free_slot ss k = Some i \<Longrightarrow> k \<le> i \<and> i - k < length ss \<and> ss ! (i - k) = None"
proof (induction ss k rule: free_slot.induct)
  case (2 s ss k)
  then show ?case by (cases "s = None") (auto simp: nth_Cons' Suc_diff_le split: if_splits)
qed simp

lemma free_slot_None: "free_slot ss k = None \<longleftrightarrow> None \<notin> set ss"
  by (induction ss k rule: free_slot.induct) auto

lemma poll_events_bits: "poll_events d AND (ev OR (POLLERR OR POLLHUP)) = poll_events d AND ev"
    "(poll_events d AND ev) AND (POLLERR OR POLLHUP) = 0"
proof -
  have "poll_events d AND (POLLERR OR POLLHUP) = 0"
    by (simp add: poll_events_def Let_def POLLIN_def POLLOUT_def POLLERR_def POLLHUP_def)
  then show "poll_events d AND (ev OR (POLLERR OR POLLHUP)) = poll_events d AND ev"
      "(poll_events d AND ev) AND (POLLERR OR POLLHUP) = 0"
    by (simp add: bit.conj_disj_distrib)
      (metis (no_types, opaque_lifting) \<open>poll_events d AND (POLLERR OR POLLHUP) = 0\<close> and.assoc and.left_commute and_zero_eq)
qed

lemma notify_one_events:
  assumes "pf_revents p = 0"
  shows "pf_revents (notify_one (poll_events d) p) = poll_events d AND pf_events p"
    and "pf_priv (notify_one (poll_events d) p) = pf_priv p"
  using assms poll_events_bits [of d "pf_events p"]
  by (simp_all add: notify_one_def Let_def or.assoc)

section \<open>Properties\<close>

text \<open>
  C35. The console delivers what is typed, in order. In the mode of the user interface, with
  \<open>O_NONBLOCK\<close>, a read of one byte returns: 1 with the oldest pending byte (a carriage return
  mapped to a newline if \<open>ICRNL\<close> is set) or \<open>-EAGAIN\<close> with the buffer unchanged when nothing is
  pending. The remaining bytes stay pending, the output is not touched and the invariant of the
  device is kept. The pending bytes must fit into the receive buffer and must not end exactly at the
  end of its storage.
\<close>

theorem console_delivers_typed_bytes:
  assumes "host_ok H inp out" and "lock_free K" and "f_nonblock F" "f_inode F" "\<not> f_wronly F"
    and "dev_ok d" and "raw_mode d" and "length (pending inp d) < rb_size (recv d)" and "\<not> rx_exact inp d"
  shows "\<exists>e. file_read H K F d [b] = (case pending inp d of
        [] \<Rightarrow> Some (- EAGAIN, e, [b]) | ch # x \<Rightarrow> Some (1, e, [icrnl d ch]))
    \<and> pending inp e = tl (pending inp d) \<and> sent out e = sent out d \<and> dev_ok e \<and> raw_mode e"
proof (cases "pending inp d")
  case Nil
  then show ?thesis
    using file_read_key [OF assms(1-9), of b "- EAGAIN" b "[]"] same_mode_keeps(1) [of d] assms(7)
    by (auto simp: key_result_def)
next
  case (Cons ch x)
  then show ?thesis
    using file_read_key [OF assms(1-9), of b 1 "icrnl d ch" x] same_mode_keeps(1) [of d] assms(7)
    by (auto simp: key_result_def)
qed

theorem console_delivers_typed_bytes_witness:
  "\<exists>e. file_read demo_os demo_kernel \<lparr>f_nonblock = True, f_wronly = False, f_inode = True\<rparr>
       (demo_console [CR, 0x61]) [0x30] = Some (1, e, [NL])
    \<and> pending fst e = [0x61] \<and> sent snd e = [] \<and> dev_ok e \<and> raw_mode e"
proof -
  have "rb_content (recv (demo_console [CR, 0x61])) = []"
    by (simp add: demo_console_ok new_buffer_ok)
  then have p: "pending fst (demo_console [CR, 0x61]) = [CR, 0x61]" "sent snd (demo_console [CR, 0x61]) = []"
    by (simp_all add: pending_def sent_def demo_console_ok new_buffer_ok)
  have "\<not> rx_exact fst (demo_console [CR, 0x61])"
    by (simp add: rx_exact_def demo_console_ok new_buffer_ok)
  from console_delivers_typed_bytes [OF demo_os_ok demo_lock _ _ _ demo_console_ok(1,2) _ this,
      of "\<lparr>f_nonblock = True, f_wronly = False, f_inode = True\<rparr>" "0x30"]
  show ?thesis by (simp add: p demo_console_ok new_buffer_ok)
qed

text \<open>
  C36. A key typed when the receive buffer is empty and its indices stand on the last cell blocks
  the whole simulator. The transfer fills the last cell, goes on to the second region and reads the
  host's terminal, on which nothing is left: the host's read does not return, although the call of
  the user interface was non-blocking.
\<close>

theorem last_cell_blocks_console:
  assumes "host_ok H inp out" and "\<forall>h n. inp h = [] \<longrightarrow> os_read H 0 n h = None" and "lock_free K"
    and "f_inode F" "\<not> f_wronly F" and "dev_ok d" and "2 < rb_size (recv d)"
    and "rb_head (recv d) = rb_size (recv d) - 1" "rb_tail (recv d) = rb_size (recv d) - 1"
    and "length (inp (host d)) = 1"
  shows "file_read H K F d [b] = None"
proof -
  define d0 where "d0 = tty_rxint d False"
  have ok: "rb_ok (recv d)" "tty_fd d = 0" using assms(6) by (simp_all add: dev_ok_def)
  have "inp (host d) \<noteq> []" using assms(10) by auto
  then have "tty_dmarxfree H d0 = None"
    using tty_dmarxfree_blocks [OF assms(1,2), of d0] ok assms(7-10)
    by (simp add: d0_def tty_rxint_def rx_exact_def)
  then have "uart_wait_data H K F d 0 = None"
    using assms(8,9) by (simp add: uart_wait_data_def Let_def d0_def)
  then have "readv_loop H K F 1 d (one_byte b) 0 False = None"
    using assms(8,9) by (subst readv_loop.simps) simp
  moreover have "uio_init [[b]] = (0, one_byte b)"
    by (simp add: uio_init_def uio_calc_resid_def uio_vecs_def SSIZE_MAX_def)
  ultimately show ?thesis
    using assms(3-5) by (simp add: file_read_def file_readv_def uart_readv_def lock_free_def)
qed

theorem last_cell_blocks_console_witness:
  "file_read demo_os demo_kernel \<lparr>f_nonblock = True, f_wronly = False, f_inode = True\<rparr>
     ((demo_console [0x61])\<lparr>recv := new_buffer\<lparr>rb_head := 255, rb_tail := 255\<rparr>\<rparr>) [0x30] = None"
proof -
  have "dev_ok ((demo_console [0x61])\<lparr>recv := new_buffer\<lparr>rb_head := 255, rb_tail := 255\<rparr>\<rparr>)"
    using new_buffer_ok by (intro demo_console_recv) (simp add: rb_ok_def)
  moreover have "\<forall>h n. fst h = [] \<longrightarrow> os_read demo_os 0 n h = None"
    by (auto simp: demo_os_def split: prod.splits)
  ultimately show ?thesis
    using last_cell_blocks_console [OF demo_os_ok _ demo_lock, of "\<lparr>f_nonblock = True, f_wronly = False, f_inode = True\<rparr>"
        "(demo_console [0x61])\<lparr>recv := new_buffer\<lparr>rb_head := 255, rb_tail := 255\<rparr>\<rparr>" "0x30"]
    by (simp add: new_buffer_ok demo_console_ok)
qed

text \<open>
  C37. The timer interrupt of the UART moves bytes between the driver and the host and loses none:
  the pending input, the output in order, the terminal mode and the invariant of the device are
  kept, whether the UART is served by block transfers or character by character. Block transfers
  need that the waiting bytes do not end exactly at the end of the storage, the loops over
  characters a host that takes bytes.
\<close>

theorem interrupt_keeps_streams:
  "host_ok H inp out \<Longrightarrow> dev_ok d \<Longrightarrow> if dma then \<not> rx_exact inp d else host_ready H \<Longrightarrow>
   \<exists>d'. sim_tty_interrupt dma H d = Some d' \<and> dev_ok d' \<and> same_mode d d'
     \<and> pending inp d' = pending inp d \<and> sent out d' = sent out d"
  by (rule sim_tty_interrupt_eq)

theorem interrupt_keeps_streams_witness:
  "\<exists>d' e'. sim_tty_interrupt True demo_os ((demo_console [0x61])\<lparr>rxint := True\<rparr>) = Some d'
     \<and> sim_tty_interrupt False demo_os ((demo_console [0x61])\<lparr>rxint := True\<rparr>) = Some e'
     \<and> dev_ok d' \<and> dev_ok e' \<and> pending fst d' = [0x61] \<and> pending fst e' = [0x61] \<and> sent snd d' = []"
proof -
  let ?d = "(demo_console [0x61])\<lparr>rxint := True\<rparr>"
  have "dev_ok ?d" using demo_console_ok(1) [of "[0x61]"] by (simp add: dev_ok_def)
  moreover have "\<not> rx_exact fst ?d" by (simp add: rx_exact_def demo_console_ok new_buffer_ok)
  moreover have "pending fst ?d = [0x61]" "sent snd ?d = []"
    by (simp_all add: pending_def sent_def demo_console_ok new_buffer_ok)
  ultimately show ?thesis
    using interrupt_keeps_streams [OF demo_os_ok, of ?d True] interrupt_keeps_streams [OF demo_os_ok, of ?d False]
      demo_os_ready by auto
qed



text \<open>
  C39. Draining and closing end: \<open>uart_tcdrain\<close> returns for every timeout, with 0 only when all
  output has reached the host, and closing the console returns 0; neither loses or reorders a byte.
\<close>

theorem drain_and_close_return:
  assumes "host_ok H inp out" and "clock_ok H K clk" and "tickwait_ok K inp out" and "lock_free K" and "dev_ok d"
  shows "\<exists>r e f. uart_tcdrain H K timeout d = Some (r, e) \<and> r \<le> 0 \<and> (r = 0 \<longrightarrow> out (host e) = sent out d)
    \<and> sent out e = sent out d \<and> pending inp e = pending inp d \<and> dev_ok e
    \<and> uart_close H K F d = Some (0, f) \<and> sent out f = sent out d \<and> pending inp f = pending inp d \<and> dev_ok f"
proof -
  obtain r e where e: "uart_tcdrain H K timeout d = Some (r, e)" "r \<le> 0" "dev_ok e" "sent out e = sent out d"
      "pending inp e = pending inp d" "r = 0 \<longrightarrow> rb_content (xmit e) = []"
    using uart_tcdrain_returns [OF assms] by blast
  moreover have "r = 0 \<longrightarrow> out (host e) = sent out d" using e(4,6) by (auto simp: sent_def)
  ultimately show ?thesis using uart_close_returns [OF assms, of F] by blast
qed

theorem drain_and_close_return_witness:
  "\<exists>r e f. uart_tcdrain demo_os demo_kernel 5 (demo_console []) = Some (r, e) \<and> r \<le> 0
     \<and> uart_close demo_os demo_kernel \<lparr>f_nonblock = False, f_wronly = False, f_inode = True\<rparr> (demo_console []) = Some (0, f)
     \<and> dev_ok f"
  using drain_and_close_return [OF demo_os_ok demo_clock demo_tickwait demo_lock demo_console_ok(1) [of "[]"],
      of 5 "\<lparr>f_nonblock = False, f_wronly = False, f_inode = True\<rparr>"] by blast

text \<open>
  C40. A blocking write returns and puts every byte of the request into the output stream, in order
  and behind what was there, with the output processing of the terminal flags (a newline becomes
  carriage return and newline on the console). It holds for a request of any size; the bytes typed
  meanwhile are kept.
\<close>

theorem console_write_in_order:
  assumes "host_ok H inp out" and "wait_ok K inp out" and "lock_free K" and "dev_ok d" and "uio_ok u"
    and "F = \<lparr>f_nonblock = False, f_wronly = w, f_inode = i\<rparr>"
  shows "\<exists>d' u'. uart_writev H K False F d u = Some (int (uio_resid u), d', u')
    \<and> sent out d' = sent out d @ concat (map (opost d) (request u)) \<and> pending inp d' = pending inp d
    \<and> dev_ok d' \<and> same_mode d d' \<and> uio_resid u' = 0"
  using uart_writev_block [OF assms(1-5), of w i] assms(6) by auto

theorem console_write_in_order_witness:
  "\<exists>d' u'. uart_writev demo_os demo_kernel False \<lparr>f_nonblock = False, f_wronly = False, f_inode = True\<rparr>
       (demo_console []) (one_byte NL) = Some (1, d', u')
     \<and> sent snd d' = [CR, NL] \<and> dev_ok d' \<and> uio_resid u' = 0"
proof -
  let ?d = "demo_console []"
  have "uio_ok (one_byte NL)" by (simp add: uio_ok_def uio_vecs_def SSIZE_MAX_def)
  moreover have "request (one_byte NL) = [NL]" by (simp add: request_def uio_pos_def uio_all_def)
  moreover have "opost ?d NL = [CR, NL]"
    by (simp add: opost_def demo_console_ok flag_def OPOST_def ONLCR_def ONLRET_def OCRNL_def)
  moreover have "sent snd ?d = []" by (simp add: sent_def demo_console_ok new_buffer_ok)
  ultimately show ?thesis
    using console_write_in_order [OF demo_os_ok demo_wait demo_lock demo_console_ok(1), of "one_byte NL" _ False True "[]"]
    by auto
qed

text \<open>
  The direct path of interrupt handlers and the idle task writes the same bytes as the buffered
  path puts into the output stream, unless carriage returns are mapped to newlines and newlines
  expanded at the same time.
\<close>

lemma irqwrite_same_output:
  assumes "host_ok H inp out" and "host_ready H" and "isconsole d"
    and "\<not> (flag (tc_oflag d) OCRNL \<and> flag (tc_oflag d) (ONLCR OR ONLRET))"
  shows "\<exists>h'. uart_irqwrite H d buf = Some (int (length buf), d\<lparr>host := h'\<rparr>)
    \<and> out h' = out (host d) @ concat (map (opost d) buf) \<and> inp h' = inp (host d)"
proof -
  have "irq_opost d = opost d" if "flag (tc_oflag d) OPOST"
    using assms(4) that by (auto simp: irq_opost_def opost_def fun_eq_iff)
  then show ?thesis
    using uart_irqwrite_eq [OF assms(1-3), of buf] opost_off [of d buf] by (cases "flag (tc_oflag d) OPOST") auto
qed

text \<open>
  With both mappings set the two paths differ: a carriage return is sent as a newline alone by
  the direct path, while the buffered path sends carriage return and newline.
\<close>

lemma irqwrite_drops_expansion:
  "host_ok H inp out \<Longrightarrow> host_ready H \<Longrightarrow> isconsole d \<Longrightarrow> flag (tc_oflag d) OPOST \<Longrightarrow> flag (tc_oflag d) OCRNL \<Longrightarrow>
   flag (tc_oflag d) (ONLCR OR ONLRET) \<Longrightarrow>
   opost d CR = [CR, NL] \<and> (\<exists>h'. uart_irqwrite H d [CR] = Some (1, d\<lparr>host := h'\<rparr>) \<and> out h' = out (host d) @ [NL])"
  using uart_irqwrite_eq [of H inp out d "[CR]"] by (auto simp: opost_def irq_opost_def)

text \<open>
  A non-blocking write of a newline with one free cell in the transmit buffer fails with
  \<open>-EAGAIN\<close> after the carriage return of its expansion has been queued: the output grows although
  nothing was written, and a retry sends a second carriage return.
\<close>

lemma nonblocking_newline_splits:
  assumes "host_ok H inp out" and "lock_free K" and "dev_ok d" and "uio_ok u" and "request u = [NL]"
    and "flag (tc_oflag d) OPOST" and "flag (tc_oflag d) (ONLCR OR ONLRET)"
    and "nbuffered (xmit d) + 2 = rb_size (xmit d)" and "F = \<lparr>f_nonblock = True, f_wronly = w, f_inode = i\<rparr>"
  shows "\<exists>d'. uart_writev H K False F d u = Some (- EAGAIN, d', u) \<and> sent out d' = sent out d @ [CR]"
proof -
  define d0 where "d0 = tty_txint d False"
  have d0: "dev_ok d0" "tc_oflag d0 = tc_oflag d" "xmit d0 = xmit d" "sent out d0 = sent out d"
    using assms(3) by (simp_all add: d0_def tty_txint_def dev_ok_def sent_def)
  have okx: "rb_ok (xmit d)" using assms(3) by (simp add: dev_ok_def)
  have "\<not> rb_full (xmit d0)" using rb_full_iff [OF okx] assms(8) d0 by simp
  then obtain b' where b': "uart_putxmitchar H K d0 CR False = Some (0, d0\<lparr>xmit := b'\<rparr>)" "dev_ok (d0\<lparr>xmit := b'\<rparr>)"
      "nbuffered b' = nbuffered (xmit d0) + 1" "rb_size b' = rb_size (xmit d0)"
      "sent out (d0\<lparr>xmit := b'\<rparr>) = sent out d0 @ [CR]"
    using uart_putxmitchar_room [OF d0(1)] by blast
  define d1 where "d1 = d0\<lparr>xmit := b'\<rparr>"
  have okb: "rb_ok b'" "isconsole d1" using b'(2) by (simp_all add: dev_ok_def d1_def)
  have "rb_full b'" using rb_full_iff [OF okb(1)] b'(3,4) assms(8) d0(3) by simp
  then have full: "uart_putxmitchar H K d1 NL False = Some (- EAGAIN, d1)"
    by (subst uart_putxmitchar.simps) (simp add: rb_full_def d1_def)
  have len: "uio_resid u = 1"
    using arg_cong [OF assms(5), of length] uio_len [OF assms(4)] by (simp add: request_def)
  have "uio_copyto u 0 1 = Some [NL]"
    using request_Cons [OF assms(4), of 0] len assms(5) by simp
  moreover have "writev_char H K d0 NL False = Some (- EAGAIN, d1)"
    using b'(1) full assms(6,7) d0(2) by (simp add: writev_char_def d1_def EAGAIN_def)
  ultimately have loop: "writev_loop H K d0 u False (uio_resid u) (uio_resid u) = Some (- EAGAIN, d1, u)"
    by (simp add: len EAGAIN_def)
  have "rb_ok (xmit d1)" using okb by (simp add: d1_def)
  from tty_dmatxavail_eq [OF assms(1) okb(2) this] obtain d2 where
    t: "tty_dmatxavail H d1 = Some d2" "sent out d2 = sent out d1" by blast
  then show ?thesis
    using assms(2,9) loop b'(5) d0(4)
    by (simp add: uart_writev_def lock_free_def d0_def [symmetric]) (auto simp: d1_def)
qed

text \<open>
  Poll requests: a request on a device with a free slot takes it, is notified at once of
  exactly the events that hold and were asked for, and its removal restores the slots; without a
  free slot it fails with \<open>-EBUSY\<close> and the slots stay as they are.
\<close>

lemma poll_setup_teardown:
  assumes "dev_ok d" and "p < length (pollfds d)" and "pf_revents (pollfds d ! p) = 0"
  shows "if None \<in> set (fds d)
    then \<exists>i e f. uart_poll d p True = Some (0, e) \<and> fds d ! i = None \<and> fds e = (fds d)[i := Some p]
      \<and> pf_revents (pollfds e ! p) = poll_events d AND pf_events (pollfds d ! p)
      \<and> uart_poll e p False = Some (0, f) \<and> fds f = fds d
    else \<exists>e. uart_poll d p True = Some (- EBUSY, e) \<and> fds e = fds d"
proof (cases "free_slot (fds d) 0")
  case None
  moreover have "None \<notin> set (fds d)" using None by (metis free_slot_None)
  ultimately show ?thesis using assms by (simp add: uart_poll_def dev_ok_def)
next
  case (Some i)
  have i: "i < length (fds d)" "fds d ! i = None" using free_slot_Some [OF Some] by simp_all
  define q where "q = (pollfds d ! p)\<lparr>pf_priv := Some i\<rparr>"
  define e where "e = uart_poll_notify (d\<lparr>fds := (fds d)[i := Some p], pollfds := (pollfds d)[p := q]\<rparr>) i (i + 1) (poll_events d)"
  have ev: "poll_events (d\<lparr>fds := (fds d)[i := Some p], pollfds := (pollfds d)[p := q]\<rparr>) = poll_events d"
    by (simp add: poll_events_def)
  have su: "uart_poll d p True = Some (0, e)"
    using Some assms by (simp add: uart_poll_def dev_ok_def Let_def q_def [symmetric] ev e_def)
  have slot: "take 1 (drop i ((fds d)[i := Some p])) = [Some p]"
    using i(1) by (simp add: Cons_nth_drop_Suc [symmetric])
  have q: "pf_revents q = 0" "pf_events q = pf_events (pollfds d ! p)" using assms(3) by (simp_all add: q_def)
  have "pollfds e ! p = (if poll_events d = 0 then q else notify_one (poll_events d) q)"
    using slot assms(2) by (simp add: e_def uart_poll_notify_def)
  then have "pf_revents (pollfds e ! p) = poll_events d AND pf_events (pollfds d ! p)" "pf_priv (pollfds e ! p) = Some i"
    using notify_one_events [of q d] q by (auto simp: q_def)
  moreover have "fds e = (fds d)[i := Some p]" "p < length (pollfds e)"
    using assms(2) by (simp_all add: e_def uart_poll_notify_def)
  moreover have "((fds d)[i := Some p])[i := None] = fds d" using i by (metis list_update_overwrite list_update_id)
  moreover have "None \<in> set (fds d)" using i by (metis nth_mem)
  ultimately show ?thesis using su i by (auto simp: uart_poll_def)
qed

text \<open>
  Opening and closing: an open that finds fewer than 255 references succeeds and counts one
  more; at 255 it fails with \<open>-EMFILE\<close> and counts nothing; closing one of several references undoes
  an open.
\<close>

lemma open_close_count:
  assumes "host_ok H inp out" and "lock_free K" and "dev_ok d" and "\<not> rx_exact inp d"
  shows "if open_count d = 255 then uart_open H K d = Some (- EMFILE, d)
    else \<exists>e. uart_open H K d = Some (0, e) \<and> open_count e = open_count d + 1 \<and> dev_ok e
      \<and> pending inp e = pending inp d \<and> sent out e = sent out d
      \<and> (open_count d \<noteq> 0 \<longrightarrow> uart_close H K F e = Some (0, d))"
proof -
  have d: "tty_fd d = 0" "rb_ok (recv d)" "isconsole d" using assms(3) by (simp_all add: dev_ok_def)
  have "open_count d + 1 = 0 \<longleftrightarrow> open_count d = - 1" by (simp add: eq_neg_iff_add_eq_0)
  moreover have "(- 1 :: 8 word) = 255" by simp
  ultimately have wrap: "open_count d + 1 = 0 \<longleftrightarrow> open_count d = 255" by simp
  consider (max) "open_count d = 255" | (first) "open_count d = 0" | (more) "open_count d \<noteq> 255" "open_count d \<noteq> 0"
    by blast
  then show ?thesis
  proof cases
    case max
    then show ?thesis using assms(2) by (simp add: uart_open_def lock_free_def)
  next
    case first
    obtain e where "tty_dmarxfree H d = Some e" "rb_ok (recv e)" "xmit e = xmit d" "same_mode d e"
        "pending inp e = pending inp d" "out (host e) = out (host d)"
      using tty_dmarxfree_eq [OF assms(1) d(1,2) assms(4)] by (auto simp: pending_def)
    then show ?thesis
      using first assms(2,3) d(3)
      by (simp add: uart_open_def lock_free_def tty_attach_def tty_rxint_def dev_ok_def same_mode_def pending_def sent_def)
  next
    case more
    define e where "e = d\<lparr>open_count := open_count d + 1\<rparr>"
    have "unat (open_count d + 1) \<noteq> 0" using wrap more(1) by (simp only: unat_eq_0) simp
    then have "1 < open_count d + 1"
      using more(2) unsigned_less [of "open_count d", where ?'a = nat]
      by (auto simp: word_less_nat_alt unat_plus_if' unat_gt_0 split: if_splits)
    then have "uart_close H K F e = Some (0, d)"
      using assms(2) by (simp add: uart_close_def lock_free_def e_def)
    moreover have "uart_open H K d = Some (0, e)"
      using more wrap assms(2) by (simp add: uart_open_def lock_free_def e_def)
    ultimately show ?thesis
      using more assms(3) by (simp add: e_def dev_ok_def pending_def sent_def)
  qed
qed

end
