(* ===== verification/Console.thy ===== *)
theory Console
  imports UiSpec SerialSpec
begin

text \<open>
  The user interface on the serial console: \<open>enable_raw_mode\<close> through \<open>tcgetattr\<close> and \<open>tcsetattr\<close>,
  and the loop of \<open>main\<close>, in which each call of the input callback reads one byte of the console
  and handles it.
\<close>

section \<open>Definitions\<close>

text \<open>\<open>tcgetattr\<close> and \<open>tcsetattr\<close> with \<open>TCSANOW\<close> are one \<open>ioctl\<close> each.\<close>

definition tcgetattr :: "'h host_os \<Rightarrow> 'h kernel \<Rightarrow> 'h uart_dev \<Rightarrow> (termios \<times> 'h uart_dev) option" where
  "tcgetattr H K d = do {
     (ret, reply, d) \<leftarrow> uart_ioctl H K TCGETS d;
     (case reply of Termios t \<Rightarrow> Some (t, d) | _ \<Rightarrow> None) }"

definition tcsetattr_now :: "'h host_os \<Rightarrow> 'h kernel \<Rightarrow> termios \<Rightarrow> 'h uart_dev \<Rightarrow> (int \<times> 'h uart_dev) option" where
  "tcsetattr_now H K t d = do {
     (ret, reply, d) \<leftarrow> uart_ioctl H K (TCSETS t) d;
     Some (ret, d) }"

definition console_raw :: "'h host_os \<Rightarrow> 'h kernel \<Rightarrow> 'h uart_dev \<Rightarrow> 'h uart_dev option" where
  "console_raw H K d = do {
     (oldt, d) \<leftarrow> tcgetattr H K d;
     let newt = oldt\<lparr>c_lflag := enable_raw_mode (c_lflag oldt)\<rparr>;
     (_, d) \<leftarrow> tcsetattr_now H K newt d;
     Some d }"

text \<open>One call of the input callback: \<open>read(STDIN_FILENO, &c, 1)\<close> with \<open>c = '0'\<close>, and the key handler.\<close>

definition console_poll ::
  "'h host_os \<Rightarrow> 'h kernel \<Rightarrow> file_s \<Rightarrow> 'db env \<Rightarrow> 'h uart_dev \<times> 'db ui \<Rightarrow> ('h uart_dev \<times> 'db ui) option" where
  "console_poll H K F E s = do {
     (ret, d, buf) \<leftarrow> file_read H K F (fst s) [0x30];
     u \<leftarrow> keypad_read_cb E (if ret > 0 then Some (hd buf) else None) (snd s);
     Some (d, u) }"

fun console_polls ::
  "'h host_os \<Rightarrow> 'h kernel \<Rightarrow> file_s \<Rightarrow> 'db env \<Rightarrow> nat \<Rightarrow> 'h uart_dev \<times> 'db ui \<Rightarrow> ('h uart_dev \<times> 'db ui) option" where
  "console_polls H K F E 0 s = Some s"
| "console_polls H K F E (Suc n) s = do { s \<leftarrow> console_poll H K F E s; console_polls H K F E n s }"

section \<open>Lemmas\<close>

lemma console_raw_eq:
  "console_raw H K d = Some (d\<lparr>tc_lflag := enable_raw_mode (tc_lflag d)\<rparr>)"
  by (simp add: console_raw_def tcgetattr_def tcsetattr_now_def uart_ioctl_def ioctl_upper_def
      uart_is_termios_hw_change_def tty_ioctl_def ENOTTY_def)

lemma flag_raw: "\<not> flag (enable_raw_mode w) Serial.ICANON" "\<not> flag (enable_raw_mode w) Serial.ECHO"
proof -
  have eq: "Serial.ICANON = Ui.ICANON" "Serial.ECHO = Ui.ECHO"
    by (simp_all add: Serial.ICANON_def Serial.ECHO_def Ui.ICANON_def Ui.ECHO_def)
  show "\<not> flag (enable_raw_mode w) Serial.ICANON" "\<not> flag (enable_raw_mode w) Serial.ECHO"
    unfolding flag_def enable_raw_mode_def eq
    by (simp_all add: bit.conj_disj_distrib bit.de_Morgan_disj and.assoc and.left_commute)
qed

lemma console_polls_keys:
  assumes H: "host_ok H inp out" and lk: "lock_free K" and F: "f_nonblock F" "f_inode F" "\<not> f_wronly F"
  shows "dev_ok d \<Longrightarrow> raw_mode d \<Longrightarrow> pending inp d = ks \<Longrightarrow> length ks < rb_size (recv d) \<Longrightarrow> \<not> rx_exact inp d \<Longrightarrow>
    run_keys E (map (icrnl d) ks) u = Some v \<Longrightarrow>
    \<exists>e. console_polls H K F E (length ks) (d, u) = Some (e, v) \<and> dev_ok e \<and> raw_mode e \<and> pending inp e = []
      \<and> sent out e = sent out d"
proof (induction ks arbitrary: d u)
  case Nil
  then show ?case by simp
next
  case (Cons ch ks)
  obtain e where e: "file_read H K F d [0x30] = Some (1, e, [icrnl d ch])" "dev_ok e" "same_mode d e"
      "pending inp e = ks" "sent out e = sent out d" "rb_size (recv e) = rb_size (recv d)" "inp (host e) = []"
    using file_read_key [OF H lk F Cons.prems(1,2) _ Cons.prems(5), of "0x30" 1 "icrnl d ch" ks] Cons.prems(3,4)
    by (auto simp: key_result_def)
  obtain w where w: "keypad_read_cb E (Some (icrnl d ch)) u = Some w" "run_keys E (map (icrnl d) ks) w = Some v"
    using Cons.prems(6) by (auto simp: bind_eq_Some_conv)
  have "console_poll H K F E (d, u) = Some (e, w)" using e(1) w(1) by (simp add: console_poll_def)
  moreover have "raw_mode e" "icrnl e = icrnl d" "\<not> rx_exact inp e" "length ks < rb_size (recv e)"
    using same_mode_keeps [OF e(3)] Cons.prems(2,4) e(6,7) by (auto simp: rx_exact_def fun_eq_iff)
  ultimately show ?case using Cons.IH [OF e(2) _ e(4), of w] w(2) e(5) by auto
qed

section \<open>Properties\<close>

text \<open>
  The terminal mode: on the console as it is registered, the calls of \<open>enable_raw_mode\<close> switch
  canonical mode and echo off and leave the mapping of carriage returns to newlines, the input and
  the output as they are.
\<close>

lemma enable_raw_mode_on_console:
  "\<exists>d. console_raw H K (uart_register (g_console_dev h)) = Some d \<and> raw_mode d \<and> dev_ok d
     \<and> icrnl d CR = NL \<and> pending inp d = inp h \<and> sent out d = out h"
proof -
  define d where "d = (uart_register (g_console_dev h))\<lparr>tc_lflag := enable_raw_mode (tc_lflag (uart_register (g_console_dev h)))\<rparr>"
  have "raw_mode d" "dev_ok d" "icrnl d CR = NL" "pending inp d = inp h" "sent out d = out h"
    unfolding d_def raw_mode_def
    by (simp_all add: flag_raw) (simp_all add: uart_register_def g_console_dev_def Let_def dev_ok_def icrnl_def
        flag_def INLCR_def IGNCR_def ICRNL_def new_buffer_ok CONFIG_SERIAL_NPOLLWAITERS_def pending_def sent_def)
  then show ?thesis using console_raw_eq [of H K "uart_register (g_console_dev h)"] by (auto simp: d_def)
qed

text \<open>
  C10. From the keyboard to the user interface: the bytes typed on the console reach the key handler
  one per call, in order and each exactly once, with carriage returns as newlines. If the key
  handler handles these keys, as many calls of the input callback as bytes are pending return and
  leave the interface in the state the keys lead to and nothing pending. The pending bytes must fit
  into the receive buffer and must not end exactly at the end of its storage.
\<close>

theorem typed_keys_reach_ui:
  assumes "host_ok H inp out" and "lock_free K" and "f_nonblock F" "f_inode F" "\<not> f_wronly F"
    and "dev_ok d" and "raw_mode d" and "pending inp d = ks" and "length ks < rb_size (recv d)" and "\<not> rx_exact inp d"
    and "run_keys E (map (icrnl d) ks) u = Some v"
  shows "\<exists>e. console_polls H K F E (length ks) (d, u) = Some (e, v) \<and> pending inp e = []
    \<and> sent out e = sent out d \<and> dev_ok e \<and> raw_mode e"
  using console_polls_keys [OF assms] by auto

theorem typed_keys_reach_ui_witness:
  "\<exists>u v e. main_init (demo_env []) True \<lparr>objs = [], calls = []\<rparr> = Some (Inr u)
     \<and> run_keys (demo_env []) (lit ''inu'') u = Some v
     \<and> console_polls demo_os demo_kernel \<lparr>f_nonblock = True, f_wronly = False, f_inode = True\<rparr> (demo_env []) 3
         (demo_console (lit ''inu''), u) = Some (e, v) \<and> pending fst e = []"
proof -
  obtain u where u: "main_init (demo_env []) True \<lparr>objs = [], calls = []\<rparr> = Some (Inr u)" "ui_inv (demo_env []) u"
      "\<not> en_mode u" "cstr (search_word u) 0 []"
    using demo_start [of "[]"] by auto
  have ks: "list_all letter_key (lit ''inu'')" "length (lit ''inu'') = 3" by (simp_all add: letter_key_def)
  obtain v where v: "run_keys (demo_env []) (lit ''inu'') u = Some v"
    using type_letters [OF _ u(4) ks(1), of "demo_env []"] u(2) ks(2) by (auto simp: ui_inv_def)
  have p: "pending fst (demo_console (lit ''inu'')) = lit ''inu''" "\<not> rx_exact fst (demo_console (lit ''inu''))"
    using ks(2) by (simp_all add: pending_def rx_exact_def demo_console_ok new_buffer_ok)
  have "map (icrnl (demo_console (lit ''inu''))) (lit ''inu'') = lit ''inu''" by (simp add: icrnl_def)
  then have r: "run_keys (demo_env []) (map (icrnl (demo_console (lit ''inu''))) (lit ''inu'')) u = Some v"
    using v by (simp only:)
  have "length (lit ''inu'') < rb_size (recv (demo_console (lit ''inu'')))"
    using ks(2) by (simp add: demo_console_ok new_buffer_ok)
  from typed_keys_reach_ui [OF demo_os_ok demo_lock _ _ _ demo_console_ok(1,2) p(1) this p(2) r,
      of "\<lparr>f_nonblock = True, f_wronly = False, f_inode = True\<rparr>"]
  show ?thesis using u(1) v unfolding ks(2) by (fastforce simp del: console_polls.simps run_keys.simps)
qed

end
