(* ===== verification/Font.thy ===== *)
theory Font
  imports UiKeys
begin

text \<open>
  The font of the furigana label, \<open>apps/examples/lvgldemo/jp_font_16_hiragana.c\<close>: its character
  maps, glyph descriptions and kerning pairs as tables, without the bitmaps. The lookup of a glyph is
  LVGL's and is a parameter; its documented reading of the character maps is \<open>cmap_find\<close>.
\<close>

section \<open>Definitions\<close>

record lv_font_fmt_txt_glyph_dsc =
  bitmap_index :: nat
  adv_w :: nat
  box_w :: nat
  box_h :: nat
  ofs_x :: int
  ofs_y :: int

datatype cmap_type = FORMAT0_TINY | SPARSE_TINY

record lv_font_fmt_txt_cmap =
  range_start :: int
  range_length :: int
  glyph_id_start :: nat
  unicode_list :: "int list"
  cm_type :: cmap_type

definition unicode_list_2 :: "int list" where
  "unicode_list_2 = [0x0, 0x3, 0x4, 0x5, 0x6d]"

definition cmaps :: "lv_font_fmt_txt_cmap list" where
  "cmaps = [
    \<lparr>range_start = 97, range_length = 26, glyph_id_start = 1, unicode_list = [], cm_type = FORMAT0_TINY\<rparr>,
    \<lparr>range_start = 12353, range_length = 77, glyph_id_start = 27, unicode_list = [], cm_type = FORMAT0_TINY\<rparr>,
    \<lparr>range_start = 12431, range_length = 110, glyph_id_start = 104, unicode_list = unicode_list_2,
     cm_type = SPARSE_TINY\<rparr>]"

definition glyph_dsc :: "lv_font_fmt_txt_glyph_dsc list" where
  "glyph_dsc = [
    \<lparr>bitmap_index = 0, adv_w = 0, box_w = 0, box_h = 0, ofs_x = 0, ofs_y = 0\<rparr>,
    \<lparr>bitmap_index = 0, adv_w = 144, box_w = 8, box_h = 9, ofs_x = 0, ofs_y = 0\<rparr>,
    \<lparr>bitmap_index = 37, adv_w = 158, box_w = 9, box_h = 13, ofs_x = 1, ofs_y = 0\<rparr>,
    \<lparr>bitmap_index = 76, adv_w = 131, box_w = 8, box_h = 9, ofs_x = 0, ofs_y = 0\<rparr>,
    \<lparr>bitmap_index = 109, adv_w = 159, box_w = 9, box_h = 13, ofs_x = 0, ofs_y = 0\<rparr>,
    \<lparr>bitmap_index = 149, adv_w = 142, box_w = 9, box_h = 9, ofs_x = 0, ofs_y = 0\<rparr>,
    \<lparr>bitmap_index = 189, adv_w = 83, box_w = 6, box_h = 13, ofs_x = 0, ofs_y = 0\<rparr>,
    \<lparr>bitmap_index = 213, adv_w = 144, box_w = 9, box_h = 13, ofs_x = 0, ofs_y = - 4\<rparr>,
    \<lparr>bitmap_index = 271, adv_w = 155, box_w = 8, box_h = 13, ofs_x = 1, ofs_y = 0\<rparr>,
    \<lparr>bitmap_index = 296, adv_w = 70, box_w = 3, box_h = 13, ofs_x = 1, ofs_y = 0\<rparr>,
    \<lparr>bitmap_index = 306, adv_w = 70, box_w = 5, box_h = 17, ofs_x = - 1, ofs_y = - 4\<rparr>,
    \<lparr>bitmap_index = 326, adv_w = 141, box_w = 8, box_h = 13, ofs_x = 1, ofs_y = 0\<rparr>,
    \<lparr>bitmap_index = 359, adv_w = 73, box_w = 3, box_h = 13, ofs_x = 1, ofs_y = 0\<rparr>,
    \<lparr>bitmap_index = 367, adv_w = 237, box_w = 13, box_h = 9, ofs_x = 1, ofs_y = 0\<rparr>,
    \<lparr>bitmap_index = 397, adv_w = 156, box_w = 8, box_h = 9, ofs_x = 1, ofs_y = 0\<rparr>,
    \<lparr>bitmap_index = 419, adv_w = 155, box_w = 9, box_h = 9, ofs_x = 0, ofs_y = 0\<rparr>,
    \<lparr>bitmap_index = 458, adv_w = 159, box_w = 9, box_h = 13, ofs_x = 1, ofs_y = - 4\<rparr>,
    \<lparr>bitmap_index = 500, adv_w = 159, box_w = 9, box_h = 13, ofs_x = 0, ofs_y = - 4\<rparr>,
    \<lparr>bitmap_index = 542, adv_w = 99, box_w = 6, box_h = 9, ofs_x = 1, ofs_y = 0\<rparr>,
    \<lparr>bitmap_index = 558, adv_w = 120, box_w = 7, box_h = 9, ofs_x = 0, ofs_y = 0\<rparr>,
    \<lparr>bitmap_index = 589, adv_w = 97, box_w = 6, box_h = 12, ofs_x = 0, ofs_y = 0\<rparr>,
    \<lparr>bitmap_index = 618, adv_w = 155, box_w = 8, box_h = 9, ofs_x = 1, ofs_y = 0\<rparr>,
    \<lparr>bitmap_index = 640, adv_w = 133, box_w = 9, box_h = 9, ofs_x = 0, ofs_y = 0\<rparr>,
    \<lparr>bitmap_index = 678, adv_w = 205, box_w = 13, box_h = 9, ofs_x = 0, ofs_y = 0\<rparr>,
    \<lparr>bitmap_index = 737, adv_w = 127, box_w = 8, box_h = 9, ofs_x = 0, ofs_y = 0\<rparr>,
    \<lparr>bitmap_index = 773, adv_w = 133, box_w = 9, box_h = 13, ofs_x = 0, ofs_y = - 4\<rparr>,
    \<lparr>bitmap_index = 824, adv_w = 122, box_w = 8, box_h = 9, ofs_x = 0, ofs_y = 0\<rparr>,
    \<lparr>bitmap_index = 856, adv_w = 256, box_w = 12, box_h = 12, ofs_x = 2, ofs_y = - 1\<rparr>,
    \<lparr>bitmap_index = 926, adv_w = 256, box_w = 14, box_h = 15, ofs_x = 1, ofs_y = - 1\<rparr>,
    \<lparr>bitmap_index = 1020, adv_w = 256, box_w = 12, box_h = 11, ofs_x = 2, ofs_y = - 1\<rparr>,
    \<lparr>bitmap_index = 1074, adv_w = 256, box_w = 13, box_h = 13, ofs_x = 2, ofs_y = - 1\<rparr>,
    \<lparr>bitmap_index = 1137, adv_w = 256, box_w = 10, box_h = 12, ofs_x = 3, ofs_y = - 1\<rparr>,
    \<lparr>bitmap_index = 1189, adv_w = 256, box_w = 11, box_h = 14, ofs_x = 2, ofs_y = - 1\<rparr>,
    \<lparr>bitmap_index = 1253, adv_w = 256, box_w = 12, box_h = 12, ofs_x = 2, ofs_y = - 2\<rparr>,
    \<lparr>bitmap_index = 1314, adv_w = 256, box_w = 14, box_h = 14, ofs_x = 1, ofs_y = - 1\<rparr>,
    \<lparr>bitmap_index = 1392, adv_w = 256, box_w = 13, box_h = 11, ofs_x = 2, ofs_y = - 1\<rparr>,
    \<lparr>bitmap_index = 1458, adv_w = 256, box_w = 15, box_h = 14, ofs_x = 1, ofs_y = - 1\<rparr>,
    \<lparr>bitmap_index = 1547, adv_w = 256, box_w = 15, box_h = 14, ofs_x = 1, ofs_y = - 1\<rparr>,
    \<lparr>bitmap_index = 1637, adv_w = 256, box_w = 16, box_h = 15, ofs_x = 0, ofs_y = - 1\<rparr>,
    \<lparr>bitmap_index = 1739, adv_w = 256, box_w = 12, box_h = 14, ofs_x = 2, ofs_y = - 1\<rparr>,
    \<lparr>bitmap_index = 1817, adv_w = 256, box_w = 15, box_h = 15, ofs_x = 1, ofs_y = - 1\<rparr>,
    \<lparr>bitmap_index = 1912, adv_w = 256, box_w = 10, box_h = 15, ofs_x = 2, ofs_y = - 2\<rparr>,
    \<lparr>bitmap_index = 1966, adv_w = 256, box_w = 12, box_h = 15, ofs_x = 2, ofs_y = - 2\<rparr>,
    \<lparr>bitmap_index = 2032, adv_w = 256, box_w = 14, box_h = 14, ofs_x = 1, ofs_y = - 1\<rparr>,
    \<lparr>bitmap_index = 2114, adv_w = 256, box_w = 15, box_h = 16, ofs_x = 1, ofs_y = - 2\<rparr>,
    \<lparr>bitmap_index = 2209, adv_w = 256, box_w = 12, box_h = 13, ofs_x = 2, ofs_y = - 1\<rparr>,
    \<lparr>bitmap_index = 2262, adv_w = 256, box_w = 14, box_h = 15, ofs_x = 2, ofs_y = - 1\<rparr>,
    \<lparr>bitmap_index = 2328, adv_w = 256, box_w = 12, box_h = 14, ofs_x = 2, ofs_y = - 1\<rparr>,
    \<lparr>bitmap_index = 2401, adv_w = 256, box_w = 14, box_h = 16, ofs_x = 2, ofs_y = - 2\<rparr>,
    \<lparr>bitmap_index = 2494, adv_w = 256, box_w = 12, box_h = 15, ofs_x = 3, ofs_y = - 1\<rparr>,
    \<lparr>bitmap_index = 2547, adv_w = 256, box_w = 12, box_h = 14, ofs_x = 3, ofs_y = - 1\<rparr>,
    \<lparr>bitmap_index = 2607, adv_w = 256, box_w = 14, box_h = 14, ofs_x = 1, ofs_y = - 1\<rparr>,
    \<lparr>bitmap_index = 2675, adv_w = 256, box_w = 15, box_h = 16, ofs_x = 0, ofs_y = - 2\<rparr>,
    \<lparr>bitmap_index = 2760, adv_w = 256, box_w = 15, box_h = 14, ofs_x = 0, ofs_y = - 1\<rparr>,
    \<lparr>bitmap_index = 2838, adv_w = 256, box_w = 16, box_h = 14, ofs_x = 0, ofs_y = - 1\<rparr>,
    \<lparr>bitmap_index = 2924, adv_w = 256, box_w = 14, box_h = 15, ofs_x = 1, ofs_y = - 2\<rparr>,
    \<lparr>bitmap_index = 3002, adv_w = 256, box_w = 14, box_h = 15, ofs_x = 1, ofs_y = - 2\<rparr>,
    \<lparr>bitmap_index = 3085, adv_w = 256, box_w = 14, box_h = 14, ofs_x = 1, ofs_y = - 1\<rparr>,
    \<lparr>bitmap_index = 3165, adv_w = 256, box_w = 15, box_h = 14, ofs_x = 1, ofs_y = - 1\<rparr>,
    \<lparr>bitmap_index = 3257, adv_w = 256, box_w = 13, box_h = 15, ofs_x = 1, ofs_y = - 1\<rparr>,
    \<lparr>bitmap_index = 3334, adv_w = 256, box_w = 15, box_h = 16, ofs_x = 1, ofs_y = - 2\<rparr>,
    \<lparr>bitmap_index = 3431, adv_w = 256, box_w = 12, box_h = 10, ofs_x = 2, ofs_y = - 1\<rparr>,
    \<lparr>bitmap_index = 3478, adv_w = 256, box_w = 14, box_h = 11, ofs_x = 1, ofs_y = 0\<rparr>,
    \<lparr>bitmap_index = 3535, adv_w = 256, box_w = 16, box_h = 15, ofs_x = 0, ofs_y = - 1\<rparr>,
    \<lparr>bitmap_index = 3617, adv_w = 256, box_w = 14, box_h = 13, ofs_x = 1, ofs_y = - 1\<rparr>,
    \<lparr>bitmap_index = 3680, adv_w = 256, box_w = 14, box_h = 13, ofs_x = 1, ofs_y = - 1\<rparr>,
    \<lparr>bitmap_index = 3751, adv_w = 256, box_w = 11, box_h = 14, ofs_x = 3, ofs_y = - 1\<rparr>,
    \<lparr>bitmap_index = 3811, adv_w = 256, box_w = 14, box_h = 14, ofs_x = 2, ofs_y = - 1\<rparr>,
    \<lparr>bitmap_index = 3885, adv_w = 256, box_w = 14, box_h = 14, ofs_x = 1, ofs_y = - 1\<rparr>,
    \<lparr>bitmap_index = 3973, adv_w = 256, box_w = 14, box_h = 13, ofs_x = 1, ofs_y = - 1\<rparr>,
    \<lparr>bitmap_index = 4044, adv_w = 256, box_w = 15, box_h = 15, ofs_x = 1, ofs_y = - 1\<rparr>,
    \<lparr>bitmap_index = 4140, adv_w = 256, box_w = 16, box_h = 15, ofs_x = 0, ofs_y = - 1\<rparr>,
    \<lparr>bitmap_index = 4235, adv_w = 256, box_w = 14, box_h = 13, ofs_x = 1, ofs_y = - 1\<rparr>,
    \<lparr>bitmap_index = 4319, adv_w = 256, box_w = 15, box_h = 14, ofs_x = 1, ofs_y = - 1\<rparr>,
    \<lparr>bitmap_index = 4412, adv_w = 256, box_w = 15, box_h = 15, ofs_x = 1, ofs_y = - 1\<rparr>,
    \<lparr>bitmap_index = 4509, adv_w = 256, box_w = 15, box_h = 14, ofs_x = 1, ofs_y = - 1\<rparr>,
    \<lparr>bitmap_index = 4602, adv_w = 256, box_w = 15, box_h = 13, ofs_x = 1, ofs_y = - 1\<rparr>,
    \<lparr>bitmap_index = 4684, adv_w = 256, box_w = 15, box_h = 15, ofs_x = 1, ofs_y = - 1\<rparr>,
    \<lparr>bitmap_index = 4773, adv_w = 256, box_w = 15, box_h = 14, ofs_x = 1, ofs_y = - 1\<rparr>,
    \<lparr>bitmap_index = 4862, adv_w = 256, box_w = 16, box_h = 14, ofs_x = 0, ofs_y = - 1\<rparr>,
    \<lparr>bitmap_index = 4949, adv_w = 256, box_w = 16, box_h = 14, ofs_x = 0, ofs_y = - 1\<rparr>,
    \<lparr>bitmap_index = 5043, adv_w = 256, box_w = 16, box_h = 14, ofs_x = 0, ofs_y = - 1\<rparr>,
    \<lparr>bitmap_index = 5138, adv_w = 256, box_w = 16, box_h = 11, ofs_x = 0, ofs_y = 0\<rparr>,
    \<lparr>bitmap_index = 5198, adv_w = 256, box_w = 16, box_h = 12, ofs_x = 0, ofs_y = 0\<rparr>,
    \<lparr>bitmap_index = 5271, adv_w = 256, box_w = 15, box_h = 12, ofs_x = 0, ofs_y = 0\<rparr>,
    \<lparr>bitmap_index = 5343, adv_w = 256, box_w = 15, box_h = 14, ofs_x = 1, ofs_y = - 1\<rparr>,
    \<lparr>bitmap_index = 5439, adv_w = 256, box_w = 15, box_h = 16, ofs_x = 1, ofs_y = - 2\<rparr>,
    \<lparr>bitmap_index = 5543, adv_w = 256, box_w = 15, box_h = 15, ofs_x = 1, ofs_y = - 2\<rparr>,
    \<lparr>bitmap_index = 5644, adv_w = 256, box_w = 12, box_h = 14, ofs_x = 2, ofs_y = - 1\<rparr>,
    \<lparr>bitmap_index = 5722, adv_w = 256, box_w = 15, box_h = 14, ofs_x = 1, ofs_y = - 1\<rparr>,
    \<lparr>bitmap_index = 5811, adv_w = 256, box_w = 14, box_h = 14, ofs_x = 1, ofs_y = - 1\<rparr>,
    \<lparr>bitmap_index = 5893, adv_w = 256, box_w = 14, box_h = 14, ofs_x = 1, ofs_y = - 1\<rparr>,
    \<lparr>bitmap_index = 5982, adv_w = 256, box_w = 14, box_h = 15, ofs_x = 1, ofs_y = - 1\<rparr>,
    \<lparr>bitmap_index = 6063, adv_w = 256, box_w = 13, box_h = 13, ofs_x = 1, ofs_y = - 2\<rparr>,
    \<lparr>bitmap_index = 6128, adv_w = 256, box_w = 15, box_h = 14, ofs_x = 0, ofs_y = - 1\<rparr>,
    \<lparr>bitmap_index = 6211, adv_w = 256, box_w = 11, box_h = 12, ofs_x = 3, ofs_y = - 2\<rparr>,
    \<lparr>bitmap_index = 6274, adv_w = 256, box_w = 13, box_h = 15, ofs_x = 2, ofs_y = - 1\<rparr>,
    \<lparr>bitmap_index = 6358, adv_w = 256, box_w = 10, box_h = 11, ofs_x = 3, ofs_y = - 1\<rparr>,
    \<lparr>bitmap_index = 6403, adv_w = 256, box_w = 12, box_h = 14, ofs_x = 2, ofs_y = - 1\<rparr>,
    \<lparr>bitmap_index = 6465, adv_w = 256, box_w = 12, box_h = 15, ofs_x = 2, ofs_y = - 2\<rparr>,
    \<lparr>bitmap_index = 6540, adv_w = 256, box_w = 10, box_h = 15, ofs_x = 3, ofs_y = - 1\<rparr>,
    \<lparr>bitmap_index = 6601, adv_w = 256, box_w = 13, box_h = 14, ofs_x = 1, ofs_y = - 1\<rparr>,
    \<lparr>bitmap_index = 6680, adv_w = 256, box_w = 16, box_h = 15, ofs_x = 0, ofs_y = - 1\<rparr>,
    \<lparr>bitmap_index = 6770, adv_w = 256, box_w = 13, box_h = 15, ofs_x = 1, ofs_y = - 2\<rparr>,
    \<lparr>bitmap_index = 6849, adv_w = 256, box_w = 15, box_h = 15, ofs_x = 0, ofs_y = - 1\<rparr>,
    \<lparr>bitmap_index = 6935, adv_w = 256, box_w = 14, box_h = 14, ofs_x = 1, ofs_y = - 1\<rparr>,
    \<lparr>bitmap_index = 7020, adv_w = 256, box_w = 14, box_h = 14, ofs_x = 1, ofs_y = - 1\<rparr>,
    \<lparr>bitmap_index = 7091, adv_w = 256, box_w = 14, box_h = 14, ofs_x = 2, ofs_y = - 1\<rparr>,
    \<lparr>bitmap_index = 7169, adv_w = 256, box_w = 14, box_h = 2, ofs_x = 1, ofs_y = 5\<rparr>]"

text \<open>Pairs of glyphs, left and right in turn, and their kerning.\<close>

definition kern_pair_glyph_ids :: "nat list" where
  "kern_pair_glyph_ids = [
    1, 20, 2, 1, 2, 20, 2, 22, 2, 23, 2, 24, 2, 25, 2, 26, 3, 1, 3, 3,
    3, 4, 3, 5, 3, 7, 3, 15, 3, 17, 3, 20, 3, 22, 3, 23, 3, 24, 3, 25,
    5, 1, 5, 7, 5, 20, 5, 22, 5, 23, 5, 24, 5, 25, 6, 1, 6, 3, 6, 4,
    6, 5, 6, 7, 6, 10, 6, 15, 6, 17, 6, 19, 6, 22, 6, 24, 6, 26, 7, 1,
    7, 3, 7, 4, 7, 5, 7, 10, 7, 15, 7, 17, 7, 22, 7, 23, 7, 25, 7, 26,
    11, 1, 11, 3, 11, 4, 11, 5, 11, 7, 11, 10, 11, 15, 11, 17, 11, 20, 11, 21,
    11, 24, 11, 26, 12, 10, 15, 1, 15, 20, 15, 22, 15, 23, 15, 24, 15, 25, 15, 26,
    16, 1, 16, 20, 16, 22, 16, 23, 16, 24, 16, 25, 16, 26, 18, 1, 18, 3, 18, 4,
    18, 5, 18, 7, 18, 15, 18, 17, 18, 19, 18, 22, 18, 23, 18, 25, 18, 26, 19, 20,
    20, 1, 20, 3, 20, 4, 20, 5, 20, 7, 20, 15, 20, 17, 20, 19, 20, 20, 20, 24,
    22, 1, 22, 3, 22, 4, 22, 5, 22, 10, 22, 15, 22, 17, 22, 26, 23, 1, 23, 3,
    23, 4, 23, 5, 23, 10, 23, 15, 23, 17, 23, 26, 24, 1, 24, 3, 24, 4, 24, 5,
    24, 15, 24, 17, 24, 20, 25, 1, 25, 3, 25, 4, 25, 5, 25, 10, 25, 15, 25, 17,
    25, 24, 25, 26, 26, 1, 26, 3, 26, 4, 26, 5, 26, 7, 26, 15, 26, 17, 26, 21,
    26, 22, 26, 25, 28, 64, 28, 65, 29, 64, 29, 65, 30, 64, 30, 65, 30, 98, 34, 39,
    34, 40, 34, 41, 34, 42, 34, 62, 34, 63, 34, 64, 34, 65, 34, 82, 34, 83, 34, 84,
    34, 101, 37, 73, 37, 98, 38, 98, 39, 29, 39, 31, 39, 32, 39, 33, 39, 35, 39, 61,
    39, 101, 40, 29, 40, 31, 40, 33, 40, 35, 40, 41, 40, 42, 40, 61, 40, 93, 40, 95,
    40, 97, 41, 32, 41, 64, 41, 65, 41, 89, 41, 101, 42, 32, 42, 64, 42, 65, 42, 89,
    42, 101, 45, 51, 45, 52, 45, 61, 46, 51, 46, 52, 46, 64, 46, 65, 48, 98, 49, 51,
    49, 52, 49, 62, 49, 63, 49, 64, 49, 65, 49, 94, 51, 29, 51, 31, 51, 33, 51, 35,
    51, 61, 51, 64, 51, 65, 51, 79, 51, 80, 51, 81, 51, 82, 51, 83, 51, 84, 51, 93,
    52, 58, 52, 82, 52, 83, 52, 84, 54, 51, 54, 52, 54, 64, 54, 65, 54, 82, 54, 83,
    54, 84, 57, 88, 57, 103, 58, 88, 58, 103, 61, 64, 61, 72, 64, 28, 64, 36, 64, 39,
    64, 40, 64, 41, 64, 42, 64, 55, 64, 56, 64, 61, 64, 62, 64, 63, 64, 73, 64, 74,
    64, 75, 64, 88, 64, 92, 64, 105, 65, 28, 65, 42, 66, 41, 66, 51, 66, 52, 66, 55,
    66, 56, 66, 61, 66, 62, 66, 63, 66, 64, 66, 65, 66, 68, 66, 72, 66, 82, 66, 83,
    66, 84, 67, 39, 67, 40, 67, 41, 67, 42, 67, 45, 67, 46, 67, 47, 67, 48, 67, 55,
    67, 56, 67, 62, 67, 63, 67, 64, 67, 65, 67, 68, 67, 82, 67, 83, 67, 84, 67, 89,
    69, 38, 69, 41, 69, 42, 69, 45, 69, 46, 69, 47, 69, 48, 69, 51, 69, 52, 69, 55,
    69, 56, 70, 39, 70, 40, 70, 59, 70, 76, 70, 77, 70, 78, 72, 39, 73, 57, 73, 58,
    74, 37, 75, 37, 76, 66, 76, 67, 79, 59, 79, 60, 80, 59, 80, 60, 81, 59, 81, 60,
    82, 64, 82, 65, 82, 66, 82, 67, 83, 64, 83, 65, 83, 67, 84, 64, 84, 65, 84, 66,
    84, 67, 87, 81, 88, 53, 88, 54, 88, 61, 92, 30, 92, 32, 92, 55, 92, 56, 92, 62,
    92, 64, 92, 65, 92, 66, 92, 67, 96, 79, 96, 80, 96, 81, 98, 31, 98, 61, 98, 100,
    98, 101, 99, 51, 99, 52, 99, 53, 99, 54, 99, 64, 99, 65, 100, 62, 101, 62, 101, 63,
    102, 62, 102, 63, 102, 64, 102, 65, 102, 79, 102, 80, 102, 81, 104, 102, 106, 51, 106, 64,
    106, 65, 106, 67, 108, 64, 108, 65, 108, 79, 108, 80, 108, 81]"

definition kern_pair_values :: "int list" where
  "kern_pair_values = [
    - 4, - 4, - 5, - 1, - 1, - 5, - 1, - 2, - 3, - 6, - 6, - 6, - 3, - 6, - 6, - 3,
    2, 2, 2, 2, - 4, - 3, - 3, 1, 1, - 2, 1, - 6, - 3, - 3, - 3, - 4,
    - 3, - 3, - 3, - 1, 4, - 1, - 4, - 5, - 4, - 4, - 4, 10, - 4, - 4, - 1, - 1,
    4, - 4, - 3, - 5, - 5, - 5, - 3, - 3, - 5, - 5, - 6, - 4, - 2, - 2, 2, - 4,
    - 5, - 1, - 1, - 5, - 1, - 2, - 4, - 5, - 1, - 1, - 5, - 1, - 2, - 7, - 3, - 3,
    - 3, - 3, - 3, - 3, - 1, 7, 5, 7, - 1, - 6, - 6, - 4, - 4, - 4, - 3, - 4,
    - 4, - 3, - 6, - 5, - 6, - 1, - 1, - 1, - 3, - 1, - 1, - 7, - 3, - 1, - 1, - 1,
    - 3, - 1, - 1, - 5, - 3, - 5, - 5, - 5, - 5, - 5, - 7, - 6, - 1, - 1, - 1, - 3,
    - 1, - 1, - 4, - 7, - 7, - 3, - 3, - 3, - 2, - 3, - 3, - 3, - 1, - 1, - 5, - 5,
    - 5, - 5, - 8, - 8, - 5, - 8, - 8, - 8, - 8, - 8, - 8, - 13, - 8, - 18, - 18, - 18,
    - 8, - 10, - 13, - 13, - 10, - 10, - 5, - 8, - 8, - 10, - 5, - 5, - 8, - 5, - 10, 5,
    5, - 10, - 5, - 8, - 13, - 5, - 8, - 8, 10, - 5, - 5, 3, 3, 8, - 5, - 5,
    - 5, - 18, 3, 3, 3, 3, - 10, - 5, - 5, - 15, - 15, - 8, - 8, - 3, - 5, - 8,
    - 10, - 5, - 10, 3, 3, - 5, - 5, - 5, - 18, - 18, - 18, - 5, - 3, - 13, - 13, - 13,
    5, 5, 8, 8, - 13, - 13, - 13, - 8, - 15, - 5, - 15, - 13, 8, - 8, - 8, - 8,
    - 8, - 8, - 8, - 8, - 8, - 15, - 5, - 5, - 5, - 5, - 5, - 13, - 13, - 5, - 3, 5,
    - 8, - 8, - 8, - 8, - 8, - 8, - 10, - 10, - 8, - 8, - 8, - 3, - 13, - 13, - 13, - 8,
    - 8, - 8, - 8, - 8, - 8, - 8, - 8, - 8, - 8, - 8, - 8, - 5, - 5, - 5, - 13, - 13,
    - 13, - 8, - 5, - 5, - 5, - 5, - 5, - 5, - 5, 3, 3, - 5, - 5, - 5, - 5, - 8,
    - 5, - 5, - 5, - 8, - 5, - 5, 5, 5, - 8, - 8, - 8, - 8, 3, 3, 3, 3,
    - 18, - 18, - 13, - 13, - 10, - 10, - 10, - 10, - 10, - 10, - 10, 3, - 8, - 8, - 10, - 5,
    - 8, - 5, - 5, - 10, - 10, - 10, - 5, - 5, - 5, - 8, - 8, - 10, - 8, - 5, - 8, - 5,
    - 5, - 5, - 5, - 8, - 8, 3, - 10, - 10, - 5, - 5, - 8, - 8, 3, 3, 3, - 13,
    - 5, - 13, - 13, - 8, - 15, - 15, - 10, - 10, - 10]"

definition pair_cnt :: nat where "pair_cnt = 377"

section \<open>Specification\<close>

text \<open>The code point of a sequence of one or three bytes.\<close>

definition code_point :: "byte list \<Rightarrow> int" where
  "code_point q = (if length q = 1 then uint (q ! 0) else uint (kata_cp (q ! 0) (q ! 1) (q ! 2)))"

text \<open>The position of a value in a list of offsets.\<close>

fun offset_pos :: "int list \<Rightarrow> int \<Rightarrow> nat option" where
  "offset_pos [] x = None"
| "offset_pos (y # ys) x = (if x = y then Some 0 else map_option Suc (offset_pos ys x))"

text \<open>
  The glyph of a code point in the first map whose range holds it: a \<open>FORMAT0_TINY\<close> map counts
  through, a \<open>SPARSE_TINY\<close> map lists the offsets of the code points it has.
\<close>

fun cmap_find :: "lv_font_fmt_txt_cmap list \<Rightarrow> int \<Rightarrow> nat option" where
  "cmap_find [] cp = None"
| "cmap_find (c # cs) cp =
     (if range_start c \<le> cp \<and> cp < range_start c + range_length c
      then (case cm_type c of
              FORMAT0_TINY \<Rightarrow> Some (glyph_id_start c + nat (cp - range_start c))
            | SPARSE_TINY \<Rightarrow> map_option ((+) (glyph_id_start c)) (offset_pos (unicode_list c) (cp - range_start c)))
      else cmap_find cs cp)"

definition lookup_ok :: "(lv_font_fmt_txt_cmap list \<Rightarrow> int \<Rightarrow> nat) \<Rightarrow> bool" where
  "lookup_ok get \<longleftrightarrow> (\<forall>cs cp g. cmap_find cs cp = Some g \<longrightarrow> get cs cp = g)"

text \<open>A glyph that is there and is not empty.\<close>

definition drawn :: "nat \<Rightarrow> bool" where
  "drawn g \<longleftrightarrow> 0 < g \<and> g < length glyph_dsc \<and> 0 < adv_w (glyph_dsc ! g) \<and> 0 < box_w (glyph_dsc ! g) \<and> 0 < box_h (glyph_dsc ! g)"

definition has_glyph :: "byte list \<Rightarrow> bool" where
  "has_glyph q = (case cmap_find cmaps (code_point q) of None \<Rightarrow> False | Some g \<Rightarrow> drawn g)"

section \<open>Lemmas\<close>

lemma glyph_dsc_boxes: "list_all (\<lambda>g. 0 < adv_w g \<and> 0 < box_w g \<and> 0 < box_h g) (tl glyph_dsc)"
  by (simp add: glyph_dsc_def)

lemma length_glyph_dsc: "length glyph_dsc = 109"
  by (simp add: glyph_dsc_def)

lemma drawn_iff: "drawn g \<longleftrightarrow> 0 < g \<and> g < 109"
proof -
  have "glyph_dsc ! g = tl glyph_dsc ! (g - 1)" if "0 < g" "g < 109"
    using that by (simp add: nth_tl length_glyph_dsc)
  then show ?thesis
    using glyph_dsc_boxes by (auto simp: drawn_def length_glyph_dsc list_all_length)
qed

lemma has_glyph_code [code]:
  "has_glyph q = (case cmap_find cmaps (code_point q) of None \<Rightarrow> False | Some g \<Rightarrow> 0 < g \<and> g < 109)"
  unfolding has_glyph_def drawn_iff ..

lemma table_has_glyphs: "list_all (\<lambda>(r, k). list_all has_glyph (utf8_split k)) ROMAJI_TABLE"
  by code_simp

lemma small_tsu_has_glyph: "list_all has_glyph (utf8_split SMALL_TSU)"
  by code_simp

lemma letters_have_glyphs: "list_all (\<lambda>i. list_all has_glyph (utf8_split [word_of_int i])) [97..122]"
  by code_simp

lemma letter_key_has_glyph: "letter_key c \<Longrightarrow> list_all has_glyph (utf8_split [c])"
  using letters_have_glyphs letter_key_in [of c] by (auto simp: list_all_iff)

lemma find_take_has_glyphs: "find_take s t = Some (k, u) \<Longrightarrow> list_all has_glyph (utf8_split k)"
  using table_has_glyphs
  by (induction t) (auto simp: list_all_iff split: if_splits option.splits dest!: map_of_SomeD)

lemma next_chunk_has_glyphs:
  "list_all letter_key s \<Longrightarrow> s \<noteq> [] \<Longrightarrow> list_all has_glyph (utf8_split (fst (next_chunk s)))"
  using small_tsu_has_glyph letter_key_has_glyph
  by (cases s) (auto simp: next_chunk_def split: option.splits dest: find_take_has_glyphs)

lemma kana_chunks_have_glyphs:
  "list_all letter_key s \<Longrightarrow> \<forall>c \<in> set (kana_chunks s). list_all has_glyph (utf8_split c)"
proof (induction s rule: kana_chunks.induct)
  case (1 s)
  show ?case
  proof (cases "s = []")
    case False
    have "list_all letter_key (drop (snd (next_chunk s)) s)"
      using "1.prems" by (auto simp: list_all_iff dest: in_set_dropD)
    then show ?thesis
      using "1.IH" [OF False] "1.prems" next_chunk_has_glyphs [of s] False
      by (subst kana_chunks.simps) auto
  qed simp
qed

lemma utf8_split_concat_wf:
  assumes "\<forall>c \<in> set cs. wf_utf8 c"
  shows "utf8_split (concat cs) = concat (map utf8_split cs)"
proof -
  have "concat (concat (map utf8_split cs)) = concat cs" by (induction cs) simp_all
  then show ?thesis
    using utf8_split_concat [of "concat (map utf8_split cs)"] assms by (auto simp: wf_utf8_def list_all_iff)
qed

text \<open>A part of the conversion of letters, cut between chunks, has a glyph for each of its sequences.\<close>

lemma converted_has_glyphs:
  assumes "list_all letter_key s" and "kana_chunks s = cs1 @ cs2"
  shows "list_all has_glyph (utf8_split (concat cs1))"
proof -
  have "list_all ascii s" using assms(1) letter_key_ascii by (auto simp: list_all_iff)
  then have "\<forall>c \<in> set cs1. wf_utf8 c" using kana_chunks_wf [of s] assms(2) by auto
  then show ?thesis
    using utf8_split_concat_wf [of cs1] kana_chunks_have_glyphs [OF assms(1)] assms(2) by (auto simp: list_all_iff)
qed

text \<open>
  The kerning pairs name glyphs of the font, have a value each and are strictly ascending, as a
  binary search over them needs it.
\<close>

fun id_pairs :: "nat list \<Rightarrow> (nat \<times> nat) list" where
  "id_pairs (l # r # ids) = (l, r) # id_pairs ids"
| "id_pairs _ = []"

fun pairs_ascending :: "(nat \<times> nat) list \<Rightarrow> bool" where
  "pairs_ascending ((l, r) # (l', r') # ps) \<longleftrightarrow> (l < l' \<or> l = l' \<and> r < r') \<and> pairs_ascending ((l', r') # ps)"
| "pairs_ascending _ \<longleftrightarrow> True"

lemma kern_counts: "length kern_pair_glyph_ids = 2 * pair_cnt" "length kern_pair_values = pair_cnt"
  by (simp_all add: kern_pair_glyph_ids_def kern_pair_values_def pair_cnt_def)

lemma kern_ids_in_font: "list_all (\<lambda>i. 0 < i \<and> i < length glyph_dsc) kern_pair_glyph_ids"
  unfolding length_glyph_dsc by (simp add: kern_pair_glyph_ids_def)

lemma kern_ascending: "pairs_ascending (id_pairs kern_pair_glyph_ids)"
  by (simp add: kern_pair_glyph_ids_def)

section \<open>Properties\<close>

text \<open>
  C20. The furigana label can show whatever the user types: for letters of the keyboard the
  converter leaves a string each of whose characters has a glyph with a box of its own in the font of
  the label, also when the conversion runs out of room.
\<close>

theorem furigana_has_glyphs:
  assumes "lookup_ok get" and "list_all letter_key s" and "cstr src 0 s" and "0 < n" and "n \<le> length dst" and "n < 2 ^ 31"
  shows "\<exists>r dst' out. rust_romaji_to_kana (Some src) (Some dst) n = Some (r, Some dst') \<and> cstr dst' 0 out
    \<and> (\<forall>q \<in> set (utf8_split out). drawn (get cmaps (code_point q)))"
proof -
  obtain cs1 cs2 where c: "kana_chunks s = cs1 @ cs2"
      "romaji_to_kana src dst n = Some (if cs2 = [] then int (length (concat cs1)) else - 1, blit dst 0 (concat cs1 @ [0]))"
      "length (concat cs1) < n"
    using c_kana.conv_result [OF assms(3-6)] by blast
  have "\<forall>c \<in> set (kana_chunks s). 0 \<notin> set c" using kana_chunks_nonzero cstr_nonzero [OF assms(3)] by blast
  then have "cstr (blit dst 0 (concat cs1 @ [0])) 0 (concat cs1)"
    using c(1,3) assms(5) by (intro cstr_blit) auto
  moreover have "drawn (get cmaps (code_point q))" if "has_glyph q" for q
    using that assms(1) by (auto simp: has_glyph_def lookup_ok_def split: option.splits)
  moreover have "rust_romaji_to_kana (Some src) (Some dst) n =
      Some (if cs2 = [] then int (length (concat cs1)) else - 1, Some (blit dst 0 (concat cs1 @ [0])))"
    using rust_romaji_to_kana_eq [OF assms(3,4,5)] c(2) by simp
  ultimately show ?thesis
    using converted_has_glyphs [OF assms(2) c(1)] unfolding list_all_iff by blast
qed

theorem furigana_has_glyphs_witness:
  "\<exists>r dst' out. rust_romaji_to_kana (Some (lit ''shi'' @ [0])) (Some (replicate 9 7)) 9 = Some (r, Some dst')
     \<and> cstr dst' 0 out
     \<and> (\<forall>q \<in> set (utf8_split out). drawn ((\<lambda>cs cp. case cmap_find cs cp of None \<Rightarrow> 0 | Some g \<Rightarrow> g) cmaps (code_point q)))"
  by (rule furigana_has_glyphs [where s = "lit ''shi''"]) (simp_all add: lookup_ok_def cstr_def letter_key_def)

end
