(* ===== verification/LibcPath.thy ===== *)
theory LibcPath
  imports LibcString
begin

text \<open>
  The bounded string routines of \<open>libs/libc/string\<close> the host file system uses: \<open>strlcpy\<close>,
  \<open>strlcat\<close>, \<open>strncmp\<close> and \<open>strtok_r\<close>, with what they compute on C strings.
\<close>

section \<open>Definitions\<close>

text \<open>\<open>lib_strlcpy.c\<close>: the copy loop with the bytes left, before the decrement of its condition.\<close>

fun strlcpy_loop :: "nat \<Rightarrow> mem \<Rightarrow> nat \<Rightarrow> mem \<Rightarrow> nat \<Rightarrow> (nat \<times> mem \<times> nat \<times> nat) option" where
  "strlcpy_loop 0 d dst s src = Some (0, d, dst, src)"
| "strlcpy_loop (Suc n) d dst s src =
     (if n = 0 then Some (0, d, dst, src)
      else do {
        b \<leftarrow> rd s src;
        d \<leftarrow> wr d dst b;
        if b = 0 then Some (n, d, dst + 1, src + 1) else strlcpy_loop n d (dst + 1) s (src + 1) })"

definition strlcpy :: "mem \<Rightarrow> nat \<Rightarrow> mem \<Rightarrow> nat \<Rightarrow> nat \<Rightarrow> (nat \<times> mem) option" where
  "strlcpy d dst s src dsize = do {
     (nleft, d, dst, sp) \<leftarrow> strlcpy_loop dsize d dst s src;
     if nleft = 0 then do {
       d \<leftarrow> (if dsize \<noteq> 0 then wr d dst 0 else Some d);
       e \<leftarrow> strlen_loop s sp;
       Some (e - src, d) }
     else Some (sp - src - 1, d) }"

text \<open>\<open>lib_strlcat.c\<close>: the end of the destination, not beyond its size, and the copy loop.\<close>

fun strlcat_end :: "nat \<Rightarrow> mem \<Rightarrow> nat \<Rightarrow> nat option" where
  "strlcat_end 0 d dst = Some dst"
| "strlcat_end (Suc n) d dst = do { b \<leftarrow> rd d dst; if b \<noteq> 0 then strlcat_end n d (dst + 1) else Some dst }"

function strlcat_loop :: "nat \<Rightarrow> mem \<Rightarrow> nat \<Rightarrow> mem \<Rightarrow> nat \<Rightarrow> (mem \<times> nat \<times> nat) option" where
  "strlcat_loop n d dst s src = do {
     b \<leftarrow> rd s src;
     if b \<noteq> 0 then
       if n \<noteq> 0 then do { d \<leftarrow> wr d dst b; strlcat_loop (n - 1) d (dst + 1) s (src + 1) }
       else strlcat_loop n d dst s (src + 1)
     else Some (d, dst, src) }"
  by pat_completeness auto
termination
  by (relation "measure (\<lambda>(n, d, dst, s, src). length s - src)") (auto simp: rd_Some_iff)

definition strlcat :: "mem \<Rightarrow> nat \<Rightarrow> mem \<Rightarrow> nat \<Rightarrow> nat \<Rightarrow> (nat \<times> mem) option" where
  "strlcat d dst s src dsize = do {
     e \<leftarrow> strlcat_end dsize d dst;
     let dlen = e - dst;
     let n = dsize - dlen;
     if n = 0 then do { l \<leftarrow> strlen s src; Some (dlen + l, d) }
     else do {
       (d, p, sp) \<leftarrow> strlcat_loop (n - 1) d e s src;
       d \<leftarrow> wr d p 0;
       Some (dlen + (sp - src), d) } }"

text \<open>\<open>lib_strncmp.c\<close>.\<close>

fun strncmp :: "mem \<Rightarrow> nat \<Rightarrow> mem \<Rightarrow> nat \<Rightarrow> nat \<Rightarrow> int option" where
  "strncmp m cs m' ct 0 = Some 0"
| "strncmp m cs m' ct (Suc nb) = do {
     a \<leftarrow> rd m cs;
     b \<leftarrow> rd m' ct;
     if uint a - uint b \<noteq> 0 \<or> a = 0 then Some (uint a - uint b) else strncmp m (cs + 1) m' (ct + 1) nb }"

text \<open>
  \<open>lib_strtokr.c\<close>: the loops that look for a byte inside or outside the delimiters, and the token. A
  null pointer is \<open>None\<close>; the result has the token, the object and the saved pointer.
\<close>

function tok_skip :: "bool \<Rightarrow> mem \<Rightarrow> nat \<Rightarrow> mem \<Rightarrow> nat option" where
  "tok_skip inside m p delim = do {
     b \<leftarrow> rd m p;
     if b = 0 then Some p
     else do {
       c \<leftarrow> strchr delim 0 b;
       if (c \<noteq> None) = inside then tok_skip inside m (p + 1) delim else Some p } }"
  by pat_completeness auto
termination
  by (relation "measure (\<lambda>(inside, m, p, delim). length m - p)") (auto simp: rd_Some_iff)

definition strtok_r :: "mem \<Rightarrow> nat option \<Rightarrow> mem \<Rightarrow> nat option \<Rightarrow> (nat option \<times> mem \<times> nat option) option" where
  "strtok_r m str delim saveptr =
     (case (if str \<noteq> None then str else saveptr) of None \<Rightarrow> Some (None, m, saveptr)
      | Some p \<Rightarrow> do {
          pbegin \<leftarrow> tok_skip True m p delim;
          b \<leftarrow> rd m pbegin;
          if b = 0 then Some (None, m, saveptr)
          else do {
            pend \<leftarrow> tok_skip False m (pbegin + 1) delim;
            e \<leftarrow> rd m pend;
            if e \<noteq> 0 then do { m \<leftarrow> wr m pend 0; Some (Some pbegin, m, Some (pend + 1)) }
            else Some (Some pbegin, m, Some pend) } })"

declare strlcat_loop.simps [simp del] tok_skip.simps [simp del]

section \<open>What the routines compute\<close>

lemma cstr_rd0: "cstr m p s \<Longrightarrow> rd m p = Some (case s of [] \<Rightarrow> 0 | a # t \<Rightarrow> a)"
  using cstr_nth [of m p s 0] cstr_nth_end [of m p s] cstr_bounds [of m p s]
  by (auto split: list.splits)

lemma cstr_Cons: "cstr m p (a # t) \<Longrightarrow> rd m p = Some a \<and> a \<noteq> 0 \<and> cstr m (p + 1) t"
  using cstr_rd0 [of m p "a # t"] cstr_nonzero [of m p "a # t"] cstr_shift [of m p a t] by auto

lemma strlcpy_loop_cstr:
  "cstr s src t \<Longrightarrow> 0 < n \<Longrightarrow> dst + n \<le> length d \<Longrightarrow>
   strlcpy_loop n d dst s src =
     Some (if length t < n - 1 then (n - 1 - length t, blit d dst (t @ [0]), dst + length t + 1, src + length t + 1)
           else (0, blit d dst (take (n - 1) t), dst + (n - 1), src + (n - 1)))"
proof (induction n arbitrary: d dst src t)
  case (Suc n)
  show ?case
  proof (cases "n = 0")
    case False
    show ?thesis
    proof (cases t)
      case Nil
      then show ?thesis using Suc.prems False cstr_rd0 [OF Suc.prems(1)] by (simp add: blit_single)
    next
      case (Cons a u)
      have a: "rd s src = Some a" "a \<noteq> 0" "cstr s (src + 1) u" using cstr_Cons Suc.prems(1) Cons by blast+
      then have IH: "strlcpy_loop n (d[dst := a]) (dst + 1) s (src + 1) =
          Some (if length u < n - 1 then (n - 1 - length u, blit (d[dst := a]) (dst + 1) (u @ [0]), dst + 1 + length u + 1, src + 1 + length u + 1)
                else (0, blit (d[dst := a]) (dst + 1) (take (n - 1) u), dst + 1 + (n - 1), src + 1 + (n - 1)))"
        using Suc.prems False by (intro Suc.IH) auto
      have "take n t = a # take (n - 1) u" using Cons False by (cases n) simp_all
      then show ?thesis using IH a(1,2) Suc.prems False Cons by (auto simp: blit_Cons)
    qed
  qed simp
qed simp

lemma strlcpy_cstr:
  assumes "cstr s src t" and "0 < n" and "dst + n \<le> length d"
  shows "strlcpy d dst s src n = Some (length t, blit d dst (take (n - 1) t @ [0]))"
proof (cases "length t < n - 1")
  case True
  then have "n - 1 - length t \<noteq> 0" by simp
  then show ?thesis using strlcpy_loop_cstr [OF assms] True by (simp add: strlcpy_def del: diff_diff_left)
next
  case False
  define k where "k = n - 1"
  then have k: "k \<le> length t" "n = Suc k" using False assms(2) by simp_all
  have "cstr s (src + k) (drop k t)" using cstr_drop_prefix [of s src "take k t" "drop k t"] assms(1) k by simp
  then have "strlen_loop s (src + k) = Some (src + length t)" using strlen_loop_cstr k by fastforce
  moreover have "blit d dst (take k t @ [0]) = (blit d dst (take k t))[dst + k := 0]"
    using blit_append [of dst "take k t" "[0]" d] assms(3) k by (simp add: blit_single)
  ultimately show ?thesis using strlcpy_loop_cstr [OF assms] k assms(3) by (simp add: strlcpy_def)
qed

lemma strlcat_end_cstr: "cstr d dst t \<Longrightarrow> strlcat_end n d dst = Some (dst + min n (length t))"
proof (induction n arbitrary: dst t)
  case (Suc n)
  then show ?case using cstr_rd0 [OF Suc.prems] cstr_Cons by (cases t) fastforce+
qed simp

lemma strlcat_loop_cstr:
  "cstr s src t \<Longrightarrow> dst + n \<le> length d \<Longrightarrow>
   strlcat_loop n d dst s src = Some (blit d dst (take n t), dst + min n (length t), src + length t)"
proof (induction t arbitrary: n d dst src)
  case Nil
  then show ?case using cstr_rd0 [OF Nil(1)] by (subst strlcat_loop.simps) simp
next
  case (Cons a t)
  have a: "rd s src = Some a" "a \<noteq> 0" "cstr s (src + 1) t" using cstr_Cons Cons.prems(1) by blast+
  show ?case
  proof (cases n)
    case 0
    then show ?thesis using a Cons.IH [OF a(3), of dst 0 d] Cons.prems by (subst strlcat_loop.simps) simp
  next
    case (Suc k)
    then show ?thesis using a Cons.IH [OF a(3), of "dst + 1" k "d[dst := a]"] Cons.prems
      by (subst strlcat_loop.simps) (simp add: blit_Cons)
  qed
qed

text \<open>\<open>strlcat\<close> with a size that ends before the string in the destination leaves it as it is.\<close>

lemma strlcat_cstr:
  assumes "cstr d dst u" and "cstr s src t" and "dst + n \<le> length d"
  shows "\<exists>r. strlcat d dst s src n = Some (r, if length u < n then blit d (dst + length u) (take (n - 1 - length u) t @ [0]) else d)"
proof (cases "length u < n")
  case True
  define k where "k = n - 1 - length u"
  define b where "b = take k t"
  have n: "n = Suc (length u + k)" using True by (simp add: k_def)
  have "strlcat_loop k d (dst + length u) s src = Some (blit d (dst + length u) b, dst + length u + length b, src + length t)"
    using strlcat_loop_cstr [OF assms(2)] assms(3) n by (simp add: b_def min.commute)
  moreover have lb: "length b \<le> k" by (simp add: b_def)
  then have "blit d (dst + length u) (b @ [0]) = (blit d (dst + length u) b)[dst + length u + length b := 0]"
    using blit_append [of "dst + length u" b "[0]" d] assms(3) n by (simp add: blit_single)
  ultimately show ?thesis
    using strlcat_end_cstr [OF assms(1), of n] assms(3) n lb by (simp add: strlcat_def Let_def b_def)
next
  case False
  then show ?thesis
    using strlcat_end_cstr [OF assms(1), of n] strlen_cstr [OF assms(2)] by (simp add: strlcat_def Let_def)
qed

text \<open>\<open>strncmp\<close> against a text without zero of the compared length tests a prefix.\<close>

lemma strncmp_prefix:
  "cstr m p s \<Longrightarrow> take (length t) (drop q m') = t \<Longrightarrow> 0 \<notin> set t \<Longrightarrow>
   \<exists>r. strncmp m p m' q (length t) = Some r \<and> (r = 0 \<longleftrightarrow> take (length t) s = t)"
proof (induction t arbitrary: p s q)
  case (Cons b t)
  have b: "rd m' q = Some b" "take (length t) (drop (q + 1) m') = t"
  proof -
    have q: "q < length m'" using Cons.prems(2) by (cases "q < length m'") simp_all
    then have "drop q m' = m' ! q # drop (q + 1) m'" by (simp add: Cons_nth_drop_Suc)
    then show "rd m' q = Some b" "take (length t) (drop (q + 1) m') = t" using q Cons.prems(2) by simp_all
  qed
  show ?case
  proof (cases s)
    case Nil
    then show ?thesis using b cstr_rd0 [OF Cons.prems(1)] Cons.prems(3) by (auto simp: uint_0_iff)
  next
    case S: (Cons a u)
    have a: "rd m p = Some a" "a \<noteq> 0" "cstr m (p + 1) u" using cstr_Cons Cons.prems(1) S by blast+
    then show ?thesis using b S Cons.IH [OF a(3) b(2)] Cons.prems(3) by (auto simp: word_uint_eq_iff)
  qed
qed simp

subsection \<open>Tokens\<close>

lemma tok_skip_cstr:
  assumes "cstr delim 0 [c]"
  shows "cstr m p s \<Longrightarrow> tok_skip inside m p delim = Some (p + length (takeWhile (\<lambda>b. (b = c) = inside) s))
    \<and> cstr m (p + length (takeWhile (\<lambda>b. (b = c) = inside) s)) (dropWhile (\<lambda>b. (b = c) = inside) s)"
proof (induction s arbitrary: p)
  case Nil
  then show ?case using cstr_rd0 [OF Nil] by (subst tok_skip.simps) simp
next
  case (Cons a s)
  have a: "rd m p = Some a" "a \<noteq> 0" "cstr m (p + 1) s" using cstr_Cons Cons.prems by blast+
  have "strchr delim 0 a = Some (if a = c then Some 0 else None)" using strchr_cstr [OF assms a(2)] by auto
  then show ?case using a Cons.IH [OF a(3)] Cons.prems by (subst tok_skip.simps) auto
qed

text \<open>One token and what is left.\<close>

lemma strtok_r_cstr:
  assumes "cstr delim 0 [c]" and "cstr m p s" and "(if str \<noteq> None then str else saveptr) = Some p"
  defines "t \<equiv> dropWhile (\<lambda>b. b = c) s"
  shows "if t = [] then strtok_r m str delim saveptr = Some (None, m, saveptr)
    else \<exists>q m' p'. strtok_r m str delim saveptr = Some (Some q, m', Some p') \<and> length m' = length m
      \<and> cstr m' q (takeWhile (\<lambda>b. b \<noteq> c) t) \<and> cstr m' p' (drop 1 (dropWhile (\<lambda>b. b \<noteq> c) t))"
proof -
  define q where "q = p + length (takeWhile (\<lambda>b. b = c) s)"
  have q: "tok_skip True m p delim = Some q" "cstr m q t"
    using tok_skip_cstr [OF assms(1,2), of True] by (simp_all add: q_def t_def)
  show ?thesis
  proof (cases t)
    case Nil
    then show ?thesis using q cstr_rd0 [OF q(2)] assms(3) by (simp add: strtok_r_def)
  next
    case (Cons a u)
    have a: "rd m q = Some a" "a \<noteq> 0" "cstr m (q + 1) u" using cstr_Cons q(2) Cons by blast+
    have ac: "a \<noteq> c" using hd_dropWhile [of "\<lambda>b. b = c" s] Cons unfolding t_def by (metis list.discI list.sel(1))
    define w v where "w = takeWhile (\<lambda>b. b \<noteq> c) u" and "v = dropWhile (\<lambda>b. b \<noteq> c) u"
    define e where "e = q + 1 + length w"
    have e: "tok_skip False m (q + 1) delim = Some e" "cstr m e v"
      using tok_skip_cstr [OF assms(1) a(3), of False] by (simp_all add: e_def w_def v_def)
    have t: "takeWhile (\<lambda>b. b \<noteq> c) t = a # w" "dropWhile (\<lambda>b. b \<noteq> c) t = v" "t = a # w @ v"
      using Cons ac by (simp_all add: w_def v_def)
    show ?thesis
    proof (cases v)
      case Nil
      then show ?thesis using q a e t Cons cstr_rd0 [OF e(2)] assms(3) by (auto simp: strtok_r_def)
    next
      case V: (Cons b x)
      have b: "rd m e = Some b" "b \<noteq> 0" "cstr m (e + 1) x" using cstr_Cons e(2) V by blast+
      obtain r where r: "drop q m = (a # w) @ b # x @ 0 # r" using cstr_drop [OF q(2)] t(3) V by auto
      have lm: "e < length m" using b(1) by (simp add: rd_Some_iff)
      have "drop q (m[e := 0]) = (a # w) @ 0 # x @ 0 # r"
        using r by (simp add: drop_update_swap e_def list_update_append)
      then have "cstr (m[e := 0]) q (a # w)" using cstr_nonzero [OF q(2)] t(3) by (intro cstrI_drop) auto
      moreover have "cstr (m[e := 0]) (e + 1) x" using b(3) by (simp add: cstr_def)
      ultimately show ?thesis using q a b e t V Cons assms(3) lm by (auto simp: strtok_r_def)
    qed
  qed
qed

end
