(* ===== verification/Inode.thy ===== *)
theory Inode
  imports LibcPath Serial
begin

text \<open>
  The pseudo file system of NuttX: the tree of inodes in \<open>nuttx/fs/inode\<close>, in which mount points
  and device drivers have their names. An inode has pointers to its parent, to its next peer and to
  its first child; peers are ordered by name. The model keeps the pointers: a heap of inodes, the
  address of the root and the counter of serial numbers.

  The options \<open>PSEUDOFS_SOFTLINKS\<close>, \<open>PSEUDOFS_ATTRIBUTES\<close>, \<open>PSEUDOFS_FILE\<close> and \<open>FS_PERMISSION\<close>
  are off, as by default. The lock of the tree has no effect of its own: each operation runs alone.
  \<open>None\<close> is a fault, a failing \<open>DEBUGASSERT\<close> or a loop that does not end.
\<close>

section \<open>Constants and state\<close>

definition ENOENT :: int where "ENOENT = 2"
definition EEXIST :: int where "EEXIST = 17"
definition ENOMEM :: int where "ENOMEM = 12"

definition FSNODEFLAG_TYPE_MASK :: "16 word" where "FSNODEFLAG_TYPE_MASK = 0xf"
definition FSNODEFLAG_TYPE_PSEUDODIR :: "16 word" where "FSNODEFLAG_TYPE_PSEUDODIR = 0"
definition FSNODEFLAG_TYPE_DRIVER :: "16 word" where "FSNODEFLAG_TYPE_DRIVER = 1"
definition FSNODEFLAG_TYPE_MOUNTPT :: "16 word" where "FSNODEFLAG_TYPE_MOUNTPT = 3"
definition FSNODEFLAG_TYPE_PIPE :: "16 word" where "FSNODEFLAG_TYPE_PIPE = 0xa"

text \<open>Which operations the structure behind \<open>u.i_ops\<close> has: read, write and ioctl.\<close>

record file_ops =
  op_read :: bool
  op_write :: bool
  op_ioctl :: bool

text \<open>\<open>struct inode\<close> without \<open>i_size\<close>, which shared memory and pseudo files use.\<close>

record inode =
  i_parent :: "nat option"
  i_peer :: "nat option"
  i_child :: "nat option"
  i_crefs :: int
  i_flags :: "16 word"
  i_ops :: "file_ops option"
  i_ino :: nat
  i_private :: "nat option"
  i_name :: mem

record itree =
  nodes :: "nat \<rightharpoonup> inode"
  g_root_inode :: "nat option"
  g_ino :: nat

text \<open>\<open>struct inode_search_s\<close>: pointers into the path are offsets into its object.\<close>

record search_desc =
  sd_path :: nat
  sd_node :: "nat option"
  sd_peer :: "nat option"
  sd_parent :: "nat option"
  sd_relpath :: "nat option"

definition INODE_IS_TYPE :: "inode \<Rightarrow> 16 word \<Rightarrow> bool" where
  "INODE_IS_TYPE i t \<longleftrightarrow> i_flags i AND FSNODEFLAG_TYPE_MASK = t"

definition INODE_SET_TYPE :: "inode \<Rightarrow> 16 word \<Rightarrow> inode" where
  "INODE_SET_TYPE i t = i\<lparr>i_flags := (i_flags i AND NOT FSNODEFLAG_TYPE_MASK) OR t\<rparr>"

abbreviation SLASH :: byte where "SLASH \<equiv> 0x2F"
abbreviation DOT :: byte where "DOT \<equiv> 0x2E"

section \<open>Names\<close>

text \<open>Characters are signed on the simulator.\<close>

function inode_compare :: "mem \<Rightarrow> nat \<Rightarrow> mem \<Rightarrow> nat \<Rightarrow> int option" where
  "inode_compare path fname nm nname = do {
     b \<leftarrow> rd nm nname;
     a \<leftarrow> rd path fname;
     if b = 0 then Some (if a = 0 \<or> a = SLASH then 0 else 1)
     else if a = 0 \<or> a = SLASH then Some (-1)
     else if sint a > sint b then Some 1
     else if sint a < sint b then Some (-1)
     else inode_compare path (fname + 1) nm (nname + 1) }"
  by pat_completeness auto
termination
  by (relation "measure (\<lambda>(path, fname, nm, nname). length nm - nname)") (auto simp: rd_Some_iff)

text \<open>The two loops of \<open>inode_nextname\<close>: to the end of a name, and over slashes.\<close>

function name_end :: "mem \<Rightarrow> nat \<Rightarrow> nat option" where
  "name_end path p = do { b \<leftarrow> rd path p; if b \<noteq> 0 \<and> b \<noteq> SLASH then name_end path (p + 1) else Some p }"
  by pat_completeness auto
termination
  by (relation "measure (\<lambda>(path, p). length path - p)") (auto simp: rd_Some_iff)

function slashes_end :: "mem \<Rightarrow> nat \<Rightarrow> nat option" where
  "slashes_end path p = do { b \<leftarrow> rd path p; if b = SLASH then slashes_end path (p + 1) else Some p }"
  by pat_completeness auto
termination
  by (relation "measure (\<lambda>(path, p). length path - p)") (auto simp: rd_Some_iff)

declare inode_compare.simps [simp del] name_end.simps [simp del] slashes_end.simps [simp del]

lemma name_end_ge: "name_end path p = Some q \<Longrightarrow> p \<le> q \<and> (rd path q = Some 0 \<or> rd path q = Some SLASH)"
proof (induction path p rule: name_end.induct)
  case (1 path p)
  from "1.prems" obtain b where b: "rd path p = Some b" by (subst (asm) name_end.simps) (auto simp: bind_eq_Some_conv)
  show ?case
  proof (cases "b \<noteq> 0 \<and> b \<noteq> SLASH")
    case True
    then have "name_end path (p + 1) = Some q" using "1.prems" b by (subst (asm) name_end.simps) simp
    then show ?thesis using "1.IH" [OF b True] by simp
  next
    case False
    then have "q = p" using "1.prems" b by (subst (asm) name_end.simps) (auto split: if_splits)
    then show ?thesis using b False by auto
  qed
qed

lemma slashes_end_ge: "slashes_end path p = Some q \<Longrightarrow> p \<le> q \<and> (rd path p = Some SLASH \<longrightarrow> p < q)"
proof (induction path p rule: slashes_end.induct)
  case (1 path p)
  from "1.prems" obtain b where b: "rd path p = Some b" by (subst (asm) slashes_end.simps) (auto simp: bind_eq_Some_conv)
  show ?case
  proof (cases "b = SLASH")
    case True
    then have "slashes_end path (p + 1) = Some q" using "1.prems" b by (subst (asm) slashes_end.simps) simp
    then show ?thesis using "1.IH" [OF b True] by simp
  next
    case False
    then have "q = p" using "1.prems" b by (subst (asm) slashes_end.simps) simp
    then show ?thesis using b False by simp
  qed
qed

function inode_nextname :: "mem \<Rightarrow> nat \<Rightarrow> nat option" where
  "inode_nextname path name = do {
     e \<leftarrow> name_end path name;
     p \<leftarrow> slashes_end path e;
     b \<leftarrow> rd path p;
     if b = DOT then do { c \<leftarrow> rd path (p + 1); if c = SLASH then inode_nextname path p else Some p }
     else Some p }"
  by pat_completeness auto
termination
proof (relation "measure (\<lambda>(path, p). length path - p)")
  fix path name e p b c
  assume a: "name_end path name = Some e" "slashes_end path e = Some p" "rd path p = Some b" "b = DOT"
  have "name \<le> e" "e \<le> p" "rd path e = Some 0 \<or> rd path e = Some SLASH" "rd path e = Some SLASH \<longrightarrow> e < p"
    using name_end_ge [OF a(1)] slashes_end_ge [OF a(2)] by simp_all
  moreover have "e \<noteq> p" using a(3,4) calculation(3) by auto
  ultimately have "name < p" by simp
  moreover have "p < length path" using a(3) by (simp add: rd_Some_iff)
  ultimately show "((path, p), path, name) \<in> measure (\<lambda>(path, p). length path - p)" by simp
qed simp

declare inode_nextname.simps [simp del]

text \<open>\<open>fs_inodebasename.c\<close>.\<close>

partial_function (option) basename_loop :: "mem \<Rightarrow> nat \<Rightarrow> nat option \<Rightarrow> nat option option" where
  "basename_loop path name base = do {
     name \<leftarrow> inode_nextname path name;
     b \<leftarrow> rd path name;
     if b = 0 then Some base else basename_loop path name (Some name) }"

definition inode_basename :: "mem \<Rightarrow> nat \<Rightarrow> nat option option" where
  "inode_basename path name = basename_loop path name None"

section \<open>Searching\<close>

partial_function (option) search_loop ::
  "itree \<Rightarrow> mem \<Rightarrow> nat \<Rightarrow> nat option \<Rightarrow> nat option \<Rightarrow> nat option \<Rightarrow> (int \<times> search_desc) option" where
  "search_loop t path name node left over =
     (case node of
        None \<Rightarrow> Some (- ENOENT, \<lparr>sd_path = name, sd_node = None, sd_peer = left, sd_parent = over, sd_relpath = None\<rparr>)
      | Some a \<Rightarrow> do {
          i \<leftarrow> nodes t a;
          c \<leftarrow> inode_compare path name (i_name i) 0;
          if c < 0
          then Some (- ENOENT, \<lparr>sd_path = name, sd_node = None, sd_peer = left, sd_parent = over, sd_relpath = None\<rparr>)
          else if c > 0 then search_loop t path name (i_peer i) (Some a) over
          else do {
            name \<leftarrow> inode_nextname path name;
            b \<leftarrow> rd path name;
            if b = 0 \<or> INODE_IS_TYPE i FSNODEFLAG_TYPE_MOUNTPT
            then Some (0, \<lparr>sd_path = name, sd_node = Some a, sd_peer = left, sd_parent = over, sd_relpath = Some name\<rparr>)
            else search_loop t path name (i_child i) None (Some a) } })"

text \<open>\<open>_inode_search\<close> on an absolute path.\<close>

definition inode_search_abs :: "itree \<Rightarrow> mem \<Rightarrow> (int \<times> search_desc) option" where
  "inode_search_abs t path = do {
     b \<leftarrow> rd path 0;
     if b \<noteq> SLASH
     then Some (- EINVAL, \<lparr>sd_path = 0, sd_node = None, sd_peer = None, sd_parent = None, sd_relpath = None\<rparr>)
     else search_loop t path 0 (g_root_inode t) None None }"

text \<open>
  \<open>inode_search\<close>: a relative path is completed with the current directory. The result has the object
  the offsets point into. The parameter \<open>avail\<close> tells whether memory of a size can be allocated.
\<close>

definition inode_search ::
  "(nat \<Rightarrow> bool) \<Rightarrow> byte list \<Rightarrow> itree \<Rightarrow> mem \<Rightarrow> (int \<times> mem \<times> search_desc) option" where
  "inode_search avail cwd t path = do {
     b \<leftarrow> rd path 0;
     if b \<noteq> SLASH then do {
       n \<leftarrow> strlen path 0;
       if \<not> avail (length cwd + n + 2)
       then Some (- ENOMEM, path, \<lparr>sd_path = 0, sd_node = None, sd_peer = None, sd_parent = None, sd_relpath = None\<rparr>)
       else do {
         let path = cwd @ [SLASH] @ take n path @ [0];
         (ret, d) \<leftarrow> inode_search_abs t path;
         Some (ret, path, d) } }
     else do {
       (ret, d) \<leftarrow> inode_search_abs t path;
       Some (ret, path, d) } }"

text \<open>\<open>inode_find\<close>: with one more reference on the inode found.\<close>

definition add_crefs :: "nat \<Rightarrow> int \<Rightarrow> itree \<Rightarrow> itree option" where
  "add_crefs a k t = do { i \<leftarrow> nodes t a; Some (t\<lparr>nodes := (nodes t)(a \<mapsto> i\<lparr>i_crefs := i_crefs i + k\<rparr>)\<rparr>) }"

definition inode_addref :: "nat option \<Rightarrow> itree \<Rightarrow> itree option" where
  "inode_addref p t = (case p of None \<Rightarrow> Some t | Some a \<Rightarrow> add_crefs a 1 t)"

definition inode_find ::
  "(nat \<Rightarrow> bool) \<Rightarrow> byte list \<Rightarrow> itree \<Rightarrow> mem \<Rightarrow> (int \<times> mem \<times> search_desc \<times> itree) option" where
  "inode_find avail cwd t path = do {
     (ret, path, d) \<leftarrow> inode_search avail cwd t path;
     if ret \<ge> 0 then do { a \<leftarrow> sd_node d; t \<leftarrow> add_crefs a 1 t; Some (ret, path, d, t) }
     else Some (ret, path, d, t) }"

section \<open>Adding\<close>

text \<open>\<open>FSNODE_SIZE\<close> on a 64-bit host without the attributes.\<close>

definition FSNODE_SIZE :: "nat \<Rightarrow> nat" where "FSNODE_SIZE n = 72 + n"

fun inode_namecpy :: "nat \<Rightarrow> mem \<Rightarrow> nat \<Rightarrow> mem \<Rightarrow> nat \<Rightarrow> mem option" where
  "inode_namecpy 0 dest d src s = wr dest d 0"
| "inode_namecpy (Suc n) dest d src s = do {
     b \<leftarrow> rd src s;
     dest \<leftarrow> wr dest d b;
     inode_namecpy n dest (d + 1) src (s + 1) }"

text \<open>
  \<open>inode_alloc\<close>: the name is copied up to a slash or the end, \<open>inode_namelen\<close> bytes of it. The
  allocator returns an address for a size; the memory is cleared.
\<close>

definition inode_alloc ::
  "(nat \<Rightarrow> (nat \<rightharpoonup> inode) \<Rightarrow> nat option) \<Rightarrow> mem \<Rightarrow> nat \<Rightarrow> itree \<Rightarrow> (nat option \<times> itree) option" where
  "inode_alloc malloc path name t = do {
     e \<leftarrow> name_end path name;
     (case malloc (FSNODE_SIZE (e - name)) (nodes t) of None \<Rightarrow> Some (None, t)
      | Some a \<Rightarrow> do {
          nm \<leftarrow> inode_namecpy (e - name) (replicate (e - name + 1) 0) 0 path name;
          Some (Some a, t\<lparr>g_ino := g_ino t + 1,
            nodes := (nodes t)(a \<mapsto> \<lparr>i_parent = None, i_peer = None, i_child = None, i_crefs = 1, i_flags = 0,
              i_ops = None, i_ino = g_ino t, i_private = None, i_name = nm\<rparr>)\<rparr>) }) }"

definition inode_insert :: "nat \<Rightarrow> nat option \<Rightarrow> nat option \<Rightarrow> (nat \<rightharpoonup> inode) \<Rightarrow> (nat \<rightharpoonup> inode) option" where
  "inode_insert a peer parent h = do {
     i \<leftarrow> h a;
     (case peer of
        Some p \<Rightarrow> do {
          x \<leftarrow> h p;
          let h = h(a \<mapsto> i\<lparr>i_peer := i_peer x, i_parent := parent\<rparr>);
          x \<leftarrow> h p;
          Some (h(p \<mapsto> x\<lparr>i_peer := Some a\<rparr>)) }
      | None \<Rightarrow> do {
          p \<leftarrow> parent;
          x \<leftarrow> h p;
          let h = h(a \<mapsto> i\<lparr>i_peer := i_child x, i_parent := parent\<rparr>);
          x \<leftarrow> h p;
          Some (h(p \<mapsto> x\<lparr>i_child := Some a\<rparr>)) }) }"

text \<open>The loop of \<open>inode_reserve\<close> over the names that are missing.\<close>

partial_function (option) reserve_loop ::
  "(nat \<Rightarrow> (nat \<rightharpoonup> inode) \<Rightarrow> nat option) \<Rightarrow> mem \<Rightarrow> nat \<Rightarrow> nat option \<Rightarrow> nat option \<Rightarrow> itree
     \<Rightarrow> (int \<times> nat option \<times> itree) option" where
  "reserve_loop malloc path name left parent t = do {
     nextname \<leftarrow> inode_nextname path name;
     b \<leftarrow> rd path nextname;
     (node, t) \<leftarrow> inode_alloc malloc path name t;
     (case node of None \<Rightarrow> Some (- ENOMEM, None, t)
      | Some a \<Rightarrow> do {
          h \<leftarrow> inode_insert a left parent (nodes t);
          let t = t\<lparr>nodes := h\<rparr>;
          if b \<noteq> 0 then reserve_loop malloc path nextname None (Some a) t
          else Some (0, Some a, t) }) }"

definition inode_reserve ::
  "(nat \<Rightarrow> (nat \<rightharpoonup> inode) \<Rightarrow> nat option) \<Rightarrow> (nat \<Rightarrow> bool) \<Rightarrow> byte list \<Rightarrow> itree \<Rightarrow> mem
     \<Rightarrow> (int \<times> nat option \<times> itree) option" where
  "inode_reserve malloc avail cwd t path = do {
     b \<leftarrow> rd path 0;
     if b = 0 then Some (- EINVAL, None, t)
     else do {
       (ret, path, d) \<leftarrow> inode_search avail cwd t path;
       if ret \<ge> 0 then Some (- EEXIST, None, t)
       else reserve_loop malloc path (sd_path d) (sd_peer d) (sd_parent d) t } }"

definition inode_root_reserve :: "(nat \<Rightarrow> (nat \<rightharpoonup> inode) \<Rightarrow> nat option) \<Rightarrow> itree \<Rightarrow> itree option" where
  "inode_root_reserve malloc t = do {
     (a, t) \<leftarrow> inode_alloc malloc [0] 0 t;
     Some (t\<lparr>g_root_inode := a\<rparr>) }"

section \<open>Removing\<close>

partial_function (option) inode_free :: "nat option \<Rightarrow> (nat \<rightharpoonup> inode) \<Rightarrow> (nat \<rightharpoonup> inode) option" where
  "inode_free p h = (case p of None \<Rightarrow> Some h
     | Some a \<Rightarrow> do {
         i \<leftarrow> h a;
         h \<leftarrow> inode_free (i_peer i) h;
         i \<leftarrow> h a;
         h \<leftarrow> inode_free (i_child i) h;
         i \<leftarrow> h a;
         Some (h(a := None)) })"

definition inode_release :: "nat option \<Rightarrow> itree \<Rightarrow> itree option" where
  "inode_release p t = (case p of None \<Rightarrow> Some t
     | Some a \<Rightarrow> do {
         i \<leftarrow> nodes t a;
         t \<leftarrow> add_crefs a (-1) t;
         if i_crefs i \<le> 1 then
           if i_peer i \<noteq> None then None
           else do { h \<leftarrow> inode_free p (nodes t); Some (t\<lparr>nodes := h\<rparr>) }
         else Some t })"

text \<open>The search of \<open>inode_unlink\<close>, and what it does to the inode found.\<close>

definition inode_unlink ::
  "(nat \<Rightarrow> bool) \<Rightarrow> byte list \<Rightarrow> itree \<Rightarrow> mem \<Rightarrow> (nat option \<times> itree) option" where
  "inode_unlink avail cwd t path = do {
     (ret, path, d) \<leftarrow> inode_search avail cwd t path;
     if ret < 0 then Some (None, t)
     else do {
       a \<leftarrow> sd_node d;
       i \<leftarrow> nodes t a;
       if sd_peer d = None \<and> sd_parent d = None then Some (None, t)
       else do {
         h \<leftarrow> (case sd_peer d of
             Some p \<Rightarrow> do { x \<leftarrow> nodes t p; Some ((nodes t)(p \<mapsto> x\<lparr>i_peer := i_peer i\<rparr>)) }
           | None \<Rightarrow> do { p \<leftarrow> sd_parent d; x \<leftarrow> nodes t p; Some ((nodes t)(p \<mapsto> x\<lparr>i_child := i_peer i\<rparr>)) });
         i \<leftarrow> h a;
         Some (Some a, t\<lparr>nodes := h(a \<mapsto> i\<lparr>i_peer := None, i_parent := None, i_crefs := i_crefs i - 1\<rparr>)\<rparr>) } } }"

definition inode_remove ::
  "(nat \<Rightarrow> bool) \<Rightarrow> byte list \<Rightarrow> itree \<Rightarrow> mem \<Rightarrow> (int \<times> itree) option" where
  "inode_remove avail cwd t path = do {
     (p, t) \<leftarrow> inode_unlink avail cwd t path;
     (case p of None \<Rightarrow> Some (- ENOENT, t)
      | Some a \<Rightarrow> do {
          i \<leftarrow> nodes t a;
          if i_crefs i \<noteq> 0 then Some (- EBUSY, t)
          else if i_peer i \<noteq> None then None
          else do { h \<leftarrow> inode_free (Some a) (nodes t); Some (0, t\<lparr>nodes := h\<rparr>) } }) }"

section \<open>The path of an inode\<close>

text \<open>\<open>fs_inodegetpath.c\<close>, from the inode up to the root.\<close>

partial_function (option) inode_getpath :: "(nat \<rightharpoonup> inode) \<Rightarrow> nat option \<Rightarrow> mem \<Rightarrow> nat \<Rightarrow> mem option" where
  "inode_getpath h p path len = (case p of None \<Rightarrow> wr path 0 0
     | Some a \<Rightarrow> do {
         i \<leftarrow> h a;
         path \<leftarrow> inode_getpath h (i_parent i) path len;
         r \<leftarrow> strlcat path 0 (i_name i) 0 len;
         if i_child i \<noteq> None \<or> INODE_IS_TYPE i FSNODEFLAG_TYPE_MOUNTPT
         then do { r \<leftarrow> strlcat (snd r) 0 [SLASH, 0] 0 len; Some (snd r) }
         else Some (snd r) })"

declare basename_loop.simps [code] search_loop.simps [code] reserve_loop.simps [code] inode_free.simps [code]
  inode_getpath.simps [code]

end
