(* ===== verification/Hostfs.thy ===== *)
theory Hostfs
  imports Inode
begin

text \<open>
  The host file system, through which the dictionary program reaches its database: the file system
  driver \<open>nuttx/fs/hostfs/hostfs.c\<close> and its host side \<open>nuttx/arch/sim/src/sim/posix/sim_hostfs.c\<close>.

  A mount point has the list of open files as linked objects on a heap (addresses to objects), as
  the code has it, and the root as an array of 256 bytes. The system calls of the host are the
  parameter \<open>host_calls\<close>: each returns its C result, \<open>-1\<close> for an error, and the host afterwards, in
  which \<open>h_errno\<close> finds the error. The rest of the record is the kernel: the result of taking the
  lock, the allocator and the contents of an array on the stack that is not initialized. Offsets
  have 32 bits (\<open>CONFIG_FS_LARGEFILE\<close> is off). A failing \<open>DEBUGASSERT\<close> is \<open>None\<close>, like an access
  outside an object.
\<close>

section \<open>Constants\<close>

definition EIO :: int where "EIO = 5"
definition ENODEV :: int where "ENODEV = 19"

definition HOSTFS_MAX_PATH :: nat where "HOSTFS_MAX_PATH = 256"
definition CONFIG_NAME_MAX :: nat where "CONFIG_NAME_MAX = 32"
definition PATH_MAX :: nat where "PATH_MAX = 256"
definition HOSTFS_MAGIC :: "32 word" where "HOSTFS_MAGIC = 0x54534f48"
definition FIOC_FILEPATH :: int where "FIOC_FILEPATH = 0x0303"
definition SEEK_SET :: int where "SEEK_SET = 0"
definition SEEK_CUR :: int where "SEEK_CUR = 1"
definition SEEK_END :: int where "SEEK_END = 2"

text \<open>The flags of \<open>fcntl.h\<close>, which \<open>hostfs.h\<close> repeats with the prefix \<open>NUTTX_\<close>.\<close>

definition O_RDONLY :: "32 word" where "O_RDONLY = 0"
definition O_WRONLY :: "32 word" where "O_WRONLY = 1"
definition O_RDWR :: "32 word" where "O_RDWR = 2"
definition O_ACCMODE :: "32 word" where "O_ACCMODE = 3"
definition O_CREAT :: "32 word" where "O_CREAT = 0x40"
definition O_EXCL :: "32 word" where "O_EXCL = 0x80"
definition O_TRUNC :: "32 word" where "O_TRUNC = 0x200"
definition O_APPEND :: "32 word" where "O_APPEND = 0x400"
definition NUTTX_O_NONBLOCK :: "32 word" where "NUTTX_O_NONBLOCK = 0x800"
definition O_DIRECT :: "32 word" where "O_DIRECT = 0x4000"
definition O_DIRECTORY :: "32 word" where "O_DIRECTORY = 0x10000"
definition O_CLOEXEC :: "32 word" where "O_CLOEXEC = 0x80000"
definition O_SYNC :: "32 word" where "O_SYNC = 0x101000"

definition CH_STAT_MODE :: "32 word" where "CH_STAT_MODE = 1"
definition CH_STAT_UID :: "32 word" where "CH_STAT_UID = 2"
definition CH_STAT_GID :: "32 word" where "CH_STAT_GID = 4"
definition CH_STAT_ATIME :: "32 word" where "CH_STAT_ATIME = 8"
definition CH_STAT_MTIME :: "32 word" where "CH_STAT_MTIME = 16"

text \<open>A value of the host stored in a signed 32-bit \<open>off_t\<close> of NuttX.\<close>

definition to_off :: "int \<Rightarrow> int" where
  "to_off i = signed_take_bit 31 i"

section \<open>State and parameters\<close>

text \<open>Flags and file types of the host, whose values are its own.\<close>

datatype host_flag = H_RDONLY | H_WRONLY | H_RDWR | H_APPEND | H_CREAT | H_EXCL | H_TRUNC | H_NONBLOCK
  | H_SYNC | H_DIRECT | H_CLOEXEC | H_DIRECTORY

datatype host_type = T_DIR | T_REG | T_CHR | T_BLK | T_LNK | T_FIFO | T_SOCK | T_OTHER

type_synonym timespec = "int \<times> int"

datatype utime = Utime timespec | Utime_omit

record host_stat_s =
  hs_type :: host_type
  hs_mode :: "32 word"
  hs_dev :: int
  hs_ino :: int
  hs_nlink :: int
  hs_uid :: int
  hs_gid :: int
  hs_rdev :: int
  hs_size :: int
  hs_atim :: timespec
  hs_mtim :: timespec
  hs_ctim :: timespec
  hs_blksize :: int
  hs_blocks :: int

record nuttx_stat =
  st_dev :: "32 word"
  st_ino :: "32 word"
  st_mode :: "32 word"
  st_nlink :: "16 word"
  st_uid :: "32 word"
  st_gid :: "32 word"
  st_rdev :: "32 word"
  st_size :: int
  st_atim :: timespec
  st_mtim :: timespec
  st_ctim :: timespec
  st_blksize :: "32 word"
  st_blocks :: "32 word"

record host_statvfs =
  hf_namemax :: int
  hf_bsize :: int
  hf_blocks :: int
  hf_bfree :: int
  hf_bavail :: int
  hf_files :: int
  hf_ffree :: int

record nuttx_statfs =
  f_type :: "32 word"
  f_namelen :: "64 word"
  f_bsize :: "64 word"
  f_blocks :: "32 word"
  f_bfree :: "32 word"
  f_bavail :: "32 word"
  f_files :: "32 word"
  f_ffree :: "32 word"

record host_dirent =
  hd_name :: "byte list"
  hd_ino :: int
  hd_type :: host_type

record nuttx_dirent =
  d_ino :: "32 word"
  d_type :: "8 word"
  d_name :: mem

text \<open>\<open>struct hostfs_ofile_s\<close>, what \<open>struct file\<close> has for the driver, and the mount point.\<close>

record ofile =
  fnext :: "nat option"
  crefs :: "16 word"
  oflags :: "32 word"
  of_fd :: int
  relpath :: mem

record filep =
  f_pos :: int
  f_priv :: "nat option"

record 'h hostfs =
  heap :: "nat \<rightharpoonup> ofile"
  fs_head :: "nat option"
  fs_root :: mem
  hst :: 'h

record 'h host_calls =
  h_errno :: "'h \<Rightarrow> int"
  h_open :: "byte list \<Rightarrow> host_flag list \<Rightarrow> int \<Rightarrow> 'h \<Rightarrow> int \<times> 'h"
  h_close :: "int \<Rightarrow> 'h \<Rightarrow> int \<times> 'h"
  h_read :: "int \<Rightarrow> nat \<Rightarrow> 'h \<Rightarrow> int \<times> byte list \<times> 'h"
  h_write :: "int \<Rightarrow> byte list \<Rightarrow> 'h \<Rightarrow> int \<times> 'h"
  h_lseek :: "int \<Rightarrow> int \<Rightarrow> int \<Rightarrow> 'h \<Rightarrow> int \<times> 'h"
  h_ioctl :: "int \<Rightarrow> int \<Rightarrow> mem \<Rightarrow> 'h \<Rightarrow> int \<times> mem \<times> 'h"
  h_fsync :: "int \<Rightarrow> 'h \<Rightarrow> 'h"
  h_dup :: "int \<Rightarrow> 'h \<Rightarrow> int \<times> 'h"
  h_fstat :: "int \<Rightarrow> 'h \<Rightarrow> int \<times> host_stat_s \<times> 'h"
  h_fchmod :: "int \<Rightarrow> 32 word \<Rightarrow> 'h \<Rightarrow> int \<times> 'h"
  h_fchown :: "int \<Rightarrow> 32 word \<Rightarrow> 32 word \<Rightarrow> 'h \<Rightarrow> int \<times> 'h"
  h_futimens :: "int \<Rightarrow> utime list \<Rightarrow> 'h \<Rightarrow> int \<times> 'h"
  h_ftruncate :: "int \<Rightarrow> int \<Rightarrow> 'h \<Rightarrow> int \<times> 'h"
  h_opendir :: "byte list \<Rightarrow> 'h \<Rightarrow> nat option \<times> 'h"
  h_readdir :: "nat \<Rightarrow> 'h \<Rightarrow> host_dirent option \<times> 'h"
  h_rewinddir :: "nat \<Rightarrow> 'h \<Rightarrow> 'h"
  h_closedir :: "nat \<Rightarrow> 'h \<Rightarrow> int \<times> 'h"
  h_statvfs :: "byte list \<Rightarrow> 'h \<Rightarrow> int \<times> host_statvfs \<times> 'h"
  h_unlink :: "byte list \<Rightarrow> 'h \<Rightarrow> int \<times> 'h"
  h_mkdir :: "byte list \<Rightarrow> int \<Rightarrow> 'h \<Rightarrow> int \<times> 'h"
  h_rmdir :: "byte list \<Rightarrow> 'h \<Rightarrow> int \<times> 'h"
  h_rename :: "byte list \<Rightarrow> byte list \<Rightarrow> 'h \<Rightarrow> int \<times> 'h"
  h_stat :: "byte list \<Rightarrow> 'h \<Rightarrow> int \<times> host_stat_s \<times> 'h"
  h_chmod :: "byte list \<Rightarrow> 32 word \<Rightarrow> 'h \<Rightarrow> int \<times> 'h"
  h_chown :: "byte list \<Rightarrow> 32 word \<Rightarrow> 32 word \<Rightarrow> 'h \<Rightarrow> int \<times> 'h"
  h_utimensat :: "byte list \<Rightarrow> utime list \<Rightarrow> 'h \<Rightarrow> int \<times> 'h"
  nx_lock :: "'h \<Rightarrow> int"
  heap_malloc :: "nat \<Rightarrow> (nat \<rightharpoonup> ofile) \<Rightarrow> nat option"
  heap_avail :: "nat \<Rightarrow> 'h \<Rightarrow> bool"
  stack_path :: mem

section \<open>The host side\<close>

text \<open>\<open>sim_errno.c\<close>: the numbers are those of the host. A call that failed returns its error, negated.\<close>

definition host_errno_convert :: "int \<Rightarrow> int" where
  "host_errno_convert e = e"

definition call_result :: "'h host_calls \<Rightarrow> int \<times> 'h \<Rightarrow> int \<times> 'h" where
  "call_result E r = (if fst r = -1 then host_errno_convert (- h_errno E (snd r)) else fst r, snd r)"

definition host_stat_convert :: "host_stat_s \<Rightarrow> nuttx_stat" where
  "host_stat_convert b = \<lparr>st_dev = word_of_int (hs_dev b), st_ino = word_of_int (hs_ino b),
     st_mode = (hs_mode b AND 0xFFF) OR
       (case hs_type b of T_DIR \<Rightarrow> 0x4000 | T_REG \<Rightarrow> 0x8000 | T_CHR \<Rightarrow> 0x2000 | T_BLK \<Rightarrow> 0x6000
        | T_LNK \<Rightarrow> 0xA000 | T_FIFO \<Rightarrow> 0x1000 | T_SOCK \<Rightarrow> 0xC000 | T_OTHER \<Rightarrow> 0),
     st_nlink = word_of_int (hs_nlink b), st_uid = word_of_int (hs_uid b), st_gid = word_of_int (hs_gid b),
     st_rdev = word_of_int (hs_rdev b), st_size = to_off (hs_size b),
     st_atim = hs_atim b, st_mtim = hs_mtim b, st_ctim = hs_ctim b,
     st_blksize = word_of_int (hs_blksize b), st_blocks = word_of_int (hs_blocks b)\<rparr>"

definition open_flags :: "32 word \<Rightarrow> host_flag list" where
  "open_flags fl =
     (if fl AND O_ACCMODE = O_RDONLY then [H_RDONLY] else if fl AND O_ACCMODE = O_WRONLY then [H_WRONLY]
      else if fl AND O_ACCMODE = O_RDWR then [H_RDWR] else [])
     @ (if flag fl O_APPEND then [H_APPEND] else []) @ (if flag fl O_CREAT then [H_CREAT] else [])
     @ (if flag fl O_EXCL then [H_EXCL] else []) @ (if flag fl O_TRUNC then [H_TRUNC] else [])
     @ (if flag fl NUTTX_O_NONBLOCK then [H_NONBLOCK] else []) @ (if flag fl O_SYNC then [H_SYNC] else [])
     @ (if flag fl O_DIRECT then [H_DIRECT] else []) @ (if flag fl O_CLOEXEC then [H_CLOEXEC] else [])
     @ (if flag fl O_DIRECTORY then [H_DIRECTORY] else [])"

definition host_open :: "'h host_calls \<Rightarrow> byte list \<Rightarrow> 32 word \<Rightarrow> int \<Rightarrow> 'h \<Rightarrow> int \<times> 'h" where
  "host_open E path fl mode h = call_result E (h_open E path (open_flags fl) mode h)"

definition host_close :: "'h host_calls \<Rightarrow> int \<Rightarrow> 'h \<Rightarrow> int \<times> 'h" where
  "host_close E fd h = call_result E (h_close E fd h)"

definition host_read :: "'h host_calls \<Rightarrow> int \<Rightarrow> nat \<Rightarrow> 'h \<Rightarrow> int \<times> byte list \<times> 'h" where
  "host_read E fd n h = (let (r, bs, h) = h_read E fd n h in
     (if r = -1 then host_errno_convert (- h_errno E h) else r, bs, h))"

definition host_write :: "'h host_calls \<Rightarrow> int \<Rightarrow> byte list \<Rightarrow> 'h \<Rightarrow> int \<times> 'h" where
  "host_write E fd bs h = call_result E (h_write E fd bs h)"

text \<open>The position of the caller is not used; the result is compared after its truncation.\<close>

definition host_lseek :: "'h host_calls \<Rightarrow> int \<Rightarrow> int \<Rightarrow> int \<Rightarrow> int \<Rightarrow> 'h \<Rightarrow> int \<times> 'h" where
  "host_lseek E fd pos off whence h = (let (r, h) = h_lseek E fd off whence h in
     (if to_off r = -1 then host_errno_convert (- h_errno E h) else to_off r, h))"

definition host_ioctl :: "'h host_calls \<Rightarrow> int \<Rightarrow> int \<Rightarrow> mem \<Rightarrow> 'h \<Rightarrow> int \<times> mem \<times> 'h" where
  "host_ioctl E fd request arg h = (let (r, arg, h) = h_ioctl E fd request arg h in
     (if r < 0 then host_errno_convert (- h_errno E h) else r, arg, h))"

definition host_sync :: "'h host_calls \<Rightarrow> int \<Rightarrow> 'h \<Rightarrow> 'h" where
  "host_sync E fd h = h_fsync E fd h"

text \<open>After an error the structure of the host is converted as it is.\<close>

definition stat_result :: "'h host_calls \<Rightarrow> int \<times> host_stat_s \<times> 'h \<Rightarrow> int \<times> nuttx_stat \<times> 'h" where
  "stat_result E r = (let (ret, b, h) = r in
     (if ret < 0 then host_errno_convert (- h_errno E h) else ret, host_stat_convert b, h))"

definition host_fstat :: "'h host_calls \<Rightarrow> int \<Rightarrow> 'h \<Rightarrow> int \<times> nuttx_stat \<times> 'h" where
  "host_fstat E fd h = stat_result E (h_fstat E fd h)"

definition host_stat :: "'h host_calls \<Rightarrow> byte list \<Rightarrow> 'h \<Rightarrow> int \<times> nuttx_stat \<times> 'h" where
  "host_stat E path h = stat_result E (h_stat E path h)"

text \<open>The three changes of \<open>host_fchstat\<close> and \<open>host_chstat\<close>, which differ in the calls they make.\<close>

definition chstat_times :: "nuttx_stat \<Rightarrow> 32 word \<Rightarrow> utime list" where
  "chstat_times b fl =
     [if flag fl CH_STAT_ATIME then Utime (st_atim b) else Utime_omit,
      if flag fl CH_STAT_MTIME then Utime (st_mtim b) else Utime_omit]"

definition chstat_with ::
  "'h host_calls \<Rightarrow> (32 word \<Rightarrow> 'h \<Rightarrow> int \<times> 'h) \<Rightarrow> (32 word \<Rightarrow> 32 word \<Rightarrow> 'h \<Rightarrow> int \<times> 'h)
     \<Rightarrow> (utime list \<Rightarrow> 'h \<Rightarrow> int \<times> 'h) \<Rightarrow> nuttx_stat \<Rightarrow> 32 word \<Rightarrow> 'h \<Rightarrow> int \<times> 'h" where
  "chstat_with E chmod chown utimens b fl h =
     (let (r, h) = (if flag fl CH_STAT_MODE then chmod (st_mode b) h else (0, h))
      in if r < 0 then (host_errno_convert (- h_errno E h), h)
      else let (r, h) = (if flag fl (CH_STAT_UID OR CH_STAT_GID) then chown (st_uid b) (st_gid b) h else (0, h))
      in if r < 0 then (host_errno_convert (- h_errno E h), h)
      else let (r, h) = (if flag fl (CH_STAT_ATIME OR CH_STAT_MTIME) then utimens (chstat_times b fl) h else (0, h))
      in if r < 0 then (host_errno_convert (- h_errno E h), h) else (0, h))"

definition host_fchstat :: "'h host_calls \<Rightarrow> int \<Rightarrow> nuttx_stat \<Rightarrow> 32 word \<Rightarrow> 'h \<Rightarrow> int \<times> 'h" where
  "host_fchstat E fd = chstat_with E (h_fchmod E fd) (h_fchown E fd) (h_futimens E fd)"

definition host_chstat :: "'h host_calls \<Rightarrow> byte list \<Rightarrow> nuttx_stat \<Rightarrow> 32 word \<Rightarrow> 'h \<Rightarrow> int \<times> 'h" where
  "host_chstat E path = chstat_with E (h_chmod E path) (h_chown E path) (h_utimensat E path)"

definition neg_result :: "'h host_calls \<Rightarrow> int \<times> 'h \<Rightarrow> int \<times> 'h" where
  "neg_result E r = (if fst r < 0 then host_errno_convert (- h_errno E (snd r)) else fst r, snd r)"

text \<open>Not called by the file system, whose duplicates share a descriptor.\<close>

definition host_dup :: "'h host_calls \<Rightarrow> int \<Rightarrow> 'h \<Rightarrow> int \<times> 'h" where
  "host_dup E fd h = neg_result E (h_dup E fd h)"

definition host_ftruncate :: "'h host_calls \<Rightarrow> int \<Rightarrow> int \<Rightarrow> 'h \<Rightarrow> int \<times> 'h" where
  "host_ftruncate E fd len h = neg_result E (h_ftruncate E fd len h)"

definition host_opendir :: "'h host_calls \<Rightarrow> byte list \<Rightarrow> 'h \<Rightarrow> nat option \<times> 'h" where
  "host_opendir E path h = h_opendir E path h"

text \<open>The name is copied with \<open>strncpy\<close> and cut to \<open>CONFIG_NAME_MAX\<close> bytes.\<close>

definition host_readdir ::
  "'h host_calls \<Rightarrow> nat \<Rightarrow> nuttx_dirent \<Rightarrow> 'h \<Rightarrow> (int \<times> nuttx_dirent \<times> 'h) option" where
  "host_readdir E dir entry h = (case h_readdir E dir h of (None, h) \<Rightarrow> Some (- ENOENT, entry, h)
     | (Some e, h) \<Rightarrow> do {
         name \<leftarrow> strncpy (d_name entry) 0 (hd_name e @ [0]) 0 CONFIG_NAME_MAX;
         name \<leftarrow> wr name CONFIG_NAME_MAX 0;
         Some (0, \<lparr>d_ino = word_of_int (hd_ino e),
           d_type = (case hd_type e of T_REG \<Rightarrow> 8 | T_FIFO \<Rightarrow> 1 | T_CHR \<Rightarrow> 2 | T_BLK \<Rightarrow> 6 | T_DIR \<Rightarrow> 4
             | T_LNK \<Rightarrow> 10 | T_SOCK \<Rightarrow> 12 | T_OTHER \<Rightarrow> 0),
           d_name = name\<rparr>, h) })"

definition host_rewinddir :: "'h host_calls \<Rightarrow> nat \<Rightarrow> 'h \<Rightarrow> 'h" where
  "host_rewinddir E dir h = h_rewinddir E dir h"

definition host_closedir :: "'h host_calls \<Rightarrow> nat \<Rightarrow> 'h \<Rightarrow> int \<times> 'h" where
  "host_closedir E dir h = neg_result E (h_closedir E dir h)"

definition host_statfs :: "'h host_calls \<Rightarrow> byte list \<Rightarrow> 'h \<Rightarrow> int \<times> nuttx_statfs \<times> 'h" where
  "host_statfs E path h = (let (r, b, h) = h_statvfs E path h in
     (if r < 0 then host_errno_convert (- h_errno E h) else r,
      \<lparr>f_type = 0, f_namelen = word_of_int (hf_namemax b), f_bsize = word_of_int (hf_bsize b),
       f_blocks = word_of_int (hf_blocks b), f_bfree = word_of_int (hf_bfree b), f_bavail = word_of_int (hf_bavail b),
       f_files = word_of_int (hf_files b), f_ffree = word_of_int (hf_ffree b)\<rparr>, h))"

definition host_unlink :: "'h host_calls \<Rightarrow> byte list \<Rightarrow> 'h \<Rightarrow> int \<times> 'h" where
  "host_unlink E path h = neg_result E (h_unlink E path h)"

definition host_mkdir :: "'h host_calls \<Rightarrow> byte list \<Rightarrow> int \<Rightarrow> 'h \<Rightarrow> int \<times> 'h" where
  "host_mkdir E path mode h = neg_result E (h_mkdir E path mode h)"

definition host_rmdir :: "'h host_calls \<Rightarrow> byte list \<Rightarrow> 'h \<Rightarrow> int \<times> 'h" where
  "host_rmdir E path h = neg_result E (h_rmdir E path h)"

definition host_rename :: "'h host_calls \<Rightarrow> byte list \<Rightarrow> byte list \<Rightarrow> 'h \<Rightarrow> int \<times> 'h" where
  "host_rename E old new h = neg_result E (h_rename E old new h)"

section \<open>Paths\<close>

function skip_slashes :: "mem \<Rightarrow> nat \<Rightarrow> nat option" where
  "skip_slashes rel x = do { b \<leftarrow> rd rel x; if b = SLASH then skip_slashes rel (x + 1) else Some x }"
  by pat_completeness auto
termination
  by (relation "measure (\<lambda>(rel, x). length rel - x)") (auto simp: rd_Some_iff)

function depth_loop :: "mem \<Rightarrow> nat \<Rightarrow> int \<Rightarrow> int option" where
  "depth_loop rel x depth = do {
     b \<leftarrow> rd rel x;
     if b = 0 then Some depth
     else do {
       c \<leftarrow> strncmp rel x [DOT, DOT, 0] 0 2;
       if c = 0 then depth_loop rel (x + 2) (depth - 1)
       else if b = SLASH then do {
         n \<leftarrow> rd rel (x + 1);
         if n \<noteq> SLASH \<and> n \<noteq> 0 then depth_loop rel (x + 1) (depth + 1) else depth_loop rel (x + 1) depth }
       else depth_loop rel (x + 1) depth } }"
  by pat_completeness auto
termination
  by (relation "measure (\<lambda>(rel, x, depth). length rel - x)") (auto simp: rd_Some_iff)

declare skip_slashes.simps [simp del] depth_loop.simps [simp del]

definition hostfs_mkpath :: "mem \<Rightarrow> mem \<Rightarrow> mem \<Rightarrow> nat \<Rightarrow> mem option" where
  "hostfs_mkpath root rel path pathlen = do {
     (_, path) \<leftarrow> strlcpy path 0 root 0 pathlen;
     first \<leftarrow> skip_slashes rel 0;
     depth \<leftarrow> depth_loop rel first 0;
     if depth \<ge> 0 then do {
       n \<leftarrow> strlen path 0;
       (_, path) \<leftarrow> strlcat path 0 rel first (pathlen - n);
       Some path }
     else Some path }"

text \<open>The string the host finds in an array.\<close>

definition c_string :: "mem \<Rightarrow> byte list option" where
  "c_string m = do { n \<leftarrow> strlen m 0; Some (take n m) }"

definition mkpath :: "'h host_calls \<Rightarrow> 'h hostfs \<Rightarrow> mem \<Rightarrow> byte list option" where
  "mkpath E s rel = do { p \<leftarrow> hostfs_mkpath (fs_root s) rel (stack_path E) HOSTFS_MAX_PATH; c_string p }"

section \<open>Files\<close>

text \<open>\<open>sizeof(struct hostfs_ofile_s)\<close> on a 64-bit host.\<close>

definition SIZEOF_OFILE :: nat where "SIZEOF_OFILE = 24"

definition open_error :: "int \<Rightarrow> int" where
  "open_error ret = (if ret = - EINVAL then - EIO else ret)"

definition hostfs_open ::
  "'h host_calls \<Rightarrow> 'h hostfs \<Rightarrow> filep \<Rightarrow> mem \<Rightarrow> 32 word \<Rightarrow> int \<Rightarrow> (int \<times> filep \<times> 'h hostfs) option" where
  "hostfs_open E s f rel fl mode =
     (if f_priv f \<noteq> None then None
      else if nx_lock E (hst s) < 0 then Some (nx_lock E (hst s), f, s)
      else do {
        len \<leftarrow> strlen rel 0;
        (case heap_malloc E (SIZEOF_OFILE + len) (heap s) of None \<Rightarrow> Some (- ENOMEM, f, s)
         | Some a \<Rightarrow> do {
             path \<leftarrow> mkpath E s rel;
             let (fd, h) = host_open E path fl mode (hst s);
             if fd < 0 then Some (open_error fd, f, s\<lparr>hst := h\<rparr>)
             else do {
               let app = flag fl O_APPEND \<and> fl AND O_ACCMODE \<noteq> O_RDONLY;
               let (ret, h) = (if app then host_lseek E fd 0 0 SEEK_END h else (0, h));
               if app \<and> ret < 0 then Some (open_error ret, f, s\<lparr>hst := h\<rparr>)
               else do {
                 name \<leftarrow> memcpy (replicate (len + 1) 0) 0 rel 0 (len + 1);
                 let f = (if app then f\<lparr>f_pos := ret\<rparr> else f);
                 Some (0, f\<lparr>f_priv := Some a\<rparr>,
                   s\<lparr>heap := (heap s)(a \<mapsto> \<lparr>fnext = fs_head s, crefs = 1, oflags = fl, of_fd = fd, relpath = name\<rparr>),
                     fs_head := Some a, hst := h\<rparr>) } } }) })"

text \<open>The search for an open file in the list, with its predecessor.\<close>

partial_function (option) find_ofile ::
  "(nat \<rightharpoonup> ofile) \<Rightarrow> nat \<Rightarrow> nat option \<Rightarrow> nat option \<Rightarrow> (nat option \<times> nat option) option" where
  "find_ofile m hf prevfile nextfile =
     (case nextfile of None \<Rightarrow> Some (prevfile, None)
      | Some n \<Rightarrow> if n = hf then Some (prevfile, nextfile)
          else do { ofl \<leftarrow> m n; find_ofile m hf nextfile (fnext ofl) })"

definition hostfs_close :: "'h host_calls \<Rightarrow> 'h hostfs \<Rightarrow> filep \<Rightarrow> (int \<times> filep \<times> 'h hostfs) option" where
  "hostfs_close E s f = do {
     hf \<leftarrow> f_priv f;
     if nx_lock E (hst s) < 0 then Some (nx_lock E (hst s), f, s)
     else do {
       ofl \<leftarrow> heap s hf;
       if sint (crefs ofl) > 1
       then Some (0, f, s\<lparr>heap := (heap s)(hf \<mapsto> ofl\<lparr>crefs := crefs ofl - 1\<rparr>)\<rparr>)
       else do {
         (prevfile, nextfile) \<leftarrow> find_ofile (heap s) hf (fs_head s) (fs_head s);
         s \<leftarrow> (case nextfile of None \<Rightarrow> Some s
           | Some n \<Rightarrow> do {
               nofl \<leftarrow> heap s n;
               if Some n = fs_head s then Some (s\<lparr>fs_head := fnext nofl\<rparr>)
               else do {
                 p \<leftarrow> prevfile;
                 pofl \<leftarrow> heap s p;
                 Some (s\<lparr>heap := (heap s)(p \<mapsto> pofl\<lparr>fnext := fnext nofl\<rparr>)\<rparr>) } });
         let (_, h) = host_close E (of_fd ofl) (hst s);
         Some (0, f\<lparr>f_priv := None\<rparr>, s\<lparr>heap := (heap s)(hf := None), hst := h\<rparr>) } } }"

text \<open>
  The operations on an open file take the lock, find the file, call the host and unlock. \<open>f_pos\<close> is
  an \<open>off_t\<close>, which an addition may wrap.
\<close>

definition hostfs_read ::
  "'h host_calls \<Rightarrow> 'h hostfs \<Rightarrow> filep \<Rightarrow> mem \<Rightarrow> nat \<Rightarrow> (int \<times> mem \<times> filep \<times> 'h hostfs) option" where
  "hostfs_read E s f buffer buflen = do {
     hf \<leftarrow> f_priv f;
     if nx_lock E (hst s) < 0 then Some (nx_lock E (hst s), buffer, f, s)
     else do {
       ofl \<leftarrow> heap s hf;
       let (ret, bs, h) = host_read E (of_fd ofl) buflen (hst s);
       buffer \<leftarrow> wrs buffer 0 bs;
       Some (ret, buffer, if ret > 0 then f\<lparr>f_pos := to_off (f_pos f + ret)\<rparr> else f, s\<lparr>hst := h\<rparr>) } }"

definition hostfs_write ::
  "'h host_calls \<Rightarrow> 'h hostfs \<Rightarrow> filep \<Rightarrow> mem \<Rightarrow> nat \<Rightarrow> (int \<times> filep \<times> 'h hostfs) option" where
  "hostfs_write E s f buffer buflen = do {
     hf \<leftarrow> f_priv f;
     if nx_lock E (hst s) < 0 then Some (nx_lock E (hst s), f, s)
     else do {
       ofl \<leftarrow> heap s hf;
       if oflags ofl AND O_ACCMODE = O_RDONLY then Some (- EACCES, f, s)
       else do {
         bs \<leftarrow> rds buffer 0 buflen;
         let (ret, h) = host_write E (of_fd ofl) bs (hst s);
         Some (ret, if ret > 0 then f\<lparr>f_pos := to_off (f_pos f + ret)\<rparr> else f, s\<lparr>hst := h\<rparr>) } } }"

definition hostfs_seek ::
  "'h host_calls \<Rightarrow> 'h hostfs \<Rightarrow> filep \<Rightarrow> int \<Rightarrow> int \<Rightarrow> (int \<times> filep \<times> 'h hostfs) option" where
  "hostfs_seek E s f off whence = do {
     hf \<leftarrow> f_priv f;
     if nx_lock E (hst s) < 0 then Some (nx_lock E (hst s), f, s)
     else do {
       ofl \<leftarrow> heap s hf;
       let (ret, h) = host_lseek E (of_fd ofl) (f_pos f) off whence (hst s);
       Some (ret, if ret \<ge> 0 then f\<lparr>f_pos := ret\<rparr> else f, s\<lparr>hst := h\<rparr>) } }"

text \<open>
  The argument is the object it points to, or none for the null pointer; \<open>node\<close> is the inode of the
  file in the pseudo file system.
\<close>

definition hostfs_ioctl ::
  "'h host_calls \<Rightarrow> 'h hostfs \<Rightarrow> (nat \<rightharpoonup> inode) \<Rightarrow> nat option \<Rightarrow> filep \<Rightarrow> int \<Rightarrow> mem option
     \<Rightarrow> (int \<times> mem option \<times> 'h hostfs) option" where
  "hostfs_ioctl E s inodes node f cmd arg = do {
     hf \<leftarrow> f_priv f;
     if nx_lock E (hst s) < 0 then Some (nx_lock E (hst s), arg, s)
     else do {
       ofl \<leftarrow> heap s hf;
       let (ret, m, h) = host_ioctl E (of_fd ofl) cmd (case arg of None \<Rightarrow> [] | Some m \<Rightarrow> m) (hst s);
       let arg = map_option (\<lambda>_. m) arg;
       let s = s\<lparr>hst := h\<rparr>;
       if ret \<ge> 0 then Some (ret, arg, s)
       else if cmd = FIOC_FILEPATH then
         (case arg of None \<Rightarrow> Some (- EINVAL, arg, s)
          | Some path \<Rightarrow> do {
              path \<leftarrow> inode_getpath inodes node path PATH_MAX;
              (_, path) \<leftarrow> strlcat path 0 (relpath ofl) 0 PATH_MAX;
              Some (0, Some path, s) })
       else Some (- ENOTTY, arg, s) } }"

definition hostfs_sync :: "'h host_calls \<Rightarrow> 'h hostfs \<Rightarrow> filep \<Rightarrow> (int \<times> 'h hostfs) option" where
  "hostfs_sync E s f = do {
     hf \<leftarrow> f_priv f;
     if nx_lock E (hst s) < 0 then Some (nx_lock E (hst s), s)
     else do { ofl \<leftarrow> heap s hf; Some (0, s\<lparr>hst := host_sync E (of_fd ofl) (hst s)\<rparr>) } }"

definition hostfs_dup :: "'h hostfs \<Rightarrow> filep \<Rightarrow> filep \<Rightarrow> (int \<times> filep \<times> 'h hostfs) option" where
  "hostfs_dup s oldp newp =
     (if f_priv newp \<noteq> None then None
      else do {
        sf \<leftarrow> f_priv oldp;
        ofl \<leftarrow> heap s sf;
        Some (0, newp\<lparr>f_priv := Some sf\<rparr>, s\<lparr>heap := (heap s)(sf \<mapsto> ofl\<lparr>crefs := crefs ofl + 1\<rparr>)\<rparr>) })"

definition hostfs_fstat :: "'h host_calls \<Rightarrow> 'h hostfs \<Rightarrow> filep \<Rightarrow> nuttx_stat \<Rightarrow> (int \<times> nuttx_stat \<times> 'h hostfs) option" where
  "hostfs_fstat E s f buf = do {
     hf \<leftarrow> f_priv f;
     if nx_lock E (hst s) < 0 then Some (nx_lock E (hst s), buf, s)
     else do {
       ofl \<leftarrow> heap s hf;
       let (ret, buf, h) = host_fstat E (of_fd ofl) (hst s);
       Some (ret, buf, s\<lparr>hst := h\<rparr>) } }"

definition hostfs_fchstat :: "'h host_calls \<Rightarrow> 'h hostfs \<Rightarrow> filep \<Rightarrow> nuttx_stat \<Rightarrow> 32 word \<Rightarrow> (int \<times> 'h hostfs) option" where
  "hostfs_fchstat E s f buf fl = do {
     hf \<leftarrow> f_priv f;
     if nx_lock E (hst s) < 0 then Some (nx_lock E (hst s), s)
     else do {
       ofl \<leftarrow> heap s hf;
       let (ret, h) = host_fchstat E (of_fd ofl) buf fl (hst s);
       Some (ret, s\<lparr>hst := h\<rparr>) } }"

definition hostfs_ftruncate :: "'h host_calls \<Rightarrow> 'h hostfs \<Rightarrow> filep \<Rightarrow> int \<Rightarrow> (int \<times> 'h hostfs) option" where
  "hostfs_ftruncate E s f len = do {
     hf \<leftarrow> f_priv f;
     if nx_lock E (hst s) < 0 then Some (nx_lock E (hst s), s)
     else do {
       ofl \<leftarrow> heap s hf;
       let (ret, h) = host_ftruncate E (of_fd ofl) len (hst s);
       Some (ret, s\<lparr>hst := h\<rparr>) } }"

section \<open>Directories\<close>

definition SIZEOF_HDIR :: nat where "SIZEOF_HDIR = 16"

text \<open>The directory handle is the \<open>DIR\<close> pointer of the host in an object of its own.\<close>

definition hostfs_opendir :: "'h host_calls \<Rightarrow> 'h hostfs \<Rightarrow> mem \<Rightarrow> (int \<times> nat option \<times> 'h hostfs) option" where
  "hostfs_opendir E s rel =
     (if \<not> heap_avail E SIZEOF_HDIR (hst s) then Some (- ENOMEM, None, s)
      else if nx_lock E (hst s) < 0 then Some (nx_lock E (hst s), None, s)
      else do {
        path \<leftarrow> mkpath E s rel;
        (case host_opendir E path (hst s) of
           (None, h) \<Rightarrow> Some (- ENOENT, None, s\<lparr>hst := h\<rparr>)
         | (Some d, h) \<Rightarrow> Some (0, Some d, s\<lparr>hst := h\<rparr>)) })"

definition hostfs_closedir :: "'h host_calls \<Rightarrow> 'h hostfs \<Rightarrow> nat \<Rightarrow> int \<times> 'h hostfs" where
  "hostfs_closedir E s dir =
     (if nx_lock E (hst s) < 0 then (nx_lock E (hst s), s)
      else (0, s\<lparr>hst := snd (host_closedir E dir (hst s))\<rparr>))"

definition hostfs_readdir ::
  "'h host_calls \<Rightarrow> 'h hostfs \<Rightarrow> nat \<Rightarrow> nuttx_dirent \<Rightarrow> (int \<times> nuttx_dirent \<times> 'h hostfs) option" where
  "hostfs_readdir E s dir entry =
     (if nx_lock E (hst s) < 0 then Some (nx_lock E (hst s), entry, s)
      else do { (ret, entry, h) \<leftarrow> host_readdir E dir entry (hst s); Some (ret, entry, s\<lparr>hst := h\<rparr>) })"

definition hostfs_rewinddir :: "'h host_calls \<Rightarrow> 'h hostfs \<Rightarrow> nat \<Rightarrow> int \<times> 'h hostfs" where
  "hostfs_rewinddir E s dir =
     (if nx_lock E (hst s) < 0 then (nx_lock E (hst s), s)
      else (0, s\<lparr>hst := host_rewinddir E dir (hst s)\<rparr>))"

section \<open>Mounting\<close>

text \<open>The loop over the options: the last \<open>fs=\<close> sets the root.\<close>

partial_function (option) bind_loop :: "mem \<Rightarrow> nat option \<Rightarrow> nat option \<Rightarrow> mem \<Rightarrow> mem option" where
  "bind_loop options ptr saveptr root =
     (case ptr of None \<Rightarrow> Some root
      | Some p \<Rightarrow> do {
          c \<leftarrow> strncmp options p (lit ''fs='' @ [0]) 0 3;
          root \<leftarrow> (if c = 0 then do { (_, r) \<leftarrow> strlcpy root 0 options (p + 3) HOSTFS_MAX_PATH; Some r } else Some root);
          (ptr, options, saveptr) \<leftarrow> strtok_r options None [0x2C, 0] saveptr;
          bind_loop options ptr saveptr root })"

text \<open>The slash at the end of the root. With an empty root the code reads \<open>fs_root[-1]\<close>.\<close>

definition bind_root :: "mem \<Rightarrow> mem option" where
  "bind_root root = do {
     len \<leftarrow> strlen root 0;
     root \<leftarrow> (if len > 1 then do { b \<leftarrow> rd root (len - 1); if b = SLASH then wr root (len - 1) 0 else Some root }
             else Some root);
     b \<leftarrow> (if len = 0 then None else rd root (len - 1));
     if b \<noteq> SLASH then do { (_, r) \<leftarrow> strlcat root 0 [SLASH, 0] 0 HOSTFS_MAX_PATH; Some r } else Some root }"

definition SIZEOF_MOUNTPT :: nat where "SIZEOF_MOUNTPT = 264"

text \<open>
  The block driver must be absent; \<open>data\<close> is the object of the options. The result has the mount
  point on success.
\<close>

definition hostfs_bind ::
  "'h host_calls \<Rightarrow> bool \<Rightarrow> mem option \<Rightarrow> 'h \<Rightarrow> (int \<times> 'h hostfs option) option" where
  "hostfs_bind E blkdriver data h =
     (if blkdriver then Some (- ENODEV, None)
      else case data of None \<Rightarrow> Some (- ENODEV, None)
      | Some options \<Rightarrow>
          if \<not> heap_avail E SIZEOF_MOUNTPT h then Some (- ENOMEM, None)
          else do {
            n \<leftarrow> strlen options 0;
            if \<not> heap_avail E (n + 1) h then Some (- ENOMEM, None)
            else do {
              let options = take (n + 1) options;
              (ptr, options, saveptr) \<leftarrow> strtok_r options (Some 0) [0x2C, 0] None;
              root \<leftarrow> bind_loop options ptr saveptr (replicate HOSTFS_MAX_PATH 0);
              if nx_lock E h < 0 then Some (nx_lock E h, None)
              else do {
                root \<leftarrow> bind_root root;
                Some (0, Some \<lparr>heap = Map.empty, fs_head = None, fs_root = root, hst = h\<rparr>) } } })"

text \<open>A mount point that is freed is \<open>None\<close>, as is the null pointer.\<close>

definition hostfs_unbind :: "'h host_calls \<Rightarrow> 'h hostfs option \<Rightarrow> 32 word \<Rightarrow> int \<times> 'h hostfs option" where
  "hostfs_unbind E handle fl =
     (case handle of None \<Rightarrow> (- EINVAL, None)
      | Some s \<Rightarrow>
          if nx_lock E (hst s) < 0 then (nx_lock E (hst s), Some s)
          else if fs_head s \<noteq> None then (if fl \<noteq> 0 then - ENOSYS else - EBUSY, Some s)
          else (nx_lock E (hst s), None))"

section \<open>Operations on paths\<close>

definition hostfs_statfs :: "'h host_calls \<Rightarrow> 'h hostfs \<Rightarrow> nuttx_statfs \<Rightarrow> (int \<times> nuttx_statfs \<times> 'h hostfs) option" where
  "hostfs_statfs E s buf =
     (if nx_lock E (hst s) < 0 then Some (nx_lock E (hst s), buf, s)
      else do {
        root \<leftarrow> c_string (fs_root s);
        let (ret, buf, h) = host_statfs E root (hst s);
        Some (ret, buf\<lparr>f_type := HOSTFS_MAGIC\<rparr>, s\<lparr>hst := h\<rparr>) })"

text \<open>Lock, make the path, call the host: the common body of the operations on one path.\<close>

definition path_call ::
  "'h host_calls \<Rightarrow> 'h hostfs \<Rightarrow> mem \<Rightarrow> (byte list \<Rightarrow> 'h \<Rightarrow> int \<times> 'h) \<Rightarrow> (int \<times> 'h hostfs) option" where
  "path_call E s rel call =
     (if nx_lock E (hst s) < 0 then Some (nx_lock E (hst s), s)
      else do {
        path \<leftarrow> mkpath E s rel;
        let (ret, h) = call path (hst s);
        Some (ret, s\<lparr>hst := h\<rparr>) })"

definition hostfs_unlink :: "'h host_calls \<Rightarrow> 'h hostfs \<Rightarrow> mem \<Rightarrow> (int \<times> 'h hostfs) option" where
  "hostfs_unlink E s rel = path_call E s rel (host_unlink E)"

definition hostfs_mkdir :: "'h host_calls \<Rightarrow> 'h hostfs \<Rightarrow> mem \<Rightarrow> int \<Rightarrow> (int \<times> 'h hostfs) option" where
  "hostfs_mkdir E s rel mode = path_call E s rel (\<lambda>path. host_mkdir E path mode)"

definition hostfs_rmdir :: "'h host_calls \<Rightarrow> 'h hostfs \<Rightarrow> mem \<Rightarrow> (int \<times> 'h hostfs) option" where
  "hostfs_rmdir E s rel = path_call E s rel (host_rmdir E)"

definition hostfs_chstat :: "'h host_calls \<Rightarrow> 'h hostfs \<Rightarrow> mem \<Rightarrow> nuttx_stat \<Rightarrow> 32 word \<Rightarrow> (int \<times> 'h hostfs) option" where
  "hostfs_chstat E s rel buf fl = path_call E s rel (\<lambda>path. host_chstat E path buf fl)"

definition hostfs_stat :: "'h host_calls \<Rightarrow> 'h hostfs \<Rightarrow> mem \<Rightarrow> nuttx_stat \<Rightarrow> (int \<times> nuttx_stat \<times> 'h hostfs) option" where
  "hostfs_stat E s rel buf =
     (if nx_lock E (hst s) < 0 then Some (nx_lock E (hst s), buf, s)
      else do {
        path \<leftarrow> mkpath E s rel;
        let (ret, buf, h) = host_stat E path (hst s);
        Some (ret, buf, s\<lparr>hst := h\<rparr>) })"

text \<open>The paths of a rename are not made by \<open>hostfs_mkpath\<close>.\<close>

definition rename_path :: "'h host_calls \<Rightarrow> 'h hostfs \<Rightarrow> mem \<Rightarrow> byte list option" where
  "rename_path E s rel = do {
     (_, p) \<leftarrow> strlcpy (stack_path E) 0 (fs_root s) 0 HOSTFS_MAX_PATH;
     (_, p) \<leftarrow> strlcat p 0 rel 0 HOSTFS_MAX_PATH;
     c_string p }"

definition hostfs_rename :: "'h host_calls \<Rightarrow> 'h hostfs \<Rightarrow> mem \<Rightarrow> mem \<Rightarrow> (int \<times> 'h hostfs) option" where
  "hostfs_rename E s oldrel newrel =
     (if nx_lock E (hst s) < 0 then Some (nx_lock E (hst s), s)
      else do {
        oldpath \<leftarrow> rename_path E s oldrel;
        newpath \<leftarrow> rename_path E s newrel;
        let (ret, h) = host_rename E oldpath newpath (hst s);
        Some (ret, s\<lparr>hst := h\<rparr>) })"

end
