(* ===== verification/Vfs.thy ===== *)
theory Vfs
  imports Hostfs
begin

text \<open>
  The virtual file system: from the paths and files of a program to the operations of the file system
  at a mount point (\<open>nuttx/fs/mount\<close>, \<open>nuttx/fs/vfs\<close>, \<open>nuttx/fs/driver\<close>), and the mount of the
  dictionary program.

  The state has the tree of inodes, the mount points of the host file system by the address of their
  handle, the host they share, and \<open>errno\<close>. The host file system is the only one that is configured;
  block and MTD drivers, the BCH proxy, soft links, notification and profiling are off. The record
  \<open>vfs_env\<close> has what lies outside: the system calls of the host, the allocators, the current directory,
  the file mode mask, directory streams and the operations of device drivers.
\<close>

section \<open>State and parameters\<close>

definition ENXIO :: int where "ENXIO = 6"
definition EFAULT :: int where "EFAULT = 14"
definition ENOTBLK :: int where "ENOTBLK = 15"
definition ENOTDIR :: int where "ENOTDIR = 20"
definition EISDIR :: int where "EISDIR = 21"
definition ENOTEMPTY :: int where "ENOTEMPTY = 39"
definition ELOOP :: int where "ELOOP = 40"
definition O_NOFOLLOW :: "32 word" where "O_NOFOLLOW = 0x20000"
definition MS_RDONLY :: "32 word" where "MS_RDONLY = 1"
definition FSNODEFLAG_TYPE_BLOCK :: "16 word" where "FSNODEFLAG_TYPE_BLOCK = 2"
definition FSNODEFLAG_TYPE_SHM :: "16 word" where "FSNODEFLAG_TYPE_SHM = 6"
definition FSNODEFLAG_TYPE_SOFTLINK :: "16 word" where "FSNODEFLAG_TYPE_SOFTLINK = 8"

text \<open>\<open>struct file\<close>: the flags, the inode, and the part that belongs to the driver.\<close>

record vfile =
  f_oflags :: "32 word"
  f_node :: "nat option"
  f_drv :: filep

record 'h vfs =
  v_tree :: itree
  v_mounts :: "nat \<rightharpoonup> 'h hostfs"
  v_host :: 'h
  v_errno :: int

record 'h vfs_env =
  vhost :: "'h host_calls"
  inode_malloc :: "nat \<Rightarrow> (nat \<rightharpoonup> inode) \<Rightarrow> nat option"
  handle_malloc :: "(nat \<rightharpoonup> 'h hostfs) \<Rightarrow> nat"
  path_avail :: "nat \<Rightarrow> bool"
  cwd :: "byte list"
  umask :: "32 word"
  dir_allocate :: "vfile \<Rightarrow> mem \<Rightarrow> 'h vfs \<Rightarrow> int \<times> vfile \<times> 'h vfs"
  drv_open :: "nat \<Rightarrow> (filep \<Rightarrow> int \<times> filep) option"
  drv_close :: "nat \<Rightarrow> (filep \<Rightarrow> int \<times> filep) option"
  drv_read :: "nat \<Rightarrow> filep \<Rightarrow> mem \<Rightarrow> nat \<Rightarrow> int \<times> mem \<times> filep"
  drv_write :: "nat \<Rightarrow> filep \<Rightarrow> mem \<Rightarrow> nat \<Rightarrow> int \<times> filep"
  drv_seek :: "nat \<Rightarrow> (filep \<Rightarrow> int \<Rightarrow> int \<Rightarrow> int \<times> filep) option"
  drv_unlink :: "nat \<Rightarrow> int option"

text \<open>An operation of the file system at the handle of a mount point.\<close>

definition mnt_call :: "'h vfs \<Rightarrow> nat option \<Rightarrow> ('h hostfs \<Rightarrow> ('r \<times> 'h hostfs) option) \<Rightarrow> ('r \<times> 'h vfs) option" where
  "mnt_call v p op = do {
     m \<leftarrow> p;
     s \<leftarrow> v_mounts v m;
     (r, s) \<leftarrow> op (s\<lparr>hst := v_host v\<rparr>);
     Some (r, v\<lparr>v_mounts := (v_mounts v)(m \<mapsto> s), v_host := hst s\<rparr>) }"

definition vfs_find ::
  "'h vfs_env \<Rightarrow> 'h vfs \<Rightarrow> mem \<Rightarrow> (int \<times> mem \<times> search_desc \<times> 'h vfs) option" where
  "vfs_find E v path = do {
     (ret, p, d, t) \<leftarrow> inode_find (path_avail E) (cwd E) (v_tree v) path;
     Some (ret, p, d, v\<lparr>v_tree := t\<rparr>) }"

definition vfs_release :: "nat option \<Rightarrow> 'h vfs \<Rightarrow> 'h vfs option" where
  "vfs_release p v = do { t \<leftarrow> inode_release p (v_tree v); Some (v\<lparr>v_tree := t\<rparr>) }"

text \<open>The end of the functions that set \<open>errno\<close>.\<close>

definition errno_result :: "int \<times> 'h vfs \<Rightarrow> int \<times> 'h vfs" where
  "errno_result r = (if fst r < 0 then (-1, (snd r)\<lparr>v_errno := - fst r\<rparr>) else r)"

section \<open>Access\<close>

text \<open>Without \<open>FS_PERMISSION\<close> every access to a directory is granted.\<close>

definition inode_checkperm :: "nat option \<Rightarrow> int" where
  "inode_checkperm node = 0"

text \<open>\<open>op_read\<close> stands for \<open>read\<close> or \<open>readv\<close>, \<open>op_write\<close> for \<open>write\<close> or \<open>writev\<close>.\<close>

definition inode_checkopenperm :: "inode \<Rightarrow> 32 word \<Rightarrow> int" where
  "inode_checkopenperm i fl =
     (if INODE_IS_TYPE i FSNODEFLAG_TYPE_PSEUDODIR then 0
      else case i_ops i of None \<Rightarrow> - ENXIO
      | Some ops \<Rightarrow>
          if fl AND O_ACCMODE \<noteq> O_WRONLY \<and> \<not> op_read ops \<and> \<not> op_ioctl ops
             \<or> fl AND O_ACCMODE \<noteq> O_RDONLY \<and> \<not> op_write ops \<and> \<not> op_ioctl ops
          then - EACCES else 0)"

definition find_blockdriver ::
  "'h vfs_env \<Rightarrow> 'h vfs \<Rightarrow> mem \<Rightarrow> 32 word \<Rightarrow> (int \<times> nat option \<times> 'h vfs) option" where
  "find_blockdriver E v pathname mountflags = do {
     (ret, p, d, v) \<leftarrow> vfs_find E v pathname;
     if ret < 0 then Some (- ENOENT, None, v)
     else do {
       a \<leftarrow> sd_node d;
       i \<leftarrow> nodes (v_tree v) a;
       if \<not> INODE_IS_TYPE i FSNODEFLAG_TYPE_BLOCK then do { v \<leftarrow> vfs_release (Some a) v; Some (- ENOTBLK, None, v) }
       else if (case i_ops i of None \<Rightarrow> True | Some ops \<Rightarrow> \<not> op_read ops \<or> \<not> op_write ops \<and> mountflags AND MS_RDONLY = 0)
       then do { v \<leftarrow> vfs_release (Some a) v; Some (- EACCES, None, v) }
       else Some (0, Some a, v) } }"

text \<open>Without \<open>CONFIG_MTD\<close>.\<close>

definition find_mtddriver :: "mem \<Rightarrow> int" where
  "find_mtddriver pathname = - ENODEV"

section \<open>Directories\<close>

definition mkdir :: "'h vfs_env \<Rightarrow> 'h vfs \<Rightarrow> mem \<Rightarrow> 32 word \<Rightarrow> (int \<times> 'h vfs) option" where
  "mkdir E v pathname mode = map_option errno_result (do {
     let mode = mode AND NOT (umask E);
     (ret, p, d, v) \<leftarrow> vfs_find E v pathname;
     if ret \<ge> 0 then do {
       a \<leftarrow> sd_node d;
       rel \<leftarrow> sd_relpath d;
       b \<leftarrow> rd p rel;
       i \<leftarrow> nodes (v_tree v) a;
       (ret, v) \<leftarrow>
         (if b = 0 then Some (- EEXIST, v)
          else if \<not> INODE_IS_TYPE i FSNODEFLAG_TYPE_MOUNTPT \<or> i_ops i = None then Some (- ENXIO, v)
          else mnt_call v (i_private i) (\<lambda>s. hostfs_mkdir (vhost E) s (drop rel p) (uint mode)));
       v \<leftarrow> vfs_release (Some a) v;
       Some (min ret 0, v) }
     else if inode_checkperm (sd_parent d) < 0 then Some (inode_checkperm (sd_parent d), v)
     else do {
       (ret, _, t) \<leftarrow> inode_reserve (inode_malloc E) (path_avail E) (cwd E) (v_tree v) pathname;
       Some (min ret 0, v\<lparr>v_tree := t\<rparr>) } })"

text \<open>The end of \<open>rmdir\<close> and \<open>nx_unlink\<close> in the pseudo file system.\<close>

definition remove_inode :: "'h vfs_env \<Rightarrow> 'h vfs \<Rightarrow> mem \<Rightarrow> (int \<times> 'h vfs) option" where
  "remove_inode E v pathname = do {
     (ret, t) \<leftarrow> inode_remove (path_avail E) (cwd E) (v_tree v) pathname;
     Some (if ret < 0 \<and> ret \<noteq> - EBUSY then ret else 0, v\<lparr>v_tree := t\<rparr>) }"

definition rmdir :: "'h vfs_env \<Rightarrow> 'h vfs \<Rightarrow> mem \<Rightarrow> (int \<times> 'h vfs) option" where
  "rmdir E v pathname = map_option errno_result (do {
     (ret, p, d, v) \<leftarrow> vfs_find E v pathname;
     if ret < 0 then Some (ret, v)
     else do {
       a \<leftarrow> sd_node d;
       rel \<leftarrow> sd_relpath d;
       i \<leftarrow> nodes (v_tree v) a;
       (ret, v) \<leftarrow>
         (if INODE_IS_TYPE i FSNODEFLAG_TYPE_MOUNTPT \<and> i_ops i \<noteq> None
          then mnt_call v (i_private i) (\<lambda>s. hostfs_rmdir (vhost E) s (drop rel p))
          else if i_ops i \<noteq> None then Some (- ENOTDIR, v)
          else if i_child i \<noteq> None then Some (- ENOTEMPTY, v)
          else remove_inode E v pathname);
       v \<leftarrow> vfs_release (Some a) v;
       Some (min ret 0, v) } })"

definition nx_unlink :: "'h vfs_env \<Rightarrow> 'h vfs \<Rightarrow> mem \<Rightarrow> (int \<times> 'h vfs) option" where
  "nx_unlink E v pathname = do {
     (ret, p, d, v) \<leftarrow> vfs_find E v pathname;
     if ret < 0 then Some (ret, v)
     else do {
       a \<leftarrow> sd_node d;
       rel \<leftarrow> sd_relpath d;
       i \<leftarrow> nodes (v_tree v) a;
       (ret, v) \<leftarrow>
         (if INODE_IS_TYPE i FSNODEFLAG_TYPE_MOUNTPT \<and> i_ops i \<noteq> None
          then mnt_call v (i_private i) (\<lambda>s. hostfs_unlink (vhost E) s (drop rel p))
          else if i_child i \<noteq> None then Some (- ENOTEMPTY, v)
          else if inode_checkperm (sd_parent d) < 0 then Some (inode_checkperm (sd_parent d), v)
          else if (INODE_IS_TYPE i FSNODEFLAG_TYPE_DRIVER \<or> INODE_IS_TYPE i FSNODEFLAG_TYPE_SHM
              \<or> INODE_IS_TYPE i FSNODEFLAG_TYPE_PIPE \<or> INODE_IS_TYPE i FSNODEFLAG_TYPE_BLOCK) \<and> drv_unlink E a \<noteq> None
          then if the (drv_unlink E a) < 0 then Some (the (drv_unlink E a), v) else remove_inode E v pathname
          else if INODE_IS_TYPE i FSNODEFLAG_TYPE_PSEUDODIR then remove_inode E v pathname
          else Some (- ENXIO, v));
       v \<leftarrow> vfs_release (Some a) v;
       Some (min ret 0, v) } }"

definition unlink :: "'h vfs_env \<Rightarrow> 'h vfs \<Rightarrow> mem \<Rightarrow> (int \<times> 'h vfs) option" where
  "unlink E v pathname = map_option errno_result (nx_unlink E v pathname)"

section \<open>Mounting\<close>

text \<open>The operations of the host file system, and the table of the file systems without a driver.\<close>

definition g_hostfs_operations :: file_ops where
  "g_hostfs_operations = \<lparr>op_read = True, op_write = True, op_ioctl = True\<rparr>"

definition g_nonbdfsmap :: "(mem \<times> file_ops) list" where
  "g_nonbdfsmap = [(lit ''hostfs'' @ [0], g_hostfs_operations)]"

fun mount_findfs :: "(mem \<times> file_ops) list \<Rightarrow> mem \<Rightarrow> file_ops option option" where
  "mount_findfs [] filesystemtype = Some None"
| "mount_findfs ((n, mops) # fstab) filesystemtype = do {
     c \<leftarrow> strcmp filesystemtype 0 n 0;
     if c = 0 then Some (Some mops) else mount_findfs fstab filesystemtype }"

text \<open>
  \<open>nx_mount\<close>. A block driver that is found has no file system (\<open>ENODEV\<close>), and the reference to it is
  released only where such file systems are configured. When no inode can be reserved the mount point
  is unbound, which frees the handle; the result of that is not used.
\<close>

definition nx_mount ::
  "'h vfs_env \<Rightarrow> 'h vfs \<Rightarrow> mem option \<Rightarrow> mem \<Rightarrow> mem \<Rightarrow> 32 word \<Rightarrow> mem option \<Rightarrow> (int \<times> 'h vfs) option" where
  "nx_mount E v source target filesystemtype mountflags data = do {
     (blk, v) \<leftarrow> (case source of None \<Rightarrow> Some (False, v)
       | Some src \<Rightarrow> do {
           b \<leftarrow> rd src 0;
           if b = 0 then Some (False, v)
           else do {
             (ret, _, v) \<leftarrow> find_blockdriver E v src mountflags;
             Some (ret \<ge> 0 \<or> find_mtddriver src \<ge> 0, v) } });
     if blk then Some (- ENODEV, v)
     else do {
       mops \<leftarrow> mount_findfs g_nonbdfsmap filesystemtype;
       (case mops of None \<Rightarrow> Some (- ENOTBLK, v)
        | Some ops \<Rightarrow> do {
            (ret, p, d, v) \<leftarrow> vfs_find E v target;
            isdir \<leftarrow> (if ret < 0 then Some True else do {
              a \<leftarrow> sd_node d;
              i \<leftarrow> nodes (v_tree v) a;
              Some (INODE_IS_TYPE i FSNODEFLAG_TYPE_PSEUDODIR) });
            if \<not> isdir then do { v \<leftarrow> vfs_release (sd_node d) v; Some (- ENOTDIR, v) }
            else do {
              (ret, fshandle) \<leftarrow> hostfs_bind (vhost E) False data (v_host v);
              if ret < 0 then Some (ret, v)
              else do {
                s \<leftarrow> fshandle;
                (ret, node, t) \<leftarrow> (case sd_node d of Some a \<Rightarrow> Some (0, Some a, v_tree v)
                  | None \<Rightarrow> inode_reserve (inode_malloc E) (path_avail E) (cwd E) (v_tree v) target);
                if ret < 0 then Some (ret, v\<lparr>v_tree := t\<rparr>)
                else do {
                  a \<leftarrow> node;
                  i \<leftarrow> nodes t a;
                  let m = handle_malloc E (v_mounts v);
                  let i = (INODE_SET_TYPE i FSNODEFLAG_TYPE_MOUNTPT)\<lparr>i_ops := Some ops, i_private := Some m\<rparr>;
                  Some (0, v\<lparr>v_tree := t\<lparr>nodes := (nodes t)(a \<mapsto> i)\<rparr>, v_mounts := (v_mounts v)(m \<mapsto> s), v_host := hst s\<rparr>) } } } }) } }"

definition mount ::
  "'h vfs_env \<Rightarrow> 'h vfs \<Rightarrow> mem option \<Rightarrow> mem \<Rightarrow> mem \<Rightarrow> 32 word \<Rightarrow> mem option \<Rightarrow> (int \<times> 'h vfs) option" where
  "mount E v source target filesystemtype mountflags data =
     map_option errno_result (nx_mount E v source target filesystemtype mountflags data)"

text \<open>A handle that is freed is not in the state any more.\<close>

definition nx_umount2 :: "'h vfs_env \<Rightarrow> 'h vfs \<Rightarrow> mem option \<Rightarrow> 32 word \<Rightarrow> (int \<times> 'h vfs) option" where
  "nx_umount2 E v target fl = (case target of None \<Rightarrow> Some (- EFAULT, v)
     | Some path \<Rightarrow> do {
         (ret, p, d, v) \<leftarrow> vfs_find E v path;
         if ret < 0 then Some (ret, v)
         else do {
           a \<leftarrow> sd_node d;
           i \<leftarrow> nodes (v_tree v) a;
           if \<not> INODE_IS_TYPE i FSNODEFLAG_TYPE_MOUNTPT then do { v \<leftarrow> vfs_release (Some a) v; Some (- EINVAL, v) }
           else do {
             m \<leftarrow> i_private i;
             s \<leftarrow> v_mounts v m;
             let (ret, handle) = hostfs_unbind (vhost E) (Some (s\<lparr>hst := v_host v\<rparr>)) fl;
             let v = v\<lparr>v_mounts := (v_mounts v)(m := handle)\<rparr>;
             if ret \<noteq> 0 then do { v \<leftarrow> vfs_release (Some a) v; Some (if ret < 0 then ret else - EBUSY, v) }
             else do {
               let i = (INODE_SET_TYPE i 0)\<lparr>i_private := None, i_ops := None\<rparr>;
               let t = (v_tree v)\<lparr>nodes := (nodes (v_tree v))(a \<mapsto> i)\<rparr>;
               if i_child i \<noteq> None then do { t \<leftarrow> add_crefs a (-1) t; Some (0, v\<lparr>v_tree := t\<rparr>) }
               else do {
                 (ret, t) \<leftarrow> inode_remove (path_avail E) (cwd E) t path;
                 v \<leftarrow> vfs_release (Some a) (v\<lparr>v_tree := t\<rparr>);
                 Some (if ret \<noteq> 0 \<and> ret \<noteq> - EBUSY then ret else 0, v) } } } } })"

definition umount2 :: "'h vfs_env \<Rightarrow> 'h vfs \<Rightarrow> mem option \<Rightarrow> 32 word \<Rightarrow> (int \<times> 'h vfs) option" where
  "umount2 E v target fl = map_option errno_result (nx_umount2 E v target fl)"

section \<open>Files\<close>

text \<open>\<open>file_vopen\<close>; the mode is the argument that follows \<open>O_CREAT\<close>.\<close>

definition file_vopen ::
  "'h vfs_env \<Rightarrow> 'h vfs \<Rightarrow> vfile \<Rightarrow> mem option \<Rightarrow> 32 word \<Rightarrow> 32 word \<Rightarrow> 32 word \<Rightarrow> (int \<times> vfile \<times> 'h vfs) option" where
  "file_vopen E v f path fl umsk modearg = (case path of None \<Rightarrow> Some (- EINVAL, f, v)
     | Some path \<Rightarrow> do {
         let mode = (if flag fl O_CREAT then modearg else 0x1b6) AND NOT umsk;
         (ret, p, d, v) \<leftarrow> vfs_find E v path;
         if ret < 0 then Some (ret, f, v)
         else do {
           a \<leftarrow> sd_node d;
           rel \<leftarrow> sd_relpath d;
           i \<leftarrow> nodes (v_tree v) a;
           if flag fl O_NOFOLLOW \<and> INODE_IS_TYPE i FSNODEFLAG_TYPE_SOFTLINK then Some (- ELOOP, f, v)
           else if inode_checkopenperm i fl < 0
           then do { v \<leftarrow> vfs_release (Some a) v; Some (inode_checkopenperm i fl, f\<lparr>f_node := None\<rparr>, v) }
           else do {
             let f = f\<lparr>f_oflags := fl, f_node := Some a\<rparr>;
             (ret, f, v) \<leftarrow>
               (if flag fl O_DIRECTORY then Some (dir_allocate E f (drop rel p) v)
                else if INODE_IS_TYPE i FSNODEFLAG_TYPE_MOUNTPT then do {
                  ((ret, g), v) \<leftarrow> mnt_call v (i_private i) (\<lambda>s. do {
                    (ret, g, s) \<leftarrow> hostfs_open (vhost E) s (f_drv f) (drop rel p) fl (uint mode); Some ((ret, g), s) });
                  Some (ret, f\<lparr>f_drv := g\<rparr>, v) }
                else if INODE_IS_TYPE i FSNODEFLAG_TYPE_DRIVER \<or> INODE_IS_TYPE i FSNODEFLAG_TYPE_PIPE then
                  (case drv_open E a of None \<Rightarrow> Some (0, f, v)
                   | Some op \<Rightarrow> let (ret, g) = op (f_drv f) in Some (ret, f\<lparr>f_drv := g\<rparr>, v))
                else Some (- ENXIO, f, v));
             let (ret, f, v) = (if ret = - EISDIR \<and> fl AND O_ACCMODE = O_RDONLY then dir_allocate E f (drop rel p) v else (ret, f, v));
             if ret < 0 then do { v \<leftarrow> vfs_release (Some a) v; Some (ret, f\<lparr>f_node := None\<rparr>, v) }
             else Some (0, f, v) } } })"

text \<open>A new file for \<open>nx_vopen\<close>, whose memory is cleared.\<close>

definition cleared_file :: vfile where
  "cleared_file = \<lparr>f_oflags = 0, f_node = None, f_drv = \<lparr>f_pos = 0, f_priv = None\<rparr>\<rparr>"

text \<open>Advisory locks (\<open>file_closelk\<close>) are not configured.\<close>

definition file_close :: "'h vfs_env \<Rightarrow> 'h vfs \<Rightarrow> vfile \<Rightarrow> (int \<times> vfile \<times> 'h vfs) option" where
  "file_close E v f = (case f_node f of None \<Rightarrow> Some (0, f, v)
     | Some a \<Rightarrow> do {
         i \<leftarrow> nodes (v_tree v) a;
         (ret, g, v) \<leftarrow>
           (if i_ops i = None then Some (0, f_drv f, v)
            else if INODE_IS_TYPE i FSNODEFLAG_TYPE_MOUNTPT then do {
              ((ret, g), v) \<leftarrow> mnt_call v (i_private i) (\<lambda>s. do {
                (ret, g, s) \<leftarrow> hostfs_close (vhost E) s (f_drv f); Some ((ret, g), s) });
              Some (ret, g, v) }
            else (case drv_close E a of None \<Rightarrow> Some (0, f_drv f, v)
              | Some op \<Rightarrow> let (ret, g) = op (f_drv f) in Some (ret, g, v)));
         v \<leftarrow> (if ret \<ge> 0 then vfs_release (Some a) v else Some v);
         Some (ret, f\<lparr>f_drv := g, f_node := None\<rparr>, v) })"

text \<open>One read of the operations behind \<open>u.i_ops\<close>.\<close>

definition op_read_call :: "'h vfs_env \<Rightarrow> nat \<Rightarrow> vfile \<times> 'h vfs \<Rightarrow> mem \<Rightarrow> nat \<Rightarrow> (int \<times> mem \<times> vfile \<times> 'h vfs) option" where
  "op_read_call E a st buf n = do {
     i \<leftarrow> nodes (v_tree (snd st)) a;
     if INODE_IS_TYPE i FSNODEFLAG_TYPE_MOUNTPT then do {
       ((ret, buf, g), v) \<leftarrow> mnt_call (snd st) (i_private i) (\<lambda>s. do {
         (ret, buf, g, s) \<leftarrow> hostfs_read (vhost E) s (f_drv (fst st)) buf n; Some ((ret, buf, g), s) });
       Some (ret, buf, (fst st)\<lparr>f_drv := g\<rparr>, v) }
     else let (ret, buf, g) = drv_read E a (f_drv (fst st)) buf n in Some (ret, buf, (fst st)\<lparr>f_drv := g\<rparr>, snd st) }"

text \<open>The loop of \<open>file_readv_compat\<close>; an entry has its buffer and its length.\<close>

fun file_readv_compat ::
  "('s \<Rightarrow> mem \<Rightarrow> nat \<Rightarrow> (int \<times> mem \<times> 's) option) \<Rightarrow> (mem \<times> nat) list \<Rightarrow> int \<Rightarrow> 's \<Rightarrow> (int \<times> mem list \<times> 's) option" where
  "file_readv_compat rdop [] ntotal st = Some (ntotal, [], st)"
| "file_readv_compat rdop ((buf, len) # iov) ntotal st =
     (if len = 0 then do { (r, bufs, st) \<leftarrow> file_readv_compat rdop iov ntotal st; Some (r, buf # bufs, st) }
      else if int SSIZE_MAX - ntotal < int len then Some (if ntotal > 0 then ntotal else - EINVAL, buf # map fst iov, st)
      else do {
        (nread, buf, st) \<leftarrow> rdop st buf len;
        if nread < 0 then Some (if ntotal > 0 then ntotal else nread, buf # map fst iov, st)
        else if nread < int len then Some (ntotal + nread, buf # map fst iov, st)
        else do { (r, bufs, st) \<leftarrow> file_readv_compat rdop iov (ntotal + nread) st; Some (r, buf # bufs, st) } })"

text \<open>
  \<open>file_readv\<close>: a null pointer for a buffer is \<open>None\<close>. The operations here have \<open>read\<close>; a driver with
  \<open>readv\<close> gets the request as a whole, as in theory \<open>Serial\<close>.
\<close>

definition file_readv_vfs ::
  "'h vfs_env \<Rightarrow> 'h vfs \<Rightarrow> vfile \<Rightarrow> (mem option \<times> nat) list \<Rightarrow> (int \<times> mem list \<times> vfile \<times> 'h vfs) option" where
  "file_readv_vfs E v f iov =
     (let bufs = map (\<lambda>(b, n). (case b of None \<Rightarrow> [] | Some m \<Rightarrow> m, n)) iov in
      if iov = [] then Some (0, [], f, v)
      else if list_ex (\<lambda>(b, n). b = None \<and> n \<noteq> 0) iov then Some (- EFAULT, map fst bufs, f, v)
      else if f_oflags f AND O_ACCMODE = O_WRONLY then Some (- EACCES, map fst bufs, f, v)
      else case f_node f of None \<Rightarrow> Some (- EBADF, map fst bufs, f, v)
      | Some a \<Rightarrow> do {
          i \<leftarrow> nodes (v_tree v) a;
          if (case i_ops i of None \<Rightarrow> True | Some ops \<Rightarrow> \<not> op_read ops) then Some (- EBADF, map fst bufs, f, v)
          else do { (ret, ms, st) \<leftarrow> file_readv_compat (op_read_call E a) bufs 0 (f, v); Some (ret, ms, st) } })"

definition file_read_vfs :: "'h vfs_env \<Rightarrow> 'h vfs \<Rightarrow> vfile \<Rightarrow> mem option \<Rightarrow> nat \<Rightarrow> (int \<times> mem list \<times> vfile \<times> 'h vfs) option" where
  "file_read_vfs E v f buf nbytes = file_readv_vfs E v f [(buf, nbytes)]"

text \<open>Writing, in the same way; the buffers do not change.\<close>

definition op_write_call :: "'h vfs_env \<Rightarrow> nat \<Rightarrow> vfile \<times> 'h vfs \<Rightarrow> mem \<Rightarrow> nat \<Rightarrow> (int \<times> vfile \<times> 'h vfs) option" where
  "op_write_call E a st buf n = do {
     i \<leftarrow> nodes (v_tree (snd st)) a;
     if INODE_IS_TYPE i FSNODEFLAG_TYPE_MOUNTPT then do {
       ((ret, g), v) \<leftarrow> mnt_call (snd st) (i_private i) (\<lambda>s. do {
         (ret, g, s) \<leftarrow> hostfs_write (vhost E) s (f_drv (fst st)) buf n; Some ((ret, g), s) });
       Some (ret, (fst st)\<lparr>f_drv := g\<rparr>, v) }
     else let (ret, g) = drv_write E a (f_drv (fst st)) buf n in Some (ret, (fst st)\<lparr>f_drv := g\<rparr>, snd st) }"

fun file_writev_compat ::
  "('s \<Rightarrow> mem \<Rightarrow> nat \<Rightarrow> (int \<times> 's) option) \<Rightarrow> (mem option \<times> nat) list \<Rightarrow> int \<Rightarrow> 's \<Rightarrow> (int \<times> 's) option" where
  "file_writev_compat wrop [] ntotal st = Some (ntotal, st)"
| "file_writev_compat wrop ((base, len) # iov) ntotal st =
     (if len = 0 then file_writev_compat wrop iov ntotal st
      else case base of None \<Rightarrow> Some (- EINVAL, st)
      | Some buf \<Rightarrow>
          if int SSIZE_MAX - ntotal < int len then Some (if ntotal > 0 then ntotal else - EINVAL, st)
          else do {
            (nwritten, st) \<leftarrow> wrop st buf len;
            if nwritten < 0 then Some (if ntotal > 0 then ntotal else nwritten, st)
            else if nwritten < int len then Some (ntotal + nwritten, st)
            else file_writev_compat wrop iov (ntotal + nwritten) st })"

definition file_writev_vfs ::
  "'h vfs_env \<Rightarrow> 'h vfs \<Rightarrow> vfile \<Rightarrow> (mem option \<times> nat) list \<Rightarrow> (int \<times> vfile \<times> 'h vfs) option" where
  "file_writev_vfs E v f iov =
     (if f_oflags f AND O_ACCMODE = O_RDONLY then Some (- EACCES, f, v)
      else if iov = [] then Some (0, f, v)
      else if list_ex (\<lambda>(b, n). b = None \<and> n \<noteq> 0) iov then Some (- EFAULT, f, v)
      else case f_node f of None \<Rightarrow> Some (- EBADF, f, v)
      | Some a \<Rightarrow> do {
          i \<leftarrow> nodes (v_tree v) a;
          if (case i_ops i of None \<Rightarrow> True | Some ops \<Rightarrow> \<not> op_write ops) then Some (- EBADF, f, v)
          else file_writev_compat (op_write_call E a) iov 0 (f, v) })"

definition file_write_vfs :: "'h vfs_env \<Rightarrow> 'h vfs \<Rightarrow> vfile \<Rightarrow> mem option \<Rightarrow> nat \<Rightarrow> (int \<times> vfile \<times> 'h vfs) option" where
  "file_write_vfs E v f buf nbytes = file_writev_vfs E v f [(buf, nbytes)]"

definition file_seek :: "'h vfs_env \<Rightarrow> 'h vfs \<Rightarrow> vfile \<Rightarrow> int \<Rightarrow> int \<Rightarrow> (int \<times> vfile \<times> 'h vfs) option" where
  "file_seek E v f off whence = do {
     (call :: (int \<times> vfile \<times> 'h vfs) option) \<leftarrow> (case f_node f of None \<Rightarrow> Some None
       | Some a \<Rightarrow> do {
           i \<leftarrow> nodes (v_tree v) a;
           if i_ops i = None then Some None
           else if INODE_IS_TYPE i FSNODEFLAG_TYPE_MOUNTPT then do {
             ((ret, g), v) \<leftarrow> mnt_call v (i_private i) (\<lambda>s. do {
               (ret, g, s) \<leftarrow> hostfs_seek (vhost E) s (f_drv f) off whence; Some ((ret, g), s) });
             Some (Some (ret, f\<lparr>f_drv := g\<rparr>, v)) }
           else Some (case drv_seek E a of None \<Rightarrow> None
             | Some op \<Rightarrow> let (ret, g) = op (f_drv f) off whence in Some (ret, f\<lparr>f_drv := g\<rparr>, v)) });
     Some (case call of
         Some (ret, f, v) \<Rightarrow> (if ret < 0 then ret else f_pos (f_drv f), f, v)
       | None \<Rightarrow>
           if whence = SEEK_CUR \<or> whence = SEEK_SET then
             let off = (if whence = SEEK_CUR then to_off (off + f_pos (f_drv f)) else off) in
             if off < 0 then (- EINVAL, f, v)
             else (off, f\<lparr>f_drv := (f_drv f)\<lparr>f_pos := off\<rparr>\<rparr>, v)
           else (if whence = SEEK_END then - ENOSYS else - EINVAL, f, v)) }"

section \<open>The mount of the program\<close>

text \<open>\<open>mount_hostfs\<close> in \<open>lvgldemo.c\<close>; the result tells which message is printed.\<close>

definition mount_hostfs :: "'h vfs_env \<Rightarrow> 'h vfs \<Rightarrow> (bool \<times> 'h vfs) option" where
  "mount_hostfs E v = do {
     (_, v) \<leftarrow> mkdir E v (lit ''/host'' @ [0]) 0x1ff;
     (ret, v) \<leftarrow> mount E v None (lit ''/host'' @ [0]) (lit ''hostfs'' @ [0]) 0 (Some (lit ''fs=/usr/nuttx_stuff'' @ [0]));
     Some (ret \<ge> 0, v) }"

end
