(* ===== verification/InodeTree.thy ===== *)
theory InodeTree
  imports Inode
begin

text \<open>
  The inodes as a tree: names and paths as strings, the trees a heap of inodes represents, and the
  search as a search of the tree.
\<close>

section \<open>Paths\<close>

definition seg :: "byte list \<Rightarrow> byte list" where
  "seg s = takeWhile (\<lambda>b. b \<noteq> SLASH) s"

definition after_seg :: "byte list \<Rightarrow> byte list" where
  "after_seg s = dropWhile (\<lambda>b. b = SLASH) (dropWhile (\<lambda>b. b \<noteq> SLASH) s)"

lemma length_after_seg: "s \<noteq> [] \<Longrightarrow> length (after_seg s) < length s"
proof (cases s)
  case (Cons b r)
  have le: "length (after_seg x) \<le> length x" for x :: "byte list"
    unfolding after_seg_def by (meson length_dropWhile_le order_trans)
  show ?thesis
  proof (cases "b = SLASH")
    case True
    then show ?thesis using Cons length_dropWhile_le [of "\<lambda>b. b = SLASH" r] by (simp add: after_seg_def)
  next
    case False
    then show ?thesis using Cons le [of r] by (simp add: after_seg_def)
  qed
qed simp

text \<open>The rest of a path after its first name; segments of one dot are passed over.\<close>

function next_str :: "byte list \<Rightarrow> byte list" where
  "next_str s = (if take 2 (after_seg s) = [DOT, SLASH] then next_str (after_seg s) else after_seg s)"
  by pat_completeness auto
termination
proof (relation "measure length")
  fix s :: "byte list"
  assume "take 2 (after_seg s) = [DOT, SLASH]"
  then have "s \<noteq> []" by (auto simp: after_seg_def)
  then show "(after_seg s, s) \<in> measure length" using length_after_seg by simp
qed simp

declare next_str.simps [simp del]

lemma length_next_str: "s \<noteq> [] \<Longrightarrow> length (next_str s) < length s"
proof (induction s rule: next_str.induct)
  case (1 s)
  have l: "length (after_seg s) < length s" using length_after_seg [OF 1(2)] .
  show ?case
  proof (cases "take 2 (after_seg s) = [DOT, SLASH]")
    case True
    then have "after_seg s \<noteq> []" by auto
    then have "length (next_str (after_seg s)) < length (after_seg s)" using 1(1) [OF True] by simp
    then show ?thesis using True l by (subst next_str.simps) simp
  next
    case False
    then show ?thesis using l by (subst next_str.simps) simp
  qed
qed

fun name_cmp :: "byte list \<Rightarrow> byte list \<Rightarrow> int" where
  "name_cmp a [] = (if a = [] then 0 else 1)"
| "name_cmp [] (b # bs) = -1"
| "name_cmp (a # as) (b # bs) =
     (if sint a > sint b then 1 else if sint a < sint b then -1 else name_cmp as bs)"

lemma name_cmp_eq: "name_cmp a b = 0 \<longleftrightarrow> a = b"
proof (induction a b rule: name_cmp.induct)
  case (3 a as b bs)
  have "sint a = sint b \<longleftrightarrow> a = b" by (auto intro: signed_word_eqI)
  then show ?case using 3 by (cases "sint a" "sint b" rule: linorder_cases) auto
qed auto

lemma name_cmp_sym: "name_cmp a b < 0 \<longleftrightarrow> name_cmp b a > 0"
proof (induction a b rule: name_cmp.induct)
  case (1 a)
  then show ?case by (cases a) auto
qed auto

lemma name_cmp_trans: "name_cmp a b < 0 \<Longrightarrow> name_cmp b c < 0 \<Longrightarrow> name_cmp a c < 0"
proof (induction a b arbitrary: c rule: name_cmp.induct)
  case (1 a)
  then show ?case by (auto split: if_splits)
next
  case (2 b bs)
  then show ?case by (cases c) (auto split: if_splits)
next
  case (3 a as b bs)
  then obtain d ds where c: "c = d # ds" by (cases c) (simp_all split: if_splits)
  have b: "sint b < sint d \<or> sint b = sint d \<and> name_cmp bs ds < 0" using "3.prems"(2) c by (simp split: if_splits)
  have a: "sint a < sint b \<or> sint a = sint b \<and> name_cmp as bs < 0" using "3.prems"(1) by (simp split: if_splits)
  show ?case
  proof (cases "sint a < sint d")
    case True
    then show ?thesis using c by simp
  next
    case False
    then have "sint a = sint b" "sint b = sint d" "name_cmp as bs < 0" "name_cmp bs ds < 0" using a b by auto
    then show ?thesis using "3.IH" [of ds] c by simp
  qed
qed

lemma name_cmp_refl [simp]: "name_cmp a a = 0"
  by (simp add: name_cmp_eq)

lemma name_cmp_cases [case_names less greater same]:
  obtains "name_cmp a b < 0" | "0 < name_cmp a b" | "name_cmp a b = 0"
  by linarith

lemma inode_compare_cstr:
  "cstr path p s \<Longrightarrow> cstr nm q n \<Longrightarrow> SLASH \<notin> set n \<Longrightarrow> inode_compare path p nm q = Some (name_cmp (seg s) n)"
proof (induction n arbitrary: p q s)
  case Nil
  then show ?case using cstr_rd0 [OF Nil(1)] cstr_rd0 [OF Nil(2)] cstr_nonzero [OF Nil(1)]
    by (subst inode_compare.simps) (cases s; auto simp: seg_def)
next
  case (Cons b n)
  have b: "rd nm q = Some b" "b \<noteq> 0" "cstr nm (q + 1) n" "b \<noteq> SLASH" using cstr_Cons [OF Cons.prems(2)] Cons.prems(3) by auto
  show ?case
  proof (cases s)
    case Nil
    then show ?thesis using b cstr_rd0 [OF Cons.prems(1)] by (subst inode_compare.simps) (simp add: seg_def)
  next
    case S: (Cons a r)
    have a: "rd path p = Some a" "a \<noteq> 0" "cstr path (p + 1) r" using cstr_Cons [of path p a r] Cons.prems(1) S by simp_all
    have "SLASH \<notin> set n" using Cons.prems(3) by simp
    with Cons.IH [OF a(3) b(3)] show ?thesis using a b S
      by (subst inode_compare.simps) (auto simp: seg_def)
  qed
qed

lemma name_end_cstr:
  "cstr path p s \<Longrightarrow> name_end path p = Some (p + length (seg s)) \<and> cstr path (p + length (seg s)) (dropWhile (\<lambda>b. b \<noteq> SLASH) s)"
proof (induction s arbitrary: p)
  case Nil
  then show ?case using cstr_rd0 [OF Nil] by (subst name_end.simps) (simp add: seg_def)
next
  case (Cons a s)
  then show ?case using cstr_Cons [OF Cons.prems] Cons.IH [of "p + 1"] by (subst name_end.simps) (auto simp: seg_def)
qed

lemma slashes_end_cstr: "cstr path p s \<Longrightarrow> \<exists>q. slashes_end path p = Some q \<and> cstr path q (dropWhile (\<lambda>b. b = SLASH) s)"
proof (induction s arbitrary: p)
  case Nil
  then show ?case using cstr_rd0 [OF Nil] by (subst slashes_end.simps) simp
next
  case (Cons a s)
  then show ?case using cstr_Cons [OF Cons.prems] Cons.IH [of "p + 1"] by (subst slashes_end.simps) auto
qed

lemma inode_nextname_cstr: "cstr path p s \<Longrightarrow> \<exists>q. inode_nextname path p = Some q \<and> cstr path q (next_str s)"
proof (induction s arbitrary: p rule: next_str.induct)
  case (1 s)
  obtain e q where e: "name_end path p = Some e" "slashes_end path e = Some q" "cstr path q (after_seg s)"
    using name_end_cstr [OF "1.prems"] slashes_end_cstr unfolding after_seg_def by blast
  show ?case
  proof (cases "take 2 (after_seg s) = [DOT, SLASH]")
    case True
    then obtain r where r: "after_seg s = DOT # SLASH # r" by (cases "after_seg s" rule: remdups_adj.cases) auto
    have "rd path q = Some DOT" "rd path (q + 1) = Some SLASH"
      using cstr_Cons [of path q DOT "SLASH # r"] cstr_Cons [of path "q + 1" SLASH r] e(3) r by auto
    moreover obtain q2 where "inode_nextname path q = Some q2" "cstr path q2 (next_str s)"
      using "1.IH" [OF True e(3)] True by (auto simp: next_str.simps [of s])
    ultimately show ?thesis using e by (subst inode_nextname.simps) simp
  next
    case False
    then have n: "next_str s = after_seg s" by (simp add: next_str.simps)
    have "inode_nextname path p = Some q"
    proof (cases "after_seg s")
      case Nil
      then show ?thesis using e cstr_rd0 [OF e(3)] by (subst inode_nextname.simps) simp
    next
      case (Cons a r)
      have a: "rd path q = Some a" "cstr path (q + 1) r" using cstr_Cons [of path q a r] e(3) Cons by simp_all
      have "a = DOT \<Longrightarrow> rd path (q + 1) \<noteq> Some SLASH"
        using False Cons cstr_rd0 [OF a(2)] by (cases r) auto
      then show ?thesis using e a cstr_rd0 [OF a(2)] by (subst inode_nextname.simps) auto
    qed
    then show ?thesis using e(3) n by auto
  qed
qed

section \<open>Trees\<close>

datatype tree = Tree (t_addr: nat) (t_name: "byte list") (t_kids: "tree list")

fun forest :: "(nat \<rightharpoonup> inode) \<Rightarrow> nat option \<Rightarrow> nat option \<Rightarrow> tree list \<Rightarrow> bool" where
  "forest h par p [] \<longleftrightarrow> p = None"
| "forest h par p (Tree a n ks # ts) \<longleftrightarrow> p = Some a \<and> (\<exists>i. h a = Some i \<and> cstr (i_name i) 0 n \<and> SLASH \<notin> set n
     \<and> i_parent i = par \<and> forest h (Some a) (i_child i) ks \<and> forest h par (i_peer i) ts)"

fun addrs :: "tree list \<Rightarrow> nat list" where
  "addrs [] = []"
| "addrs (Tree a n ks # ts) = a # addrs ks @ addrs ts"

fun ordered :: "tree list \<Rightarrow> bool" where
  "ordered [] \<longleftrightarrow> True"
| "ordered (Tree a n ks # ts) \<longleftrightarrow> (\<forall>t \<in> set ts. name_cmp n (t_name t) < 0) \<and> ordered ks \<and> ordered ts"

lemma forest_cong: "(\<And>b. b \<in> set (addrs ts) \<Longrightarrow> h' b = h b) \<Longrightarrow> forest h' par p ts = forest h par p ts"
proof (induction h par p ts rule: forest.induct)
  case (2 h par p a n ks ts)
  have a: "h' a = h a" using "2.prems" by simp
  show ?case
  proof (cases "p = Some a \<and> (\<exists>i. h a = Some i)")
    case True
    then obtain i where i: "h a = Some i" by blast
    have "forest h' (Some a) (i_child i) ks = forest h (Some a) (i_child i) ks"
      by (rule "2.IH"(1)) (use "2.prems" in simp)
    moreover have "forest h' par (i_peer i) ts = forest h par (i_peer i) ts"
      by (rule "2.IH"(2)) (use "2.prems" in simp)
    ultimately show ?thesis using a i by simp
  qed (use a in auto)
qed simp

lemma forest_dom: "forest h par p ts \<Longrightarrow> set (addrs ts) \<subseteq> dom h"
proof (induction ts arbitrary: par p rule: addrs.induct)
  case (2 a n ks ts)
  then obtain i where "h a = Some i" "forest h (Some a) (i_child i) ks" "forest h par (i_peer i) ts" by auto
  then show ?case using "2.IH" by auto
qed simp

definition is_mnt :: "(nat \<rightharpoonup> inode) \<Rightarrow> nat \<Rightarrow> bool" where
  "is_mnt h a \<longleftrightarrow> (case h a of None \<Rightarrow> False | Some i \<Rightarrow> INODE_IS_TYPE i FSNODEFLAG_TYPE_MOUNTPT)"

section \<open>The search\<close>

text \<open>The search on the tree, as the loop runs, and without regard to the order.\<close>

fun scan ::
  "(nat \<Rightarrow> bool) \<Rightarrow> tree list \<Rightarrow> byte list \<Rightarrow> nat option \<Rightarrow> nat option \<Rightarrow> nat option \<times> nat option \<times> nat option \<times> byte list" where
  "scan mp [] s l ov = (None, l, ov, s)"
| "scan mp (Tree a n ks # ts) s l ov =
     (if name_cmp (seg s) n < 0 then (None, l, ov, s)
      else if name_cmp (seg s) n > 0 then scan mp ts s (Some a) ov
      else if next_str s = [] \<or> mp a then (Some a, l, ov, next_str s)
      else scan mp ks (next_str s) None (Some a))"

function resolve :: "(nat \<Rightarrow> bool) \<Rightarrow> tree list \<Rightarrow> byte list \<Rightarrow> (nat \<times> byte list) option" where
  "resolve mp ts s = (case find (\<lambda>t. t_name t = seg s) ts of None \<Rightarrow> None
     | Some t \<Rightarrow> if next_str s = [] \<or> mp (t_addr t) then Some (t_addr t, next_str s)
         else resolve mp (t_kids t) (next_str s))"
  by pat_completeness auto

lemma next_str_Nil: "next_str [] = []"
  by (simp add: next_str.simps after_seg_def)

termination resolve
proof (relation "measure (\<lambda>(mp, ts, s). length s)")
  fix mp :: "nat \<Rightarrow> bool" and ts :: "tree list" and s t
  assume "\<not> (next_str s = [] \<or> mp (t_addr t))"
  then have "s \<noteq> []" using next_str_Nil by auto
  then show "((mp, t_kids t, next_str s), mp, ts, s) \<in> measure (\<lambda>(mp, ts, s). length s)" using length_next_str by simp
qed simp

declare resolve.simps [simp del]

lemma search_loop_eq:
  "forest (nodes t) par p ts \<Longrightarrow> cstr path q s \<Longrightarrow> scan (is_mnt (nodes t)) ts s l ov = (f, l', ov', r) \<Longrightarrow>
   \<exists>q'. search_loop t path q p l ov = Some (if f = None then - ENOENT else 0,
       \<lparr>sd_path = q', sd_node = f, sd_peer = l', sd_parent = ov', sd_relpath = (if f = None then None else Some q')\<rparr>)
     \<and> cstr path q' r"
proof (induction "is_mnt (nodes t)" ts s l ov arbitrary: par p q rule: scan.induct)
  case (1 s l ov)
  then show ?case by (subst search_loop.simps) auto
next
  case (2 a n ks ts s l ov)
  obtain i where i: "p = Some a" "nodes t a = Some i" "cstr (i_name i) 0 n" "SLASH \<notin> set n"
      "forest (nodes t) (Some a) (i_child i) ks" "forest (nodes t) par (i_peer i) ts"
    using "2.prems"(1) by auto
  have c: "inode_compare path q (i_name i) 0 = Some (name_cmp (seg s) n)"
    using inode_compare_cstr [OF "2.prems"(2) i(3,4)] .
  obtain q1 where q1: "inode_nextname path q = Some q1" "cstr path q1 (next_str s)"
    using inode_nextname_cstr [OF "2.prems"(2)] by blast
  have z: "rd path q1 = Some (case next_str s of [] \<Rightarrow> 0 | b # _ \<Rightarrow> b)" "0 \<notin> set (next_str s)"
    using cstr_rd0 [OF q1(2)] cstr_nonzero [OF q1(2)] by simp_all
  have m: "is_mnt (nodes t) a = INODE_IS_TYPE i FSNODEFLAG_TYPE_MOUNTPT" using i(2) by (simp add: is_mnt_def)
  show ?case
  proof (cases rule: name_cmp_cases [of "seg s" n])
    case less
    then show ?thesis using "2.prems" i c by (subst search_loop.simps) auto
  next
    case greater
    then have n: "\<not> name_cmp (seg s) n < 0" by simp
    have "scan (is_mnt (nodes t)) ts s (Some a) ov = (f, l', ov', r)" using "2.prems"(3) greater by simp
    from "2.hyps"(1) [OF n greater i(6) "2.prems"(2) this] show ?thesis
      using i(1,2) c greater by (subst search_loop.simps) simp
  next
    case same
    show ?thesis
    proof (cases "next_str s = [] \<or> is_mnt (nodes t) a")
      case True
      then have "rd path q1 = Some 0 \<or> INODE_IS_TYPE i FSNODEFLAG_TYPE_MOUNTPT" using z(1) m by auto
      then show ?thesis using "2.prems"(3) i(1,2) c same True q1 z by (subst search_loop.simps) auto
    next
      case False
      have n: "\<not> name_cmp (seg s) n < 0" "\<not> 0 < name_cmp (seg s) n" using same by simp_all
      have "scan (is_mnt (nodes t)) ks (next_str s) None (Some a) = (f, l', ov', r)" using "2.prems"(3) same False by simp
      from "2.hyps"(2) [OF n False i(5) q1(2) this] show ?thesis
        using i(1,2) c same q1(1) z False m by (subst search_loop.simps) (cases "next_str s"; simp)
    qed
  qed
qed

text \<open>Because peers are ordered, the loop finds what is there.\<close>

lemma find_ordered_greater:
  "ordered ts \<Longrightarrow> \<forall>t \<in> set ts. name_cmp n (t_name t) < 0 \<Longrightarrow> name_cmp x n \<le> 0 \<Longrightarrow> find (\<lambda>t. t_name t = x) ts = None"
proof -
  assume a: "\<forall>t \<in> set ts. name_cmp n (t_name t) < 0" "name_cmp x n \<le> 0"
  have "t_name t \<noteq> x" if "t \<in> set ts" for t
  proof
    assume "t_name t = x"
    then have "name_cmp n x < 0" using a(1) that by auto
    then have "name_cmp x n > 0" using name_cmp_sym by blast
    then show False using a(2) by simp
  qed
  then show ?thesis by (simp add: find_None_iff)
qed

lemma scan_resolve:
  "ordered ts \<Longrightarrow> scan mp ts s l ov = (f, l', ov', r) \<Longrightarrow> resolve mp ts s = map_option (\<lambda>a. (a, r)) f"
proof (induction mp ts s l ov rule: scan.induct)
  case (1 mp s l ov)
  then show ?case by (subst resolve.simps) auto
next
  case (2 mp a n ks ts s l ov)
  show ?case
  proof (cases rule: name_cmp_cases [of "seg s" n])
    case less
    then have "n \<noteq> seg s" using name_cmp_eq [of "seg s" n] by auto
    moreover have "find (\<lambda>t. t_name t = seg s) ts = None" using find_ordered_greater [of ts n "seg s"] "2.prems"(1) less by simp
    ultimately show ?thesis using "2.prems"(2) less by (subst resolve.simps) auto
  next
    case greater
    then have "n \<noteq> seg s" using name_cmp_eq [of "seg s" n] by auto
    then have "resolve mp (Tree a n ks # ts) s = resolve mp ts s" by (simp add: resolve.simps [of mp _ s])
    then show ?thesis using "2.IH"(1) "2.prems" greater by simp
  next
    case same
    then have "n = seg s" using name_cmp_eq [of "seg s" n] by simp
    then show ?thesis using "2.IH"(2) "2.prems" same by (subst resolve.simps) auto
  qed
qed

end
