(* ===== verification/InodeSpec.thy ===== *)
theory InodeSpec
  imports InodeTree
begin

text \<open>
  Reserving a path: the loop of \<open>inode_reserve\<close> adds one inode for each missing name, at the place
  where the search ended. The heap afterwards represents the tree with these nodes, the order of the
  peers is kept, the path is found and every other path is found where it was.
\<close>

section \<open>One insertion in the tree\<close>

fun ins1 :: "tree list \<Rightarrow> byte list \<Rightarrow> nat \<Rightarrow> tree list" where
  "ins1 [] s a = [Tree a (seg s) []]"
| "ins1 (Tree b n ks # ts) s a =
     (if name_cmp (seg s) n < 0 then Tree a (seg s) [] # Tree b n ks # ts
      else if name_cmp (seg s) n > 0 then Tree b n ks # ins1 ts s a
      else Tree b n (ins1 ks (next_str s) a) # ts)"

lemma set_addrs_ins1: "set (addrs (ins1 ts s a)) = insert a (set (addrs ts))"
  by (induction ts s a rule: ins1.induct) auto

lemma distinct_ins1: "distinct (addrs ts) \<Longrightarrow> a \<notin> set (addrs ts) \<Longrightarrow> distinct (addrs (ins1 ts s a))"
  by (induction ts s a rule: ins1.induct) (auto simp: set_addrs_ins1)

lemma names_ins1: "t_name ` set (ins1 ts s a) \<subseteq> insert (seg s) (t_name ` set ts)"
  by (induction ts s a rule: ins1.induct) auto

lemma ordered_Cons: "ordered (t # ts) \<longleftrightarrow> (\<forall>n \<in> t_name ` set ts. name_cmp (t_name t) n < 0) \<and> ordered (t_kids t) \<and> ordered ts"
  by (cases t) auto

lemma ordered_ins1: "ordered ts \<Longrightarrow> ordered (ins1 ts s a)"
proof (induction ts s a rule: ins1.induct)
  case (2 b n ks ts s a)
  show ?case
  proof (cases rule: name_cmp_cases [of "seg s" n])
    case less
    have "name_cmp (seg s) (t_name t) < 0" if "t \<in> set ts" for t
      using name_cmp_trans [OF less] "2.prems" that by simp
    then show ?thesis using less "2.prems" by simp
  next
    case greater
    then have n: "name_cmp n (seg s) < 0" using name_cmp_sym by blast
    have "name_cmp n m < 0" if "m \<in> t_name ` set (ins1 ts s a)" for m
      using that names_ins1 [of ts s a] n "2.prems" by auto
    moreover have "ordered (ins1 ts s a)" using "2.IH"(1) "2.prems" greater by simp
    ultimately show ?thesis using greater "2.prems" by (simp add: ordered_Cons)
  next
    case same
    then show ?thesis using 2 by simp
  qed
qed simp

lemma scan_ins1:
  "scan mp ts s l ov = (None, l', ov', r) \<Longrightarrow> \<not> mp a \<Longrightarrow>
   scan mp (ins1 ts s a) s l ov = (if next_str r = [] then (Some a, l', ov', []) else (None, None, Some a, next_str r))"
  by (induction mp ts s l ov rule: scan.induct) (auto simp: name_cmp_eq split: if_splits)

lemma resolve_Nil [simp]: "resolve mp [] s = None"
  by (simp add: resolve.simps)

lemma resolve_Cons:
  "resolve mp (Tree b n ks # ts) s =
     (if n = seg s then if next_str s = [] \<or> mp b then Some (b, next_str s) else resolve mp ks (next_str s)
      else resolve mp ts s)"
  by (simp add: resolve.simps [of mp _ s])

lemma resolve_addr: "resolve mp ts s = Some (b, r) \<Longrightarrow> b \<in> set (addrs ts)"
proof (induction ts arbitrary: s rule: addrs.induct)
  case (2 a n ks ts)
  then show ?case by (auto simp: resolve_Cons split: if_splits)
qed simp

lemma resolve_cong: "(\<And>b. b \<in> set (addrs ts) \<Longrightarrow> mp b = mp' b) \<Longrightarrow> resolve mp ts s = resolve mp' ts s"
proof (induction ts arbitrary: s rule: addrs.induct)
  case (2 a n ks ts)
  have "resolve mp ks v = resolve mp' ks v" "resolve mp ts v = resolve mp' ts v" for v
    using "2.IH" "2.prems" by simp_all
  then show ?case using "2.prems" [of a] by (simp add: resolve_Cons)
qed simp

lemma resolve_smaller:
  assumes "ordered (Tree b n ks # ts)" and "name_cmp (seg s) n < 0"
  shows "resolve mp (Tree b n ks # ts) s = None"
proof -
  have "n \<noteq> seg s" using assms(2) name_cmp_eq [of "seg s" n] by auto
  moreover have "find (\<lambda>t. t_name t = seg s) ts = None" using find_ordered_greater [of ts n "seg s"] assms by simp
  ultimately show ?thesis by (simp add: resolve.simps)
qed

text \<open>Paths that lead to another node lead there before and afterwards.\<close>

lemma resolve_ins1:
  "ordered ts \<Longrightarrow> b \<noteq> a \<Longrightarrow> \<not> mp a \<Longrightarrow> resolve mp (ins1 ts s a) s' = Some (b, r) \<longleftrightarrow> resolve mp ts s' = Some (b, r)"
proof (induction ts s a arbitrary: s' rule: ins1.induct)
  case (1 s a)
  then show ?case by (auto simp: resolve_Cons)
next
  case (2 c n ks ts s a)
  show ?case
  proof (cases rule: name_cmp_cases [of "seg s" n])
    case less
    show ?thesis
    proof (cases "seg s = seg s'")
      case True
      then have "resolve mp (Tree c n ks # ts) s' = None" using resolve_smaller "2.prems"(1) less by metis
      then show ?thesis using less "2.prems" True by (simp add: resolve_Cons [of mp a])
    next
      case False
      then show ?thesis using less by (simp add: resolve_Cons [of mp a])
    qed
  next
    case greater
    then show ?thesis using "2.IH"(1) "2.prems" by (simp add: resolve_Cons)
  next
    case same
    then show ?thesis using "2.IH"(2) [of "next_str s'"] "2.prems" by (simp add: resolve_Cons)
  qed
qed

section \<open>One insertion in the heap\<close>

text \<open>The pointer that leads to a list of peers: of the peer before it or of the parent.\<close>

definition slot :: "(nat \<rightharpoonup> inode) \<Rightarrow> nat option \<Rightarrow> nat option \<Rightarrow> nat option" where
  "slot h l ov = (case l of Some p \<Rightarrow> i_peer (the (h p)) | None \<Rightarrow> i_child (the (h (the ov))))"

definition holder :: "nat option \<Rightarrow> nat option \<Rightarrow> nat" where
  "holder l ov = (case l of Some p \<Rightarrow> p | None \<Rightarrow> the ov)"

definition set_slot :: "nat option \<Rightarrow> nat option \<Rightarrow> nat option \<Rightarrow> inode \<Rightarrow> inode" where
  "set_slot l ov p x = (case l of Some _ \<Rightarrow> x\<lparr>i_peer := p\<rparr> | None \<Rightarrow> x\<lparr>i_child := p\<rparr>)"

lemma set_slot_fields [simp]:
  "i_name (set_slot l ov p x) = i_name x" "i_parent (set_slot l ov p x) = i_parent x" "i_flags (set_slot l ov p x) = i_flags x"
  by (simp_all add: set_slot_def split: option.splits)

lemma holder_simps [simp]: "holder (Some p) ov = p" "holder None (Some p) = p"
  by (simp_all add: holder_def)

lemma slot_frame: "h' (holder l ov) = h (holder l ov) \<Longrightarrow> slot h' l ov = slot h l ov"
  by (simp add: slot_def holder_def split: option.splits)

lemma slot_set: "h (holder l ov) = Some (set_slot l ov p x) \<Longrightarrow> slot h l ov = p"
  by (simp add: slot_def holder_def set_slot_def split: option.splits)

lemma slash_seg: "SLASH \<notin> set (seg s)"
  by (auto simp: seg_def dest: set_takeWhileD)

lemma inode_insert_eq:
  "h a = Some i \<Longrightarrow> h (holder l ov) = Some x \<Longrightarrow> holder l ov \<noteq> a \<Longrightarrow> l \<noteq> None \<or> ov \<noteq> None \<Longrightarrow>
   inode_insert a l ov h = Some (h(a \<mapsto> i\<lparr>i_peer := slot h l ov, i_parent := ov\<rparr>, holder l ov \<mapsto> set_slot l ov (Some a) x))"
  by (cases l; cases ov) (auto simp: inode_insert_def holder_def slot_def set_slot_def)

lemma scan_holder:
  "scan mp ts s l ov = (f, l', ov', r) \<Longrightarrow> l' = l \<and> ov' = ov \<or> holder l' ov' \<in> set (addrs ts)"
proof (induction mp ts s l ov rule: scan.induct)
  case (2 mp a n ks ts s l ov)
  then show ?case by (auto simp: holder_def split: if_splits)
qed auto

lemma scan_over: "scan mp ts s l ov = (f, l', ov', r) \<Longrightarrow> ov \<noteq> None \<Longrightarrow> ov' \<noteq> None"
  by (induction mp ts s l ov rule: scan.induct) (auto split: if_splits)

lemma forest_insert:
  assumes "scan mp ts s l ov = (None, l', ov', r)" and "forest h ov (slot h l ov) ts"
    and "distinct (addrs ts)" and "a \<notin> set (addrs ts)" and "holder l ov \<notin> set (addrs ts)" and "holder l ov \<noteq> a"
    and "cstr (i_name i) 0 (seg r)" and "i_child i = None" and "h (holder l' ov') = Some x"
    and "h' = h(a \<mapsto> i\<lparr>i_peer := slot h l' ov', i_parent := ov'\<rparr>, holder l' ov' \<mapsto> set_slot l' ov' (Some a) x)"
  shows "forest h' ov (slot h' l ov) (ins1 ts s a)"
  using assms
proof (induction mp ts s l ov rule: scan.induct)
  case (1 mp s l ov)
  then show ?case using slash_seg [of s] by (auto simp: slot_def holder_def set_slot_def split: option.splits)
next
  case (2 mp b n ks ts s l ov)
  let ?K = "holder l' ov'"
  obtain j where j: "slot h l ov = Some b" "h b = Some j" "cstr (i_name j) 0 n" "SLASH \<notin> set n" "i_parent j = ov"
      "forest h (Some b) (i_child j) ks" "forest h ov (i_peer j) ts" using "2.prems"(2) by auto
  have d: "b \<notin> set (addrs ks)" "b \<notin> set (addrs ts)" "set (addrs ks) \<inter> set (addrs ts) = {}" "a \<noteq> b" "a \<notin> set (addrs ks)"
      "a \<notin> set (addrs ts)" "holder l ov \<noteq> b" "distinct (addrs ks)" "distinct (addrs ts)" using "2.prems"(3-6) by auto
  have out: "h' c = h c" if "c \<noteq> a" "c \<noteq> ?K" for c using "2.prems"(10) that by simp
  have ib: "h' b = Some (if l' = Some b then j\<lparr>i_peer := Some a\<rparr> else j\<lparr>i_child := Some a\<rparr>)" if "?K = b"
    using "2.prems"(9,10) that j(2) by (auto simp: set_slot_def holder_def split: option.splits)
  show ?case
  proof (cases rule: name_cmp_cases [of "seg s" n])
    case less
    then have e: "l' = l" "ov' = ov" "r = s" using "2.prems"(1) by auto
    have "forest h' ov (Some b) (Tree b n ks # ts) = forest h ov (Some b) (Tree b n ks # ts)"
      by (rule forest_cong, rule out) (use "2.prems"(4,5) e in auto)
    then have "forest h' ov (Some b) (Tree b n ks # ts)" using "2.prems"(2) j(1) by simp
    moreover have "h' a = Some (i\<lparr>i_peer := Some b, i_parent := ov\<rparr>)" using "2.prems"(6,10) e j(1) by simp
    moreover have "slot h' l ov = Some a" using "2.prems"(10) e by (intro slot_set) simp
    ultimately show ?thesis using less "2.prems"(7,8) e slash_seg by simp
  next
    case greater
    then have n: "\<not> name_cmp (seg s) n < 0" and sc: "scan mp ts s (Some b) ov = (None, l', ov', r)" using "2.prems"(1) by simp_all
    have K: "l' = Some b \<and> ov' = ov \<or> ?K \<in> set (addrs ts)" using scan_holder [OF sc] .
    have "forest h' ov (slot h' (Some b) ov) (ins1 ts s a)"
      by (rule "2.IH"(1) [OF n greater sc]) (use j d "2.prems"(7-10) in \<open>simp_all add: slot_def\<close>)
    moreover have "slot h' l ov = Some b"
      by (subst slot_frame [of h' l ov h], rule out) (use K j(1) d(7) "2.prems"(5,6) in auto)
    moreover have "forest h' (Some b) (i_child j) ks = forest h (Some b) (i_child j) ks"
      by (rule forest_cong, rule out) (use K d in auto)
    moreover have "h' b = Some (j\<lparr>i_peer := slot h' (Some b) ov\<rparr>)"
    proof (cases "?K = b")
      case True
      then have "l' = Some b" using K d(2) by auto
      then show ?thesis using ib [OF True] by (simp add: slot_def)
    next
      case False
      then show ?thesis using out [of b] d(4) j(2) by (simp add: slot_def)
    qed
    ultimately show ?thesis using greater j by simp
  next
    case same
    have n: "\<not> name_cmp (seg s) n < 0" "\<not> 0 < name_cmp (seg s) n" using same by simp_all
    have f: "\<not> (next_str s = [] \<or> mp b)" using "2.prems"(1) same by (auto split: if_splits)
    have sc: "scan mp ks (next_str s) None (Some b) = (None, l', ov', r)" using "2.prems"(1) same f by simp
    have K: "l' = None \<and> ov' = Some b \<or> ?K \<in> set (addrs ks)" using scan_holder [OF sc] .
    have "forest h' (Some b) (slot h' None (Some b)) (ins1 ks (next_str s) a)"
      by (rule "2.IH"(2) [OF n f sc]) (use j d "2.prems"(7-10) in \<open>simp_all add: slot_def\<close>)
    moreover have "slot h' l ov = Some b"
      by (subst slot_frame [of h' l ov h], rule out) (use K j(1) d(7) "2.prems"(5,6) in auto)
    moreover have "forest h' ov (i_peer j) ts = forest h ov (i_peer j) ts"
      by (rule forest_cong, rule out) (use K d in auto)
    moreover have "h' b = Some (j\<lparr>i_child := slot h' None (Some b)\<rparr>)"
    proof (cases "?K = b")
      case True
      then have "l' = None" using K d(1) by auto
      then show ?thesis using ib [OF True] by (simp add: slot_def)
    next
      case False
      then show ?thesis using out [of b] d(4) j(2) by (simp add: slot_def)
    qed
    ultimately show ?thesis using same j by simp
  qed
qed

section \<open>The tree of the system\<close>

definition itree_ok :: "itree \<Rightarrow> nat \<Rightarrow> tree list \<Rightarrow> bool" where
  "itree_ok t r ks \<longleftrightarrow> g_root_inode t = Some r \<and> forest (nodes t) None (Some r) [Tree r [] ks]
     \<and> distinct (addrs [Tree r [] ks]) \<and> ordered [Tree r [] ks]"

definition lookup :: "itree \<Rightarrow> nat \<Rightarrow> tree list \<Rightarrow> byte list \<Rightarrow> (nat \<times> byte list) option" where
  "lookup t r ks = resolve (is_mnt (nodes t)) [Tree r [] ks]"

text \<open>Everything but the pointers of the inodes is kept.\<close>

definition keeps :: "(nat \<rightharpoonup> inode) \<Rightarrow> (nat \<rightharpoonup> inode) \<Rightarrow> bool" where
  "keeps h h' \<longleftrightarrow> (\<forall>b i. h b = Some i \<longrightarrow> (\<exists>p q c. h' b = Some (i\<lparr>i_parent := p, i_peer := q, i_child := c\<rparr>)))"

lemma inode_eta: "(i::inode)\<lparr>i_parent := i_parent i, i_peer := i_peer i, i_child := i_child i\<rparr> = i"
  by simp

lemma inode_same: "\<exists>p q c. (i::inode) = i\<lparr>i_parent := p, i_peer := q, i_child := c\<rparr>"
  by (metis inode_eta)

lemma set_slot_keeps: "\<exists>p q c. set_slot l ov v x = x\<lparr>i_parent := p, i_peer := q, i_child := c\<rparr>"
proof (cases l)
  case None
  then have "set_slot l ov v x = x\<lparr>i_parent := i_parent x, i_peer := i_peer x, i_child := v\<rparr>" by (simp add: set_slot_def)
  then show ?thesis by blast
next
  case (Some _)
  then have "set_slot l ov v x = x\<lparr>i_parent := i_parent x, i_peer := v, i_child := i_child x\<rparr>" by (simp add: set_slot_def)
  then show ?thesis by blast
qed

lemma keeps_refl: "keeps h h"
  unfolding keeps_def using inode_same by auto

lemma keeps_trans: "keeps h h' \<Longrightarrow> keeps h' h'' \<Longrightarrow> keeps h h''"
  unfolding keeps_def by fastforce

lemma keeps_dom: "keeps h h' \<Longrightarrow> dom h \<subseteq> dom h'"
  unfolding keeps_def by blast

lemma keeps_mnt: "keeps h h' \<Longrightarrow> h b \<noteq> None \<Longrightarrow> is_mnt h' b = is_mnt h b"
  by (fastforce simp: keeps_def is_mnt_def INODE_IS_TYPE_def)

lemma inode_namecpy_eq:
  "cstr src s (x @ y) \<Longrightarrow> length rest = length x + 1 \<Longrightarrow>
   inode_namecpy (length x) (pre @ rest) (length pre) src s = Some (pre @ x @ [0])"
proof (induction x arbitrary: pre rest s)
  case Nil
  then obtain c where "rest = [c]" by (cases rest) auto
  then show ?case by simp
next
  case (Cons b x)
  obtain c rest' where c: "rest = c # rest'" using Cons.prems(2) by (cases rest) auto
  have b: "rd src s = Some b" "cstr src (s + 1) (x @ y)" using cstr_Cons [of src s b "x @ y"] Cons.prems(1) by auto
  have "inode_namecpy (length x) ((pre @ [b]) @ rest') (length (pre @ [b])) src (s + 1) = Some ((pre @ [b]) @ x @ [0])"
    using Cons.IH [OF b(2), of rest' "pre @ [b]"] Cons.prems(2) c by simp
  then show ?case using b(1) c by simp
qed

definition new_inode :: "nat \<Rightarrow> byte list \<Rightarrow> inode" where
  "new_inode n name = \<lparr>i_parent = None, i_peer = None, i_child = None, i_crefs = 1, i_flags = 0,
     i_ops = None, i_ino = n, i_private = None, i_name = name @ [0]\<rparr>"

lemma inode_alloc_eq:
  assumes "cstr path q s"
  shows "inode_alloc malloc path q t = Some (case malloc (FSNODE_SIZE (length (seg s))) (nodes t) of None \<Rightarrow> (None, t)
    | Some a \<Rightarrow> (Some a, t\<lparr>g_ino := g_ino t + 1, nodes := (nodes t)(a \<mapsto> new_inode (g_ino t) (seg s))\<rparr>))"
proof -
  have s: "s = seg s @ dropWhile (\<lambda>b. b \<noteq> SLASH) s" by (simp add: seg_def)
  have "inode_namecpy (length (seg s)) (replicate (length (seg s) + 1) 0) 0 path q = Some (seg s @ [0])"
    using inode_namecpy_eq [of path q "seg s" "dropWhile (\<lambda>b. b \<noteq> SLASH) s" "replicate (length (seg s) + 1) 0" "[]"] s assms by simp
  then show ?thesis using name_end_cstr [OF assms] by (simp add: inode_alloc_def new_inode_def split: option.splits)
qed

definition fresh_addr :: "(nat \<Rightarrow> (nat \<rightharpoonup> inode) \<Rightarrow> nat option) \<Rightarrow> bool" where
  "fresh_addr malloc \<longleftrightarrow> (\<forall>n h a. malloc n h = Some a \<longrightarrow> h a = None)"

lemma not_mnt_new: "\<not> INODE_IS_TYPE (new_inode n x) FSNODEFLAG_TYPE_MOUNTPT"
  by (simp add: INODE_IS_TYPE_def new_inode_def FSNODEFLAG_TYPE_MOUNTPT_def)

lemma scan_root:
  "seg s = [] \<Longrightarrow> scan mp [Tree r [] ks] s None None = (None, l, ov, rr) \<Longrightarrow>
   next_str s \<noteq> [] \<and> \<not> mp r \<and> scan mp ks (next_str s) None (Some r) = (None, l, ov, rr)"
  by (simp split: if_splits)

lemma reserve_step:
  assumes "itree_ok t r ks" and "seg s = []" and "scan (is_mnt (nodes t)) [Tree r [] ks] s None None = (None, l, ov, rr)"
    and "0 \<notin> set rr" and "nodes t a = None"
  obtains h p q where "inode_insert a l ov ((nodes t)(a \<mapsto> new_inode n (seg rr))) = Some h"
    and "itree_ok (t\<lparr>g_ino := k, nodes := h\<rparr>) r (ins1 ks (next_str s) a)"
    and "keeps (nodes t) h" and "is_mnt h = is_mnt (nodes t)" and "finite (dom (nodes t)) \<Longrightarrow> finite (dom h)"
    and "h a = Some (new_inode n (seg rr)\<lparr>i_peer := p, i_parent := q\<rparr>)"
proof -
  let ?i = "new_inode n (seg rr)" and ?h = "(nodes t)(a \<mapsto> new_inode n (seg rr))" and ?K = "holder l ov"
  note sc = scan_root [OF assms(2,3)]
  obtain j where j: "nodes t r = Some j" "cstr (i_name j) 0 []" "i_parent j = None" "i_peer j = None"
      "forest (nodes t) (Some r) (i_child j) ks" using assms(1) by (auto simp: itree_ok_def)
  have d: "distinct (addrs ks)" "r \<notin> set (addrs ks)" "ordered ks" using assms(1) by (auto simp: itree_ok_def)
  have dm: "set (addrs ks) \<subseteq> dom (nodes t)" using forest_dom [OF j(5)] .
  have ar: "a \<noteq> r" "a \<notin> set (addrs ks)" using assms(5) j(1) dm by auto
  have K: "l = None \<and> ov = Some r \<or> ?K \<in> set (addrs ks)" using scan_holder sc by blast
  obtain x where x: "nodes t ?K = Some x" using K j(1) dm by auto
  have Ka: "?K \<noteq> a" using x assms(5) by auto
  define h where "h = ?h(a \<mapsto> ?i\<lparr>i_peer := slot ?h l ov, i_parent := ov\<rparr>, ?K \<mapsto> set_slot l ov (Some a) x)"
  have ins: "inode_insert a l ov ?h = Some h"
    unfolding h_def by (rule inode_insert_eq) (use x Ka scan_over sc in auto)
  have "forest ?h (Some r) (i_child j) ks = forest (nodes t) (Some r) (i_child j) ks"
    by (rule forest_cong) (use ar in auto)
  then have f0: "forest ?h (Some r) (slot ?h None (Some r)) ks" using j(1,5) ar by (simp add: slot_def)
  have nm: "cstr (i_name ?i) 0 (seg rr)" using assms(4)
    by (auto simp: new_inode_def seg_def intro!: cstr_of_list dest: set_takeWhileD)
  have f: "forest h (Some r) (slot h None (Some r)) (ins1 ks (next_str s) a)"
    by (rule forest_insert [OF conjunct2 [OF conjunct2 [OF sc]] f0 d(1) ar(2) _ _ nm _ _ h_def])
       (use d ar x Ka in \<open>simp_all add: new_inode_def\<close>)
  have "h r = Some (j\<lparr>i_child := slot h None (Some r)\<rparr>)"
    using K j(1) ar x d(2) by (auto simp: h_def slot_def set_slot_def)
  then have "itree_ok (t\<lparr>g_ino := k, nodes := h\<rparr>) r (ins1 ks (next_str s) a)"
    using assms(1) f j d distinct_ins1 [OF d(1) ar(2)] ordered_ins1 [OF d(3)] ar
    by (auto simp: itree_ok_def set_addrs_ins1)
  moreover have kp: "keeps (nodes t) h"
    using assms(5) x set_slot_keeps [of l ov "Some a" x] by (auto simp: keeps_def h_def intro: inode_same)
  moreover have "is_mnt h b = is_mnt (nodes t) b" for b
  proof (cases "nodes t b")
    case None
    then show ?thesis using x Ka not_mnt_new by (auto simp: h_def is_mnt_def INODE_IS_TYPE_def)
  qed (use keeps_mnt [OF kp] in auto)
  moreover have "finite (dom h)" if "finite (dom (nodes t))" using that by (simp add: h_def)
  moreover have "h a = Some (?i\<lparr>i_peer := slot ?h l ov, i_parent := ov\<rparr>)" using Ka by (simp add: h_def)
  ultimately show thesis using ins that by blast
qed

section \<open>Searching in the system\<close>

text \<open>The absolute path of a path, with the current directory \<open>cwd\<close>.\<close>

definition full_path :: "byte list \<Rightarrow> byte list \<Rightarrow> byte list" where
  "full_path cwd s = (if s \<noteq> [] \<and> hd s = SLASH then s else cwd @ SLASH # s)"

text \<open>A relative path needs memory and a current directory that is an absolute path.\<close>

definition path_env :: "(nat \<Rightarrow> bool) \<Rightarrow> byte list \<Rightarrow> byte list \<Rightarrow> bool" where
  "path_env avail cwd s \<longleftrightarrow> s \<noteq> [] \<and> hd s = SLASH
     \<or> (\<forall>n. avail n) \<and> cwd \<noteq> [] \<and> hd cwd = SLASH \<and> 0 \<notin> set cwd"

lemma inode_search_scan:
  assumes "itree_ok t r ks" and "cstr path 0 s" and "path_env avail cwd s"
    and "scan (is_mnt (nodes t)) [Tree r [] ks] (full_path cwd s) None None = (f, l, ov, rr)"
  obtains path' q where "inode_search avail cwd t path = Some (if f = None then - ENOENT else 0, path',
       \<lparr>sd_path = q, sd_node = f, sd_peer = l, sd_parent = ov, sd_relpath = (if f = None then None else Some q)\<rparr>)"
    and "cstr path' q rr" and "cstr path' 0 (full_path cwd s)"
proof -
  note fin = that
  have t: "g_root_inode t = Some r" "forest (nodes t) None (Some r) [Tree r [] ks]" using assms(1) by (auto simp: itree_ok_def)
  have abs: thesis
    if p: "cstr path' 0 (full_path cwd s)" "rd path' 0 = Some SLASH" "inode_search avail cwd t path =
      do { (ret, d) \<leftarrow> inode_search_abs t path'; Some (ret, path', d) }" for path'
  proof -
    obtain q where q: "search_loop t path' 0 (Some r) None None = Some (if f = None then - ENOENT else 0,
       \<lparr>sd_path = q, sd_node = f, sd_peer = l, sd_parent = ov, sd_relpath = (if f = None then None else Some q)\<rparr>)" "cstr path' q rr"
      using search_loop_eq [OF t(2) p(1) assms(4)] by blast
    have "inode_search_abs t path' = search_loop t path' 0 (Some r) None None" using p(2) t(1) by (simp add: inode_search_abs_def)
    then show thesis using fin [of path' q] q p(1,3) by simp
  qed
  show thesis
  proof (cases "s \<noteq> [] \<and> hd s = SLASH")
    case True
    then have "rd path 0 = Some SLASH" using cstr_rd0 [OF assms(2)] by (cases s) auto
    then show thesis using abs [of path] assms(2) True by (simp add: inode_search_def full_path_def)
  next
    case False
    then have b: "\<exists>b. rd path 0 = Some b \<and> b \<noteq> SLASH" using cstr_rd0 [OF assms(2)] by (cases s) auto
    then obtain c where c: "\<forall>n. avail n" "cwd = SLASH # c" "0 \<notin> set cwd"
      using assms(3) False by (cases cwd) (auto simp: path_env_def)
    have n: "strlen path 0 = Some (length s)" "take (length s) path = s"
      using strlen_cstr [OF assms(2)] cstr_drop [OF assms(2)] by auto
    have "cstr (cwd @ SLASH # s @ [0]) 0 (cwd @ SLASH # s)"
      using cstr_of_list [of "cwd @ SLASH # s"] c(3) cstr_nonzero [OF assms(2)] by simp
    then show thesis using abs [of "cwd @ SLASH # s @ [0]"] False b n c(1,2) by (auto simp: inode_search_def full_path_def Let_def)
  qed
qed

lemma seg_full_path: "path_env avail cwd s \<Longrightarrow> seg (full_path cwd s) = []"
  by (cases s; cases cwd) (auto simp: full_path_def path_env_def seg_def)

lemma lookup_scan:
  assumes "itree_ok t r ks" and "scan (is_mnt (nodes t)) [Tree r [] ks] s None None = (f, l, ov, rr)"
  shows "lookup t r ks s = map_option (\<lambda>a. (a, rr)) f"
  using assms scan_resolve [of "[Tree r [] ks]"] by (simp add: lookup_def itree_ok_def del: scan.simps)

section \<open>Reserving a path\<close>

text \<open>What reserving the path \<open>s\<close> gives: the tree is in order, old inodes are found where they were, and the
  path leads to a new inode, unless there is no memory.\<close>

definition reserved ::
  "(nat \<Rightarrow> (nat \<rightharpoonup> inode) \<Rightarrow> nat option) \<Rightarrow> nat \<Rightarrow> byte list \<Rightarrow> itree \<Rightarrow> tree list \<Rightarrow> int \<Rightarrow> nat option \<Rightarrow> itree \<Rightarrow> tree list \<Rightarrow> bool" where
  "reserved malloc r s t ks ret p t' ks' \<longleftrightarrow> itree_ok t' r ks' \<and> keeps (nodes t) (nodes t')
    \<and> is_mnt (nodes t') = is_mnt (nodes t)
    \<and> (\<forall>s' b u. nodes t b \<noteq> None \<longrightarrow> (lookup t' r ks' s' = Some (b, u) \<longleftrightarrow> lookup t r ks s' = Some (b, u)))
    \<and> (ret = - ENOMEM \<and> p = None \<and> (\<exists>n h. malloc n h = None \<and> (finite (dom (nodes t)) \<longrightarrow> finite (dom h)))
       \<or> ret = 0 \<and> (\<exists>a i n x. p = Some a \<and> nodes t a = None \<and> lookup t' r ks' s = Some (a, []) \<and> nodes t' a = Some i
           \<and> i = new_inode n x\<lparr>i_parent := i_parent i, i_peer := i_peer i\<rparr>))"

lemma reserve_loop_ok:
  assumes "itree_ok t r ks" and "seg s = []" and "scan (is_mnt (nodes t)) [Tree r [] ks] s None None = (None, l, ov, rr)"
    and "cstr path q rr" and "fresh_addr malloc"
  shows "\<exists>ret p t' ks'. reserve_loop malloc path q l ov t = Some (ret, p, t') \<and> reserved malloc r s t ks ret p t' ks'"
  using assms
proof (induction "length rr" arbitrary: t ks l ov rr q rule: less_induct)
  case less
  obtain q' where q': "inode_nextname path q = Some q'" "cstr path q' (next_str rr)"
    using inode_nextname_cstr [OF less.prems(4)] by blast
  obtain b where b: "rd path q' = Some b" "b = 0 \<longleftrightarrow> next_str rr = []"
    using cstr_rd0 [OF q'(2)] cstr_nonzero [OF q'(2)] by (cases "next_str rr") auto
  show ?case
  proof (cases "malloc (FSNODE_SIZE (length (seg rr))) (nodes t)")
    case None
    then have "reserve_loop malloc path q l ov t = Some (- ENOMEM, None, t)"
      using q' b inode_alloc_eq [OF less.prems(4), of malloc t] by (subst reserve_loop.simps) simp
    then show ?thesis using None less.prems(1) keeps_refl unfolding reserved_def by blast
  next
    case (Some a)
    then have na: "nodes t a = None" using less.prems(5) by (auto simp: fresh_addr_def)
    let ?t = "\<lambda>h. t\<lparr>g_ino := g_ino t + 1, nodes := h\<rparr>"
    let ?ks = "ins1 ks (next_str s) a"
    obtain h p p' where h: "inode_insert a l ov ((nodes t)(a \<mapsto> new_inode (g_ino t) (seg rr))) = Some h"
        "itree_ok (?t h) r ?ks" "keeps (nodes t) h" "is_mnt h = is_mnt (nodes t)"
        "finite (dom (nodes t)) \<Longrightarrow> finite (dom h)" "h a = Some (new_inode (g_ino t) (seg rr)\<lparr>i_peer := p, i_parent := p'\<rparr>)"
      using reserve_step [OF less.prems(1-3) cstr_nonzero [OF less.prems(4)] na] by blast
    have loop: "reserve_loop malloc path q l ov t = (if b \<noteq> 0 then reserve_loop malloc path q' None (Some a) (?t h) else Some (0, Some a, ?t h))"
      using q' b h(1) Some inode_alloc_eq [OF less.prems(4), of malloc t] by (subst reserve_loop.simps) simp
    have rt: "next_str s \<noteq> []" "\<not> is_mnt (nodes t) r" "ordered ks"
      "scan (is_mnt (nodes t)) ks (next_str s) None (Some r) = (None, l, ov, rr)"
      using scan_root [OF less.prems(2,3)] less.prems(1) by (auto simp: itree_ok_def)
    have ma: "\<not> is_mnt (nodes t) a" using na by (simp add: is_mnt_def)
    have sc: "scan (is_mnt h) [Tree r [] ?ks] s None None =
        (if next_str rr = [] then (Some a, l, ov, []) else (None, None, Some a, next_str rr))"
      using scan_ins1 [OF rt(4) ma] rt(1,2) less.prems(2) h(4) by simp
    have old: "lookup (?t h) r ?ks s' = Some (c, u) \<longleftrightarrow> lookup t r ks s' = Some (c, u)" if "nodes t c \<noteq> None" for s' c u
    proof -
      have "c \<noteq> a" using that na by auto
      then show ?thesis using resolve_ins1 [where mp = "is_mnt (nodes t)" and a = a, OF rt(3) _ ma] h(4) by (simp add: lookup_def resolve_Cons)
    qed
    show ?thesis
    proof (cases "next_str rr = []")
      case True
      then have "lookup (?t h) r ?ks s = Some (a, [])" using lookup_scan [OF h(2)] sc by simp
      moreover have "\<exists>i n x. h a = Some i \<and> i = new_inode n x\<lparr>i_parent := i_parent i, i_peer := i_peer i\<rparr>"
        unfolding h(6) by (intro exI [of _ "g_ino t"] exI [of _ "seg rr"] exI conjI, rule refl) simp
      moreover have "reserve_loop malloc path q l ov t = Some (0, Some a, ?t h)" using loop b(2) True by simp
      ultimately show ?thesis using h(2-4) old na
        by (intro exI [of _ 0] exI [of _ "Some a"] exI [of _ "?t h"] exI [of _ ?ks]) (simp add: reserved_def)
    next
      case False
      have "rr \<noteq> []" using False next_str_Nil by auto
      then have sm: "length (next_str rr) < length rr" using length_next_str by blast
      have "scan (is_mnt (nodes (?t h))) [Tree r [] ?ks] s None None = (None, None, Some a, next_str rr)" using sc False by simp
      from less.hyps [OF sm h(2) less.prems(2) this q'(2) less.prems(5)]
      obtain ret v t' ks' where v: "reserve_loop malloc path q' None (Some a) (?t h) = Some (ret, v, t')"
          "reserved malloc r s (?t h) ?ks ret v t' ks'" by blast
      have dm: "h c \<noteq> None" if "nodes t c \<noteq> None" for c using that keeps_dom [OF h(3)] by auto
      have "reserve_loop malloc path q l ov t = Some (ret, v, t')" using loop b(2) False v(1) by simp
      moreover have "reserved malloc r s t ks ret v t' ks'"
        using v(2) keeps_trans [OF h(3)] h(4,5) old dm unfolding reserved_def by (simp; metis)
      ultimately show ?thesis by blast
    qed
  qed
qed

lemma inode_reserve_ok:
  assumes "itree_ok t r ks" and "cstr path 0 s" and "s \<noteq> []" and "path_env avail cwd s" and "fresh_addr malloc"
    and "lookup t r ks (full_path cwd s) = None"
  shows "\<exists>ret p t' ks'. inode_reserve malloc avail cwd t path = Some (ret, p, t') \<and> reserved malloc r (full_path cwd s) t ks ret p t' ks'"
proof -
  obtain f l ov rr where sc: "scan (is_mnt (nodes t)) [Tree r [] ks] (full_path cwd s) None None = (f, l, ov, rr)"
    by (metis surj_pair)
  then have sc: "scan (is_mnt (nodes t)) [Tree r [] ks] (full_path cwd s) None None = (None, l, ov, rr)"
    using lookup_scan [OF assms(1) sc] assms(6) by simp
  obtain path' q where p: "inode_search avail cwd t path = Some (- ENOENT, path',
       \<lparr>sd_path = q, sd_node = None, sd_peer = l, sd_parent = ov, sd_relpath = None\<rparr>)" "cstr path' q rr"
    by (rule inode_search_scan [OF assms(1,2,4) sc]) simp
  have "\<exists>b. rd path 0 = Some b \<and> b \<noteq> 0"
    using cstr_rd0 [OF assms(2)] cstr_nonzero [OF assms(2)] assms(3) by (cases s) auto
  then have "inode_reserve malloc avail cwd t path = reserve_loop malloc path' q l ov t"
    using p(1) by (auto simp: inode_reserve_def ENOENT_def)
  then show ?thesis using reserve_loop_ok [OF assms(1) seg_full_path [OF assms(4)] sc p(2) assms(5)] by simp
qed

text \<open>An inode may change, if its name and pointers stay.\<close>

lemma forest_same:
  assumes "\<And>b i. b \<in> set (addrs ts) \<Longrightarrow> h b = Some i \<Longrightarrow>
     \<exists>j. h' b = Some j \<and> i_name j = i_name i \<and> i_parent j = i_parent i \<and> i_peer j = i_peer i \<and> i_child j = i_child i"
  shows "forest h par p ts \<Longrightarrow> forest h' par p ts"
  using assms
proof (induction ts arbitrary: par p rule: addrs.induct)
  case (2 a n ks ts)
  then obtain i where i: "p = Some a" "h a = Some i" "cstr (i_name i) 0 n" "SLASH \<notin> set n" "i_parent i = par"
      "forest h (Some a) (i_child i) ks" "forest h par (i_peer i) ts" by auto
  obtain j where j: "h' a = Some j" "i_name j = i_name i" "i_parent j = i_parent i" "i_peer j = i_peer i" "i_child j = i_child i"
    using "2.prems"(2) [of a i] i(2) by auto
  have "forest h' (Some a) (i_child i) ks" using "2.IH"(1) [OF i(6)] "2.prems"(2) by simp
  moreover have "forest h' par (i_peer i) ts" using "2.IH"(2) [OF i(7)] "2.prems"(2) by simp
  ultimately show ?case using i j by simp
qed simp

lemma itree_ok_update:
  assumes "itree_ok t r ks" and "nodes t a = Some i" and "i_name j = i_name i" and "i_parent j = i_parent i"
    and "i_peer j = i_peer i" and "i_child j = i_child i"
  shows "itree_ok (t\<lparr>nodes := (nodes t)(a \<mapsto> j)\<rparr>) r ks"
proof -
  have "forest ((nodes t)(a \<mapsto> j)) None (Some r) [Tree r [] ks]"
    by (rule forest_same [where h = "nodes t"]) (use assms in \<open>auto simp: itree_ok_def\<close>)
  then show ?thesis using assms(1) by (simp add: itree_ok_def)
qed

lemma is_mnt_update: "is_mnt (h(a \<mapsto> j)) = (is_mnt h)(a := INODE_IS_TYPE j FSNODEFLAG_TYPE_MOUNTPT)"
  by (rule ext) (simp add: is_mnt_def)

lemma inode_find_lookup:
  assumes "itree_ok t r ks" and "cstr path 0 s" and "path_env avail cwd s"
  shows "case lookup t r ks (full_path cwd s) of
      None \<Rightarrow> \<exists>p d. inode_find avail cwd t path = Some (- ENOENT, p, d, t) \<and> sd_node d = None
    | Some (a, rest) \<Rightarrow> \<exists>p d q i. nodes t a = Some i
        \<and> inode_find avail cwd t path = Some (0, p, d, t\<lparr>nodes := (nodes t)(a \<mapsto> i\<lparr>i_crefs := i_crefs i + 1\<rparr>)\<rparr>)
        \<and> sd_node d = Some a \<and> sd_relpath d = Some q \<and> cstr p q rest"
proof -
  obtain f l ov rr where sc: "scan (is_mnt (nodes t)) [Tree r [] ks] (full_path cwd s) None None = (f, l, ov, rr)"
    by (metis surj_pair)
  note lk = lookup_scan [OF assms(1) sc]
  obtain p q where p: "inode_search avail cwd t path = Some (if f = None then - ENOENT else 0, p,
       \<lparr>sd_path = q, sd_node = f, sd_peer = l, sd_parent = ov, sd_relpath = (if f = None then None else Some q)\<rparr>)" "cstr p q rr"
    using inode_search_scan [OF assms sc] by blast
  show ?thesis
  proof (cases f)
    case None
    then show ?thesis using lk p by (auto simp: inode_find_def ENOENT_def)
  next
    case (Some a)
    then have "a \<in> set (addrs [Tree r [] ks])" using lk resolve_addr by (fastforce simp: lookup_def)
    moreover have "set (addrs [Tree r [] ks]) \<subseteq> dom (nodes t)"
      using assms(1) forest_dom unfolding itree_ok_def by blast
    ultimately obtain i where "nodes t a = Some i" by blast
    then show ?thesis using lk p Some by (auto simp: inode_find_def add_crefs_def)
  qed
qed

section \<open>The last name of a path\<close>

lemma basename_returns: "cstr path p s \<Longrightarrow> \<exists>b. basename_loop path p base = Some b"
proof (induction "length s" arbitrary: p s base rule: less_induct)
  case less
  obtain q where q: "inode_nextname path p = Some q" "cstr path q (next_str s)" using inode_nextname_cstr [OF less.prems] by blast
  obtain b where b: "rd path q = Some b" "b = 0 \<longleftrightarrow> next_str s = []"
    using cstr_rd0 [OF q(2)] cstr_nonzero [OF q(2)] by (cases "next_str s") auto
  show ?case
  proof (cases "next_str s = []")
    case True
    then show ?thesis using q(1) b by (subst basename_loop.simps) simp
  next
    case False
    then have "s \<noteq> []" using next_str_Nil by auto
    from less.hyps [OF length_next_str [OF this] q(2)] show ?thesis using q(1) b False by (subst basename_loop.simps) simp
  qed
qed

end
