(* ===== verification/InodeRemove.thy ===== *)
theory InodeRemove
  imports InodeSpec
begin

text \<open>
  Removing a path: \<open>inode_unlink\<close> takes the inode with everything below it out of the tree, and
  \<open>inode_free\<close> frees exactly these inodes.
\<close>

section \<open>One removal in the tree\<close>

fun del1 :: "(nat \<Rightarrow> bool) \<Rightarrow> tree list \<Rightarrow> byte list \<Rightarrow> tree list" where
  "del1 mp [] s = []"
| "del1 mp (Tree b n ks # ts) s =
     (if name_cmp (seg s) n < 0 then Tree b n ks # ts
      else if name_cmp (seg s) n > 0 then Tree b n ks # del1 mp ts s
      else if next_str s = [] \<or> mp b then ts
      else Tree b n (del1 mp ks (next_str s)) # ts)"

lemma set_addrs_del1: "set (addrs (del1 mp ts s)) \<subseteq> set (addrs ts)"
  by (induction mp ts s rule: del1.induct) auto

lemma distinct_del1: "distinct (addrs ts) \<Longrightarrow> distinct (addrs (del1 mp ts s))"
proof (induction mp ts s rule: del1.induct)
  case (2 mp b n ks ts s)
  then show ?case using set_addrs_del1 [of mp ts s] set_addrs_del1 [of mp ks "next_str s"] by auto
qed simp

lemma names_del1: "t_name ` set (del1 mp ts s) \<subseteq> t_name ` set ts"
  by (induction mp ts s rule: del1.induct) auto

lemma ordered_del1: "ordered ts \<Longrightarrow> ordered (del1 mp ts s)"
proof (induction mp ts s rule: del1.induct)
  case (2 mp b n ks ts s)
  then show ?case using names_del1 [of mp ts s] by (auto simp: ordered_Cons subset_iff simp del: ordered.simps)
qed simp

lemma scan_found_addr: "scan mp ts s l ov = (Some a, l', ov', r) \<Longrightarrow> a \<in> set (addrs ts)"
  by (induction mp ts s l ov rule: scan.induct) (auto split: if_splits)

lemma scan_found_del1: "scan mp ts s l ov = (Some a, l', ov', r) \<Longrightarrow> distinct (addrs ts) \<Longrightarrow> a \<notin> set (addrs (del1 mp ts s))"
proof (induction mp ts s l ov rule: scan.induct)
  case (2 mp b n ks ts s l ov)
  show ?case
  proof (cases rule: name_cmp_cases [of "seg s" n])
    case greater
    then have "a \<in> set (addrs ts)" using scan_found_addr "2.prems"(1) by auto
    then show ?thesis using greater 2 by auto
  next
    case same
    show ?thesis
    proof (cases "next_str s = [] \<or> mp b")
      case False
      then have "a \<in> set (addrs ks)" using same scan_found_addr "2.prems"(1) by auto
      then show ?thesis using same False 2 by auto
    qed (use same 2 in auto)
  qed (use 2 in auto)
qed simp

text \<open>What was there and is not removed is found where it was.\<close>

lemma resolve_del1:
  "ordered ts \<Longrightarrow> distinct (addrs ts) \<Longrightarrow> scan mp ts s l ov = (Some a, l', ov', r) \<Longrightarrow>
   resolve mp (del1 mp ts s) s' = Some (b, u) \<longleftrightarrow> resolve mp ts s' = Some (b, u) \<and> b \<in> set (addrs (del1 mp ts s))"
proof (induction mp ts s l ov arbitrary: s' rule: scan.induct)
  case (2 mp c n ks ts s l ov)
  have d: "c \<notin> set (addrs ks)" "c \<notin> set (addrs ts)" "set (addrs ks) \<inter> set (addrs ts) = {}" "distinct (addrs ks)" "distinct (addrs ts)"
    using "2.prems"(2) by auto
  have at: "resolve mp ts s' = Some (b, u) \<Longrightarrow> b \<in> set (addrs ts)" using resolve_addr by blast
  have ak: "resolve mp ks v = Some (b, u) \<Longrightarrow> b \<in> set (addrs ks)" for v using resolve_addr by blast
  show ?case
  proof (cases rule: name_cmp_cases [of "seg s" n])
    case greater
    have "resolve mp (del1 mp ts s) s' = Some (b, u) \<longleftrightarrow> resolve mp ts s' = Some (b, u) \<and> b \<in> set (addrs (del1 mp ts s))"
      using "2.IH"(1) greater "2.prems" by simp
    then show ?thesis using greater d at ak [of "next_str s'"] by (auto simp: resolve_Cons)
  next
    case same
    show ?thesis
    proof (cases "next_str s = [] \<or> mp c")
      case True
      have none: "resolve mp ts s' = None" if "n = seg s'"
        using find_ordered_greater [of ts n n] "2.prems"(1) that by (simp add: resolve.simps)
      show ?thesis using same True d at none ak [of "next_str s'"] by (auto simp: resolve_Cons)
    next
      case False
      have "resolve mp (del1 mp ks (next_str s)) v = Some (b, u) \<longleftrightarrow>
          resolve mp ks v = Some (b, u) \<and> b \<in> set (addrs (del1 mp ks (next_str s)))" for v
        using "2.IH"(2) same False "2.prems" by simp
      then show ?thesis using same False d at ak [of "next_str s'"] by (auto simp: resolve_Cons)
    qed
  qed (use "2.prems" in simp)
qed simp

section \<open>One removal in the heap\<close>

lemma forest_remove:
  assumes "scan mp ts s l ov = (Some a, l', ov', r)" and "forest h ov (slot h l ov) ts"
    and "distinct (addrs ts)" and "holder l ov \<notin> set (addrs ts)"
    and "h a = Some i" and "h (holder l' ov') = Some x"
    and "h' = h(holder l' ov' \<mapsto> set_slot l' ov' (i_peer i) x, a \<mapsto> y)"
  shows "forest h' ov (slot h' l ov) (del1 mp ts s)"
  using assms
proof (induction mp ts s l ov rule: scan.induct)
  case (2 mp b n ks ts s l ov)
  let ?K = "holder l' ov'"
  obtain j where j: "slot h l ov = Some b" "h b = Some j" "cstr (i_name j) 0 n" "SLASH \<notin> set n" "i_parent j = ov"
      "forest h (Some b) (i_child j) ks" "forest h ov (i_peer j) ts" using "2.prems"(2) by auto
  have d: "b \<notin> set (addrs ks)" "b \<notin> set (addrs ts)" "set (addrs ks) \<inter> set (addrs ts) = {}" "holder l ov \<noteq> b"
      "distinct (addrs ks)" "distinct (addrs ts)" "holder l ov \<notin> set (addrs ks)" "holder l ov \<notin> set (addrs ts)"
    using "2.prems"(3,4) by auto
  have out: "h' c = h c" if "c \<noteq> a" "c \<noteq> ?K" for c using "2.prems"(7) that by simp
  have ib: "h' b = Some (if l' = Some b then j\<lparr>i_peer := i_peer i\<rparr> else j\<lparr>i_child := i_peer i\<rparr>)" if "?K = b" "a \<noteq> b"
    using "2.prems"(6,7) that j(2) by (auto simp: set_slot_def holder_def split: option.splits)
  show ?case
  proof (cases rule: name_cmp_cases [of "seg s" n])
    case less
    then show ?thesis using "2.prems"(1) by simp
  next
    case greater
    then have n: "\<not> name_cmp (seg s) n < 0" and sc: "scan mp ts s (Some b) ov = (Some a, l', ov', r)" using "2.prems"(1) by simp_all
    have a: "a \<in> set (addrs ts)" "a \<noteq> b" using scan_found_addr [OF sc] d(2) by auto
    have K: "l' = Some b \<and> ov' = ov \<or> ?K \<in> set (addrs ts)" using scan_holder [OF sc] .
    have "forest h' ov (slot h' (Some b) ov) (del1 mp ts s)"
      by (rule "2.IH"(1) [OF n greater sc]) (use j d "2.prems"(5-7) in \<open>simp_all add: slot_def\<close>)
    moreover have "slot h' l ov = Some b"
      by (subst slot_frame [of h' l ov h], rule out) (use K j(1) d a in auto)
    moreover have "forest h' (Some b) (i_child j) ks = forest h (Some b) (i_child j) ks"
      by (rule forest_cong, rule out) (use K d a in auto)
    moreover have "h' b = Some (j\<lparr>i_peer := slot h' (Some b) ov\<rparr>)"
    proof (cases "?K = b")
      case True
      then have "l' = Some b" using K d(2) by auto
      then show ?thesis using ib [OF True a(2)] by (simp add: slot_def)
    next
      case False
      then show ?thesis using out [of b] a(2) j(2) by (simp add: slot_def)
    qed
    ultimately show ?thesis using greater j by simp
  next
    case same
    have n: "\<not> name_cmp (seg s) n < 0" "\<not> 0 < name_cmp (seg s) n" using same by simp_all
    show ?thesis
    proof (cases "next_str s = [] \<or> mp b")
      case True
      then have e: "a = b" "l' = l" "ov' = ov" using "2.prems"(1) same by auto
      have "slot h' l ov = i_peer i" using "2.prems"(7) e d(4) by (intro slot_set) simp
      moreover have "i = j" using "2.prems"(5) e(1) j(2) by simp
      moreover have "forest h' ov (i_peer j) ts = forest h ov (i_peer j) ts"
        by (rule forest_cong, rule out) (use e d in auto)
      ultimately show ?thesis using same True j(7) by simp
    next
      case f: False
      have sc: "scan mp ks (next_str s) None (Some b) = (Some a, l', ov', r)" using "2.prems"(1) same f by simp
      have a: "a \<in> set (addrs ks)" "a \<noteq> b" using scan_found_addr [OF sc] d(1) by auto
      have K: "l' = None \<and> ov' = Some b \<or> ?K \<in> set (addrs ks)" using scan_holder [OF sc] .
      have "forest h' (Some b) (slot h' None (Some b)) (del1 mp ks (next_str s))"
        by (rule "2.IH"(2) [OF n f sc]) (use j d "2.prems"(5-7) in \<open>simp_all add: slot_def\<close>)
      moreover have "slot h' l ov = Some b"
        by (subst slot_frame [of h' l ov h], rule out) (use K j(1) d a in auto)
      moreover have "forest h' ov (i_peer j) ts = forest h ov (i_peer j) ts"
        by (rule forest_cong, rule out) (use K d a in auto)
      moreover have "h' b = Some (j\<lparr>i_child := slot h' None (Some b)\<rparr>)"
      proof (cases "?K = b")
        case True
        then have "l' = None" using K d(1) by auto
        then show ?thesis using ib [OF True a(2)] by (simp add: slot_def)
      next
        case False
        then show ?thesis using out [of b] a(2) j(2) by (simp add: slot_def)
      qed
      ultimately show ?thesis using same f j by simp
    qed
  qed
qed simp

text \<open>\<open>inode_free\<close> frees the inodes of a list of trees and nothing else.\<close>

lemma inode_free_forest:
  "forest h par p ts \<Longrightarrow> distinct (addrs ts) \<Longrightarrow> inode_free p h = Some (h |` (- set (addrs ts)))"
proof (induction ts arbitrary: h par p rule: addrs.induct)
  case 1
  then show ?case by (subst inode_free.simps) (simp add: restrict_map_def)
next
  case (2 a n ks ts)
  obtain i where i: "p = Some a" "h a = Some i" "forest h (Some a) (i_child i) ks" "forest h par (i_peer i) ts"
    using "2.prems"(1) by auto
  have d: "a \<notin> set (addrs ks)" "a \<notin> set (addrs ts)" "set (addrs ks) \<inter> set (addrs ts) = {}" "distinct (addrs ks)" "distinct (addrs ts)"
    using "2.prems"(2) by auto
  let ?h1 = "h |` (- set (addrs ts))" and ?h2 = "h |` (- set (addrs ts)) |` (- set (addrs ks))"
  have 1: "inode_free (i_peer i) h = Some ?h1" using "2.IH"(2) [OF i(4) d(5)] .
  have "forest ?h1 (Some a) (i_child i) ks = forest h (Some a) (i_child i) ks"
    by (rule forest_cong) (use d(3) in \<open>auto simp: restrict_map_def\<close>)
  then have 2: "inode_free (i_child i) ?h1 = Some ?h2" using "2.IH"(1) [OF _ d(4)] i(3) by simp
  have "?h1 a = Some i" "?h2 a = Some i" using i(2) d(1,2) by (auto simp: restrict_map_def)
  then have "inode_free p h = Some (?h2(a := None))" using i(1,2) 1 2 by (subst inode_free.simps) simp
  moreover have "?h2(a := None) = h |` (- set (addrs (Tree a n ks # ts)))" by (auto simp: restrict_map_def)
  ultimately show ?case by simp
qed

section \<open>Removing a path\<close>

lemma scan_holder_del1:
  "scan mp ts s l ov = (Some a, l', ov', r) \<Longrightarrow> l' = l \<and> ov' = ov \<or> holder l' ov' \<in> set (addrs (del1 mp ts s))"
proof (induction mp ts s l ov rule: scan.induct)
  case (2 mp b n ks ts s l ov)
  then show ?case by (cases rule: name_cmp_cases [of "seg s" n]) (auto split: if_splits)
qed simp

text \<open>The tree that is removed.\<close>

lemma scan_found_tree:
  "scan mp ts s l ov = (Some a, l', ov', r) \<Longrightarrow> forest h par p ts \<Longrightarrow> distinct (addrs ts) \<Longrightarrow>
   \<exists>n ka i. h a = Some i \<and> cstr (i_name i) 0 n \<and> SLASH \<notin> set n \<and> forest h (Some a) (i_child i) ka
     \<and> distinct (addrs [Tree a n ka]) \<and> set (addrs [Tree a n ka]) \<inter> set (addrs (del1 mp ts s)) = {}
     \<and> set (addrs ts) = set (addrs [Tree a n ka]) \<union> set (addrs (del1 mp ts s))"
proof (induction mp ts s l ov arbitrary: par p rule: scan.induct)
  case (2 mp b n ks ts s l ov)
  obtain j where j: "h b = Some j" "cstr (i_name j) 0 n" "SLASH \<notin> set n" "forest h (Some b) (i_child j) ks" "forest h par (i_peer j) ts"
    using "2.prems"(2) by auto
  have d: "b \<notin> set (addrs ks)" "b \<notin> set (addrs ts)" "set (addrs ks) \<inter> set (addrs ts) = {}" "distinct (addrs ks)" "distinct (addrs ts)"
    using "2.prems"(3) by auto
  show ?case
  proof (cases rule: name_cmp_cases [of "seg s" n])
    case greater
    then have n: "\<not> name_cmp (seg s) n < 0" and sc: "scan mp ts s (Some b) ov = (Some a, l', ov', r)" using "2.prems"(1) by simp_all
    obtain m ka i where "h a = Some i" "cstr (i_name i) 0 m" "SLASH \<notin> set m" "forest h (Some a) (i_child i) ka"
        "distinct (addrs [Tree a m ka])" "set (addrs [Tree a m ka]) \<inter> set (addrs (del1 mp ts s)) = {}"
        "set (addrs ts) = set (addrs [Tree a m ka]) \<union> set (addrs (del1 mp ts s))"
      using "2.IH"(1) [OF n greater sc j(5) d(5)] by blast
    then show ?thesis using greater d by (intro exI [of _ m] exI [of _ ka] exI [of _ i]) auto
  next
    case same
    have n: "\<not> name_cmp (seg s) n < 0" "\<not> 0 < name_cmp (seg s) n" using same by simp_all
    show ?thesis
    proof (cases "next_str s = [] \<or> mp b")
      case True
      then have "a = b" using "2.prems"(1) same by auto
      then show ?thesis using same True d j by (intro exI [of _ n] exI [of _ ks] exI [of _ j]) auto
    next
      case False
      have sc: "scan mp ks (next_str s) None (Some b) = (Some a, l', ov', r)" using "2.prems"(1) same False by simp
      obtain m ka i where "h a = Some i" "cstr (i_name i) 0 m" "SLASH \<notin> set m" "forest h (Some a) (i_child i) ka"
          "distinct (addrs [Tree a m ka])" "set (addrs [Tree a m ka]) \<inter> set (addrs (del1 mp ks (next_str s))) = {}"
          "set (addrs ks) = set (addrs [Tree a m ka]) \<union> set (addrs (del1 mp ks (next_str s)))"
        using "2.IH"(2) [OF n False sc j(4) d(4)] by blast
      then show ?thesis using same False d by (intro exI [of _ m] exI [of _ ka] exI [of _ i]) auto
    qed
  qed (use "2.prems" in simp)
qed simp

lemma lookup_found:
  assumes "itree_ok t r ks" and "cstr path 0 s" and "path_env avail cwd s"
    and "lookup t r ks (full_path cwd s) = Some (a, u)" and "a \<noteq> r"
  obtains l ov p q where "inode_search avail cwd t path = Some (0, p,
       \<lparr>sd_path = q, sd_node = Some a, sd_peer = l, sd_parent = ov, sd_relpath = Some q\<rparr>)"
    and "scan (is_mnt (nodes t)) ks (next_str (full_path cwd s)) None (Some r) = (Some a, l, ov, u)"
    and "next_str (full_path cwd s) \<noteq> []" and "\<not> is_mnt (nodes t) r" and "ov \<noteq> None"
proof -
  obtain f l ov rr where sc: "scan (is_mnt (nodes t)) [Tree r [] ks] (full_path cwd s) None None = (f, l, ov, rr)"
    by (metis surj_pair)
  have "map_option (\<lambda>a. (a, rr)) f = Some (a, u)" using lookup_scan [OF assms(1) sc] assms(4) by metis
  then have f: "f = Some a" "rr = u" by auto
  obtain p q where p: "inode_search avail cwd t path = Some (0, p,
       \<lparr>sd_path = q, sd_node = Some a, sd_peer = l, sd_parent = ov, sd_relpath = Some q\<rparr>)"
    by (rule inode_search_scan [OF assms(1-3) sc]) (simp add: f)
  have sk: "scan (is_mnt (nodes t)) ks (next_str (full_path cwd s)) None (Some r) = (Some a, l, ov, u)"
      "next_str (full_path cwd s) \<noteq> []" "\<not> is_mnt (nodes t) r"
    using sc f assms(5) seg_full_path [OF assms(3)] by (auto split: if_splits)
  show thesis using that [OF p sk] scan_over [OF sk(1)] by simp
qed

text \<open>The state after the unlinking of the inode \<open>a\<close> that the search found.\<close>

definition unlinked :: "itree \<Rightarrow> nat \<Rightarrow> nat option \<Rightarrow> nat option \<Rightarrow> inode \<Rightarrow> (nat \<rightharpoonup> inode)" where
  "unlinked t a l ov i = (nodes t)(holder l ov \<mapsto> set_slot l ov (i_peer i) (the (nodes t (holder l ov))),
     a \<mapsto> i\<lparr>i_peer := None, i_parent := None, i_crefs := i_crefs i - 1\<rparr>)"

lemma inode_unlink_eq:
  "inode_search avail cwd t path = Some (0, p, \<lparr>sd_path = q, sd_node = Some a, sd_peer = l, sd_parent = ov, sd_relpath = Some q\<rparr>) \<Longrightarrow>
   ov \<noteq> None \<Longrightarrow> nodes t a = Some i \<Longrightarrow> nodes t (holder l ov) = Some x \<Longrightarrow> holder l ov \<noteq> a \<Longrightarrow>
   inode_unlink avail cwd t path = Some (Some a, t\<lparr>nodes := unlinked t a l ov i\<rparr>)"
  by (cases l; cases ov) (auto simp: inode_unlink_def unlinked_def holder_def set_slot_def)

lemma unlinked_ok:
  assumes "itree_ok t r ks" and "scan (is_mnt (nodes t)) ks v None (Some r) = (Some a, l, ov, u)"
  obtains n ka i x where "nodes t a = Some i" and "nodes t (holder l ov) = Some x" and "holder l ov \<noteq> a"
    and "itree_ok (t\<lparr>nodes := unlinked t a l ov i\<rparr>) r (del1 (is_mnt (nodes t)) ks v)"
    and "forest (unlinked t a l ov i) None (Some a) [Tree a n ka]" and "distinct (addrs [Tree a n ka])"
    and "set (addrs [Tree a n ka]) \<inter> set (r # addrs (del1 (is_mnt (nodes t)) ks v)) = {}"
    and "set (addrs ks) = set (addrs [Tree a n ka]) \<union> set (addrs (del1 (is_mnt (nodes t)) ks v))"
    and "is_mnt (unlinked t a l ov i) = is_mnt (nodes t)"
proof -
  let ?mp = "is_mnt (nodes t)" and ?K = "holder l ov"
  obtain j where j: "nodes t r = Some j" "cstr (i_name j) 0 []" "i_parent j = None" "i_peer j = None"
      "forest (nodes t) (Some r) (i_child j) ks" using assms(1) by (auto simp: itree_ok_def)
  have d: "distinct (addrs ks)" "r \<notin> set (addrs ks)" "ordered ks" "g_root_inode t = Some r" using assms(1) by (auto simp: itree_ok_def)
  obtain n ka i where i: "nodes t a = Some i" "cstr (i_name i) 0 n" "SLASH \<notin> set n" "forest (nodes t) (Some a) (i_child i) ka"
      "distinct (addrs [Tree a n ka])" "set (addrs [Tree a n ka]) \<inter> set (addrs (del1 ?mp ks v)) = {}"
      "set (addrs ks) = set (addrs [Tree a n ka]) \<union> set (addrs (del1 ?mp ks v))"
    using scan_found_tree [OF assms(2) j(5) d(1)] by blast
  have K: "l = None \<and> ov = Some r \<or> ?K \<in> set (addrs (del1 ?mp ks v))" using scan_holder_del1 [OF assms(2)] .
  then obtain x where x: "nodes t ?K = Some x" using j(1) forest_dom [OF j(5)] i(7) by auto
  have Ka: "?K \<noteq> a" "?K \<notin> set (addrs ka)" using K i(6,7) d(2) by auto
  have ar: "a \<noteq> r" "r \<notin> set (addrs ka)" using i(7) d(2) by auto
  define h where "h = unlinked t a l ov i"
  have h: "h = (nodes t)(?K \<mapsto> set_slot l ov (i_peer i) x, a \<mapsto> i\<lparr>i_peer := None, i_parent := None, i_crefs := i_crefs i - 1\<rparr>)"
    by (simp add: h_def unlinked_def x)
  have f: "forest h (Some r) (slot h None (Some r)) (del1 ?mp ks v)"
    by (rule forest_remove [OF assms(2) _ d(1) _ i(1) x h]) (use j d in \<open>simp_all add: slot_def\<close>)
  have "h r = Some (j\<lparr>i_child := slot h None (Some r)\<rparr>)"
    using K j(1) ar x d(2) i(7) by (auto simp: h slot_def set_slot_def)
  then have ok: "itree_ok (t\<lparr>nodes := h\<rparr>) r (del1 ?mp ks v)"
    using f j d distinct_del1 [OF d(1)] ordered_del1 [OF d(3)] set_addrs_del1 [of ?mp ks v] by (auto simp: itree_ok_def)
  have "forest h (Some a) (i_child i) ka = forest (nodes t) (Some a) (i_child i) ka"
    by (rule forest_cong) (use Ka i(5) in \<open>auto simp: h\<close>)
  then have fa: "forest h None (Some a) [Tree a n ka]" using i(2-4) by (simp add: h)
  have "is_mnt h = is_mnt (nodes t)"
    using x i(1) Ka(1) by (auto simp: h is_mnt_def INODE_IS_TYPE_def fun_eq_iff)
  then show thesis using that [OF i(1) x Ka(1)] ok fa i(5-7) ar d(2) unfolding h_def by auto
qed

lemma inode_remove_ok:
  assumes "itree_ok t r ks" and "cstr path 0 s" and "path_env avail cwd s"
    and "lookup t r ks (full_path cwd s) = Some (a, u)" and "a \<noteq> r"
  shows "\<exists>i t' ks'. nodes t a = Some i \<and> inode_remove avail cwd t path = Some (if i_crefs i = 1 then 0 else - EBUSY, t')
    \<and> itree_ok t' r ks' \<and> a \<notin> set (r # addrs ks') \<and> (i_child i = None \<longrightarrow> set (addrs ks) = insert a (set (addrs ks')))
    \<and> nodes t' a = (if i_crefs i = 1 then None else Some (i\<lparr>i_peer := None, i_parent := None, i_crefs := i_crefs i - 1\<rparr>))
    \<and> (\<forall>s' b u'. lookup t' r ks' s' = Some (b, u') \<longleftrightarrow> lookup t r ks s' = Some (b, u') \<and> b \<in> set (r # addrs ks'))"
proof -
  let ?s = "next_str (full_path cwd s)" and ?mp = "is_mnt (nodes t)"
  obtain l ov p q where sr: "inode_search avail cwd t path = Some (0, p,
       \<lparr>sd_path = q, sd_node = Some a, sd_peer = l, sd_parent = ov, sd_relpath = Some q\<rparr>)"
      "scan ?mp ks ?s None (Some r) = (Some a, l, ov, u)" "\<not> ?mp r" "ov \<noteq> None"
    using lookup_found [OF assms] by metis
  define ks' where "ks' = del1 ?mp ks ?s"
  obtain n ka i x where i: "nodes t a = Some i" "nodes t (holder l ov) = Some x" "holder l ov \<noteq> a"
      "itree_ok (t\<lparr>nodes := unlinked t a l ov i\<rparr>) r ks'"
      "forest (unlinked t a l ov i) None (Some a) [Tree a n ka]" "distinct (addrs [Tree a n ka])"
      "set (addrs [Tree a n ka]) \<inter> set (r # addrs ks') = {}" "set (addrs ks) = set (addrs [Tree a n ka]) \<union> set (addrs ks')"
      "is_mnt (unlinked t a l ov i) = ?mp"
    by (rule unlinked_ok [OF assms(1) sr(2), folded ks'_def])
  define h where "h = unlinked t a l ov i"
  have un: "inode_unlink avail cwd t path = Some (Some a, t\<lparr>nodes := h\<rparr>)"
    unfolding h_def using inode_unlink_eq [OF sr(1,4) i(1-3)] .
  have ha: "h a = Some (i\<lparr>i_peer := None, i_parent := None, i_crefs := i_crefs i - 1\<rparr>)" by (simp add: h_def unlinked_def)
  have d: "ordered ks" "distinct (addrs ks)" "r \<notin> set (addrs ks)" using assms(1) by (auto simp: itree_ok_def)
  have lk: "resolve ?mp [Tree r [] ks'] s' = Some (b, u') \<longleftrightarrow> lookup t r ks s' = Some (b, u') \<and> b \<in> set (r # addrs ks')" for s' b u'
  proof -
    have "resolve ?mp ks v = Some (b, u') \<Longrightarrow> b \<noteq> r" for v using resolve_addr d(3) by fastforce
    moreover have "resolve ?mp ks' v = Some (b, u') \<longleftrightarrow> resolve ?mp ks v = Some (b, u') \<and> b \<in> set (addrs ks')" for v
      using resolve_del1 [OF d(1,2) sr(2)] by (simp add: ks'_def)
    ultimately show ?thesis by (auto simp: lookup_def resolve_Cons)
  qed
  have leaf: "i_child i = None \<longrightarrow> set (addrs ks) = insert a (set (addrs ks'))"
    using i(5,8) by (cases ka rule: addrs.cases) (auto simp: unlinked_def)
  let ?t = "\<lambda>g. t\<lparr>nodes := g\<rparr>"
  show ?thesis
  proof (cases "i_crefs i = 1")
    case False
    then have "inode_remove avail cwd t path = Some (- EBUSY, ?t h)" using un ha by (simp add: inode_remove_def)
    moreover have "lookup (?t h) r ks' s' = resolve ?mp [Tree r [] ks'] s'" for s' using i(9) by (simp add: lookup_def h_def)
    moreover have "itree_ok (?t h) r ks'" "a \<notin> set (r # addrs ks')" using i(4,7) by (auto simp: h_def)
    ultimately show ?thesis using False i(1) lk ha leaf
      by (intro exI [of _ i] exI [of _ "?t h"] exI [of _ ks']) simp
  next
    case True
    define g where "g = h |` (- set (addrs [Tree a n ka]))"
    have "inode_free (Some a) h = Some g" unfolding g_def using inode_free_forest [OF i(5,6)] by (simp add: h_def)
    then have run: "inode_remove avail cwd t path = Some (0, ?t g)" using True un ha by (simp add: inode_remove_def)
    have "forest g None (Some r) [Tree r [] ks'] = forest h None (Some r) [Tree r [] ks']"
      by (rule forest_cong) (use i(7) in \<open>auto simp: g_def restrict_map_def\<close>)
    then have ok: "itree_ok (?t g) r ks'" using i(4) unfolding h_def [symmetric] by (simp add: itree_ok_def)
    have same: "is_mnt g b = ?mp b" if "b \<in> set (addrs [Tree r [] ks'])" for b
    proof -
      have "g b = h b" using that i(7) by (auto simp: g_def restrict_map_def)
      then have "is_mnt g b = is_mnt h b" by (simp add: is_mnt_def)
      then show ?thesis using i(9) by (simp add: h_def)
    qed
    have "lookup (?t g) r ks' s' = resolve ?mp [Tree r [] ks'] s'" for s'
      unfolding lookup_def by (rule resolve_cong) (use same in simp)
    then show ?thesis using True i(1,7) lk run ok leaf
      by (intro exI [of _ i] exI [of _ "?t g"] exI [of _ ks']) (simp add: g_def)
  qed
qed

end
