(* ===== verification/HostfsPath.thy ===== *)
theory HostfsPath
  imports Hostfs
begin

text \<open>
  Paths of the host file system: what \<open>hostfs_mkpath\<close> passes to the host, and the root a mount gets
  from its options.
\<close>

section \<open>The path of the host\<close>

text \<open>The depth as the loop counts it: a slash before a name is one more, two dots anywhere are one less.\<close>

fun depth_of :: "byte list \<Rightarrow> int" where
  "depth_of [] = 0"
| "depth_of [b] = 0"
| "depth_of (a # b # r) =
     (if a = DOT \<and> b = DOT then depth_of r - 1
      else if a = SLASH \<and> b \<noteq> SLASH then depth_of (b # r) + 1 else depth_of (b # r))"

definition rel_name :: "byte list \<Rightarrow> byte list" where
  "rel_name rel = dropWhile (\<lambda>b. b = SLASH) rel"

text \<open>The length of the root is taken off twice: the size given to \<open>strlcat\<close> is that of the rest.\<close>

definition host_path :: "byte list \<Rightarrow> byte list \<Rightarrow> byte list" where
  "host_path root rel =
     root @ (if depth_of (rel_name rel) \<ge> 0 then take (255 - 2 * length root) (rel_name rel) else [])"

lemma c_string_cstr: "cstr m 0 s \<Longrightarrow> c_string m = Some s"
  by (auto simp: c_string_def strlen_cstr dest: cstr_drop)

lemma skip_slashes_cstr:
  "cstr m p s \<Longrightarrow> \<exists>q. skip_slashes m p = Some q \<and> cstr m q (dropWhile (\<lambda>b. b = SLASH) s)"
proof (induction s arbitrary: p)
  case Nil
  then show ?case using cstr_rd0 [OF Nil] by (subst skip_slashes.simps) simp
next
  case (Cons a s)
  then show ?case using cstr_Cons [OF Cons.prems] Cons.IH [of "p + 1"] by (subst skip_slashes.simps) auto
qed

lemma dots_cmp:
  assumes "cstr m p s"
  shows "\<exists>r. strncmp m p [DOT, DOT, 0] 0 2 = Some r \<and> (r = 0 \<longleftrightarrow> take 2 s = [DOT, DOT])"
proof -
  define t :: "byte list" where "t = [DOT, DOT]"
  have t: "length t = 2" "take (length t) (drop 0 [DOT, DOT, 0]) = t" "0 \<notin> set t" by (simp_all add: t_def)
  from strncmp_prefix [OF assms t(2,3)] show ?thesis unfolding t(1) by (simp only: t_def)
qed

lemma depth_loop_cstr: "cstr m p s \<Longrightarrow> depth_loop m p d = Some (d + depth_of s)"
proof (induction s arbitrary: p d rule: depth_of.induct)
  case 1
  then show ?case using cstr_rd0 [OF 1] by (subst depth_loop.simps) simp
next
  case (2 b)
  have b: "rd m p = Some b" "b \<noteq> 0" "cstr m (p + 1) []" using cstr_Cons [OF 2] by auto
  obtain r where "strncmp m p [DOT, DOT, 0] 0 2 = Some r" "r \<noteq> 0" using dots_cmp [OF 2] by auto
  moreover have "rd m (p + 1) = Some 0" "depth_loop m (p + 1) d = Some d"
    using cstr_rd0 [OF b(3)] by (simp, subst depth_loop.simps) simp
  ultimately show ?case using b by (subst depth_loop.simps) simp
next
  case (3 a b r)
  have a: "rd m p = Some a" "a \<noteq> 0" "cstr m (p + 1) (b # r)" using cstr_Cons [OF 3(4)] by auto
  then have b: "rd m (p + 1) = Some b" "b \<noteq> 0" "cstr m (p + 2) r" using cstr_Cons [OF a(3)] by auto
  obtain c where c: "strncmp m p [DOT, DOT, 0] 0 2 = Some c" "c = 0 \<longleftrightarrow> a = DOT \<and> b = DOT"
    using dots_cmp [OF 3(4)] by auto
  consider (dots) "a = DOT \<and> b = DOT" | (slash) "\<not> (a = DOT \<and> b = DOT)" "a = SLASH \<and> b \<noteq> SLASH"
    | (other) "\<not> (a = DOT \<and> b = DOT)" "\<not> (a = SLASH \<and> b \<noteq> SLASH)" by blast
  then show ?case
  proof cases
    case dots
    then show ?thesis using 3(1) [OF dots b(3), of "d - 1"] a b c by (subst depth_loop.simps) simp
  next
    case slash
    then show ?thesis using 3(2) [OF slash a(3), of "d + 1"] a b c by (subst depth_loop.simps) simp
  next
    case other
    then show ?thesis using 3(3) [OF other a(3), of d] a b c by (subst depth_loop.simps) auto
  qed
qed

lemma cstr_blit_0:
  "length s < length m \<Longrightarrow> 0 \<notin> set s \<Longrightarrow> cstr (blit m 0 (s @ [0])) 0 s"
  using cstr_blit [of 0 s m] by simp

lemma hostfs_mkpath_eq:
  assumes "cstr m 0 root" and "length root < 256" and "cstr rel 0 r" and "length path = 256"
  shows "\<exists>p. hostfs_mkpath m rel path 256 = Some p \<and> length p = 256 \<and> cstr p 0 (host_path root r)"
proof -
  define p0 where "p0 = blit path 0 (root @ [0])"
  have p0: "strlcpy path 0 m 0 256 = Some (length root, p0)" "length p0 = 256" "cstr p0 0 root"
    using strlcpy_cstr [OF assms(1), of 256 0 path] assms cstr_blit_0 [of root path] cstr_nonzero [OF assms(1)]
    by (simp_all add: p0_def)
  obtain q where q: "skip_slashes rel 0 = Some q" "cstr rel q (rel_name r)"
    using skip_slashes_cstr [OF assms(3)] by (auto simp: rel_name_def)
  define t where "t = take (255 - 2 * length root) (rel_name r)"
  obtain l where l: "strlcat p0 0 rel q (256 - length root) =
      Some (l, if length root < 256 - length root then blit p0 (length root) (take (256 - length root - 1 - length root) (rel_name r) @ [0]) else p0)"
    using strlcat_cstr [OF p0(3) q(2), of "256 - length root"] p0(2) by auto
  have d: "depth_loop rel q 0 = Some (depth_of (rel_name r))" using depth_loop_cstr [OF q(2)] by simp
  note run = p0(1) q(1) d strlen_cstr [OF p0(3)] l
  show ?thesis
  proof (cases "depth_of (rel_name r) \<ge> 0 \<and> length root < 256 - length root")
    case True
    have e: "256 - length root - 1 - length root = 255 - 2 * length root" by simp
    have len: "length root + length t < 256" using True by (auto simp: t_def min_def)
    have b: "hostfs_mkpath m rel path 256 = Some (blit p0 (length root) (t @ [0]))"
      unfolding hostfs_mkpath_def using run True e by (simp add: t_def)
    have "0 \<notin> set (root @ t)"
      using cstr_nonzero [OF assms(1)] cstr_nonzero [OF q(2)] by (auto simp: t_def dest: in_set_takeD)
    moreover have "blit p0 (length root) (t @ [0]) = root @ t @ [0] @ drop (length root + length t + 1) p0"
      using p0(3) by (auto simp: blit_def cstr_def dest: arg_cong [where f = "take (length root)"])
    ultimately have "cstr (blit p0 (length root) (t @ [0])) 0 (root @ t)" by (intro cstrI_drop) simp_all
    then show ?thesis using b True len p0(2) by (simp add: host_path_def t_def)
  next
    case False
    then have "host_path root r = root" by (auto simp: host_path_def)
    moreover have "hostfs_mkpath m rel path 256 = Some p0" unfolding hostfs_mkpath_def using run False by auto
    ultimately show ?thesis using p0 by simp
  qed
qed

lemma mkpath_eq:
  assumes "cstr (fs_root s) 0 root" and "length root < 256" and "cstr rel 0 r" and "length (stack_path E) = 256"
  shows "mkpath E s rel = Some (host_path root r)"
  using hostfs_mkpath_eq [OF assms] by (auto simp: mkpath_def HOSTFS_MAX_PATH_def c_string_cstr)

lemma rename_path_eq:
  assumes "cstr (fs_root s) 0 root" and "length root < 256" and "cstr rel 0 r" and "length (stack_path E) = 256"
  shows "rename_path E s rel = Some (root @ take (255 - length root) r)"
proof -
  define p0 where "p0 = blit (stack_path E) 0 (root @ [0])"
  have p0: "strlcpy (stack_path E) 0 (fs_root s) 0 256 = Some (length root, p0)" "length p0 = 256" "cstr p0 0 root"
    using strlcpy_cstr [OF assms(1), of 256 0 "stack_path E"] assms cstr_blit_0 [of root "stack_path E"] cstr_nonzero [OF assms(1)]
    by (simp_all add: p0_def)
  define t where "t = take (255 - length root) r"
  obtain l where l: "strlcat p0 0 rel 0 256 = Some (l, blit p0 (length root) (t @ [0]))"
    using strlcat_cstr [OF p0(3) assms(3), of 256] p0(2) assms(2) by (auto simp: t_def)
  have "0 \<notin> set (root @ t)"
    using cstr_nonzero [OF assms(1)] cstr_nonzero [OF assms(3)] by (auto simp: t_def dest: in_set_takeD)
  moreover have "blit p0 (length root) (t @ [0]) = root @ t @ [0] @ drop (length root + length t + 1) p0"
    using p0(3) by (auto simp: blit_def cstr_def dest: arg_cong [where f = "take (length root)"])
  ultimately have "cstr (blit p0 (length root) (t @ [0])) 0 (root @ t)" by (intro cstrI_drop) simp_all
  then show ?thesis using p0(1) l by (simp add: rename_path_def HOSTFS_MAX_PATH_def c_string_cstr t_def)
qed

section \<open>The root of a mount\<close>

text \<open>The options: tokens between commas; the last one that starts with \<open>fs=\<close> counts.\<close>

abbreviation COMMA :: byte where "COMMA \<equiv> 0x2C"

function tokens :: "byte list \<Rightarrow> byte list list" where
  "tokens s = (let t = dropWhile (\<lambda>b. b = COMMA) s in
     if t = [] then [] else takeWhile (\<lambda>b. b \<noteq> COMMA) t # tokens (drop 1 (dropWhile (\<lambda>b. b \<noteq> COMMA) t)))"
  by pat_completeness auto

lemma rest_shorter: "dropWhile P s \<noteq> [] \<Longrightarrow> length (drop 1 (dropWhile Q (dropWhile P s))) < length s"
proof -
  assume "dropWhile P s \<noteq> []"
  then have "s \<noteq> []" by auto
  moreover have "length (dropWhile Q (dropWhile P s)) \<le> length s" by (meson length_dropWhile_le order_trans)
  ultimately show ?thesis by (cases s) auto
qed

termination tokens
  by (relation "measure length") (use rest_shorter [of "\<lambda>b. b = COMMA" _ "\<lambda>b. b \<noteq> COMMA"] in auto)

declare tokens.simps [simp del]

definition set_root :: "byte list \<Rightarrow> byte list \<Rightarrow> byte list" where
  "set_root root t = (if take 3 t = lit ''fs='' then take 255 (drop 3 t) else root)"

definition fs_option :: "byte list \<Rightarrow> byte list" where
  "fs_option opts = foldl set_root [] (tokens opts)"

definition with_slash :: "byte list \<Rightarrow> byte list" where
  "with_slash r = (if last r = SLASH \<or> length r \<ge> 255 then r else r @ [SLASH])"

lemma set_root_ok: "length root < 256 \<Longrightarrow> 0 \<notin> set root \<Longrightarrow> 0 \<notin> set t \<Longrightarrow> length (set_root root t) < 256 \<and> 0 \<notin> set (set_root root t)"
  by (auto simp: set_root_def dest: in_set_takeD in_set_dropD)

lemma set_root_step:
  assumes "cstr opts p t" and "cstr m 0 root" and "length m = 256" and "length root < 256"
  shows "\<exists>c m'. strncmp opts p (lit ''fs='' @ [0]) 0 3 = Some c
    \<and> (if c = 0 then do { (_, r) \<leftarrow> strlcpy m 0 opts (p + 3) HOSTFS_MAX_PATH; Some r } else Some m) = Some m'
    \<and> length m' = 256 \<and> cstr m' 0 (set_root root t)"
proof -
  define w where "w = lit ''fs=''"
  have w: "length w = 3" "take (length w) (drop 0 (w @ [0])) = w" "0 \<notin> set w" by (simp_all add: w_def)
  obtain c where c: "strncmp opts p (w @ [0]) 0 3 = Some c" "c = 0 \<longleftrightarrow> take 3 t = w"
    using strncmp_prefix [OF assms(1) w(2,3)] unfolding w(1) by blast
  show ?thesis
  proof (cases "c = 0")
    case True
    then have t: "t = w @ drop 3 t" using c(2) by (metis append_take_drop_id)
    then have d: "cstr opts (p + 3) (drop 3 t)" using cstr_drop_prefix [of opts p w "drop 3 t"] assms(1) w(1) by simp
    have "0 \<notin> set (take 255 (drop 3 t))" using cstr_nonzero [OF assms(1)] by (auto dest: in_set_takeD in_set_dropD)
    then have "cstr (blit m 0 (take 255 (drop 3 t) @ [0])) 0 (take 255 (drop 3 t))"
      using assms(3) by (intro cstr_blit_0) simp_all
    then show ?thesis using c True strlcpy_cstr [OF d, of 256 0 m] assms(3)
      by (simp add: HOSTFS_MAX_PATH_def set_root_def w_def)
  next
    case False
    then show ?thesis using c assms(2,3) by (simp add: set_root_def w_def)
  qed
qed

lemma comma_delim: "cstr [COMMA, 0] 0 [COMMA]"
  by (simp add: cstr_def)

lemma bind_loop_eq:
  "cstr opts p s \<Longrightarrow> (if str \<noteq> None then str else save) = Some p \<Longrightarrow>
   cstr m 0 root \<Longrightarrow> length m = 256 \<Longrightarrow> length root < 256 \<Longrightarrow>
   \<exists>ptr opts' save' m'. strtok_r opts str [COMMA, 0] save = Some (ptr, opts', save')
     \<and> bind_loop opts' ptr save' m = Some m' \<and> length m' = 256 \<and> cstr m' 0 (foldl set_root root (tokens s))"
proof (induction "length s" arbitrary: s opts p str save m root rule: less_induct)
  case less
  define t where "t = dropWhile (\<lambda>b. b = COMMA) s"
  note tok = strtok_r_cstr [OF comma_delim less.prems(1,2), folded t_def]
  show ?case
  proof (cases "t = []")
    case True
    then have "strtok_r opts str [COMMA, 0] save = Some (None, opts, save)" using tok by simp
    moreover have "tokens s = []" using True by (subst tokens.simps) (simp add: t_def)
    moreover have "bind_loop opts None save m = Some m" by (subst bind_loop.simps) simp
    ultimately show ?thesis using less.prems by auto
  next
    case False
    define w r where "w = takeWhile (\<lambda>b. b \<noteq> COMMA) t" and "r = drop 1 (dropWhile (\<lambda>b. b \<noteq> COMMA) t)"
    obtain q o1 p1 where q: "strtok_r opts str [COMMA, 0] save = Some (Some q, o1, Some p1)" "cstr o1 q w" "cstr o1 p1 r"
      using tok False by (auto simp: w_def r_def)
    obtain c m1 where m1: "strncmp o1 q (lit ''fs='' @ [0]) 0 3 = Some c"
        "(if c = 0 then do { (_, r) \<leftarrow> strlcpy m 0 o1 (q + 3) HOSTFS_MAX_PATH; Some r } else Some m) = Some m1"
        "length m1 = 256" "cstr m1 0 (set_root root w)"
      using set_root_step [OF q(2) less.prems(3-5)] by blast
    have "length r < length s"
      using rest_shorter [of "\<lambda>b. b = COMMA" s "\<lambda>b. b \<noteq> COMMA"] False by (simp add: r_def t_def)
    moreover have "length (set_root root w) < 256"
      using set_root_ok [OF less.prems(5) cstr_nonzero [OF less.prems(3)] cstr_nonzero [OF q(2)]] by simp
    ultimately obtain ptr o2 s2 m2 where IH: "strtok_r o1 None [COMMA, 0] (Some p1) = Some (ptr, o2, s2)"
        "bind_loop o2 ptr s2 m1 = Some m2" "length m2 = 256" "cstr m2 0 (foldl set_root (set_root root w) (tokens r))"
      using less.hyps [of r o1 p1 None "Some p1" m1 "set_root root w"] q(3) m1(3,4) by auto
    have "bind_loop o1 (Some q) (Some p1) m = Some m2"
      by (subst bind_loop.simps) (simp add: m1(1,2) IH(1,2) del: lit_Cons)
    moreover have "tokens s = w # tokens r" using False by (subst tokens.simps) (auto simp: Let_def t_def w_def r_def)
    ultimately show ?thesis using q(1) IH(3,4) by simp
  qed
qed

lemma bind_root_empty: "cstr m 0 [] \<Longrightarrow> bind_root m = None"
  by (simp add: bind_root_def strlen_cstr)

lemma slash_appended:
  assumes "cstr m 0 r" and "length m = 256" and "length r \<le> 255"
  shows "\<exists>l m'. strlcat m 0 [SLASH, 0] 0 256 = Some (l, m') \<and> length m' = 256
    \<and> cstr m' 0 (if length r < 255 then r @ [SLASH] else r)"
proof -
  have s: "cstr [SLASH, 0] 0 [SLASH]" by (simp add: cstr_def)
  define t where "t = take (255 - length r) [SLASH]"
  obtain l where l: "strlcat m 0 [SLASH, 0] 0 256 = Some (l, blit m (length r) (t @ [0]))"
    using strlcat_cstr [OF assms(1) s, of 256] assms by (auto simp: t_def)
  have t: "r @ t = (if length r < 255 then r @ [SLASH] else r)" "0 \<notin> set t" "length r + length t < 256"
    using assms(3) by (auto simp: t_def take_Cons' )
  have "blit m (length r) (t @ [0]) = (r @ t) @ 0 # drop (length r + length t + 1) m"
    using assms(1) by (auto simp: blit_def cstr_def dest: arg_cong [where f = "take (length r)"])
  then have "cstr (blit m (length r) (t @ [0])) 0 (r @ t)"
    using cstr_nonzero [OF assms(1)] t(2) by (intro cstrI_drop) auto
  then show ?thesis using l t assms(2) by auto
qed

lemma bind_root_eq:
  assumes "cstr m 0 r" and "length m = 256" and "length r < 256" and "r \<noteq> []"
  shows "\<exists>m'. bind_root m = Some m' \<and> length m' = 256 \<and> cstr m' 0 (with_slash r)"
proof -
  obtain x b where r: "r = x @ [b]" using assms(4) by (cases r rule: rev_cases) auto
  have b: "rd m (length x) = Some b" "b \<noteq> 0" "length m > length x + 1"
    using cstr_nth [OF assms(1), of "length x"] cstr_nonzero [OF assms(1)] assms(2,3) r by (auto simp: rd_def)
  show ?thesis
  proof (cases "b = SLASH \<and> x \<noteq> []")
    case True
    have "cstr (m[length x := 0]) 0 x"
    proof -
      obtain y where "m = x @ b # 0 # y" using cstr_drop [OF assms(1)] r by auto
      then show ?thesis using cstr_nonzero [OF assms(1)] r by (intro cstrI_drop) (auto simp: list_update_append)
    qed
    from slash_appended [OF this] show ?thesis
      using True b r assms strlen_cstr [OF assms(1)] by (auto simp: bind_root_def with_slash_def HOSTFS_MAX_PATH_def)
  next
    case False
    then show ?thesis
      using slash_appended [OF assms(1,2)] b r assms strlen_cstr [OF assms(1)]
      by (cases "b = SLASH") (auto simp: bind_root_def with_slash_def HOSTFS_MAX_PATH_def)
  qed
qed

lemma length_set_root: "foldl set_root root ts = r \<Longrightarrow> length root < 256 \<Longrightarrow> length r < 256"
  by (induction ts arbitrary: root) (auto simp: set_root_def)

lemma hostfs_bind_eq:
  assumes "cstr data 0 opts" and "\<And>n. heap_avail E n h" and "nx_lock E h = 0"
  shows "if fs_option opts = [] then hostfs_bind E False (Some data) h = None
    else \<exists>s. hostfs_bind E False (Some data) h = Some (0, Some s) \<and> heap s = Map.empty \<and> fs_head s = None \<and> hst s = h
      \<and> length (fs_root s) = 256 \<and> cstr (fs_root s) 0 (with_slash (fs_option opts))"
proof -
  define d where "d = take (length opts + 1) data"
  have d: "cstr d 0 opts" using assms(1) by (simp add: d_def cstr_def)
  have z: "cstr (replicate 256 0) 0 []" by (rule cstr_Nil) simp_all
  obtain ptr o1 s1 m where m: "strtok_r d (Some 0) [COMMA, 0] None = Some (ptr, o1, s1)"
      "bind_loop o1 ptr s1 (replicate 256 0) = Some m" "length m = 256" "cstr m 0 (fs_option opts)"
    using bind_loop_eq [OF d, of "Some 0" None "replicate 256 0" "[]"] z by (auto simp: fs_option_def)
  have run: "hostfs_bind E False (Some data) h = do { root \<leftarrow> bind_root m;
      Some (0, Some \<lparr>heap = Map.empty, fs_head = None, fs_root = root, hst = h\<rparr>) }"
    using assms(2,3) strlen_cstr [OF assms(1)] m(1) [unfolded d_def] m(2)
    by (simp add: hostfs_bind_def HOSTFS_MAX_PATH_def)
  show ?thesis
  proof (cases "fs_option opts = []")
    case True
    then show ?thesis using run m(4) bind_root_empty by simp
  next
    case False
    moreover have "length (fs_option opts) < 256" using length_set_root by (simp add: fs_option_def)
    ultimately show ?thesis using run bind_root_eq [OF m(4,3)] by auto
  qed
qed

end
