(* ===== verification/HostfsSpec.thy ===== *)
theory HostfsSpec
  imports HostfsPath
begin

text \<open>
  Correctness of the host file system: the list of open files and their reference counts over any
  sequence of operations, file contents as the host has them, and the paths given to the host.
\<close>

section \<open>The list of open files\<close>

text \<open>\<open>chain m p xs\<close>: from the pointer \<open>p\<close> the list runs through the addresses \<open>xs\<close>.\<close>

fun chain :: "(nat \<rightharpoonup> ofile) \<Rightarrow> nat option \<Rightarrow> nat list \<Rightarrow> bool" where
  "chain m p [] \<longleftrightarrow> p = None"
| "chain m p (a # xs) \<longleftrightarrow> p = Some a \<and> (\<exists>x. m a = Some x \<and> chain m (fnext x) xs)"

lemma chain_outside: "a \<notin> set xs \<Longrightarrow> chain (m(a := v)) p xs = chain m p xs"
  by (induction xs arbitrary: p) auto

lemma chain_same_next:
  "m a = Some x \<Longrightarrow> fnext y = fnext x \<Longrightarrow> chain (m(a \<mapsto> y)) p xs = chain m p xs"
  by (induction xs arbitrary: p) auto

lemma chain_append: "chain m p (xs @ a # ys) \<Longrightarrow> \<exists>x. m a = Some x \<and> chain m (Some a) (a # ys) \<and> chain m (fnext x) ys"
  by (induction xs arbitrary: p) auto

text \<open>The search ends and finds the predecessor.\<close>

lemma find_ofile_chain:
  "chain m p (xs @ a # ys) \<Longrightarrow> a \<notin> set xs \<Longrightarrow>
   find_ofile m a q p = Some (if xs = [] then q else Some (last xs), Some a)"
proof (induction xs arbitrary: p q)
  case Nil
  then show ?case by (subst find_ofile.simps) simp
next
  case (Cons b xs)
  then obtain x where x: "p = Some b" "m b = Some x" "chain m (fnext x) (xs @ a # ys)" by auto
  then show ?case using Cons.IH [OF x(3)] Cons.prems(2) by (subst find_ofile.simps) auto
qed

text \<open>Taking an element out: the predecessor gets its successor.\<close>

lemma chain_remove:
  assumes "chain m p ((xs @ [b]) @ a # ys)" and "distinct ((xs @ [b]) @ a # ys)" and "m a = Some x" and "m b = Some y"
  shows "chain ((m(b \<mapsto> y\<lparr>fnext := fnext x\<rparr>))(a := None)) p ((xs @ [b]) @ ys)"
  using assms
proof (induction xs arbitrary: p)
  case Nil
  then have n: "p = Some b" "chain m (fnext x) ys" "b \<notin> set ys" "a \<notin> set ys" "b \<noteq> a" by auto
  then have "chain ((m(b \<mapsto> y\<lparr>fnext := fnext x\<rparr>))(a := None)) (fnext x) ys" by (metis chain_outside)
  then show ?case using n by (simp add: fun_upd_def)
next
  case (Cons c xs)
  then obtain z where z: "p = Some c" "m c = Some z" "chain m (fnext z) ((xs @ [b]) @ a # ys)" by auto
  then have "chain ((m(b \<mapsto> y\<lparr>fnext := fnext x\<rparr>))(a := None)) (fnext z) ((xs @ [b]) @ ys)"
    using Cons.prems by (intro Cons.IH) auto
  then show ?case using z Cons.prems(2) by (auto simp: fun_upd_def)
qed

section \<open>The invariant\<close>

type_synonym files = "nat \<rightharpoonup> filep"

text \<open>The files of the system that refer to an open file of the mount point.\<close>

definition refs :: "files \<Rightarrow> nat \<Rightarrow> nat set" where
  "refs fl a = {i. \<exists>f. fl i = Some f \<and> f_priv f = Some a}"

definition fs_inv :: "'h hostfs \<Rightarrow> files \<Rightarrow> bool" where
  "fs_inv s fl \<longleftrightarrow> finite (dom fl)
     \<and> (\<exists>xs. chain (heap s) (fs_head s) xs \<and> distinct xs \<and> dom (heap s) = set xs)
     \<and> (\<forall>a x. heap s a = Some x \<longrightarrow> refs fl a \<noteq> {} \<and> sint (crefs x) = int (card (refs fl a)))
     \<and> (\<forall>i f. fl i = Some f \<longrightarrow> (\<exists>a \<in> dom (heap s). f_priv f = Some a))"

lemma finite_refs: "finite (dom fl) \<Longrightarrow> finite (refs fl a)"
  by (rule finite_subset [of _ "dom fl"]) (auto simp: refs_def)

lemma refs_add: "fl i = None \<Longrightarrow> refs (fl(i \<mapsto> f)) a = (if f_priv f = Some a then insert i (refs fl a) else refs fl a)"
  by (auto simp: refs_def)

lemma refs_remove: "fl i = Some f \<Longrightarrow> refs (fl(i := None)) a = (if f_priv f = Some a then refs fl a - {i} else refs fl a)"
  by (auto simp: refs_def)

lemma refs_change: "fl i = Some f \<Longrightarrow> f_priv g = f_priv f \<Longrightarrow> refs (fl(i \<mapsto> g)) a = refs fl a"
  by (auto simp: refs_def)

lemma refs_fresh: "fs_inv s fl \<Longrightarrow> heap s a = None \<Longrightarrow> refs fl a = {}"
  by (fastforce simp: fs_inv_def refs_def)

lemma sint_inc: "sint (w :: 16 word) < 32767 \<Longrightarrow> sint (w + 1) = sint w + 1"
proof -
  assume "sint w < 32767"
  moreover have "- 32768 \<le> sint w" using sint_ge [of w] by simp
  ultimately have "signed_take_bit 15 (sint w + 1) = sint w + 1" by (intro signed_take_bit_int_eq_self) simp_all
  then show ?thesis by (simp add: signed_take_bit_eq_take_bit_shift sint_word_ariths(1))
qed

lemma sint_dec: "1 < sint (w :: 16 word) \<Longrightarrow> sint (w - 1) = sint w - 1"
proof -
  assume "1 < sint w"
  moreover have "sint w < 32768" using sint_lt [of w] by simp
  ultimately have "signed_take_bit 15 (sint w - 1) = sint w - 1" by (intro signed_take_bit_int_eq_self) simp_all
  then show ?thesis by (simp add: sint_word_ariths(2))
qed

section \<open>The operations keep it\<close>

definition lock_ok :: "'h host_calls \<Rightarrow> bool" where
  "lock_ok E \<longleftrightarrow> (\<forall>h. nx_lock E h = 0)"

definition malloc_ok :: "'h host_calls \<Rightarrow> bool" where
  "malloc_ok E \<longleftrightarrow> (\<forall>n m a. heap_malloc E n m = Some a \<longrightarrow> m a = None)"

text \<open>What a successful open does to the list.\<close>

lemma hostfs_open_result:
  assumes "hostfs_open E s f rel fl mode = Some (ret, g, t)" and "lock_ok E" and "malloc_ok E"
  shows "(ret \<noteq> 0 \<longrightarrow> heap t = heap s \<and> fs_head t = fs_head s) \<and> fs_root t = fs_root s
    \<and> (ret = 0 \<longrightarrow> (\<exists>a x. heap s a = None \<and> f_priv g = Some a \<and> heap t = (heap s)(a \<mapsto> x) \<and> fs_head t = Some a
          \<and> crefs x = 1 \<and> fnext x = fs_head s))"
proof -
  have f: "f_priv f = None" using assms(1) by (auto simp: hostfs_open_def split: if_splits)
  obtain len where len: "strlen rel 0 = Some len"
    using assms(1,2) f by (auto simp: hostfs_open_def lock_ok_def bind_eq_Some_conv)
  show ?thesis
  proof (cases "heap_malloc E (SIZEOF_OFILE + len) (heap s)")
    case None
    then show ?thesis using assms(1,2) f len by (auto simp: hostfs_open_def lock_ok_def ENOMEM_def)
  next
    case (Some a)
    then obtain path where path: "mkpath E s rel = Some path"
      using assms(1,2) f len by (auto simp: hostfs_open_def lock_ok_def bind_eq_Some_conv)
    obtain fd h where o1: "host_open E path fl mode (hst s) = (fd, h)" by fastforce
    define app where "app = (flag fl O_APPEND \<and> fl AND O_ACCMODE \<noteq> O_RDONLY)"
    obtain r h2 where o2: "(if app then host_lseek E fd 0 0 SEEK_END h else (0, h)) = (r, h2)" by fastforce
    have "heap s a = None" using Some assms(3) by (simp add: malloc_ok_def)
    then show ?thesis
      using assms(1,2) f len Some path o1 o2
      by (auto simp: hostfs_open_def lock_ok_def app_def [symmetric] open_error_def EINVAL_def EIO_def bind_eq_Some_conv
          split: if_splits) (rule exI, rule conjI, rule refl, simp)+
  qed
qed

lemma fs_inv_open:
  assumes "fs_inv s fl" and "fl i = None" and "heap s a = None" and "f_priv g = Some a"
    and "heap t = (heap s)(a \<mapsto> x)" and "fs_head t = Some a" and "crefs x = 1" and "fnext x = fs_head s"
  shows "fs_inv t (fl(i \<mapsto> g))"
proof -
  obtain xs where xs: "chain (heap s) (fs_head s) xs" "distinct xs" "dom (heap s) = set xs" using assms(1) by (auto simp: fs_inv_def)
  have a: "a \<notin> set xs" using assms(3) xs(3) by auto
  have "chain (heap t) (fs_head t) (a # xs)" using assms(5,6,8) xs(1) a by (simp add: chain_outside)
  moreover have "refs fl a = {}" using refs_fresh assms(1,3) by blast
  ultimately show ?thesis
    using assms xs a unfolding fs_inv_def by (auto simp: refs_add intro!: exI [of _ "a # xs"])
qed

lemma hostfs_dup_eq:
  "heap s a = Some x \<Longrightarrow> f_priv f = Some a \<Longrightarrow> f_priv g = None \<Longrightarrow>
   hostfs_dup s f g = Some (0, g\<lparr>f_priv := Some a\<rparr>, s\<lparr>heap := (heap s)(a \<mapsto> x\<lparr>crefs := crefs x + 1\<rparr>)\<rparr>)"
  by (simp add: hostfs_dup_def)

lemma fs_inv_dup:
  assumes "fs_inv s fl" and "fl i = Some f" and "fl j = None" and "f_priv f = Some a" and "heap s a = Some x"
    and "card (refs fl a) < 32767" and "f_priv g = Some a"
  shows "fs_inv (s\<lparr>heap := (heap s)(a \<mapsto> x\<lparr>crefs := crefs x + 1\<rparr>)\<rparr>) (fl(j \<mapsto> g))"
proof -
  have c: "sint (crefs x) = int (card (refs fl a))" using assms(1,5) by (simp add: fs_inv_def)
  then have "sint (crefs x + 1) = int (card (refs fl a)) + 1" using assms(6) by (simp add: sint_inc)
  moreover have "j \<notin> refs fl a" "finite (refs fl a)" using assms(1,3) finite_refs by (auto simp: refs_def fs_inv_def)
  moreover have "insert a (dom (heap s)) = dom (heap s)" using assms(5) by auto
  ultimately show ?thesis
    using assms unfolding fs_inv_def by (auto simp: refs_add chain_same_next simp del: dom_def)
qed

text \<open>A close of one of several references, and of the last one.\<close>

lemma fs_inv_close_shared:
  assumes "fs_inv s fl" and "fl i = Some f" and "f_priv f = Some a" and "heap s a = Some x" and "1 < sint (crefs x)"
  shows "fs_inv (s\<lparr>heap := (heap s)(a \<mapsto> x\<lparr>crefs := crefs x - 1\<rparr>)\<rparr>) (fl(i := None))"
proof -
  have c: "sint (crefs x) = int (card (refs fl a))" "finite (refs fl a)" "i \<in> refs fl a"
    using assms(1-4) finite_refs by (auto simp: fs_inv_def refs_def)
  then have "card (refs fl a - {i}) = card (refs fl a) - 1" "1 < card (refs fl a)" using assms(5) by simp_all
  then have "0 < card (refs fl a - {i})" "sint (crefs x - 1) = int (card (refs fl a - {i}))"
    using c(1) sint_dec [OF assms(5)] by (simp_all add: of_nat_diff)
  then have "refs fl a - {i} \<noteq> {}" "sint (crefs x - 1) = int (card (refs fl a - {i}))" by (metis card.empty less_irrefl, simp)
  moreover have "insert a (dom (heap s)) = dom (heap s)" using assms(4) by auto
  ultimately show ?thesis
    using assms(1-4) unfolding fs_inv_def by (auto simp: refs_remove chain_same_next) 
qed

lemma last_ref:
  assumes "fs_inv s fl" and "fl i = Some f" and "f_priv f = Some a" and "heap s a = Some x" and "\<not> 1 < sint (crefs x)"
  shows "refs fl a = {i}"
proof -
  have "i \<in> refs fl a" "finite (refs fl a)" "card (refs fl a) \<le> 1"
    using assms finite_refs by (auto simp: fs_inv_def refs_def)
  then show ?thesis by (metis card_le_Suc0_iff_eq One_nat_def is_singletonI' is_singleton_the_elem singletonD empty_iff)
qed

lemma fs_inv_close_last:
  assumes "fs_inv s fl" and "fl i = Some f" and "refs fl a = {i}" and "f_priv f = Some a"
    and "chain (heap t) (fs_head t) xs" "distinct xs" "dom (heap t) = set xs" "a \<notin> set xs"
    and "\<And>b. b \<noteq> a \<Longrightarrow> map_option crefs (heap t b) = map_option crefs (heap s b)"
  shows "fs_inv t (fl(i := None))"
proof -
  have d: "b \<in> dom (heap t) \<longleftrightarrow> b \<in> dom (heap s)" if "b \<noteq> a" for b
    using assms(9) [OF that] by (metis domIff map_option_is_None)
  have "finite (dom (fl(i := None)))" using assms(1) by (simp add: fs_inv_def)
  moreover have "refs (fl(i := None)) b \<noteq> {} \<and> sint (crefs y) = int (card (refs (fl(i := None)) b))" if y: "heap t b = Some y" for b y
  proof -
    have b: "b \<noteq> a" using y assms(7,8) by auto
    then obtain z where z: "heap s b = Some z" "crefs z = crefs y" using assms(9) [OF b] y by (cases "heap s b") auto
    then have "refs fl b \<noteq> {} \<and> sint (crefs z) = int (card (refs fl b))" using assms(1) unfolding fs_inv_def by blast
    moreover have "refs (fl(i := None)) b = refs fl b" using refs_remove [of fl i f b] assms(2,4) b by simp
    ultimately show ?thesis using z(2) by simp
  qed
  moreover have "\<exists>b \<in> dom (heap t). f_priv g = Some b" if "(fl(i := None)) j = Some g" for j g
  proof -
    have j: "j \<noteq> i" "fl j = Some g" using that by (auto split: if_splits)
    then obtain b where b: "b \<in> dom (heap s)" "f_priv g = Some b" using assms(1) unfolding fs_inv_def by blast
    then have "b \<noteq> a" using assms(3) j by (auto simp: refs_def)
    then show ?thesis using b d by blast
  qed
  ultimately show ?thesis using assms(5-7) unfolding fs_inv_def by blast
qed

text \<open>Close returns and keeps the invariant.\<close>

lemma hostfs_close_ok:
  assumes "fs_inv s fl" and "fl i = Some f" and "lock_ok E"
  shows "\<exists>g t. hostfs_close E s f = Some (0, g, t) \<and> fs_inv t (fl(i := None)) \<and> fs_root t = fs_root s"
proof -
  obtain a x where a: "f_priv f = Some a" "heap s a = Some x" using assms(1,2) by (force simp: fs_inv_def)
  show ?thesis
  proof (cases "1 < sint (crefs x)")
    case True
    then show ?thesis
      using fs_inv_close_shared [OF assms(1,2) a True] a assms(3) by (simp add: hostfs_close_def lock_ok_def)
  next
    case False
    have r: "refs fl a = {i}" using last_ref [OF assms(1,2) a False] .
    obtain zs where zs: "chain (heap s) (fs_head s) zs" "distinct zs" "dom (heap s) = set zs" using assms(1) by (auto simp: fs_inv_def)
    then obtain xs ys where xy: "zs = xs @ a # ys" using a(2) by (metis domI in_set_conv_decomp)
    have ax: "a \<notin> set xs" "a \<notin> set ys" using zs(2) xy by auto
    have f: "find_ofile (heap s) a (fs_head s) (fs_head s) = Some (if xs = [] then fs_head s else Some (last xs), Some a)"
      using find_ofile_chain zs(1) xy ax(1) by blast
    define h where "h = snd (host_close E (of_fd x) (hst s))"
    show ?thesis
    proof (cases xs rule: rev_cases)
      case Nil
      define t where "t = s\<lparr>fs_head := fnext x, heap := (heap s)(a := None), hst := h\<rparr>"
      have "hostfs_close E s f = Some (0, f\<lparr>f_priv := None\<rparr>, t)"
        using a f Nil zs(1) xy False assms(3) by (auto simp: hostfs_close_def lock_ok_def t_def h_def split: prod.splits)
      moreover have "fs_inv t (fl(i := None))"
      proof (rule fs_inv_close_last [OF assms(1,2) r a(1)])
        show "chain (heap t) (fs_head t) ys" using zs(1) xy Nil a ax by (simp add: t_def chain_outside)
        show "dom (heap t) = set ys" using zs(3) xy Nil ax by (auto simp: t_def)
      qed (use zs(2) xy ax in \<open>auto simp: t_def\<close>)
      ultimately show ?thesis by (simp add: t_def)
    next
      case (snoc ws b)
      obtain y where y: "heap s b = Some y" using zs(3) xy snoc by (metis domD in_set_conv_decomp append_assoc append_Cons)
      define t where "t = s\<lparr>heap := ((heap s)(b \<mapsto> y\<lparr>fnext := fnext x\<rparr>))(a := None), hst := h\<rparr>"
      have hd: "fs_head s \<noteq> Some a" using zs(1) xy snoc ax by (cases ws) auto
      have ab: "b \<noteq> a" using ax snoc by auto
      have "hostfs_close E s f = Some (0, f\<lparr>f_priv := None\<rparr>, t)"
        using a f snoc y hd ab False assms(3) by (auto simp: hostfs_close_def lock_ok_def t_def h_def split: prod.splits)
      moreover have "fs_inv t (fl(i := None))"
      proof (rule fs_inv_close_last [OF assms(1,2) r a(1)])
        show "chain (heap t) (fs_head t) ((ws @ [b]) @ ys)"
          using chain_remove [of "heap s" "fs_head s" ws b a ys x y] zs(1,2) xy snoc a y by (simp add: t_def)
        show "dom (heap t) = set ((ws @ [b]) @ ys)" using zs(3) xy snoc ax y by (auto simp: t_def)
      qed (use zs(2) xy ax snoc y in \<open>auto simp: t_def\<close>)
      ultimately show ?thesis by (simp add: t_def)
    qed
  qed
qed

section \<open>Sequences of operations\<close>

definition new_file :: filep where
  "new_file = \<lparr>f_pos = 0, f_priv = None\<rparr>"

text \<open>
  The steps of a mounted file system with the files of the system: every operation that gets a file,
  as the virtual file system calls it. A failed open leaves no file. The reference count has 16
  bits: a file has fewer than 32767 references before a duplicate is made.
\<close>

inductive hostfs_step :: "'h host_calls \<Rightarrow> 'h hostfs \<times> files \<Rightarrow> 'h hostfs \<times> files \<Rightarrow> bool" for E where
  open_file: "fl i = None \<Longrightarrow> hostfs_open E s new_file rel oflg mode = Some (ret, f, t) \<Longrightarrow>
    hostfs_step E (s, fl) (t, if ret = 0 then fl(i \<mapsto> f) else fl)"
| dup_file: "fl i = Some f \<Longrightarrow> fl j = None \<Longrightarrow> (\<And>a. card (refs fl a) < 32767) \<Longrightarrow>
    hostfs_dup s f new_file = Some (ret, g, t) \<Longrightarrow> hostfs_step E (s, fl) (t, fl(j \<mapsto> g))"
| close_file: "fl i = Some f \<Longrightarrow> hostfs_close E s f = Some (ret, g, t) \<Longrightarrow> hostfs_step E (s, fl) (t, fl(i := None))"
| read_file: "fl i = Some f \<Longrightarrow> hostfs_read E s f buf n = Some (ret, buf', g, t) \<Longrightarrow> hostfs_step E (s, fl) (t, fl(i \<mapsto> g))"
| write_file: "fl i = Some f \<Longrightarrow> hostfs_write E s f buf n = Some (ret, g, t) \<Longrightarrow> hostfs_step E (s, fl) (t, fl(i \<mapsto> g))"
| seek_file: "fl i = Some f \<Longrightarrow> hostfs_seek E s f off whence = Some (ret, g, t) \<Longrightarrow> hostfs_step E (s, fl) (t, fl(i \<mapsto> g))"
| ioctl_file: "fl i = Some f \<Longrightarrow> hostfs_ioctl E s inodes node f cmd arg = Some (ret, arg', t) \<Longrightarrow> hostfs_step E (s, fl) (t, fl)"
| sync_file: "fl i = Some f \<Longrightarrow> hostfs_sync E s f = Some (ret, t) \<Longrightarrow> hostfs_step E (s, fl) (t, fl)"
| stat_file: "fl i = Some f \<Longrightarrow> hostfs_fstat E s f st = Some (ret, st', t) \<Longrightarrow> hostfs_step E (s, fl) (t, fl)"
| chstat_file: "fl i = Some f \<Longrightarrow> hostfs_fchstat E s f st flg = Some (ret, t) \<Longrightarrow> hostfs_step E (s, fl) (t, fl)"
| truncate_file: "fl i = Some f \<Longrightarrow> hostfs_ftruncate E s f len = Some (ret, t) \<Longrightarrow> hostfs_step E (s, fl) (t, fl)"
| unlink_path: "hostfs_unlink E s rel = Some (ret, t) \<Longrightarrow> hostfs_step E (s, fl) (t, fl)"
| mkdir_path: "hostfs_mkdir E s rel mode = Some (ret, t) \<Longrightarrow> hostfs_step E (s, fl) (t, fl)"
| rmdir_path: "hostfs_rmdir E s rel = Some (ret, t) \<Longrightarrow> hostfs_step E (s, fl) (t, fl)"
| rename_paths: "hostfs_rename E s rel rel' = Some (ret, t) \<Longrightarrow> hostfs_step E (s, fl) (t, fl)"
| stat_path: "hostfs_stat E s rel st = Some (ret, st', t) \<Longrightarrow> hostfs_step E (s, fl) (t, fl)"
| chstat_path: "hostfs_chstat E s rel st flg = Some (ret, t) \<Longrightarrow> hostfs_step E (s, fl) (t, fl)"
| statfs_root: "hostfs_statfs E s sf = Some (ret, sf', t) \<Longrightarrow> hostfs_step E (s, fl) (t, fl)"
| open_dir: "hostfs_opendir E s rel = Some (ret, d, t) \<Longrightarrow> hostfs_step E (s, fl) (t, fl)"
| close_dir: "hostfs_closedir E s dir = (ret, t) \<Longrightarrow> hostfs_step E (s, fl) (t, fl)"
| read_dir: "hostfs_readdir E s dir e = Some (ret, e', t) \<Longrightarrow> hostfs_step E (s, fl) (t, fl)"
| rewind_dir: "hostfs_rewinddir E s dir = (ret, t) \<Longrightarrow> hostfs_step E (s, fl) (t, fl)"

inductive hostfs_reach :: "'h host_calls \<Rightarrow> 'h hostfs \<times> files \<Rightarrow> 'h hostfs \<times> files \<Rightarrow> bool" for E where
  reach_refl: "hostfs_reach E x x"
| reach_step: "hostfs_reach E x y \<Longrightarrow> hostfs_step E y z \<Longrightarrow> hostfs_reach E x z"

text \<open>Operations that only call the host leave the list and the root, and the file its object.\<close>

definition same_files :: "'h hostfs \<Rightarrow> 'h hostfs \<Rightarrow> bool" where
  "same_files s t \<longleftrightarrow> heap t = heap s \<and> fs_head t = fs_head s \<and> fs_root t = fs_root s"

lemma fs_inv_same: "fs_inv s fl \<Longrightarrow> same_files s t \<Longrightarrow> fs_inv t fl"
  by (simp add: fs_inv_def same_files_def)

lemma fs_inv_change: "fs_inv s fl \<Longrightarrow> same_files s t \<Longrightarrow> fl i = Some f \<Longrightarrow> f_priv g = f_priv f \<Longrightarrow> fs_inv t (fl(i \<mapsto> g))"
  by (auto simp: fs_inv_def same_files_def refs_change)

lemma same_files_io:
  "hostfs_read E s f buf n = Some (ret, buf', g, t) \<Longrightarrow> same_files s t \<and> f_priv g = f_priv f"
  "hostfs_write E s f buf n = Some (ret, g, t) \<Longrightarrow> same_files s t \<and> f_priv g = f_priv f"
  "hostfs_seek E s f off whence = Some (ret, g, t) \<Longrightarrow> same_files s t \<and> f_priv g = f_priv f"
  by (auto simp: hostfs_read_def hostfs_write_def hostfs_seek_def same_files_def bind_eq_Some_conv
      Let_def split_beta split: if_splits)

lemma same_files_root: "same_files s t \<Longrightarrow> fs_root t = fs_root s"
  by (simp add: same_files_def)

lemma hostfs_ioctl_same:
  assumes "hostfs_ioctl E s inodes node f cmd arg = Some (ret, arg', t)"
  shows "same_files s t"
proof -
  obtain hf where hf: "f_priv f = Some hf" using assms by (cases "f_priv f") (simp_all add: hostfs_ioctl_def)
  show ?thesis
  proof (cases "nx_lock E (hst s) < 0")
    case False
    then obtain x where x: "heap s hf = Some x" using assms hf by (cases "heap s hf") (simp_all add: hostfs_ioctl_def)
    obtain r m h where r: "host_ioctl E (of_fd x) cmd (case arg of None \<Rightarrow> [] | Some m \<Rightarrow> m) (hst s) = (r, m, h)"
      by (metis prod_cases3)
    have "t = s\<lparr>hst := h\<rparr>"
      using assms hf False x r
      by (cases arg) (auto simp: hostfs_ioctl_def Let_def bind_eq_Some_conv split_beta split: if_splits)
    then show ?thesis by (simp add: same_files_def)
  qed (use assms hf in \<open>simp add: hostfs_ioctl_def same_files_def\<close>)
qed

lemma same_files_ops:
  "hostfs_sync E s f = Some (ret, t) \<Longrightarrow> same_files s t"
  "hostfs_fstat E s f st = Some (ret, st', t) \<Longrightarrow> same_files s t"
  "hostfs_fchstat E s f st flg = Some (ret, t) \<Longrightarrow> same_files s t"
  "hostfs_ftruncate E s f len = Some (ret, t) \<Longrightarrow> same_files s t"
  by (auto simp: hostfs_sync_def hostfs_fstat_def hostfs_fchstat_def hostfs_ftruncate_def same_files_def
      Let_def split_beta bind_eq_Some_conv split: if_splits option.splits)

lemma path_call_same: "path_call E s rel call = Some (ret, t) \<Longrightarrow> same_files s t"
  by (auto simp: path_call_def same_files_def bind_eq_Some_conv Let_def split_beta split: if_splits)

lemma same_files_paths:
  "hostfs_unlink E s rel = Some (ret, t) \<Longrightarrow> same_files s t"
  "hostfs_mkdir E s rel mode = Some (ret, t) \<Longrightarrow> same_files s t"
  "hostfs_rmdir E s rel = Some (ret, t) \<Longrightarrow> same_files s t"
  "hostfs_rename E s rel rel' = Some (ret, t) \<Longrightarrow> same_files s t"
  by (auto simp: hostfs_unlink_def hostfs_mkdir_def hostfs_rmdir_def dest: path_call_same)
    (auto simp: hostfs_rename_def same_files_def bind_eq_Some_conv Let_def split_beta split: if_splits)

lemma same_files_stats:
  "hostfs_stat E s rel st = Some (ret, st', t) \<Longrightarrow> same_files s t"
  "hostfs_chstat E s rel st flg = Some (ret, t) \<Longrightarrow> same_files s t"
  "hostfs_statfs E s sf = Some (ret, sf', t) \<Longrightarrow> same_files s t"
  by (auto simp: hostfs_stat_def hostfs_chstat_def hostfs_statfs_def same_files_def bind_eq_Some_conv Let_def split_beta
      split: if_splits dest: path_call_same)

lemma same_files_dirs:
  "hostfs_opendir E s rel = Some (ret, d, t) \<Longrightarrow> same_files s t"
  "hostfs_closedir E s dir = (ret, t) \<Longrightarrow> same_files s t"
  "hostfs_readdir E s dir e = Some (ret, e', t) \<Longrightarrow> same_files s t"
  "hostfs_rewinddir E s dir = (ret, t) \<Longrightarrow> same_files s t"
  by (auto simp: hostfs_opendir_def hostfs_closedir_def hostfs_readdir_def hostfs_rewinddir_def same_files_def
      bind_eq_Some_conv split_beta split: if_splits option.splits prod.splits)

lemma hostfs_step_inv:
  assumes "hostfs_step E x y" and "lock_ok E" and "malloc_ok E" and "fs_inv (fst x) (snd x)"
  shows "fs_inv (fst y) (snd y) \<and> fs_root (fst y) = fs_root (fst x)"
  using assms(1,4)
proof cases
  case (open_file fl i s rel oflg mode ret f t)
  note r = hostfs_open_result [OF open_file(4) assms(2,3)]
  show ?thesis
  proof (cases "ret = 0")
    case True
    then obtain a z where "heap s a = None" "f_priv f = Some a" "heap t = (heap s)(a \<mapsto> z)" "fs_head t = Some a"
        "crefs z = 1" "fnext z = fs_head s" using r by blast
    then have "fs_inv t (fl(i \<mapsto> f))" using assms(4) open_file by (intro fs_inv_open [of s fl i a f t z]) simp_all
    then show ?thesis using True r open_file by simp
  next
    case False
    then have "same_files s t" using r by (simp add: same_files_def)
    then show ?thesis using fs_inv_same [of s fl t] False r assms(4) open_file by simp
  qed
next
  case (dup_file fl i f j s ret g t)
  obtain a z where a: "f_priv f = Some a" "heap s a = Some z"
    using assms(4) dup_file(1,3) unfolding fs_inv_def by fastforce
  have "g = new_file\<lparr>f_priv := Some a\<rparr>" "t = s\<lparr>heap := (heap s)(a \<mapsto> z\<lparr>crefs := crefs z + 1\<rparr>)\<rparr>"
    using hostfs_dup_eq [OF a(2,1), of new_file] dup_file(6) by (simp_all add: new_file_def)
  then show ?thesis using fs_inv_dup [of s fl i f j a z g] assms(4) dup_file a by simp
next
  case (close_file fl i f s ret g t)
  then show ?thesis using hostfs_close_ok [of s fl i f E] assms(2,4) by auto
qed (use assms(4) fs_inv_same in
    \<open>auto intro: fs_inv_change same_files_root dest!: same_files_io same_files_ops same_files_paths same_files_stats same_files_dirs hostfs_ioctl_same\<close>)

lemma hostfs_reach_inv:
  assumes "hostfs_reach E x y" and "lock_ok E" and "malloc_ok E" and "fs_inv (fst x) (snd x)"
  shows "fs_inv (fst y) (snd y) \<and> fs_root (fst y) = fs_root (fst x)"
  using assms(1,4)
proof (induction rule: hostfs_reach.induct)
  case (reach_step x y z)
  then show ?case using hostfs_step_inv [OF reach_step.hyps(2) assms(2,3)] by simp
qed simp

lemma fs_inv_new: "heap s = Map.empty \<Longrightarrow> fs_head s = None \<Longrightarrow> fs_inv s Map.empty"
  by (auto simp: fs_inv_def intro!: exI [of _ "[]"])

lemma fs_inv_no_files: "fs_inv s fl \<Longrightarrow> fs_head s = None \<longleftrightarrow> fl = Map.empty"
proof -
  assume inv: "fs_inv s fl"
  then obtain xs where xs: "chain (heap s) (fs_head s) xs" "dom (heap s) = set xs" by (auto simp: fs_inv_def)
  have "fs_head s = None \<longleftrightarrow> xs = []" using xs(1) by (cases xs) auto
  moreover have f: "fl i = Some f \<Longrightarrow> \<exists>a \<in> dom (heap s). f_priv f = Some a"
      and r: "heap s a = Some x \<Longrightarrow> refs fl a \<noteq> {}" for i f a x
    using inv unfolding fs_inv_def by blast+
  have "fl = Map.empty" if "xs = []"
  proof (rule ext)
    show "fl i = None" for i using f [of i] xs(2) that by (cases "fl i") auto
  qed
  moreover have "xs = []" if "fl = Map.empty"
  proof (rule ccontr)
    assume "xs \<noteq> []"
    then obtain a x where "heap s a = Some x" using xs(2) by (metis domD last_in_set)
    then show False using r that by (simp add: refs_def)
  qed
  ultimately show ?thesis by blast
qed

end
