(* ===== verification/HostfsProps.thy ===== *)
theory HostfsProps
  imports HostfsSpec
begin

text \<open>
  The properties of the host file system: paths, the mount of the dictionary program, the list of
  open files, and file contents.
\<close>

section \<open>File contents\<close>

text \<open>
  What the file system relies on for a regular file of the host: \<open>v h fd\<close> is its contents and the
  offset of the descriptor. \<open>lseek\<close> from the start sets the offset, \<open>read\<close> delivers the bytes there
  up to the end of the file, \<open>write\<close> replaces them, filling a gap with zeros.
\<close>

definition written :: "byte list \<Rightarrow> nat \<Rightarrow> byte list \<Rightarrow> byte list" where
  "written c off bs = take off (c @ replicate (off - length c) 0) @ bs @ drop (off + length bs) c"

definition posix_ok :: "'h host_calls \<Rightarrow> ('h \<Rightarrow> int \<Rightarrow> (byte list \<times> nat) option) \<Rightarrow> bool" where
  "posix_ok E v \<longleftrightarrow>
     (\<forall>h fd c p off. v h fd = Some (c, p) \<longrightarrow>
        (\<exists>h'. h_lseek E fd (int off) SEEK_SET h = (int off, h') \<and> v h' fd = Some (c, off)))
     \<and> (\<forall>h fd c p n. v h fd = Some (c, p) \<longrightarrow>
        (\<exists>h'. h_read E fd n h = (int (length (take n (drop p c))), take n (drop p c), h')
          \<and> v h' fd = Some (c, p + length (take n (drop p c)))))
     \<and> (\<forall>h fd c p bs. v h fd = Some (c, p) \<longrightarrow>
        (\<exists>h'. h_write E fd bs h = (int (length bs), h') \<and> v h' fd = Some (written c p bs, p + length bs)))"

lemma to_off_small: "- (2 ^ 31) \<le> i \<Longrightarrow> i < 2 ^ 31 \<Longrightarrow> to_off i = i"
  by (simp add: to_off_def signed_take_bit_int_eq_self)

text \<open>An open file of the mount point whose descriptor is a file with contents \<open>c\<close>.\<close>

definition opened :: "('h \<Rightarrow> int \<Rightarrow> (byte list \<times> nat) option) \<Rightarrow> 'h hostfs \<Rightarrow> filep \<Rightarrow> bool \<Rightarrow> byte list \<Rightarrow> nat \<Rightarrow> bool" where
  "opened v s f w c p \<longleftrightarrow> (\<exists>a x. f_priv f = Some a \<and> heap s a = Some x \<and> v (hst s) (of_fd x) = Some (c, p)
     \<and> (w \<longrightarrow> oflags x AND O_ACCMODE \<noteq> O_RDONLY))"

lemma hostfs_seek_opened:
  assumes "posix_ok E v" and "lock_ok E" and "opened v s f w c p" and "off < 2 ^ 31"
  shows "\<exists>g t. hostfs_seek E s f (int off) SEEK_SET = Some (int off, g, t) \<and> opened v t g w c off \<and> f_pos g = int off \<and> heap t = heap s"
proof -
  obtain a x where a: "f_priv f = Some a" "heap s a = Some x" "v (hst s) (of_fd x) = Some (c, p)"
      "w \<longrightarrow> oflags x AND O_ACCMODE \<noteq> O_RDONLY" using assms(3) by (auto simp: opened_def)
  obtain h where h: "h_lseek E (of_fd x) (int off) SEEK_SET (hst s) = (int off, h)" "v h (of_fd x) = Some (c, off)"
    using assms(1) a(3) unfolding posix_ok_def by meson
  have "to_off (int off) = int off" using assms(4) by (intro to_off_small) simp_all
  then show ?thesis using a h assms(2) by (simp add: hostfs_seek_def host_lseek_def lock_ok_def opened_def)
qed

lemma hostfs_read_opened:
  assumes "posix_ok E v" and "lock_ok E" and "opened v s f w c p" and "n \<le> length buf" and "f_pos f = int p" and "p + n < 2 ^ 31"
  shows "\<exists>g t. hostfs_read E s f buf n = Some (int (length (take n (drop p c))), blit buf 0 (take n (drop p c)), g, t)
    \<and> opened v t g w c (p + length (take n (drop p c))) \<and> f_pos g = int (p + length (take n (drop p c))) \<and> heap t = heap s"
proof -
  define bs where "bs = take n (drop p c)"
  obtain a x where a: "f_priv f = Some a" "heap s a = Some x" "v (hst s) (of_fd x) = Some (c, p)"
      "w \<longrightarrow> oflags x AND O_ACCMODE \<noteq> O_RDONLY" using assms(3) by (auto simp: opened_def)
  obtain h where h: "h_read E (of_fd x) n (hst s) = (int (length bs), bs, h)" "v h (of_fd x) = Some (c, p + length bs)"
    using assms(1) a(3) unfolding posix_ok_def bs_def by meson
  have l: "length bs \<le> n" by (simp add: bs_def)
  then have "to_off (int p + int (length bs)) = int p + int (length bs)" using assms(6) by (intro to_off_small) simp_all
  then have "\<exists>g t. hostfs_read E s f buf n = Some (int (length bs), blit buf 0 bs, g, t)
      \<and> opened v t g w c (p + length bs) \<and> f_pos g = int (p + length bs) \<and> heap t = heap s"
    using a h l assms(2,4,5) by (auto simp: hostfs_read_def host_read_def lock_ok_def wrs_def opened_def)
  then show ?thesis by (simp only: bs_def)
qed

lemma hostfs_write_opened:
  assumes "posix_ok E v" and "lock_ok E" and "opened v s f True c p" and "n \<le> length buf" and "f_pos f = int p" and "p + n < 2 ^ 31"
  shows "\<exists>g t. hostfs_write E s f buf n = Some (int n, g, t) \<and> opened v t g True (written c p (take n buf)) (p + n)
    \<and> f_pos g = int (p + n) \<and> heap t = heap s"
proof -
  obtain a x where a: "f_priv f = Some a" "heap s a = Some x" "v (hst s) (of_fd x) = Some (c, p)"
      "oflags x AND O_ACCMODE \<noteq> O_RDONLY" using assms(3) by (auto simp: opened_def)
  have n: "length (take n buf) = n" using assms(4) by simp
  obtain h where h: "h_write E (of_fd x) (take n buf) (hst s) = (int n, h)" "v h (of_fd x) = Some (written c p (take n buf), p + n)"
    using assms(1) a(3) n unfolding posix_ok_def by metis
  have "to_off (int p + int n) = int p + int n" using assms(6) by (intro to_off_small) simp_all
  then show ?thesis
    using a h assms(2,4,5) by (auto simp: hostfs_write_def host_write_def call_result_def lock_ok_def rds_def opened_def)
qed

lemma drop_written: "take (length bs) (drop off (written c off bs)) = bs"
  by (simp add: written_def)

section \<open>A host with one file\<close>

record demo_fs =
  d_content :: "byte list"
  d_off :: nat

definition demo_calls :: "demo_fs host_calls" where
  "demo_calls = \<lparr>h_errno = (\<lambda>_. 29), h_open = (\<lambda>_ _ _ h. (3, h)), h_close = (\<lambda>_ h. (0, h)),
     h_read = (\<lambda>_ n h. let bs = take n (drop (d_off h) (d_content h)) in (int (length bs), bs, h\<lparr>d_off := d_off h + length bs\<rparr>)),
     h_write = (\<lambda>_ bs h. (int (length bs), h\<lparr>d_content := written (d_content h) (d_off h) bs, d_off := d_off h + length bs\<rparr>)),
     h_lseek = (\<lambda>_ off w h. if w = SEEK_SET then (off, h\<lparr>d_off := nat off\<rparr>) else (-1, h)),
     h_ioctl = (\<lambda>_ _ m h. (-1, m, h)), h_fsync = (\<lambda>_ h. h), h_dup = (\<lambda>fd h. (fd, h)),
     h_fstat = (\<lambda>_ h. (-1, undefined, h)), h_fchmod = (\<lambda>_ _ h. (0, h)), h_fchown = (\<lambda>_ _ _ h. (0, h)),
     h_futimens = (\<lambda>_ _ h. (0, h)), h_ftruncate = (\<lambda>_ _ h. (0, h)), h_opendir = (\<lambda>_ h. (None, h)),
     h_readdir = (\<lambda>_ h. (None, h)), h_rewinddir = (\<lambda>_ h. h), h_closedir = (\<lambda>_ h. (0, h)),
     h_statvfs = (\<lambda>_ h. (-1, undefined, h)), h_unlink = (\<lambda>_ h. (0, h)), h_mkdir = (\<lambda>_ _ h. (0, h)),
     h_rmdir = (\<lambda>_ h. (0, h)), h_rename = (\<lambda>_ _ h. (0, h)), h_stat = (\<lambda>_ h. (-1, undefined, h)),
     h_chmod = (\<lambda>_ _ h. (0, h)), h_chown = (\<lambda>_ _ _ h. (0, h)), h_utimensat = (\<lambda>_ _ h. (0, h)),
     nx_lock = (\<lambda>_. 0), heap_malloc = (\<lambda>_ m. if m 1 = None then Some 1 else None), heap_avail = (\<lambda>_ _. True),
     stack_path = replicate 256 7\<rparr>"

definition demo_view :: "demo_fs \<Rightarrow> int \<Rightarrow> (byte list \<times> nat) option" where
  "demo_view h fd = Some (d_content h, d_off h)"

lemma demo_calls_ok: "lock_ok demo_calls" "malloc_ok demo_calls" "posix_ok demo_calls demo_view"
    "heap_avail demo_calls n h" "length (stack_path demo_calls) = 256"
  by (auto simp: lock_ok_def malloc_ok_def posix_ok_def demo_view_def demo_calls_def SEEK_SET_def Let_def)

text \<open>A mount point of it with one open file.\<close>

definition demo_open :: "byte list \<Rightarrow> demo_fs hostfs" where
  "demo_open c = \<lparr>heap = [1 \<mapsto> \<lparr>fnext = None, crefs = 1, oflags = O_RDWR, of_fd = 3, relpath = [0x61, 0]\<rparr>],
     fs_head = Some 1, fs_root = SLASH # replicate 255 0, hst = \<lparr>d_content = c, d_off = 0\<rparr>\<rparr>"

lemma demo_opened: "opened demo_view (demo_open c) \<lparr>f_pos = 0, f_priv = Some 1\<rparr> True c 0"
  by (simp add: opened_def demo_open_def demo_view_def O_RDWR_def O_ACCMODE_def O_RDONLY_def)

section \<open>The mount of the program\<close>

text \<open>The options in \<open>mount_hostfs\<close>, and the database below the mount point.\<close>

definition MOUNT_OPTIONS :: "byte list" where "MOUNT_OPTIONS = lit ''fs=/usr/nuttx_stuff''"
definition DB_NAME :: "byte list" where "DB_NAME = lit ''dict.db''"

lemma mount_texts: "with_slash (fs_option MOUNT_OPTIONS) = lit ''/usr/nuttx_stuff/''" "fs_option MOUNT_OPTIONS \<noteq> []"
    "host_path (lit ''/usr/nuttx_stuff/'') DB_NAME = lit ''/usr/nuttx_stuff/dict.db''"
    "0 \<notin> set MOUNT_OPTIONS" "0 \<notin> set DB_NAME" "length DB_NAME = 7" "length (lit ''/usr/nuttx_stuff/'') < 256"
  by code_simp+

lemma hostfs_bind_new: "hostfs_bind E b data h = Some (0, Some s) \<Longrightarrow> heap s = Map.empty \<and> fs_head s = None"
  by (auto simp: hostfs_bind_def Let_def split_beta bind_eq_Some_conv split: if_splits option.splits)

lemma db_opened:
  assumes "\<And>n. heap_avail E n h" and "lock_ok E" and "length (stack_path E) = 256"
    and "heap_malloc E (SIZEOF_OFILE + 7) Map.empty = Some a" and "cstr rel 0 DB_NAME"
    and "h_open E (lit ''/usr/nuttx_stuff/dict.db'') [H_RDONLY] mode h = (fd, h')" and "0 \<le> fd"
  shows "\<exists>s f t. hostfs_bind E False (Some (MOUNT_OPTIONS @ [0])) h = Some (0, Some s) \<and> hst s = h
    \<and> hostfs_open E s new_file rel O_RDONLY mode = Some (0, f, t)
    \<and> f_priv f = Some a \<and> f_pos f = 0 \<and> map_option of_fd (heap t a) = Some fd \<and> fs_head t = Some a \<and> hst t = h'"
proof -
  have l: "nx_lock E h' = 0" for h' using assms(2) by (simp add: lock_ok_def)
  have o: "cstr (MOUNT_OPTIONS @ [0]) 0 MOUNT_OPTIONS" using mount_texts(4) by (rule cstr_of_list)
  obtain s where s: "hostfs_bind E False (Some (MOUNT_OPTIONS @ [0])) h = Some (0, Some s)" "heap s = Map.empty"
      "fs_head s = None" "hst s = h" "cstr (fs_root s) 0 (lit ''/usr/nuttx_stuff/'')"
    using hostfs_bind_eq [OF o assms(1) l] mount_texts(1,2) by auto
  have p: "mkpath E s rel = Some (lit ''/usr/nuttx_stuff/dict.db'')"
    using mkpath_eq [OF s(5) mount_texts(7) assms(5,3)] mount_texts(3) by simp
  have fl: "open_flags O_RDONLY = [H_RDONLY]" "\<not> flag O_RDONLY O_APPEND" by code_simp+
  have "host_open E (lit ''/usr/nuttx_stuff/dict.db'') O_RDONLY mode h = (fd, h')"
    using assms(6,7) by (simp add: host_open_def fl(1) call_result_def del: lit_Cons)
  moreover have "\<exists>nm. memcpy (replicate 8 0) 0 rel 0 8 = Some nm"
    using memcpy_eq [of 0 8 rel 0 "replicate 8 0"] cstr_bounds [OF assms(5)] mount_texts(6) by simp
  ultimately have "\<exists>f t. hostfs_open E s new_file rel O_RDONLY mode = Some (0, f, t)
      \<and> f_priv f = Some a \<and> f_pos f = 0 \<and> map_option of_fd (heap t a) = Some fd \<and> fs_head t = Some a \<and> hst t = h'"
    using assms(4,7) s(2,3,4) l p fl(2) strlen_cstr [OF assms(5)] mount_texts(6)
    by (auto simp: hostfs_open_def new_file_def)
  then show ?thesis using s(1,4) by blast
qed

section \<open>Properties\<close>

text \<open>
  C31. Paths: for a root of at most 255 bytes and every relative path the path made for the host stays
  inside the array of 256 bytes and is the root, followed by the relative path without leading
  slashes, cut to what 255 bytes less twice the root leave; a relative path with negative depth
  gives the root alone.
\<close>

theorem hostfs_mkpath_correct:
  assumes "cstr m 0 root" and "length root < 256" and "cstr rel 0 r" and "length path = 256"
  shows "\<exists>p. hostfs_mkpath m rel path 256 = Some p \<and> length p = 256
    \<and> cstr p 0 (root @ (if depth_of (rel_name r) \<ge> 0 then take (255 - 2 * length root) (rel_name r) else []))"
  using hostfs_mkpath_eq [OF assms] by (simp add: host_path_def)

theorem hostfs_mkpath_correct_witness:
  "\<exists>p. hostfs_mkpath (lit ''/r/'' @ [0]) (lit ''/a'' @ [0]) (replicate 256 7) 256 = Some p \<and> cstr p 0 (lit ''/r/a'')"
proof -
  have c: "cstr (lit ''/r/'' @ [0]) 0 (lit ''/r/'')" "cstr (lit ''/a'' @ [0]) 0 (lit ''/a'')" by (intro cstr_of_list; simp)+
  have "lit ''/r/'' @ (if depth_of (rel_name (lit ''/a'')) \<ge> 0 then take (255 - 2 * length (lit ''/r/'')) (rel_name (lit ''/a'')) else [])
      = lit ''/r/a''" by code_simp
  then show ?thesis using hostfs_mkpath_correct [OF c(1) _ c(2), of "replicate 256 7"] by (auto simp del: lit_Cons)
qed

text \<open>
  C34. The test for two dots does not keep a path below the mount point: two dots and a name with a
  slash between them count as depth zero, so the host gets the root followed by them, a path
  beside the mounted directory.
\<close>

theorem hostfs_dotdot_escapes:
  assumes "cstr m 0 root" and "length root \<le> 100" and "cstr rel 0 ([DOT, DOT, SLASH] @ name)" and "length path = 256"
    and "name \<noteq> []" and "DOT \<notin> set name" and "SLASH \<notin> set name" and "length name \<le> 50"
  shows "\<exists>p. hostfs_mkpath m rel path 256 = Some p \<and> cstr p 0 (root @ [DOT, DOT, SLASH] @ name)"
proof -
  have d: "depth_of name = 0" using assms(6,7) by (induction name rule: depth_of.induct) auto
  obtain b bs where n: "name = b # bs" "b \<noteq> SLASH" using assms(5,7) by (cases name) auto
  have "depth_of ([DOT, DOT, SLASH] @ name) = 0" using n d by simp
  then have "host_path root ([DOT, DOT, SLASH] @ name) = root @ [DOT, DOT, SLASH] @ name"
    using assms(2,8) by (simp add: host_path_def rel_name_def)
  then show ?thesis using hostfs_mkpath_eq [OF assms(1) _ assms(3,4)] assms(2) by fastforce
qed

theorem hostfs_dotdot_escapes_witness:
  "\<exists>p. hostfs_mkpath (lit ''/r/'' @ [0]) (lit ''../passwd'' @ [0]) (replicate 256 7) 256 = Some p \<and> cstr p 0 (lit ''/r/../passwd'')"
proof -
  have c: "cstr (lit ''/r/'' @ [0]) 0 (lit ''/r/'')" "cstr (lit ''../passwd'' @ [0]) 0 ([DOT, DOT, SLASH] @ lit ''passwd'')"
    by (simp_all add: cstr_def)
  from hostfs_dotdot_escapes [OF c(1) _ c(2), of "replicate 256 7"] show ?thesis by simp
qed

text \<open>
  Mounting: if the options have a root, \<open>hostfs_bind\<close> returns a mount point without open files
  whose root is the last \<open>fs=\<close> option, cut to 255 bytes and with a slash at its end if there is room
  for one; without a root it reads in front of the array.
\<close>

lemma hostfs_bind_correct:
  assumes "cstr data 0 opts" and "\<And>n. heap_avail E n h" and "nx_lock E h = 0"
  shows "case hostfs_bind E False (Some data) h of
      None \<Rightarrow> fs_option opts = []
    | Some (ret, handle) \<Rightarrow> fs_option opts \<noteq> [] \<and> ret = 0
        \<and> (\<exists>s. handle = Some s \<and> heap s = Map.empty \<and> fs_head s = None \<and> hst s = h \<and> length (fs_root s) = 256
             \<and> cstr (fs_root s) 0 (with_slash (fs_option opts)))"
  using hostfs_bind_eq [OF assms] by (cases "fs_option opts = []") auto

text \<open>
  The database of the program: with the options of \<open>mount_hostfs\<close>, opening \<open>dict.db\<close> below the
  mount point for reading opens \<open>/usr/nuttx_stuff/dict.db\<close> on the host and enters its descriptor in
  the list of open files.
\<close>

lemma mounted_database:
  assumes "\<And>n. heap_avail E n h" and "lock_ok E" and "length (stack_path E) = 256"
    and "heap_malloc E (SIZEOF_OFILE + 7) Map.empty = Some a"
    and "h_open E (lit ''/usr/nuttx_stuff/dict.db'') [H_RDONLY] 0 h = (fd, h')" and "0 \<le> fd"
  shows "\<exists>s f t. hostfs_bind E False (Some (MOUNT_OPTIONS @ [0])) h = Some (0, Some s)
    \<and> hostfs_open E s new_file (DB_NAME @ [0]) O_RDONLY 0 = Some (0, f, t)
    \<and> f_priv f = Some a \<and> map_option of_fd (heap t a) = Some fd \<and> fs_head t = Some a \<and> hst t = h'"
  using db_opened [OF assms(1-4) cstr_of_list [OF mount_texts(5)] assms(5,6)] by blast

text \<open>
  C30. Open files: after any sequence of operations on a new mount point the list of open files runs
  through exactly the objects in use, every reference count is the number of files that refer to
  the object, closing any file returns and keeps this, and unmounting succeeds if and only if no
  file is open.
\<close>

theorem hostfs_open_files:
  assumes "lock_ok E" and "malloc_ok E" and "hostfs_bind E False (Some data) h = Some (0, Some s0)"
    and "hostfs_reach E (s0, Map.empty) (s, fl)"
  shows "(\<exists>xs. chain (heap s) (fs_head s) xs \<and> distinct xs \<and> dom (heap s) = set xs)
    \<and> (\<forall>a x. heap s a = Some x \<longrightarrow> sint (crefs x) = int (card (refs fl a)) \<and> 0 < card (refs fl a))
    \<and> (\<forall>i f. fl i = Some f \<longrightarrow> (\<exists>g t. hostfs_close E s f = Some (0, g, t) \<and> fs_inv t (fl(i := None))))
    \<and> hostfs_unbind E (Some s) 0 = (if fl = Map.empty then (0, None) else (- EBUSY, Some s))"
proof -
  have inv: "fs_inv s fl"
    using hostfs_reach_inv [OF assms(4,1,2)] fs_inv_new [of s0] hostfs_bind_new [OF assms(3)] by simp
  have "\<exists>xs. chain (heap s) (fs_head s) xs \<and> distinct xs \<and> dom (heap s) = set xs" using inv by (simp add: fs_inv_def)
  moreover have "sint (crefs x) = int (card (refs fl a)) \<and> 0 < card (refs fl a)" if "heap s a = Some x" for a x
  proof -
    have "refs fl a \<noteq> {}" "sint (crefs x) = int (card (refs fl a))" "finite (refs fl a)"
      using inv that finite_refs unfolding fs_inv_def by blast+
    then show ?thesis by (simp add: card_gt_0_iff)
  qed
  moreover have "hostfs_unbind E (Some s) 0 = (if fl = Map.empty then (0, None) else (- EBUSY, Some s))"
    using assms(1) fs_inv_no_files [OF inv] by (simp add: hostfs_unbind_def lock_ok_def)
  moreover have "\<exists>g t. hostfs_close E s f = Some (0, g, t) \<and> fs_inv t (fl(i := None))" if "fl i = Some f" for i f
    using hostfs_close_ok [OF inv that assms(1)] by blast
  ultimately show ?thesis by blast
qed

theorem hostfs_open_files_witness:
  "\<exists>s f t. hostfs_reach demo_calls (s, Map.empty) (t, [0 \<mapsto> f]) \<and> hostfs_unbind demo_calls (Some t) 0 = (- EBUSY, Some t)
    \<and> (\<exists>g u. hostfs_close demo_calls t f = Some (0, g, u))"
proof -
  let ?h = "\<lparr>d_content = [9], d_off = 0\<rparr>"
  obtain s f t where s: "hostfs_bind demo_calls False (Some (MOUNT_OPTIONS @ [0])) ?h = Some (0, Some s)"
      "hostfs_open demo_calls s new_file (DB_NAME @ [0]) O_RDONLY 0 = Some (0, f, t)"
    using db_opened [where E = demo_calls and h = ?h and a = 1 and fd = 3 and h' = ?h and mode = 0,
      OF demo_calls_ok(4,1,5) _ cstr_of_list [OF mount_texts(5)]] by (auto simp: demo_calls_def)
  have "hostfs_step demo_calls (s, Map.empty) (t, if (0 :: int) = 0 then [0 \<mapsto> f] else Map.empty)"
    by (rule open_file [OF _ s(2)]) simp
  then have r: "hostfs_reach demo_calls (s, Map.empty) (t, [0 \<mapsto> f])" using reach_refl reach_step by fastforce
  have "hostfs_unbind demo_calls (Some t) 0 = (- EBUSY, Some t)" "\<exists>g u. hostfs_close demo_calls t f = Some (0, g, u)"
    using hostfs_open_files [OF demo_calls_ok(1,2) s(1) r] by (simp, metis fun_upd_same)
  with r show ?thesis by blast
qed





section \<open>Further lemmas\<close>

text \<open>
  Opening for appending a file whose offset cannot be set, such as a pipe: the error is returned and
  the descriptor of the host stays open.
\<close>

lemma append_open_leaks:
  assumes "f_priv f = None" and "lock_ok E" and "cstr rel 0 r" and "heap_malloc E (SIZEOF_OFILE + length r) (heap s) = Some a"
    and "mkpath E s rel = Some path" and "host_open E path fl mode (hst s) = (fd, h1)" and "0 \<le> fd"
    and "flag fl O_APPEND" and "fl AND O_ACCMODE \<noteq> O_RDONLY" and "host_lseek E fd 0 0 SEEK_END h1 = (ret, h2)" and "ret < 0"
  shows "hostfs_open E s f rel fl mode = Some (open_error ret, f, s\<lparr>hst := h2\<rparr>)"
  using assms strlen_cstr [OF assms(3)] by (simp add: hostfs_open_def lock_ok_def)

text \<open>The operations on paths give the host the path of \<open>hostfs_mkpath\<close>, a rename the plain concatenation.\<close>

lemma hostfs_path_operations:
  assumes "lock_ok E" and "cstr (fs_root s) 0 root" and "length root < 256" and "cstr rel 0 r" and "cstr rel' 0 r'"
    and "length (stack_path E) = 256"
  shows "hostfs_unlink E s rel = Some (fst (host_unlink E (host_path root r) (hst s)), s\<lparr>hst := snd (host_unlink E (host_path root r) (hst s))\<rparr>)"
    and "hostfs_rmdir E s rel = Some (fst (host_rmdir E (host_path root r) (hst s)), s\<lparr>hst := snd (host_rmdir E (host_path root r) (hst s))\<rparr>)"
    and "hostfs_rename E s rel rel' = (let res = host_rename E (root @ take (255 - length root) r) (root @ take (255 - length root) r') (hst s)
      in Some (fst res, s\<lparr>hst := snd res\<rparr>))"
  using mkpath_eq [OF assms(2-4,6)] rename_path_eq [OF assms(2-4,6)] rename_path_eq [OF assms(2,3,5,6)] assms(1)
  by (simp_all add: hostfs_unlink_def hostfs_rmdir_def hostfs_rename_def path_call_def lock_ok_def split_beta Let_def)

end
