(* ===== verification/VfsSpec.thy ===== *)
theory VfsSpec
  imports Vfs InodeRemove HostfsProps
begin

text \<open>
  The operations of the virtual file system on a tree in order: what \<open>mkdir\<close>, \<open>mount\<close>, \<open>umount2\<close> and
  the operations on files do, in terms of the paths of the tree and of the file system at the mount
  point.
\<close>

section \<open>Finding\<close>

definition vok :: "'h vfs_env \<Rightarrow> 'h vfs \<Rightarrow> nat \<Rightarrow> tree list \<Rightarrow> bool" where
  "vok E v r ks \<longleftrightarrow> itree_ok (v_tree v) r ks \<and> finite (dom (nodes (v_tree v))) \<and> fresh_addr (inode_malloc E)
     \<and> (\<forall>n h. finite (dom h) \<longrightarrow> inode_malloc E n h \<noteq> None)"

abbreviation vpath_env :: "'h vfs_env \<Rightarrow> byte list \<Rightarrow> bool" where
  "vpath_env E s \<equiv> path_env (path_avail E) (cwd E) s"

abbreviation vlookup :: "'h vfs_env \<Rightarrow> 'h vfs \<Rightarrow> nat \<Rightarrow> tree list \<Rightarrow> byte list \<Rightarrow> (nat \<times> byte list) option" where
  "vlookup E v r ks s \<equiv> lookup (v_tree v) r ks (full_path (cwd E) s)"

text \<open>The state in which the inode at an address is another.\<close>

definition upd_inode :: "nat \<Rightarrow> inode \<Rightarrow> 'h vfs \<Rightarrow> 'h vfs" where
  "upd_inode a i v = v\<lparr>v_tree := (v_tree v)\<lparr>nodes := (nodes (v_tree v))(a \<mapsto> i)\<rparr>\<rparr>"

lemma upd_inode_simps [simp]:
  "nodes (v_tree (upd_inode a i v)) = (nodes (v_tree v))(a \<mapsto> i)" "v_mounts (upd_inode a i v) = v_mounts v"
  "v_host (upd_inode a i v) = v_host v" "v_errno (upd_inode a i v) = v_errno v" "upd_inode a j (upd_inode a i v) = upd_inode a j v"
  by (simp_all add: upd_inode_def)

lemma vtree_upd:
  assumes "itree_ok (v_tree v) r ks" and "nodes (v_tree v) a = Some i" and "i_name j = i_name i" and "i_parent j = i_parent i"
    and "i_peer j = i_peer i" and "i_child j = i_child i"
  shows "itree_ok (v_tree (upd_inode a j v)) r ks"
  using itree_ok_update [OF assms] by (simp add: upd_inode_def)

lemma lookup_crefs:
  assumes "nodes t a = Some i" and "i_flags j = i_flags i"
  shows "lookup (t\<lparr>nodes := (nodes t)(a \<mapsto> j)\<rparr>) r ks = lookup t r ks"
proof -
  have "is_mnt ((nodes t)(a \<mapsto> j)) = is_mnt (nodes t)" using assms by (auto simp: is_mnt_def INODE_IS_TYPE_def fun_eq_iff)
  then show ?thesis by (simp add: lookup_def)
qed

lemma vfs_find_none:
  assumes "itree_ok (v_tree v) r ks" and "cstr path 0 s" and "vpath_env E s" and "vlookup E v r ks s = None"
  obtains p d where "vfs_find E v path = Some (- ENOENT, p, d, v)" and "sd_node d = None"
  using inode_find_lookup [of "v_tree v" r ks path s "path_avail E" "cwd E"] assms
  by (auto simp: vfs_find_def)

lemma vfs_find_some:
  assumes "itree_ok (v_tree v) r ks" and "cstr path 0 s" and "vpath_env E s" and "vlookup E v r ks s = Some (a, rest)"
  obtains p d q i where "vfs_find E v path = Some (0, p, d, upd_inode a (i\<lparr>i_crefs := i_crefs i + 1\<rparr>) v)"
    and "sd_node d = Some a" and "sd_relpath d = Some q" and "cstr p q rest" and "nodes (v_tree v) a = Some i"
  using inode_find_lookup [of "v_tree v" r ks path s "path_avail E" "cwd E"] assms
  by (auto simp: vfs_find_def upd_inode_def)

section \<open>Making a directory and mounting\<close>

lemma mkdir_new:
  assumes "vok E v r ks" and "cstr path 0 s" and "s \<noteq> []" and "vpath_env E s" and "vlookup E v r ks s = None"
  obtains t ks' a i n x where "mkdir E v path mode = Some (0, v\<lparr>v_tree := t\<rparr>)" and "itree_ok t r ks'"
    and "keeps (nodes (v_tree v)) (nodes t)" and "nodes (v_tree v) a = None"
    and "vlookup E (v\<lparr>v_tree := t\<rparr>) r ks' s = Some (a, [])" and "nodes t a = Some i"
    and "i = new_inode n x\<lparr>i_parent := i_parent i, i_peer := i_peer i\<rparr>"
    and "\<forall>s' b u. nodes (v_tree v) b \<noteq> None \<longrightarrow> (lookup t r ks' s' = Some (b, u) \<longleftrightarrow> lookup (v_tree v) r ks s' = Some (b, u))"
proof -
  have v: "itree_ok (v_tree v) r ks" "fresh_addr (inode_malloc E)" "finite (dom (nodes (v_tree v)))"
    "\<And>n h. finite (dom h) \<Longrightarrow> inode_malloc E n h \<noteq> None" using assms(1) by (auto simp: vok_def)
  obtain p d where f: "vfs_find E v path = Some (- ENOENT, p, d, v)" using vfs_find_none [OF v(1) assms(2,4,5)] by blast
  obtain ret q t ks' where q: "inode_reserve (inode_malloc E) (path_avail E) (cwd E) (v_tree v) path = Some (ret, q, t)"
      "reserved (inode_malloc E) r (full_path (cwd E) s) (v_tree v) ks ret q t ks'"
    using inode_reserve_ok [OF v(1) assms(2-4) v(2) assms(5)] by blast
  have "ret = 0" using q(2) v(3,4) unfolding reserved_def by blast
  then have "mkdir E v path mode = Some (0, v\<lparr>v_tree := t\<rparr>)"
    using f q(1) by (simp add: mkdir_def inode_checkperm_def ENOENT_def errno_result_def)
  then show thesis using that q(2) \<open>ret = 0\<close> unfolding reserved_def ENOMEM_def by auto
qed

text \<open>The inode of a mount point with the handle \<open>m\<close>.\<close>

definition mnt_inode :: "inode \<Rightarrow> nat \<Rightarrow> bool" where
  "mnt_inode i m \<longleftrightarrow> INODE_IS_TYPE i FSNODEFLAG_TYPE_MOUNTPT \<and> i_ops i = Some g_hostfs_operations \<and> i_private i = Some m"

lemma mnt_inode_set:
  "mnt_inode ((INODE_SET_TYPE i FSNODEFLAG_TYPE_MOUNTPT)\<lparr>i_ops := Some g_hostfs_operations, i_private := Some m\<rparr>) m"
proof -
  have "((w AND NOT 0xf) OR 3) AND 0xf = 3" for w :: "16 word" by (simp add: bit.conj_disj_distrib2 and.assoc)
  then show ?thesis
    by (simp add: mnt_inode_def INODE_IS_TYPE_def INODE_SET_TYPE_def FSNODEFLAG_TYPE_MASK_def FSNODEFLAG_TYPE_MOUNTPT_def)
qed

lemma mnt_inode_types:
  assumes "mnt_inode i m"
  shows "INODE_IS_TYPE i FSNODEFLAG_TYPE_MOUNTPT" "\<not> INODE_IS_TYPE i FSNODEFLAG_TYPE_PSEUDODIR" "\<not> INODE_IS_TYPE i FSNODEFLAG_TYPE_SOFTLINK"
    "i_ops i = Some g_hostfs_operations" "i_private i = Some m" "inode_checkopenperm i fl = 0"
  using assms by (auto simp: mnt_inode_def INODE_IS_TYPE_def inode_checkopenperm_def g_hostfs_operations_def
    FSNODEFLAG_TYPE_MOUNTPT_def FSNODEFLAG_TYPE_PSEUDODIR_def FSNODEFLAG_TYPE_SOFTLINK_def)

lemma mnt_inode_crefs [simp]: "mnt_inode (i\<lparr>i_crefs := k\<rparr>) m = mnt_inode i m"
  by (simp add: mnt_inode_def INODE_IS_TYPE_def)

lemma set_type_pointers [simp]:
  "i_name (INODE_SET_TYPE i x) = i_name i" "i_parent (INODE_SET_TYPE i x) = i_parent i" "i_peer (INODE_SET_TYPE i x) = i_peer i"
  "i_child (INODE_SET_TYPE i x) = i_child i" "i_crefs (INODE_SET_TYPE i x) = i_crefs i"
  by (simp_all add: INODE_SET_TYPE_def)

lemma find_hostfs: "mount_findfs g_nonbdfsmap (lit ''hostfs'' @ [0]) = Some (Some g_hostfs_operations)"
proof -
  have c: "cstr (lit ''hostfs'' @ [0]) 0 (lit ''hostfs'')" by (intro cstr_of_list) simp
  then show ?thesis using strcmp_cstr [OF c c] by (auto simp: g_nonbdfsmap_def simp del: lit_Cons)
qed

text \<open>Mounting on a directory that exists keeps the reference of the search.\<close>

definition mounted :: "inode \<Rightarrow> nat \<Rightarrow> inode" where
  "mounted i m = (INODE_SET_TYPE (i\<lparr>i_crefs := i_crefs i + 1\<rparr>) FSNODEFLAG_TYPE_MOUNTPT)\<lparr>i_ops := Some g_hostfs_operations, i_private := Some m\<rparr>"

lemma mount_existing:
  assumes "itree_ok (v_tree v) r ks" and "cstr path 0 s" and "vpath_env E s" and "vlookup E v r ks s = Some (a, u)"
    and "nodes (v_tree v) a = Some i" and "INODE_IS_TYPE i FSNODEFLAG_TYPE_PSEUDODIR"
    and "hostfs_bind (vhost E) False data (v_host v) = Some (0, Some x)"
  shows "mount E v None path (lit ''hostfs'' @ [0]) fl data =
    Some (0, (upd_inode a (mounted i (handle_malloc E (v_mounts v))) v)\<lparr>v_mounts := (v_mounts v)(handle_malloc E (v_mounts v) \<mapsto> x), v_host := hst x\<rparr>)"
proof -
  obtain p d q where f: "vfs_find E v path = Some (0, p, d, upd_inode a (i\<lparr>i_crefs := i_crefs i + 1\<rparr>) v)" "sd_node d = Some a"
    using vfs_find_some [OF assms(1-4)] assms(5) by (metis option.inject)
  have "INODE_IS_TYPE (i\<lparr>i_crefs := i_crefs i + 1\<rparr>) FSNODEFLAG_TYPE_PSEUDODIR" using assms(6) by (simp add: INODE_IS_TYPE_def)
  then show ?thesis using f assms(7) find_hostfs
    by (simp add: mount_def nx_mount_def errno_result_def mounted_def upd_inode_def Let_def del: lit_Cons)
qed

section \<open>Files at a mount point\<close>

text \<open>The state after an operation of the file system with the handle \<open>m\<close>.\<close>

definition upd_mnt :: "nat \<Rightarrow> 'h hostfs \<Rightarrow> 'h vfs \<Rightarrow> 'h vfs" where
  "upd_mnt m s v = v\<lparr>v_mounts := (v_mounts v)(m \<mapsto> s), v_host := hst s\<rparr>"

lemma upd_mnt_simps [simp]: "v_tree (upd_mnt m s v) = v_tree v" "v_mounts (upd_mnt m s v) m = Some s" "v_host (upd_mnt m s v) = hst s"
  by (simp_all add: upd_mnt_def)

lemma file_vopen_mnt:
  assumes "itree_ok (v_tree v) r ks" and "cstr path 0 s" and "vpath_env E s" and "vlookup E v r ks s = Some (a, rest)"
    and "nodes (v_tree v) a = Some i" and "mnt_inode i m" and "v_mounts v m = Some x" and "\<not> flag fl O_DIRECTORY"
  obtains rel where "cstr rel 0 rest"
    and "\<And>g y. hostfs_open (vhost E) (x\<lparr>hst := v_host v\<rparr>) (f_drv f) rel fl
       (uint ((if flag fl O_CREAT then md else 0x1b6) AND NOT um)) = Some (0, g, y) \<Longrightarrow> file_vopen E v f (Some path) fl um md =
    Some (0, f\<lparr>f_oflags := fl, f_node := Some a, f_drv := g\<rparr>, upd_mnt m y (upd_inode a (i\<lparr>i_crefs := i_crefs i + 1\<rparr>) v))"
proof -
  note fin = that
  obtain p d q where f: "vfs_find E v path = Some (0, p, d, upd_inode a (i\<lparr>i_crefs := i_crefs i + 1\<rparr>) v)" "sd_node d = Some a"
      "sd_relpath d = Some q" "cstr p q rest"
    using vfs_find_some [OF assms(1-4)] assms(5) by (metis option.inject)
  note ty = mnt_inode_types [of "i\<lparr>i_crefs := i_crefs i + 1\<rparr>" m, simplified, OF assms(6)]
  have "cstr (drop q p) 0 rest" using f(4) by (simp add: cstr_def)
  then show thesis
  proof (rule fin)
    fix g y
    assume "hostfs_open (vhost E) (x\<lparr>hst := v_host v\<rparr>) (f_drv f) (drop q p) fl
       (uint ((if flag fl O_CREAT then md else 0x1b6) AND NOT um)) = Some (0, g, y)"
    then show "file_vopen E v f (Some path) fl um md =
        Some (0, f\<lparr>f_oflags := fl, f_node := Some a, f_drv := g\<rparr>, upd_mnt m y (upd_inode a (i\<lparr>i_crefs := i_crefs i + 1\<rparr>) v))"
      using f(1-3) assms(7,8) ty by (simp add: file_vopen_def mnt_call_def upd_mnt_def EISDIR_def)
  qed
qed

lemma file_seek_mnt:
  assumes "nodes (v_tree v) a = Some i" and "mnt_inode i m" and "v_mounts v m = Some x" and "f_node f = Some a"
    and "hostfs_seek (vhost E) (x\<lparr>hst := v_host v\<rparr>) (f_drv f) off whence = Some (ret, g, y)"
  shows "file_seek E v f off whence = Some (if ret < 0 then ret else f_pos g, f\<lparr>f_drv := g\<rparr>, upd_mnt m y v)"
  using assms mnt_inode_types [OF assms(2)] by (simp add: file_seek_def mnt_call_def upd_mnt_def)

lemma file_read_mnt:
  assumes "nodes (v_tree v) a = Some i" and "mnt_inode i m" and "v_mounts v m = Some x" and "f_node f = Some a"
    and "f_oflags f AND O_ACCMODE \<noteq> O_WRONLY" and "0 < n" and "n \<le> SSIZE_MAX"
    and "hostfs_read (vhost E) (x\<lparr>hst := v_host v\<rparr>) (f_drv f) buf n = Some (ret, buf', g, y)"
  shows "file_read_vfs E v f (Some buf) n = Some (ret, [buf'], f\<lparr>f_drv := g\<rparr>, upd_mnt m y v)"
proof -
  have "op_read g_hostfs_operations" by (simp add: g_hostfs_operations_def)
  then show ?thesis using assms mnt_inode_types [OF assms(2)]
    by (simp add: file_read_vfs_def file_readv_vfs_def op_read_call_def mnt_call_def upd_mnt_def)
qed

section \<open>The database of the program\<close>

text \<open>The path of the database in the program, and the directory it mounts.\<close>

definition DB_PATH :: "byte list" where "DB_PATH = lit ''/host/dict.db''"

lemma db_path_texts:
  "seg (lit ''/host'') = []" "next_str (lit ''/host'') = lit ''host''" "seg (lit ''host'') = lit ''host''" "next_str (lit ''host'') = []"
  "seg DB_PATH = []" "next_str DB_PATH = lit ''host/dict.db''" "seg (lit ''host/dict.db'') = lit ''host''"
  "next_str (lit ''host/dict.db'') = DB_NAME" "full_path c (lit ''/host'') = lit ''/host''" "full_path c DB_PATH = DB_PATH"
  "path_env av c (lit ''/host'')" "path_env av c DB_PATH" "lit ''/host'' \<noteq> []" "lit ''host'' \<noteq> []" "lit ''host/dict.db'' \<noteq> []"
  "0 \<notin> set (lit ''/host'')" "0 \<notin> set DB_PATH"
  by (simp_all add: full_path_def path_env_def DB_PATH_def) (code_simp+)

lemma db_path_mounted:
  assumes "resolve mp [Tree r [] ks] (lit ''/host'') = Some (a, [])" and "a \<noteq> r"
  shows "resolve (mp(a := True)) [Tree r [] ks] DB_PATH = Some (a, DB_NAME)"
proof -
  have m: "\<not> mp r" "resolve mp ks (lit ''host'') = Some (a, [])"
    using assms(1) db_path_texts(1,2,14) by (auto simp: resolve_Cons simp del: lit_Cons split: if_splits)
  obtain t where t: "find (\<lambda>t. t_name t = lit ''host'') ks = Some t" "t_addr t = a"
    using m(2) db_path_texts(3,4) by (auto simp: resolve.simps [of mp ks] simp del: lit_Cons split: option.splits)
  have "resolve (mp(a := True)) ks (lit ''host/dict.db'') = Some (a, DB_NAME)"
    using t db_path_texts(7,8) by (simp add: resolve.simps [of _ ks] del: lit_Cons)
  then show ?thesis using m(1) assms(2) db_path_texts(5,6,15) by (simp add: resolve_Cons del: lit_Cons)
qed

text \<open>What the program needs of the host: the database is there, with contents \<open>c\<close>, and can be opened.\<close>

definition db_host :: "'h host_calls \<Rightarrow> ('h \<Rightarrow> int \<Rightarrow> (byte list \<times> nat) option) \<Rightarrow> 32 word \<Rightarrow> 'h \<Rightarrow> byte list \<Rightarrow> bool" where
  "db_host H view um h c \<longleftrightarrow> posix_ok H view \<and> lock_ok H \<and> length (stack_path H) = 256 \<and> (\<forall>n. heap_avail H n h)
     \<and> heap_malloc H (SIZEOF_OFILE + 7) Map.empty \<noteq> None
     \<and> (\<exists>fd h'. h_open H (lit ''/usr/nuttx_stuff/dict.db'') [H_RDONLY] (uint (0x1b6 AND NOT um)) h = (fd, h') \<and> 0 \<le> fd
          \<and> view h' fd = Some (c, 0))"

text \<open>An open file of the virtual file system with contents \<open>c\<close> at offset \<open>p\<close>.\<close>

definition vopened :: "('h \<Rightarrow> int \<Rightarrow> (byte list \<times> nat) option) \<Rightarrow> 'h vfs \<Rightarrow> vfile \<Rightarrow> byte list \<Rightarrow> nat \<Rightarrow> bool" where
  "vopened view v f c p \<longleftrightarrow> (\<exists>a i m x. f_node f = Some a \<and> nodes (v_tree v) a = Some i \<and> mnt_inode i m \<and> v_mounts v m = Some x
     \<and> opened view (x\<lparr>hst := v_host v\<rparr>) (f_drv f) False c p \<and> f_pos (f_drv f) = int p \<and> f_oflags f AND O_ACCMODE \<noteq> O_WRONLY)"

lemma program_opens_db:
  assumes "vok E v r ks" and "vlookup E v r ks (lit ''/host'') = None" and "db_host (vhost E) view (umask E) (v_host v) c"
  shows "\<exists>v1 f v2. mount_hostfs E v = Some (True, v1)
    \<and> file_vopen E v1 cleared_file (Some (DB_PATH @ [0])) O_RDONLY (umask E) 0 = Some (0, f, v2) \<and> vopened view v2 f c 0"
proof -
  have c: "cstr (lit ''/host'' @ [0]) 0 (lit ''/host'')" "cstr (DB_PATH @ [0]) 0 DB_PATH"
    using db_path_texts(16,17) by (auto intro: cstr_of_list simp del: lit_Cons)
  obtain t ks' a i n z where t: "mkdir E v (lit ''/host'' @ [0]) 0x1ff = Some (0, v\<lparr>v_tree := t\<rparr>)" "itree_ok t r ks'"
      "keeps (nodes (v_tree v)) (nodes t)" "nodes (v_tree v) a = None"
      "lookup t r ks' (full_path (cwd E) (lit ''/host'')) = Some (a, [])" "nodes t a = Some i"
      "i = new_inode n z\<lparr>i_parent := i_parent i, i_peer := i_peer i\<rparr>"
    by (rule mkdir_new [OF assms(1) c(1) db_path_texts(13,11) assms(2)]) simp
  let ?v = "v\<lparr>v_tree := t\<rparr>" and ?m = "handle_malloc E (v_mounts v)"
  let ?i = "mounted i ?m"
  have i: "INODE_IS_TYPE i FSNODEFLAG_TYPE_PSEUDODIR"
    by (subst t(7)) (simp add: new_inode_def INODE_IS_TYPE_def FSNODEFLAG_TYPE_PSEUDODIR_def)
  obtain o1 fd h' where h: "posix_ok (vhost E) view" "lock_ok (vhost E)" "length (stack_path (vhost E)) = 256"
      "\<And>n. heap_avail (vhost E) n (v_host v)" "heap_malloc (vhost E) (SIZEOF_OFILE + 7) Map.empty = Some o1"
      "h_open (vhost E) (lit ''/usr/nuttx_stuff/dict.db'') [H_RDONLY] (uint (0x1b6 AND NOT (umask E))) (v_host v) = (fd, h')"
      "0 \<le> fd" "view h' fd = Some (c, 0)" using assms(3) unfolding db_host_def by blast
  obtain x where x: "hostfs_bind (vhost E) False (Some (MOUNT_OPTIONS @ [0])) (v_host v) = Some (0, Some x)" "hst x = v_host v"
    using db_opened [OF h(4,2,3,5) cstr_of_list [OF mount_texts(5)] h(6,7)] by blast
  have op: "\<exists>g y. hostfs_open (vhost E) x new_file rel O_RDONLY (uint (0x1b6 AND NOT (umask E))) = Some (0, g, y)
      \<and> f_priv g = Some o1 \<and> f_pos g = 0 \<and> map_option of_fd (heap y o1) = Some fd \<and> hst y = h'" if "cstr rel 0 DB_NAME" for rel
    using db_opened [OF h(4,2,3,5) that h(6,7)] x(1) by auto
  let ?v1 = "upd_mnt ?m x (upd_inode a ?i ?v)"
  have mt: "mount E ?v None (lit ''/host'' @ [0]) (lit ''hostfs'' @ [0]) 0 (Some (MOUNT_OPTIONS @ [0])) = Some (0, ?v1)"
    using mount_existing [of ?v r ks' "lit ''/host'' @ [0]" "lit ''/host''" E a "[]" i "Some (MOUNT_OPTIONS @ [0])" x 0]
      t(2,5,6) c(1) db_path_texts(11) i x(1) by (simp add: upd_mnt_def upd_inode_def del: lit_Cons)
  have m: "mount_hostfs E v = Some (True, ?v1)"
    using t(1) mt by (simp add: mount_hostfs_def MOUNT_OPTIONS_def del: lit_Cons)
  have mi: "mnt_inode ?i ?m" unfolding mounted_def by (rule mnt_inode_set)
  have ok: "itree_ok (v_tree ?v1) r ks'" using vtree_upd [of ?v r ks' a i ?i] t(2,6) by (simp add: mounted_def)
  have "a \<noteq> r" using t(4) assms(1) by (auto simp: vok_def itree_ok_def)
  then have lk: "vlookup E ?v1 r ks' DB_PATH = Some (a, DB_NAME)"
    using db_path_mounted [of "is_mnt (nodes t)" r ks' a] t(5) db_path_texts(9,10) mnt_inode_types(1) [OF mi]
    by (simp add: lookup_def is_mnt_update del: lit_Cons)
  have fl: "\<not> flag O_RDONLY O_DIRECTORY" "\<not> flag O_RDONLY O_CREAT" "O_RDONLY AND O_ACCMODE \<noteq> O_WRONLY" by code_simp+
  have n1: "nodes (v_tree ?v1) a = Some ?i" "v_mounts ?v1 ?m = Some x" "x\<lparr>hst := v_host ?v1\<rparr> = x" "f_drv cleared_file = new_file"
    by (simp_all add: cleared_file_def new_file_def)
  obtain rel where rel: "cstr rel 0 DB_NAME" "\<And>g y. hostfs_open (vhost E) x new_file rel O_RDONLY (uint (0x1b6 AND NOT (umask E))) = Some (0, g, y) \<Longrightarrow>
      file_vopen E ?v1 cleared_file (Some (DB_PATH @ [0])) O_RDONLY (umask E) 0 = Some (0, cleared_file\<lparr>f_oflags := O_RDONLY,
        f_node := Some a, f_drv := g\<rparr>, upd_mnt ?m y (upd_inode a (?i\<lparr>i_crefs := i_crefs ?i + 1\<rparr>) ?v1))"
    by (rule file_vopen_mnt [OF ok c(2) db_path_texts(12) lk n1(1) mi n1(2) fl(1), of cleared_file 0 "umask E",
        unfolded n1(3,4) if_not_P [OF fl(2)]]) (rule that, assumption, blast)
  obtain g y where g: "hostfs_open (vhost E) x new_file rel O_RDONLY (uint (0x1b6 AND NOT (umask E))) = Some (0, g, y)"
      "f_priv g = Some o1" "f_pos g = 0" "map_option of_fd (heap y o1) = Some fd" "hst y = h'" using op [OF rel(1)] by blast
  have "vopened view (upd_mnt ?m y (upd_inode a (?i\<lparr>i_crefs := i_crefs ?i + 1\<rparr>) ?v1))
      (cleared_file\<lparr>f_oflags := O_RDONLY, f_node := Some a, f_drv := g\<rparr>) c 0"
    using mi g(2-5) h(8) fl(3) by (auto simp: vopened_def opened_def)
  then show ?thesis using m rel(2) [OF g(1)] by blast
qed

lemma vopened_seek:
  assumes "posix_ok (vhost E) view" and "lock_ok (vhost E)" and "vopened view v f c p" and "off < 2 ^ 31"
  shows "\<exists>g w. file_seek E v f (int off) SEEK_SET = Some (int off, g, w) \<and> vopened view w g c off"
proof -
  obtain a i m x where f: "f_node f = Some a" "nodes (v_tree v) a = Some i" "mnt_inode i m" "v_mounts v m = Some x"
      "opened view (x\<lparr>hst := v_host v\<rparr>) (f_drv f) False c p" "f_oflags f AND O_ACCMODE \<noteq> O_WRONLY"
    using assms(3) by (auto simp: vopened_def)
  obtain g y where g: "hostfs_seek (vhost E) (x\<lparr>hst := v_host v\<rparr>) (f_drv f) (int off) SEEK_SET = Some (int off, g, y)"
      "opened view y g False c off" "f_pos g = int off"
    using hostfs_seek_opened [OF assms(1,2) f(5) assms(4)] by blast
  have "file_seek E v f (int off) SEEK_SET = Some (int off, f\<lparr>f_drv := g\<rparr>, upd_mnt m y v)"
    using file_seek_mnt [OF f(2-4,1) g(1)] g(3) by simp
  moreover have "vopened view (upd_mnt m y v) (f\<lparr>f_drv := g\<rparr>) c off" using f g by (auto simp: vopened_def)
  ultimately show ?thesis by blast
qed

lemma vopened_read:
  assumes "posix_ok (vhost E) view" and "lock_ok (vhost E)" and "vopened view v f c p" and "n \<le> length buf" and "p + n < 2 ^ 31"
  shows "\<exists>g w. file_read_vfs E v f (Some buf) n = Some (int (length (take n (drop p c))), [blit buf 0 (take n (drop p c))], g, w)
    \<and> vopened view w g c (p + length (take n (drop p c)))"
proof (cases "n = 0")
  case True
  obtain a i m x where f: "f_node f = Some a" "nodes (v_tree v) a = Some i" "mnt_inode i m" "f_oflags f AND O_ACCMODE \<noteq> O_WRONLY"
    using assms(3) by (auto simp: vopened_def)
  have "op_read g_hostfs_operations" by (simp add: g_hostfs_operations_def)
  then have "file_read_vfs E v f (Some buf) n = Some (0, [buf], f, v)"
    using f True mnt_inode_types [OF f(3)] by (simp add: file_read_vfs_def file_readv_vfs_def)
  then show ?thesis using True assms(3) by (simp add: blit_def)
next
  case False
  obtain a i m x where f: "f_node f = Some a" "nodes (v_tree v) a = Some i" "mnt_inode i m" "v_mounts v m = Some x"
      "opened view (x\<lparr>hst := v_host v\<rparr>) (f_drv f) False c p" "f_oflags f AND O_ACCMODE \<noteq> O_WRONLY" "f_pos (f_drv f) = int p"
    using assms(3) by (auto simp: vopened_def)
  obtain g y where g: "hostfs_read (vhost E) (x\<lparr>hst := v_host v\<rparr>) (f_drv f) buf n
        = Some (int (length (take n (drop p c))), blit buf 0 (take n (drop p c)), g, y)"
      "opened view y g False c (p + length (take n (drop p c)))" "f_pos g = int (p + length (take n (drop p c)))"
    using hostfs_read_opened [OF assms(1,2) f(5) assms(4) f(7) assms(5)] by blast
  have "n \<le> SSIZE_MAX" using assms(5) by (simp add: SSIZE_MAX_def)
  then have "file_read_vfs E v f (Some buf) n = Some (int (length (take n (drop p c))), [blit buf 0 (take n (drop p c))],
      f\<lparr>f_drv := g\<rparr>, upd_mnt m y v)"
    using file_read_mnt [OF f(2-4,1,6) _ _ g(1)] False by simp
  moreover have "vopened view (upd_mnt m y v) (f\<lparr>f_drv := g\<rparr>) c (p + length (take n (drop p c)))" using f g by (auto simp: vopened_def)
  ultimately show ?thesis by blast
qed

section \<open>Unmounting\<close>

text \<open>A path below a mount point without children leads nowhere when the mount is gone.\<close>

lemma resolve_unmounted:
  "forest h par p ts \<Longrightarrow> distinct (addrs ts) \<Longrightarrow> h a = Some i \<Longrightarrow> i_child i = None \<Longrightarrow>
   resolve mp ts s = Some (a, u) \<Longrightarrow> u \<noteq> [] \<Longrightarrow> resolve (mp(a := False)) ts s = None"
proof (induction ts arbitrary: par p s rule: addrs.induct)
  case (2 b n ks ts)
  obtain j where j: "h b = Some j" "forest h (Some b) (i_child j) ks" "forest h par (i_peer j) ts" using "2.prems"(1) by auto
  have d: "b \<notin> set (addrs ks)" "distinct (addrs ks)" "distinct (addrs ts)" using "2.prems"(2) by auto
  show ?case
  proof (cases "n = seg s")
    case False
    then show ?thesis using "2.IH"(2) [OF j(3) d(3) "2.prems"(3,4) _ "2.prems"(6)] "2.prems"(5) by (simp add: resolve_Cons)
  next
    case True
    show ?thesis
    proof (cases "next_str s = [] \<or> mp b")
      case found: True
      then have "b = a" "next_str s = u" using "2.prems"(5) True by (auto simp: resolve_Cons)
      moreover then have "ks = []" using j(1,2) "2.prems"(3,4) by (cases ks rule: addrs.cases) auto
      ultimately show ?thesis using "2.prems"(6) True by (simp add: resolve_Cons)
    next
      case down: False
      then have r: "resolve mp ks (next_str s) = Some (a, u)" using "2.prems"(5) True by (simp add: resolve_Cons)
      then have "b \<noteq> a" using d(1) resolve_addr by blast
      then show ?thesis using "2.IH"(1) [OF j(2) d(2) "2.prems"(3,4) r "2.prems"(6)] True down by (simp add: resolve_Cons)
    qed
  qed
qed simp

text \<open>The path of the mount point and other paths lead where they did.\<close>

lemma resolve_unmounted_at: "resolve mp ts s = Some (a, []) \<Longrightarrow> resolve (mp(a := False)) ts s = Some (a, [])"
proof (induction ts arbitrary: s rule: addrs.induct)
  case (2 b n ks ts)
  then show ?case by (cases "n = seg s"; cases "next_str s = []"; cases "mp b") (auto simp: resolve_Cons)
qed simp

lemma resolve_unmounted_other:
  "forest h par p ts \<Longrightarrow> distinct (addrs ts) \<Longrightarrow> h a = Some i \<Longrightarrow> i_child i = None \<Longrightarrow> b \<noteq> a \<Longrightarrow>
   resolve (mp(a := False)) ts s = Some (b, u) \<longleftrightarrow> resolve mp ts s = Some (b, u)"
proof (induction ts arbitrary: par p s rule: addrs.induct)
  case (2 c n ks ts)
  obtain j where j: "h c = Some j" "forest h (Some c) (i_child j) ks" "forest h par (i_peer j) ts" using "2.prems"(1) by auto
  have d: "distinct (addrs ks)" "distinct (addrs ts)" using "2.prems"(2) by auto
  have "ks = []" if "c = a" using that j(1,2) "2.prems"(3,4) by (cases ks rule: addrs.cases) auto
  then show ?case using "2.IH"(1) [OF j(2) d(1) "2.prems"(3-5)] "2.IH"(2) [OF j(3) d(2) "2.prems"(3-5)] "2.prems"(5)
    by (auto simp: resolve_Cons)
qed simp

text \<open>An inode that is not in the tree may change or be freed.\<close>

lemma itree_ok_outside:
  assumes "itree_ok t r ks" and "a \<notin> set (r # addrs ks)"
  shows "itree_ok (t\<lparr>nodes := (nodes t)(a := z)\<rparr>) r ks" "lookup (t\<lparr>nodes := (nodes t)(a := z)\<rparr>) r ks s = lookup t r ks s"
proof -
  have "forest ((nodes t)(a := z)) None (Some r) [Tree r [] ks] = forest (nodes t) None (Some r) [Tree r [] ks]"
    by (rule forest_cong) (use assms(2) in auto)
  then show "itree_ok (t\<lparr>nodes := (nodes t)(a := z)\<rparr>) r ks" using assms(1) by (simp add: itree_ok_def)
  have "resolve (is_mnt ((nodes t)(a := z))) [Tree r [] ks] s = resolve (is_mnt (nodes t)) [Tree r [] ks] s"
    by (rule resolve_cong) (use assms(2) in \<open>auto simp: is_mnt_def\<close>)
  then show "lookup (t\<lparr>nodes := (nodes t)(a := z)\<rparr>) r ks s = lookup t r ks s" by (simp add: lookup_def)
qed

lemma release_outside:
  assumes "nodes t a = Some i" and "i_peer i = None" and "i_child i = None"
  shows "inode_release (Some a) t =
    Some (t\<lparr>nodes := (nodes t)(a := if i_crefs i \<le> 1 then None else Some (i\<lparr>i_crefs := i_crefs i - 1\<rparr>))\<rparr>)"
proof -
  have "inode_free None g = Some g" for g by (subst inode_free.simps) simp
  then have "inode_free (Some a) ((nodes t)(a \<mapsto> i\<lparr>i_crefs := i_crefs i - 1\<rparr>)) = Some ((nodes t)(a := None))"
    using assms(2,3) by (subst inode_free.simps) simp
  then show ?thesis using assms by (simp add: inode_release_def add_crefs_def)
qed

lemma unbind_idle: "lock_ok H \<Longrightarrow> fs_head x = None \<Longrightarrow> hostfs_unbind H (Some (x\<lparr>hst := h\<rparr>)) fl = (0, None)"
  by (simp add: hostfs_unbind_def lock_ok_def)

text \<open>The inode after the mount is taken from it, with the reference of the search.\<close>

definition unmounted :: "inode \<Rightarrow> inode" where
  "unmounted i = (INODE_SET_TYPE (i\<lparr>i_crefs := i_crefs i + 1\<rparr>) 0)\<lparr>i_private := None, i_ops := None\<rparr>"

lemma unmounted_fields [simp]:
  "i_name (unmounted i) = i_name i" "i_parent (unmounted i) = i_parent i" "i_peer (unmounted i) = i_peer i"
  "i_child (unmounted i) = i_child i" "i_crefs (unmounted i) = i_crefs i + 1"
  by (simp_all add: unmounted_def)

lemma unmounted_type: "\<not> INODE_IS_TYPE (unmounted i) FSNODEFLAG_TYPE_MOUNTPT"
proof -
  have "((w AND NOT 0xf) OR 0) AND 0xf = 0" for w :: "16 word" by (simp add: and.assoc)
  then show ?thesis
    by (simp add: unmounted_def INODE_IS_TYPE_def INODE_SET_TYPE_def FSNODEFLAG_TYPE_MASK_def FSNODEFLAG_TYPE_MOUNTPT_def)
qed

lemma umount_run:
  assumes "itree_ok (v_tree v) r ks" and "cstr path 0 s" and "vpath_env E s" and "vlookup E v r ks s = Some (a, u)"
    and "nodes (v_tree v) a = Some i" and "mnt_inode i m" and "v_mounts v m = Some x" and "fs_head x = None"
    and "lock_ok (vhost E)" and "i_child i = None"
  shows "nx_umount2 E v (Some path) fl = do {
      (ret, t) \<leftarrow> inode_remove (path_avail E) (cwd E) (v_tree (upd_inode a (unmounted i) v)) path;
      w \<leftarrow> vfs_release (Some a) (v\<lparr>v_mounts := (v_mounts v)(m := None), v_tree := t\<rparr>);
      Some (if ret \<noteq> 0 \<and> ret \<noteq> - EBUSY then ret else 0, w) }"
proof -
  obtain p d q where f: "vfs_find E v path = Some (0, p, d, upd_inode a (i\<lparr>i_crefs := i_crefs i + 1\<rparr>) v)" "sd_node d = Some a"
    using vfs_find_some [OF assms(1-4)] assms(5) by (metis option.inject)
  note ty = mnt_inode_types [of "i\<lparr>i_crefs := i_crefs i + 1\<rparr>" m, simplified, OF assms(6)]
  show ?thesis using f assms(7,10) ty unbind_idle [OF assms(9,8)]
    by (simp add: nx_umount2_def unmounted_def upd_inode_def Let_def split_beta)
qed

end
