(* ===== verification/InodeProps.thy ===== *)
theory InodeProps
  imports InodeRemove
begin

text \<open>
  The properties of the pseudo file system: the search finds what the tree has, a path can be reserved
  and removed without a change to other paths, and sequences of such operations through an interface
  for name spaces.
\<close>

section \<open>A space of names\<close>

text \<open>
  What the clients of the tree rely on: adding a path that is not there makes it found and leaves the
  others, removing a path makes it not found and adds nothing.
\<close>

locale name_space =
  fixes ok :: "'t \<Rightarrow> bool" and find_path :: "'t \<Rightarrow> 'p \<Rightarrow> nat option"
    and add_path :: "'t \<Rightarrow> 'p \<Rightarrow> 't option" and del_path :: "'t \<Rightarrow> 'p \<Rightarrow> 't option"
  assumes add_ok: "ok t \<Longrightarrow> add_path t p = Some t' \<Longrightarrow> ok t'"
    and add_new: "ok t \<Longrightarrow> add_path t p = Some t' \<Longrightarrow> find_path t p = None \<and> find_path t' p \<noteq> None"
    and add_kept: "ok t \<Longrightarrow> add_path t p = Some t' \<Longrightarrow> find_path t q = Some a \<Longrightarrow> find_path t' q = Some a"
    and del_ok: "ok t \<Longrightarrow> del_path t p = Some t' \<Longrightarrow> ok t'"
    and del_gone: "ok t \<Longrightarrow> del_path t p = Some t' \<Longrightarrow> find_path t' p = None"
    and del_mono: "ok t \<Longrightarrow> del_path t p = Some t' \<Longrightarrow> find_path t' q = Some a \<Longrightarrow> find_path t q = Some a"
begin

fun add_all :: "'t \<Rightarrow> 'p list \<Rightarrow> 't option" where
  "add_all t [] = Some t"
| "add_all t (p # ps) = do { t \<leftarrow> add_path t p; add_all t ps }"

lemma add_all_kept: "ok t \<Longrightarrow> add_all t ps = Some t' \<Longrightarrow> ok t' \<and> (find_path t q = Some a \<longrightarrow> find_path t' q = Some a)"
proof (induction ps arbitrary: t)
  case (Cons p ps)
  then obtain u where u: "add_path t p = Some u" "add_all u ps = Some t'" by (auto simp: bind_eq_Some_conv)
  then show ?case using Cons.IH [OF add_ok [OF Cons.prems(1) u(1)] u(2)] add_kept [OF Cons.prems(1) u(1)] by blast
qed simp

lemma add_all_found: "ok t \<Longrightarrow> add_all t ps = Some t' \<Longrightarrow> distinct ps \<and> (\<forall>p \<in> set ps. find_path t p = None \<and> find_path t' p \<noteq> None)"
proof (induction ps arbitrary: t)
  case (Cons p ps)
  then obtain u where u: "add_path t p = Some u" "add_all u ps = Some t'" by (auto simp: bind_eq_Some_conv)
  have o: "ok u" using add_ok Cons.prems(1) u(1) by blast
  have n: "find_path t p = None" "find_path u p \<noteq> None" using add_new [OF Cons.prems(1) u(1)] by auto
  have ih: "distinct ps" "\<forall>q \<in> set ps. find_path u q = None \<and> find_path t' q \<noteq> None" using Cons.IH [OF o u(2)] by auto
  have "find_path t' p \<noteq> None" using add_all_kept [OF o u(2)] n(2) by blast
  moreover have "find_path t q = None" if "q \<in> set ps" for q
    using ih(2) that add_kept [OF Cons.prems(1) u(1), of q] by (metis option.exhaust option.discI)
  ultimately show ?case using n ih by auto
qed simp

lemma add_twice: "ok t \<Longrightarrow> add_path t p = Some t' \<Longrightarrow> add_path t' p = None"
  using add_ok add_new by (metis option.exhaust)

lemma add_del: "ok t \<Longrightarrow> add_path t p = Some u \<Longrightarrow> del_path u p = Some t' \<Longrightarrow> ok t' \<and> find_path t' p = None"
  using add_ok del_ok del_gone by blast

end

section \<open>The tree as a space of names\<close>

text \<open>Absolute paths; an allocator never returns an address in use.\<close>

definition tree_ok :: "itree \<Rightarrow> bool" where
  "tree_ok t \<longleftrightarrow> (\<exists>r ks. itree_ok t r ks)"

definition abs_path :: "byte list \<Rightarrow> bool" where
  "abs_path s \<longleftrightarrow> s \<noteq> [] \<and> hd s = SLASH \<and> 0 \<notin> set s"

definition node_at :: "itree \<Rightarrow> byte list \<Rightarrow> nat option" where
  "node_at t s = (if abs_path s
     then case inode_search (\<lambda>_. True) [] t (s @ [0]) of None \<Rightarrow> None | Some (ret, p, d) \<Rightarrow> if ret \<ge> 0 then sd_node d else None
     else None)"

definition checked :: "(nat \<Rightarrow> (nat \<rightharpoonup> inode) \<Rightarrow> nat option) \<Rightarrow> nat \<Rightarrow> (nat \<rightharpoonup> inode) \<Rightarrow> nat option" where
  "checked malloc n h = (case malloc n h of None \<Rightarrow> None | Some a \<Rightarrow> if h a = None then Some a else None)"

definition reserve_at :: "(nat \<Rightarrow> (nat \<rightharpoonup> inode) \<Rightarrow> nat option) \<Rightarrow> itree \<Rightarrow> byte list \<Rightarrow> itree option" where
  "reserve_at malloc t s = (if abs_path s
     then case inode_reserve (checked malloc) (\<lambda>_. True) [] t (s @ [0]) of None \<Rightarrow> None
       | Some (ret, p, t') \<Rightarrow> if ret \<ge> 0 then Some t' else None
     else None)"

definition remove_at :: "itree \<Rightarrow> byte list \<Rightarrow> itree option" where
  "remove_at t s = (if abs_path s \<and> node_at t s \<noteq> None \<and> node_at t s \<noteq> g_root_inode t
     then map_option snd (inode_remove (\<lambda>_. True) [] t (s @ [0])) else None)"

lemma abs_pathD: "abs_path s \<Longrightarrow> cstr (s @ [0]) 0 s \<and> path_env av c s \<and> full_path c s = s \<and> s \<noteq> []"
  by (auto simp: abs_path_def path_env_def full_path_def intro: cstr_of_list)

lemma fresh_checked: "fresh_addr (checked malloc)"
  by (auto simp: fresh_addr_def checked_def split: option.splits if_splits)

lemma search_found:
  assumes "itree_ok t r ks" and "cstr path 0 s" and "path_env avail cwd s"
  shows "case lookup t r ks (full_path cwd s) of
      None \<Rightarrow> \<exists>p d. inode_search avail cwd t path = Some (- ENOENT, p, d) \<and> sd_node d = None
    | Some (a, rest) \<Rightarrow> \<exists>p d q. inode_search avail cwd t path = Some (0, p, d)
        \<and> sd_node d = Some a \<and> sd_relpath d = Some q \<and> cstr p q rest"
proof -
  obtain f l ov rr where sc: "scan (is_mnt (nodes t)) [Tree r [] ks] (full_path cwd s) None None = (f, l, ov, rr)"
    by (metis surj_pair)
  note lk = lookup_scan [OF assms(1) sc]
  obtain p q where "inode_search avail cwd t path = Some (if f = None then - ENOENT else 0, p,
       \<lparr>sd_path = q, sd_node = f, sd_peer = l, sd_parent = ov, sd_relpath = (if f = None then None else Some q)\<rparr>)" "cstr p q rr"
    using inode_search_scan [OF assms sc] by blast
  then show ?thesis using lk by (cases f) auto
qed

lemma node_at_lookup: "itree_ok t r ks \<Longrightarrow> node_at t s = (if abs_path s then map_option fst (lookup t r ks s) else None)"
  using search_found [of t r ks "s @ [0]" s "\<lambda>_. True" "[]"] abs_pathD [of s "\<lambda>_. True" "[]"]
  by (auto simp: node_at_def ENOENT_def split: option.splits)

lemma lookup_dom: "itree_ok t r ks \<Longrightarrow> lookup t r ks s = Some (a, u) \<Longrightarrow> nodes t a \<noteq> None"
  using resolve_addr forest_dom unfolding itree_ok_def lookup_def by blast

lemma reserve_found:
  assumes "itree_ok t r ks" and "cstr path 0 s" and "s \<noteq> []" and "path_env avail cwd s" and "fresh_addr malloc"
  shows "\<exists>ret p t' ks'. inode_reserve malloc avail cwd t path = Some (ret, p, t') \<and> itree_ok t' r ks'
    \<and> (\<forall>s' b u. lookup t r ks s' = Some (b, u) \<longrightarrow> lookup t' r ks' s' = Some (b, u))
    \<and> (if lookup t r ks (full_path cwd s) \<noteq> None then ret = - EEXIST \<and> t' = t
       else ret = 0 \<and> (\<exists>a. p = Some a \<and> nodes t a = None \<and> lookup t' r ks' (full_path cwd s) = Some (a, []))
         \<or> ret = - ENOMEM \<and> p = None)"
proof (cases "lookup t r ks (full_path cwd s)")
  case None
  obtain ret p t' ks' where r: "inode_reserve malloc avail cwd t path = Some (ret, p, t')" "reserved malloc r (full_path cwd s) t ks ret p t' ks'"
    using inode_reserve_ok [OF assms None] by blast
  have "\<forall>s' b u. lookup t r ks s' = Some (b, u) \<longrightarrow> lookup t' r ks' s' = Some (b, u)"
    using r(2) lookup_dom [OF assms(1)] unfolding reserved_def by blast
  moreover have "itree_ok t' r ks'" "ret = 0 \<and> (\<exists>a. p = Some a \<and> nodes t a = None \<and> lookup t' r ks' (full_path cwd s) = Some (a, []))
      \<or> ret = - ENOMEM \<and> p = None" using r(2) unfolding reserved_def by blast+
  ultimately show ?thesis using r(1) None by (intro exI [of _ ret] exI [of _ p] exI [of _ t'] exI [of _ ks']) simp
next
  case (Some x)
  have "\<exists>b. rd path 0 = Some b \<and> b \<noteq> 0"
    using cstr_rd0 [OF assms(2)] cstr_nonzero [OF assms(2)] assms(3) by (cases s) auto
  then have "inode_reserve malloc avail cwd t path = Some (- EEXIST, None, t)"
    using search_found [OF assms(1,2,4)] Some by (auto simp: inode_reserve_def split: prod.splits)
  then show ?thesis using Some assms(1) by auto
qed

lemma reserve_at_ok:
  assumes "tree_ok t" and "reserve_at malloc t s = Some t'"
  shows "tree_ok t' \<and> node_at t s = None \<and> node_at t' s \<noteq> None \<and> (\<forall>q a. node_at t q = Some a \<longrightarrow> node_at t' q = Some a)"
proof -
  obtain r ks where t: "itree_ok t r ks" using assms(1) by (auto simp: tree_ok_def)
  have s: "abs_path s" using assms(2) by (auto simp: reserve_at_def split: if_splits)
  have p: "cstr (s @ [0]) 0 s" "s \<noteq> []" "path_env (\<lambda>_. True) [] s" "full_path [] s = s" using abs_pathD [OF s] by auto
  obtain ret p t'' ks' where r: "inode_reserve (checked malloc) (\<lambda>_. True) [] t (s @ [0]) = Some (ret, p, t'')" "itree_ok t'' r ks'"
      "\<forall>s' b u. lookup t r ks s' = Some (b, u) \<longrightarrow> lookup t'' r ks' s' = Some (b, u)"
      "if lookup t r ks s \<noteq> None then ret = - EEXIST \<and> t'' = t
       else ret = 0 \<and> (\<exists>a. p = Some a \<and> nodes t a = None \<and> lookup t'' r ks' s = Some (a, [])) \<or> ret = - ENOMEM \<and> p = None"
    using reserve_found [OF t p(1-3) fresh_checked, of malloc, unfolded p(4)] by blast
  have "t'' = t'" "ret \<ge> 0" using assms(2) s r(1) by (auto simp: reserve_at_def split: if_splits)
  then have "t'' = t'" "lookup t r ks s = None" "\<exists>a. lookup t' r ks' s = Some (a, [])"
    using r(4) by (cases "lookup t r ks s"; auto simp: EEXIST_def ENOMEM_def)+
  then show ?thesis using r(2,3) s node_at_lookup [OF t] node_at_lookup [of t' r ks'] by (auto simp: tree_ok_def split: if_splits)
qed

lemma remove_at_ok:
  assumes "tree_ok t" and "remove_at t s = Some t'"
  shows "tree_ok t' \<and> node_at t' s = None \<and> (\<forall>q a. node_at t' q = Some a \<longrightarrow> node_at t q = Some a)"
proof -
  obtain r ks where t: "itree_ok t r ks" using assms(1) by (auto simp: tree_ok_def)
  have s: "abs_path s" "node_at t s \<noteq> None" "node_at t s \<noteq> Some r"
    using assms(2) t by (auto simp: remove_at_def itree_ok_def split: if_splits)
  then obtain a u where a: "lookup t r ks s = Some (a, u)" "a \<noteq> r" using node_at_lookup [OF t] by (auto split: if_splits)
  note p = abs_pathD [OF s(1), of "\<lambda>_. True" "[]"]
  obtain ret t'' ks' where r: "inode_remove (\<lambda>_. True) [] t (s @ [0]) = Some (ret, t'')" "itree_ok t'' r ks'" "a \<notin> set (r # addrs ks')"
      "\<forall>s' b u'. lookup t'' r ks' s' = Some (b, u') \<longleftrightarrow> lookup t r ks s' = Some (b, u') \<and> b \<in> set (r # addrs ks')"
    using inode_remove_ok [OF t, of "s @ [0]" s "\<lambda>_. True" "[]" a u] p a by auto
  have e: "t'' = t'" using assms(2) r(1) by (auto simp: remove_at_def split: if_splits)
  have "lookup t' r ks' s = None"
  proof (rule ccontr)
    assume "lookup t' r ks' s \<noteq> None"
    then obtain b w where "lookup t' r ks' s = Some (b, w)" by auto
    then show False using r(3,4) e a(1) by auto
  qed
  then show ?thesis using r(2,4) e node_at_lookup [OF t] node_at_lookup [of t' r ks'] by (auto simp: tree_ok_def split: if_splits)
qed

interpretation inodes: name_space tree_ok node_at "reserve_at malloc" remove_at for malloc
proof unfold_locales
  show "tree_ok t'" if "tree_ok t" "reserve_at malloc t p = Some t'" for t p t' using reserve_at_ok [OF that] by blast
  show "node_at t p = None \<and> node_at t' p \<noteq> None" if "tree_ok t" "reserve_at malloc t p = Some t'" for t p t'
    using reserve_at_ok [OF that] by blast
  show "node_at t' q = Some a" if "tree_ok t" "reserve_at malloc t p = Some t'" "node_at t q = Some a" for t p t' q a
    using reserve_at_ok [OF that(1,2)] that(3) by blast
  show "tree_ok t'" if "tree_ok t" "remove_at t p = Some t'" for t p t' using remove_at_ok [OF that] by blast
  show "node_at t' p = None" if "tree_ok t" "remove_at t p = Some t'" for t p t' using remove_at_ok [OF that] by blast
  show "node_at t q = Some a" if "tree_ok t" "remove_at t p = Some t'" "node_at t' q = Some a" for t p t' q a
    using remove_at_ok [OF that(1,2)] that(3) by blast
qed

text \<open>The tree at the start of the system, and the reservation of several paths.\<close>

definition boot_tree :: itree where
  "boot_tree = \<lparr>nodes = [0 \<mapsto> new_inode 0 []], g_root_inode = Some 0, g_ino = 1\<rparr>"

lemma boot_tree_ok: "itree_ok boot_tree 0 []"
  by (simp add: itree_ok_def boot_tree_def new_inode_def cstr_def)

lemma boot_tree_root: "malloc (FSNODE_SIZE 0) Map.empty = Some 0 \<Longrightarrow>
   inode_root_reserve malloc \<lparr>nodes = Map.empty, g_root_inode = None, g_ino = 0\<rparr> = Some boot_tree"
  using inode_alloc_eq [of "[0]" 0 "[]" malloc "\<lparr>nodes = Map.empty, g_root_inode = None, g_ino = 0\<rparr>"]
  by (simp add: inode_root_reserve_def boot_tree_def cstr_def seg_def)

fun reserve_all :: "(nat \<Rightarrow> (nat \<rightharpoonup> inode) \<Rightarrow> nat option) \<Rightarrow> itree \<Rightarrow> byte list list \<Rightarrow> itree option" where
  "reserve_all malloc t [] = Some t"
| "reserve_all malloc t (p # ps) = do { t \<leftarrow> reserve_at malloc t p; reserve_all malloc t ps }"

lemma reserve_all_eq: "reserve_all malloc t ps = inodes.add_all malloc t ps"
  by (induction ps arbitrary: t) simp_all

text \<open>An allocator: the first address from \<open>a\<close> that is not in use.\<close>

partial_function (option) find_free :: "(nat \<rightharpoonup> inode) \<Rightarrow> nat \<Rightarrow> nat option" where
  "find_free h a = (if h a = None then Some a else find_free h (a + 1))"

declare find_free.simps [code]

lemma find_free_none: "find_free h a = Some b \<Longrightarrow> h b = None"
  by (erule find_free.raw_induct [rotated]) (auto split: if_splits)

lemma find_free_finite: "finite (dom h) \<Longrightarrow> \<exists>b. find_free h a = Some b"
proof (induction "card {x \<in> dom h. a \<le> x}" arbitrary: a rule: less_induct)
  case less
  show ?case
  proof (cases "h a")
    case None
    then show ?thesis by (subst find_free.simps) simp
  next
    case (Some i)
    have "a \<in> {x \<in> dom h. a \<le> x}" "a \<notin> {x \<in> dom h. a + 1 \<le> x}" using Some by auto
    moreover have "{x \<in> dom h. a + 1 \<le> x} \<subseteq> {x \<in> dom h. a \<le> x}" by auto
    ultimately have "{x \<in> dom h. a + 1 \<le> x} \<subset> {x \<in> dom h. a \<le> x}" by (metis psubsetI)
    then have "card {x \<in> dom h. a + 1 \<le> x} < card {x \<in> dom h. a \<le> x}" using less.prems by (intro psubset_card_mono) auto
    then show ?thesis using less.hyps [of "a + 1"] less.prems Some by (subst find_free.simps) simp
  qed
qed

definition demo_malloc :: "nat \<Rightarrow> (nat \<rightharpoonup> inode) \<Rightarrow> nat option" where
  "demo_malloc n h = find_free h 0"

lemma demo_malloc_ok: "fresh_addr demo_malloc" "finite (dom h) \<Longrightarrow> demo_malloc n h \<noteq> None"
  using find_free_none find_free_finite [of h 0] by (auto simp: fresh_addr_def demo_malloc_def)

section \<open>Properties\<close>

text \<open>
  C23. Searching: in a tree whose inodes are linked as their structure requires, with peers in order, the search
  for a path, absolute or relative to the current directory, returns and finds the inode that a search
  of the tree by names finds, which ends at a mount point, and the rest of the path below it.
\<close>

theorem inode_search_correct:
  assumes "itree_ok t r ks" and "cstr path 0 s" and "path_env avail cwd s"
  shows "case lookup t r ks (full_path cwd s) of
      None \<Rightarrow> \<exists>p d. inode_search avail cwd t path = Some (- ENOENT, p, d) \<and> sd_node d = None
    | Some (a, rest) \<Rightarrow> \<exists>p d q. inode_search avail cwd t path = Some (0, p, d)
        \<and> sd_node d = Some a \<and> sd_relpath d = Some q \<and> cstr p q rest"
  using assms by (rule search_found)

theorem inode_search_correct_witness:
  "lookup boot_tree 0 [] (full_path (lit ''/'') (lit ''x'')) = None \<and>
   (\<exists>p d. inode_search (\<lambda>_. True) (lit ''/'') boot_tree (lit ''x'' @ [0]) = Some (- ENOENT, p, d) \<and> sd_node d = None)
   \<and> (\<exists>p d. inode_search (\<lambda>_. True) (lit ''/'') boot_tree (lit ''/'' @ [0]) = Some (0, p, d) \<and> sd_node d = Some 0)"
proof -
  have l: "lookup boot_tree 0 [] (full_path (lit ''/'') (lit ''x'')) = None" "lookup boot_tree 0 [] (full_path (lit ''/'') (lit ''/'')) = Some (0, [])"
    by code_simp+
  have c: "cstr (lit ''x'' @ [0]) 0 (lit ''x'')" "cstr (lit ''/'' @ [0]) 0 (lit ''/'')" "path_env (\<lambda>_. True) (lit ''/'') (lit ''x'')"
      "path_env (\<lambda>_. True) (lit ''/'') (lit ''/'')" by (simp_all add: cstr_def path_env_def)
  show ?thesis using inode_search_correct [OF boot_tree_ok c(1,3)] inode_search_correct [OF boot_tree_ok c(2,4)] l
    by (auto simp del: lit_Cons)
qed

text \<open>
  C22. Reserving a path: the tree stays in order and everything found before is found where it was. A path
  that is found already gives \<open>EEXIST\<close> and no change; otherwise the path leads to a new inode, or there is
  no memory.
\<close>

theorem inode_reserve_correct:
  assumes "itree_ok t r ks" and "cstr path 0 s" and "s \<noteq> []" and "path_env avail cwd s" and "fresh_addr malloc"
  shows "\<exists>ret p t' ks'. inode_reserve malloc avail cwd t path = Some (ret, p, t') \<and> itree_ok t' r ks'
    \<and> (\<forall>s' b u. lookup t r ks s' = Some (b, u) \<longrightarrow> lookup t' r ks' s' = Some (b, u))
    \<and> (if lookup t r ks (full_path cwd s) \<noteq> None then ret = - EEXIST \<and> t' = t
       else ret = 0 \<and> (\<exists>a. p = Some a \<and> nodes t a = None \<and> lookup t' r ks' (full_path cwd s) = Some (a, []))
         \<or> ret = - ENOMEM \<and> p = None)"
  using assms by (rule reserve_found)

theorem inode_reserve_correct_witness:
  "\<exists>ret p t' ks'. inode_reserve demo_malloc (\<lambda>_. True) [] boot_tree (lit ''/dev/x'' @ [0]) = Some (ret, p, t') \<and> itree_ok t' 0 ks'
    \<and> (ret = 0 \<and> (\<exists>a. p = Some a \<and> lookup t' 0 ks' (lit ''/dev/x'') = Some (a, [])) \<or> ret = - ENOMEM \<and> p = None)"
proof -
  have c: "cstr (lit ''/dev/x'' @ [0]) 0 (lit ''/dev/x'')" "path_env (\<lambda>_. True) [] (lit ''/dev/x'')" "lit ''/dev/x'' \<noteq> []"
    by (simp_all add: cstr_def path_env_def)
  have l: "lookup boot_tree 0 [] (full_path [] (lit ''/dev/x'')) = None" "full_path [] (lit ''/dev/x'') = lit ''/dev/x''" by code_simp+
  show ?thesis using inode_reserve_correct [OF boot_tree_ok c(1,3,2) demo_malloc_ok(1)] l by (auto simp del: lit_Cons)
qed

text \<open>
  C24. Removing a path: the inode is taken out of the tree with everything below it, so that its path and
  the paths through it are not found any more, and every other path is found where it was. It is freed
  if nothing else refers to it; otherwise the result is \<open>EBUSY\<close>, although it has been taken out.
\<close>

theorem inode_remove_correct:
  assumes "itree_ok t r ks" and "cstr path 0 s" and "path_env avail cwd s"
    and "lookup t r ks (full_path cwd s) = Some (a, u)" and "a \<noteq> r"
  shows "\<exists>i t' ks'. nodes t a = Some i \<and> inode_remove avail cwd t path = Some (if i_crefs i = 1 then 0 else - EBUSY, t')
    \<and> itree_ok t' r ks' \<and> a \<notin> set (r # addrs ks') \<and> (i_child i = None \<longrightarrow> set (addrs ks) = insert a (set (addrs ks')))
    \<and> nodes t' a = (if i_crefs i = 1 then None else Some (i\<lparr>i_peer := None, i_parent := None, i_crefs := i_crefs i - 1\<rparr>))
    \<and> (\<forall>s' b u'. lookup t' r ks' s' = Some (b, u') \<longleftrightarrow> lookup t r ks s' = Some (b, u') \<and> b \<in> set (r # addrs ks'))"
  using assms by (rule inode_remove_ok)

definition demo_tree :: itree where
  "demo_tree = \<lparr>nodes = [0 \<mapsto> new_inode 0 []\<lparr>i_child := Some 1\<rparr>, 1 \<mapsto> new_inode 1 (lit ''host'')\<lparr>i_parent := Some 0\<rparr>],
     g_root_inode = Some 0, g_ino = 2\<rparr>"

lemma demo_tree_ok: "itree_ok demo_tree 0 [Tree 1 (lit ''host'') []]"
  by (simp add: itree_ok_def demo_tree_def new_inode_def cstr_def)

theorem inode_remove_correct_witness:
  "\<exists>t' ks'. inode_remove (\<lambda>_. True) [] demo_tree (lit ''/host'' @ [0]) = Some (0, t') \<and> itree_ok t' 0 ks' \<and> nodes t' 1 = None"
proof -
  have c: "cstr (lit ''/host'' @ [0]) 0 (lit ''/host'')" "path_env (\<lambda>_. True) [] (lit ''/host'')" by (simp_all add: cstr_def path_env_def)
  have l: "lookup demo_tree 0 [Tree 1 (lit ''host'') []] (full_path [] (lit ''/host'')) = Some (1, [])" by code_simp
  have i: "nodes demo_tree 1 = Some (new_inode 1 (lit ''host'')\<lparr>i_parent := Some 0\<rparr>)" by (simp add: demo_tree_def)
  show ?thesis using inode_remove_correct [OF demo_tree_ok c l] i by (auto simp: new_inode_def simp del: lit_Cons)
qed

text \<open>
  C29. Reserving paths one after the other: if all reservations succeed, the paths are different, none
  of them was there before and all are found afterwards, as is everything that was there.
\<close>

theorem reserve_all_found:
  assumes "tree_ok t" and "reserve_all malloc t ps = Some t'"
  shows "tree_ok t' \<and> distinct ps \<and> (\<forall>p \<in> set ps. node_at t p = None \<and> node_at t' p \<noteq> None)
    \<and> (\<forall>q a. node_at t q = Some a \<longrightarrow> node_at t' q = Some a)"
  using inodes.add_all_found [OF assms(1)] inodes.add_all_kept [OF assms(1)] assms(2) by (auto simp: reserve_all_eq)

theorem reserve_all_found_witness:
  "\<exists>t'. reserve_all demo_malloc boot_tree [lit ''/dev/lcd0'', lit ''/dev/console''] = Some t' \<and> tree_ok t'
    \<and> node_at t' (lit ''/dev/console'') \<noteq> None"
proof -
  have "\<not> Option.is_none (reserve_all demo_malloc boot_tree [lit ''/dev/lcd0'', lit ''/dev/console''])" by code_simp
  then obtain t' where t: "reserve_all demo_malloc boot_tree [lit ''/dev/lcd0'', lit ''/dev/console''] = Some t'"
    by (auto simp: is_none_simps Option.is_none_def simp del: lit_Cons reserve_all.simps)
  have "tree_ok boot_tree" using boot_tree_ok by (auto simp: tree_ok_def)
  from reserve_all_found [OF this t] t show ?thesis by auto
qed

end
