(* ===== verification/VfsProps.thy ===== *)
theory VfsProps
  imports VfsSpec InodeProps
begin

text \<open>
  The properties of the virtual file system: the way of the dictionary program to its database, and
  unmounting.
\<close>

section \<open>A system for examples\<close>

definition demo_vfs_env :: "demo_fs vfs_env" where
  "demo_vfs_env = \<lparr>vhost = demo_calls, inode_malloc = demo_malloc, handle_malloc = (\<lambda>m. 5), path_avail = (\<lambda>_. True),
     cwd = lit ''/'', umask = 0, dir_allocate = (\<lambda>f _ v. (- ENOSYS, f, v)), drv_open = (\<lambda>_. None), drv_close = (\<lambda>_. None),
     drv_read = (\<lambda>_ f m _. (0, m, f)), drv_write = (\<lambda>_ f _ _. (0, f)), drv_seek = (\<lambda>_. None), drv_unlink = (\<lambda>_. None)\<rparr>"

definition demo_vfs :: "byte list \<Rightarrow> demo_fs vfs" where
  "demo_vfs c = \<lparr>v_tree = boot_tree, v_mounts = Map.empty, v_host = \<lparr>d_content = c, d_off = 0\<rparr>, v_errno = 0\<rparr>"

lemma demo_vok: "vok demo_vfs_env (demo_vfs c) 0 []"
  using boot_tree_ok demo_malloc_ok by (simp add: vok_def demo_vfs_env_def demo_vfs_def boot_tree_def)

lemma demo_db_host: "db_host (vhost demo_vfs_env) demo_view (umask demo_vfs_env) (v_host (demo_vfs c)) c"
  using demo_calls_ok by (simp add: db_host_def demo_vfs_env_def demo_vfs_def demo_calls_def demo_view_def)

text \<open>The same tree with a mount point at \<open>/host\<close>.\<close>

definition demo_mount :: "int \<Rightarrow> byte list \<Rightarrow> demo_fs vfs" where
  "demo_mount k c = \<lparr>v_tree = \<lparr>nodes = [0 \<mapsto> new_inode 0 []\<lparr>i_child := Some 1\<rparr>,
       1 \<mapsto> new_inode 1 (lit ''host'')\<lparr>i_parent := Some 0, i_crefs := k, i_flags := 3, i_ops := Some g_hostfs_operations, i_private := Some 5\<rparr>],
     g_root_inode = Some 0, g_ino = 2\<rparr>,
     v_mounts = [5 \<mapsto> \<lparr>heap = Map.empty, fs_head = None, fs_root = SLASH # replicate 255 0, hst = \<lparr>d_content = c, d_off = 0\<rparr>\<rparr>],
     v_host = \<lparr>d_content = c, d_off = 0\<rparr>, v_errno = 0\<rparr>"

lemma demo_mount_ok:
  "itree_ok (v_tree (demo_mount k c)) 0 [Tree 1 (lit ''host'') []]"
  "nodes (v_tree (demo_mount k c)) 1 = Some (new_inode 1 (lit ''host'')\<lparr>i_parent := Some 0, i_crefs := k, i_flags := 3,
     i_ops := Some g_hostfs_operations, i_private := Some 5\<rparr>)"
  "mnt_inode (new_inode 1 (lit ''host'')\<lparr>i_parent := Some 0, i_crefs := k, i_flags := 3, i_ops := Some g_hostfs_operations, i_private := Some 5\<rparr>) 5"
  by (simp_all add: itree_ok_def demo_mount_def new_inode_def cstr_def mnt_inode_def INODE_IS_TYPE_def
    FSNODEFLAG_TYPE_MASK_def FSNODEFLAG_TYPE_MOUNTPT_def)

section \<open>Properties\<close>



text \<open>
  C26. Unmounting a path below a mount point, not the mount point itself: the call fails with \<open>ENOENT\<close>, but
  the mount point is gone. \<open>umount2\<close> does not look at the rest of the path, unbinds the file system and
  only then does not find the path to remove.
\<close>

theorem umount_below_destroys:
  assumes "itree_ok (v_tree v) r ks" and "cstr path 0 s" and "path_env (path_avail E) (cwd E) s"
    and "lookup (v_tree v) r ks (full_path (cwd E) s) = Some (a, rest)" and "rest \<noteq> []"
    and "nodes (v_tree v) a = Some i" and "mnt_inode i m" and "v_mounts v m = Some x" and "fs_head x = None"
    and "lock_ok (vhost E)" and "i_child i = None" and "1 \<le> i_crefs i"
  shows "\<exists>v' j. umount2 E v (Some path) fl = Some (-1, v') \<and> v_errno v' = ENOENT \<and> v_mounts v' m = None
    \<and> nodes (v_tree v') a = Some j \<and> \<not> INODE_IS_TYPE j FSNODEFLAG_TYPE_MOUNTPT"
proof -
  let ?u = "upd_inode a (unmounted i) v"
  have ok: "itree_ok (v_tree ?u) r ks" using vtree_upd [OF assms(1,6)] by simp
  have "resolve ((is_mnt (nodes (v_tree v)))(a := False)) [Tree r [] ks] (full_path (cwd E) s) = None"
    using resolve_unmounted [where h = "nodes (v_tree v)" and a = a, OF _ _ assms(6,11) _ assms(5)] assms(1,4)
    unfolding itree_ok_def lookup_def by blast
  then have "lookup (v_tree ?u) r ks (full_path (cwd E) s) = None"
    using unmounted_type [of i] by (simp add: lookup_def is_mnt_update)
  then obtain p d where "inode_search (path_avail E) (cwd E) (v_tree ?u) path = Some (- ENOENT, p, d)"
    using search_found [OF ok assms(2,3)] by auto
  then have rm: "inode_remove (path_avail E) (cwd E) (v_tree ?u) path = Some (- ENOENT, v_tree ?u)"
    by (simp add: inode_remove_def inode_unlink_def ENOENT_def)
  let ?w = "(upd_inode a ((unmounted i)\<lparr>i_crefs := i_crefs i\<rparr>) v)\<lparr>v_mounts := (v_mounts v)(m := None)\<rparr>"
  have "vfs_release (Some a) (v\<lparr>v_mounts := (v_mounts v)(m := None), v_tree := v_tree ?u\<rparr>) = Some ?w"
    using assms(12) by (simp add: vfs_release_def inode_release_def add_crefs_def upd_inode_def)
  then have "nx_umount2 E v (Some path) fl = Some (- ENOENT, ?w)"
    using umount_run [OF assms(1-4,6-11)] rm by (simp add: ENOENT_def EBUSY_def)
  then have "umount2 E v (Some path) fl = Some (-1, ?w\<lparr>v_errno := ENOENT\<rparr>)"
    by (simp add: umount2_def errno_result_def ENOENT_def)
  moreover have "\<not> INODE_IS_TYPE ((unmounted i)\<lparr>i_crefs := i_crefs i\<rparr>) FSNODEFLAG_TYPE_MOUNTPT"
    using unmounted_type [of i] by (simp add: INODE_IS_TYPE_def)
  ultimately show ?thesis by auto
qed

theorem umount_below_destroys_witness:
  "v_mounts (demo_mount 2 []) 5 \<noteq> None \<and>
   (\<exists>v'. umount2 demo_vfs_env (demo_mount 2 []) (Some (lit ''/host/x'' @ [0])) 0 = Some (-1, v') \<and> v_errno v' = ENOENT \<and> v_mounts v' 5 = None)"
proof -
  have c: "cstr (lit ''/host/x'' @ [0]) 0 (lit ''/host/x'')" "path_env (path_avail demo_vfs_env) (cwd demo_vfs_env) (lit ''/host/x'')"
    by (simp_all add: cstr_def path_env_def)
  have l: "lookup (v_tree (demo_mount 2 [])) 0 [Tree 1 (lit ''host'') []] (full_path (cwd demo_vfs_env) (lit ''/host/x'')) = Some (1, lit ''x'')"
    by code_simp
  obtain x where m: "v_mounts (demo_mount 2 []) 5 = Some x" "fs_head x = None" by (simp add: demo_mount_def)
  have k: "lock_ok (vhost demo_vfs_env)" using demo_calls_ok(1) by (simp add: demo_vfs_env_def)
  have "lit ''x'' \<noteq> []" by simp
  from umount_below_destroys [OF demo_mount_ok(1) c l this demo_mount_ok(2,3) m k, of 0] show ?thesis using m(1)
    by (auto simp: new_inode_def simp del: lit_Cons)
qed

text \<open>
  C25. Unmounting: for a mount point without children and without open files, \<open>umount2\<close> succeeds, the handle
  is freed, the path is not found any more and every other inode is found where it was. The inode is
  freed if the mount holds its only reference, as when \<open>mount\<close> made it. A directory made before the
  mount, as by the dictionary program, has one more, so the inode stays allocated outside the tree.
\<close>

theorem umount_correct:
  assumes "itree_ok (v_tree v) r ks" and "cstr path 0 s" and "path_env (path_avail E) (cwd E) s"
    and "lookup (v_tree v) r ks (full_path (cwd E) s) = Some (a, [])" and "a \<noteq> r"
    and "nodes (v_tree v) a = Some i" and "mnt_inode i m" and "v_mounts v m = Some x" and "fs_head x = None"
    and "lock_ok (vhost E)" and "i_child i = None" and "1 \<le> i_crefs i"
  shows "\<exists>v' ks'. umount2 E v (Some path) fl = Some (0, v') \<and> itree_ok (v_tree v') r ks' \<and> v_mounts v' = (v_mounts v)(m := None)
    \<and> lookup (v_tree v') r ks' (full_path (cwd E) s) = None
    \<and> (\<forall>s' b u. lookup (v_tree v') r ks' s' = Some (b, u) \<longleftrightarrow> lookup (v_tree v) r ks s' = Some (b, u) \<and> b \<noteq> a)
    \<and> map_option i_crefs (nodes (v_tree v') a) = (if i_crefs i = 1 then None else Some (i_crefs i - 1))"
proof -
  let ?u = "upd_inode a (unmounted i) v" and ?s = "full_path (cwd E) s"
  have ok: "itree_ok (v_tree ?u) r ks" using vtree_upd [OF assms(1,6)] by simp
  have un: "lookup (v_tree ?u) r ks = resolve ((is_mnt (nodes (v_tree v)))(a := False)) [Tree r [] ks]"
    using unmounted_type [of i] by (simp add: lookup_def is_mnt_update)
  have oth: "lookup (v_tree ?u) r ks s' = Some (b, w) \<longleftrightarrow> lookup (v_tree v) r ks s' = Some (b, w)" if "b \<noteq> a" for s' b w
    using resolve_unmounted_other [where h = "nodes (v_tree v)" and a = a and b = b, OF _ _ assms(6,11) that] assms(1) unfolding un unfolding itree_ok_def lookup_def by blast
  have at: "lookup (v_tree ?u) r ks ?s = Some (a, [])"
    using resolve_unmounted_at assms(4) unfolding un unfolding lookup_def by blast
  obtain t' ks' where t: "inode_remove (path_avail E) (cwd E) (v_tree ?u) path = Some (- EBUSY, t')" "itree_ok t' r ks'"
      "a \<notin> set (r # addrs ks')" "set (addrs ks) = insert a (set (addrs ks'))"
      "nodes t' a = Some ((unmounted i)\<lparr>i_peer := None, i_parent := None, i_crefs := i_crefs i\<rparr>)"
      "\<forall>s' b w. lookup t' r ks' s' = Some (b, w) \<longleftrightarrow> lookup (v_tree ?u) r ks s' = Some (b, w) \<and> b \<in> set (r # addrs ks')"
    using inode_remove_ok [OF ok assms(2,3) at assms(5)] assms(11,12) by auto
  define z where "z = (if i_crefs i = 1 then None else Some ((unmounted i)\<lparr>i_peer := None, i_parent := None, i_crefs := i_crefs i - 1\<rparr>))"
  let ?v = "v\<lparr>v_mounts := (v_mounts v)(m := None), v_tree := t'\<lparr>nodes := (nodes t')(a := z)\<rparr>\<rparr>"
  have "vfs_release (Some a) (v\<lparr>v_mounts := (v_mounts v)(m := None), v_tree := t'\<rparr>) = Some ?v"
    using release_outside [OF t(5)] assms(11,12) by (auto simp: vfs_release_def z_def)
  then have run: "umount2 E v (Some path) fl = Some (0, ?v)"
    using umount_run [OF assms(1-4,6-11)] t(1) by (simp add: umount2_def errno_result_def)
  have lk: "lookup (v_tree ?v) r ks' s' = Some (b, w) \<longleftrightarrow> lookup (v_tree v) r ks s' = Some (b, w) \<and> b \<noteq> a" for s' b w
  proof -
    have "lookup (v_tree v) r ks s' = Some (b, w) \<Longrightarrow> b \<in> set (r # addrs ks)" unfolding lookup_def using resolve_addr by fastforce
    then show ?thesis using itree_ok_outside(2) [OF t(2,3), of z s'] t(3,4,6) oth [of b s' w] by (cases "b = a") auto
  qed
  have "lookup (v_tree ?v) r ks' ?s = None"
  proof (cases "lookup (v_tree ?v) r ks' ?s")
    case (Some y)
    then show ?thesis using lk [of ?s "fst y" "snd y"] assms(4) by auto
  qed
  moreover have "itree_ok (v_tree ?v) r ks'" using itree_ok_outside(1) [OF t(2,3)] by simp
  moreover have "map_option i_crefs (nodes (v_tree ?v) a) = (if i_crefs i = 1 then None else Some (i_crefs i - 1))"
    by (simp add: z_def)
  ultimately show ?thesis using run lk by (intro exI [of _ ?v] exI [of _ ks']) simp
qed

theorem umount_correct_witness:
  "\<exists>v' ks'. umount2 demo_vfs_env (demo_mount 2 []) (Some (lit ''/host'' @ [0])) 0 = Some (0, v')
    \<and> lookup (v_tree v') 0 ks' (lit ''/host'') = None \<and> map_option i_crefs (nodes (v_tree v') 1) = Some 1"
proof -
  have c: "cstr (lit ''/host'' @ [0]) 0 (lit ''/host'')" "path_env (path_avail demo_vfs_env) (cwd demo_vfs_env) (lit ''/host'')"
      "full_path (cwd demo_vfs_env) (lit ''/host'') = lit ''/host''"
    by (simp_all add: cstr_def path_env_def full_path_def)
  have l: "lookup (v_tree (demo_mount 2 [])) 0 [Tree 1 (lit ''host'') []] (full_path (cwd demo_vfs_env) (lit ''/host'')) = Some (1, [])"
    by code_simp
  obtain x where m: "v_mounts (demo_mount 2 []) 5 = Some x" "fs_head x = None" by (simp add: demo_mount_def)
  have k: "lock_ok (vhost demo_vfs_env)" using demo_calls_ok(1) by (simp add: demo_vfs_env_def)
  have "(1 :: nat) \<noteq> 0" by simp
  from umount_correct [OF demo_mount_ok(1) c(1,2) l this demo_mount_ok(2,3) m k, of 0] show ?thesis
    unfolding c(3) by (auto simp: new_inode_def simp del: lit_Cons)
qed

lemma release_ref:
  "nodes (v_tree v) a = Some i \<Longrightarrow> 1 \<le> i_crefs i \<Longrightarrow>
   vfs_release (Some a) (upd_mnt m y (upd_inode a (i\<lparr>i_crefs := i_crefs i + 1\<rparr>) v)) = Some (upd_mnt m y v)"
  by (simp add: vfs_release_def inode_release_def add_crefs_def upd_mnt_def upd_inode_def fun_upd_idem)

text \<open>
  C28. Paths below a mount point: \<open>unlink\<close>, \<open>rmdir\<close> and \<open>mkdir\<close> on such a path call the file system of
  the mount point with the rest of the path. Its result is the result, an error in \<open>errno\<close>, and the tree
  of inodes is as before, references included.
\<close>

theorem paths_below_mount:
  assumes "itree_ok (v_tree v) r ks" and "cstr path 0 s" and "path_env (path_avail E) (cwd E) s"
    and "lookup (v_tree v) r ks (full_path (cwd E) s) = Some (a, rest)" and "rest \<noteq> []"
    and "nodes (v_tree v) a = Some i" and "mnt_inode i m" and "v_mounts v m = Some x" and "1 \<le> i_crefs i"
  shows "\<exists>rel. cstr rel 0 rest \<and> (\<forall>ret y mode.
      (hostfs_unlink (vhost E) (x\<lparr>hst := v_host v\<rparr>) rel = Some (ret, y) \<longrightarrow> unlink E v path = Some (errno_result (min ret 0, upd_mnt m y v)))
    \<and> (hostfs_rmdir (vhost E) (x\<lparr>hst := v_host v\<rparr>) rel = Some (ret, y) \<longrightarrow> rmdir E v path = Some (errno_result (min ret 0, upd_mnt m y v)))
    \<and> (hostfs_mkdir (vhost E) (x\<lparr>hst := v_host v\<rparr>) rel (uint (mode AND NOT (umask E))) = Some (ret, y) \<longrightarrow>
        mkdir E v path mode = Some (errno_result (min ret 0, upd_mnt m y v))))"
proof -
  obtain p d q where f: "vfs_find E v path = Some (0, p, d, upd_inode a (i\<lparr>i_crefs := i_crefs i + 1\<rparr>) v)" "sd_node d = Some a"
      "sd_relpath d = Some q" "cstr p q rest"
    using vfs_find_some [OF assms(1-4)] assms(6) by (metis option.inject)
  have c: "cstr (drop q p) 0 rest" using f(4) by (simp add: cstr_def)
  obtain b where b: "rd p q = Some b" "b \<noteq> 0"
    using cstr_rd0 [OF f(4)] cstr_nonzero [OF f(4)] assms(5) by (cases rest) auto
  note ty = mnt_inode_types [of "i\<lparr>i_crefs := i_crefs i + 1\<rparr>" m, simplified, OF assms(7)]
  note rel = release_ref [OF assms(6,9), unfolded upd_mnt_def]
  have "unlink E v path = Some (errno_result (min ret 0, upd_mnt m y v))"
    if "hostfs_unlink (vhost E) (x\<lparr>hst := v_host v\<rparr>) (drop q p) = Some (ret, y)" for ret y
    using f(1-3) ty assms(8) that rel by (simp add: unlink_def nx_unlink_def mnt_call_def upd_mnt_def)
  moreover have "rmdir E v path = Some (errno_result (min ret 0, upd_mnt m y v))"
    if "hostfs_rmdir (vhost E) (x\<lparr>hst := v_host v\<rparr>) (drop q p) = Some (ret, y)" for ret y
    using f(1-3) ty assms(8) that rel by (simp add: rmdir_def mnt_call_def upd_mnt_def)
  moreover have "mkdir E v path mode = Some (errno_result (min ret 0, upd_mnt m y v))"
    if "hostfs_mkdir (vhost E) (x\<lparr>hst := v_host v\<rparr>) (drop q p) (uint (mode AND NOT (umask E))) = Some (ret, y)" for ret y mode
    using f(1-3) ty assms(8) that rel b by (simp add: mkdir_def mnt_call_def upd_mnt_def)
  ultimately show ?thesis using c by blast
qed

theorem paths_below_mount_witness:
  "\<exists>rel. cstr rel 0 (lit ''x'') \<and> (\<forall>ret y. hostfs_unlink (vhost demo_vfs_env)
      ((the (v_mounts (demo_mount 2 []) 5))\<lparr>hst := v_host (demo_mount 2 [])\<rparr>) rel = Some (ret, y) \<longrightarrow>
    unlink demo_vfs_env (demo_mount 2 []) (lit ''/host/x'' @ [0]) = Some (errno_result (min ret 0, upd_mnt 5 y (demo_mount 2 []))))"
proof -
  have c: "cstr (lit ''/host/x'' @ [0]) 0 (lit ''/host/x'')" "path_env (path_avail demo_vfs_env) (cwd demo_vfs_env) (lit ''/host/x'')"
    by (simp_all add: cstr_def path_env_def)
  have l: "lookup (v_tree (demo_mount 2 [])) 0 [Tree 1 (lit ''host'') []] (full_path (cwd demo_vfs_env) (lit ''/host/x'')) = Some (1, lit ''x'')"
    by code_simp
  obtain x where m: "v_mounts (demo_mount 2 []) 5 = Some x" by (simp add: demo_mount_def)
  have "lit ''x'' \<noteq> []" by simp
  from paths_below_mount [OF demo_mount_ok(1) c l this demo_mount_ok(2,3) m] show ?thesis
    using m by (auto simp: new_inode_def simp del: lit_Cons)
qed

text \<open>
  C27. A directory made and removed: where a path is not found, \<open>mkdir\<close> succeeds and \<open>rmdir\<close> after it as well;
  the path is not found again, its inode is freed, and everything found before is found where it was.
\<close>

theorem mkdir_rmdir:
  assumes "vok E v r ks" and "cstr path 0 s" and "s \<noteq> []" and "path_env (path_avail E) (cwd E) s"
    and "lookup (v_tree v) r ks (full_path (cwd E) s) = None"
  shows "\<exists>a v1 ks1 v2 ks2. mkdir E v path mode = Some (0, v1) \<and> lookup (v_tree v1) r ks1 (full_path (cwd E) s) = Some (a, [])
    \<and> rmdir E v1 path = Some (0, v2) \<and> itree_ok (v_tree v2) r ks2 \<and> lookup (v_tree v2) r ks2 (full_path (cwd E) s) = None
    \<and> nodes (v_tree v2) a = None \<and> (\<forall>s' b u. lookup (v_tree v) r ks s' = Some (b, u) \<longrightarrow> lookup (v_tree v2) r ks2 s' = Some (b, u))"
proof -
  let ?s = "full_path (cwd E) s"
  obtain t ks1 a i n z where t: "mkdir E v path mode = Some (0, v\<lparr>v_tree := t\<rparr>)" "itree_ok t r ks1" "keeps (nodes (v_tree v)) (nodes t)"
      "nodes (v_tree v) a = None" "lookup t r ks1 ?s = Some (a, [])" "nodes t a = Some i"
      "i = new_inode n z\<lparr>i_parent := i_parent i, i_peer := i_peer i\<rparr>"
      "\<forall>s' b u. nodes (v_tree v) b \<noteq> None \<longrightarrow> (lookup t r ks1 s' = Some (b, u) \<longleftrightarrow> lookup (v_tree v) r ks s' = Some (b, u))"
    by (rule mkdir_new [OF assms]) simp
  let ?v = "v\<lparr>v_tree := t\<rparr>" and ?i = "i\<lparr>i_crefs := i_crefs i + 1\<rparr>"
  have i: "i_ops i = None" "i_child i = None" "i_crefs i = 1" "\<not> INODE_IS_TYPE i FSNODEFLAG_TYPE_MOUNTPT"
    by (subst t(7), simp add: new_inode_def INODE_IS_TYPE_def FSNODEFLAG_TYPE_MOUNTPT_def)+
  have ar: "a \<noteq> r" using t(4) assms(1) by (auto simp: vok_def itree_ok_def)
  have v1: "itree_ok (v_tree ?v) r ks1" "vlookup E ?v r ks1 s = Some (a, [])" "nodes (v_tree ?v) a = Some i" using t by simp_all
  obtain p d q where f: "vfs_find E ?v path = Some (0, p, d, upd_inode a ?i ?v)" "sd_node d = Some a" "sd_relpath d = Some q"
    using vfs_find_some [OF v1(1) assms(2,4) v1(2)] v1(3) by (metis option.inject)
  let ?t = "v_tree (upd_inode a ?i ?v)"
  have ok: "itree_ok ?t r ks1" using vtree_upd [of ?v r ks1 a i ?i] t(2,6) by simp
  have lk: "lookup ?t r ks1 = lookup t r ks1" using lookup_crefs [OF t(6), of ?i] by (simp add: upd_inode_def)
  obtain t2 ks2 where u: "inode_remove (path_avail E) (cwd E) ?t path = Some (- EBUSY, t2)" "itree_ok t2 r ks2"
      "a \<notin> set (r # addrs ks2)" "set (addrs ks1) = insert a (set (addrs ks2))"
      "nodes t2 a = Some (?i\<lparr>i_peer := None, i_parent := None, i_crefs := 1\<rparr>)"
      "\<forall>s' b w. lookup t2 r ks2 s' = Some (b, w) \<longleftrightarrow> lookup t r ks1 s' = Some (b, w) \<and> b \<in> set (r # addrs ks2)"
    using inode_remove_ok [OF ok assms(2,4) _ ar] t(5) lk i(2,3) by auto
  let ?t2 = "t2\<lparr>nodes := (nodes t2)(a := None)\<rparr>"
  have rel: "inode_release (Some a) t2 = Some ?t2" using release_outside [OF u(5)] i(2) by simp
  have run: "rmdir E ?v path = Some (0, v\<lparr>v_tree := ?t2\<rparr>)"
    using f i u(1) rel by (simp add: rmdir_def remove_inode_def vfs_release_def errno_result_def INODE_IS_TYPE_def upd_inode_def)
  have lk2: "lookup ?t2 r ks2 s' = Some (b, w) \<longleftrightarrow> lookup t r ks1 s' = Some (b, w) \<and> b \<noteq> a" for s' b w
  proof -
    have "lookup t r ks1 s' = Some (b, w) \<Longrightarrow> b \<in> set (r # addrs ks1)" unfolding lookup_def using resolve_addr by fastforce
    then show ?thesis using itree_ok_outside(2) [OF u(2,3), of None s'] u(3,4,6) by auto
  qed
  have "lookup ?t2 r ks2 s' = Some (b, w)" if "lookup (v_tree v) r ks s' = Some (b, w)" for s' b w
  proof -
    have "nodes (v_tree v) b \<noteq> None" using lookup_dom [OF _ that] assms(1) by (auto simp: vok_def)
    moreover then have "b \<noteq> a" using t(4) by auto
    ultimately show ?thesis using t(8) that lk2 by blast
  qed
  moreover have "lookup ?t2 r ks2 ?s = None"
  proof (cases "lookup ?t2 r ks2 ?s")
    case (Some y)
    then show ?thesis using lk2 [of ?s "fst y" "snd y"] t(5) by auto
  qed
  moreover have "itree_ok ?t2 r ks2" using itree_ok_outside(1) [OF u(2,3)] .
  ultimately show ?thesis using t(1,5) run
    by (intro exI [of _ a] exI [of _ ?v] exI [of _ ks1] exI [of _ "v\<lparr>v_tree := ?t2\<rparr>"] exI [of _ ks2]) simp
qed

theorem mkdir_rmdir_witness:
  "\<exists>v1 v2. mkdir demo_vfs_env (demo_vfs []) (lit ''/a/b'' @ [0]) 0x1ff = Some (0, v1) \<and> rmdir demo_vfs_env v1 (lit ''/a/b'' @ [0]) = Some (0, v2)"
proof -
  have c: "cstr (lit ''/a/b'' @ [0]) 0 (lit ''/a/b'')" "lit ''/a/b'' \<noteq> []" "path_env (path_avail demo_vfs_env) (cwd demo_vfs_env) (lit ''/a/b'')"
    by (simp_all add: cstr_def path_env_def)
  have "lookup (v_tree (demo_vfs [])) 0 [] (full_path (cwd demo_vfs_env) (lit ''/a/b'')) = None" by code_simp
  from mkdir_rmdir [OF demo_vok c this] show ?thesis by blast
qed

end
