(* ===== verification/BuildDb.thy ===== *)
theory BuildDb
  imports Dict DictLib "HOL-Library.Multiset"
begin

text \<open>
  The database builder, \<open>Dictionary_Resources/build_db.py\<close>: the tables \<open>word\<close>, \<open>word_form\<close> and
  \<open>kanji\<close> from the entries of JMdict and the characters of KANJIDIC2, and how the columns it writes
  fit the routines of \<open>dict.c\<close> that read them.

  The XML parser is not part of the repository: an entry is what the calls of \<open>find\<close>, \<open>findall\<close>
  and \<open>findtext\<close> deliver, a text that is missing is \<open>None\<close>. An exception of the script is the
  value \<open>None\<close>; \<open>committed\<close> is what the file holds in that case too. Text is UTF-8.
\<close>

section \<open>Definitions\<close>

text \<open>
  \<open>ent_seq\<close> is the value of \<open>int(...)\<close> on the text, \<open>None\<close> where this or binding the value to a
  column of 64 bits raises; so are the numbers of a character.
\<close>

record xml_sense =
  pos :: "byte list option list"
  gloss :: "byte list option list"

record xml_entry =
  ent_seq :: "int option"
  keb :: "byte list option list"
  reb :: "byte list option list"
  sense :: "xml_sense list"

text \<open>\<open>stroke_count\<close> and \<open>grade\<close>: missing or empty, or a text with the value of \<open>int\<close> on it.\<close>

record xml_character =
  literal :: "byte list option"
  stroke_count :: "int option option"
  grade :: "int option option"
  ja_on :: "byte list option list"
  ja_kun :: "byte list option list"
  meaning :: "(byte list option \<times> byte list option) list"

record word_row =
  w_ent_seq :: int
  w_row :: row

record kanji_row =
  k_literal :: "byte list option"
  k_stroke_count :: "int option"
  k_grade :: "int option"
  k_on :: "byte list"
  k_kun :: "byte list"
  k_meanings :: "byte list"

record tables =
  word :: "word_row list"
  word_form :: "(byte list \<times> int) list"
  kanji_table :: "kanji_row list"

text \<open>\<open>sep.join(xs)\<close>, which raises for an element that is not a string.\<close>

fun join :: "byte list \<Rightarrow> byte list list \<Rightarrow> byte list" where
  "join sep [] = []"
| "join sep [x] = x"
| "join sep (x # y # xs) = x @ sep @ join sep (y # xs)"

definition py_join :: "byte list \<Rightarrow> byte list option list \<Rightarrow> byte list option" where
  "py_join sep xs = (if None \<in> set xs then None else Some (join sep (map the xs)))"

definition sense_line :: "xml_sense \<Rightarrow> byte list option" where
  "sense_line s = do {
     prefix \<leftarrow> (if pos s \<noteq> [] then do { p \<leftarrow> py_join (lit '', '') (pos s); Some (lit ''['' @ p @ lit ''] '') }
               else Some []);
     g \<leftarrow> py_join (lit ''; '') (gloss s);
     Some (prefix @ g) }"

fun sense_lines :: "xml_sense list \<Rightarrow> byte list list option" where
  "sense_lines [] = Some []"
| "sense_lines (s # ss) = do { l \<leftarrow> sense_line s; ls \<leftarrow> sense_lines ss; Some (l # ls) }"

definition NEWLINE :: "byte list" where "NEWLINE = [0x0A]"

text \<open>
  One entry. The key of \<open>word\<close> is unique: a second insert raises. \<open>py_set\<close> is the iteration over a
  Python set, whose order is not defined.
\<close>

definition build_entry ::
  "(byte list list \<Rightarrow> byte list list) \<Rightarrow> xml_entry \<Rightarrow> tables \<Rightarrow> tables option" where
  "build_entry py_set e t = do {
     seq \<leftarrow> ent_seq e;
     lines \<leftarrow> sense_lines (sense e);
     rs \<leftarrow> py_join (lit '';'') (reb e);
     ks \<leftarrow> py_join (lit '';'') (keb e);
     let r = \<lparr>kanji = Some ks, readings = Some rs, senses = Some (join NEWLINE lines)\<rparr>;
     t \<leftarrow> (if seq \<in> w_ent_seq ` set (word t) then None
          else Some (t\<lparr>word := word t @ [\<lparr>w_ent_seq = seq, w_row = r\<rparr>]\<rparr>));
     Some (t\<lparr>word_form := word_form t @ map (\<lambda>f. (f, seq)) (py_set (map the (keb e @ reb e)))\<rparr>) }"

fun build_words ::
  "(byte list list \<Rightarrow> byte list list) \<Rightarrow> xml_entry list \<Rightarrow> tables \<Rightarrow> tables option" where
  "build_words py_set [] t = Some t"
| "build_words py_set (e # es) t = do { t \<leftarrow> build_entry py_set e t; build_words py_set es t }"

text \<open>
  One character. Meanings with a language are left out; a row with the same literal is replaced. The
  key is a \<open>TEXT PRIMARY KEY\<close>, in which NULL is not equal to NULL.
\<close>

definition int_or_null :: "int option option \<Rightarrow> int option option" where
  "int_or_null v = (case v of None \<Rightarrow> Some None | Some i \<Rightarrow> map_option Some i)"

definition build_character :: "xml_character \<Rightarrow> tables \<Rightarrow> tables option" where
  "build_character c t = do {
     stroke \<leftarrow> int_or_null (stroke_count c);
     gr \<leftarrow> int_or_null (grade c);
     on \<leftarrow> py_join (lit '';'') (ja_on c);
     kun \<leftarrow> py_join (lit '';'') (ja_kun c);
     mean \<leftarrow> py_join (lit '';'') (map snd (filter (\<lambda>m. fst m = None) (meaning c)));
     let r = \<lparr>k_literal = literal c, k_stroke_count = stroke, k_grade = gr, k_on = on, k_kun = kun, k_meanings = mean\<rparr>;
     Some (t\<lparr>kanji_table :=
       filter (\<lambda>x. k_literal x = None \<or> k_literal x \<noteq> literal c) (kanji_table t) @ [r]\<rparr>) }"

fun build_characters :: "xml_character list \<Rightarrow> tables \<Rightarrow> tables option" where
  "build_characters [] t = Some t"
| "build_characters (c # cs) t = do { t \<leftarrow> build_character c t; build_characters cs t }"

definition new_tables :: tables where
  "new_tables = \<lparr>word = [], word_form = [], kanji_table = []\<rparr>"

definition build ::
  "(byte list list \<Rightarrow> byte list list) \<Rightarrow> xml_entry list \<Rightarrow> xml_character list \<Rightarrow> tables option" where
  "build py_set es cs = do {
     t \<leftarrow> build_words py_set es new_tables;
     build_characters cs t }"

text \<open>
  The file after the run: the tables are created outside a transaction, the words are committed after
  the last entry and the characters at the end; what an exception interrupts is rolled back.
\<close>

definition committed ::
  "(byte list list \<Rightarrow> byte list list) \<Rightarrow> xml_entry list \<Rightarrow> xml_character list \<Rightarrow> tables" where
  "committed py_set es cs =
     (case build_words py_set es new_tables of None \<Rightarrow> new_tables
      | Some t \<Rightarrow> (case build_characters cs t of None \<Rightarrow> t | Some t' \<Rightarrow> t'))"

section \<open>Specification\<close>

text \<open>The texts of an entry, and the entries the format can carry: no separator inside an element.\<close>

definition readings_of :: "xml_entry \<Rightarrow> byte list list" where
  "readings_of e = map the (reb e)"

definition kanji_of :: "xml_entry \<Rightarrow> byte list list" where
  "kanji_of e = map the (keb e)"

definition forms_of :: "xml_entry \<Rightarrow> byte list list" where
  "forms_of e = kanji_of e @ readings_of e"

definition gloss_text :: "xml_sense \<Rightarrow> byte list" where
  "gloss_text s = join (lit ''; '') (map the (gloss s))"

definition glosses :: "xml_entry \<Rightarrow> byte list" where
  "glosses e = join NEWLINE (map gloss_text (sense e))"

definition tidy_sense :: "xml_sense \<Rightarrow> bool" where
  "tidy_sense s \<longleftrightarrow> None \<notin> set (pos s) \<and> None \<notin> set (gloss s)
     \<and> 0x5D \<notin> set (concat (map the (pos s))) \<and> 0x5B \<notin> set (gloss_text s)
     \<and> (gloss_text s = [] \<or> \<not> blank (hd (gloss_text s)))
     \<and> 0 \<notin> set (concat (map the (pos s @ gloss s)))"

definition tidy :: "xml_entry \<Rightarrow> bool" where
  "tidy e \<longleftrightarrow> ent_seq e \<noteq> None \<and> None \<notin> set (keb e @ reb e)
     \<and> (\<forall>f \<in> set (forms_of e). f \<noteq> [] \<and> 0x3B \<notin> set f \<and> 0 \<notin> set f)
     \<and> reb e \<noteq> [] \<and> list_all tidy_sense (sense e)"

definition entry_row :: "xml_entry \<Rightarrow> row" where
  "entry_row e = \<lparr>kanji = Some (join (lit '';'') (kanji_of e)), readings = Some (join (lit '';'') (readings_of e)),
     senses = Some (join NEWLINE (the (sense_lines (sense e))))\<rparr>"

section \<open>The columns and their readers\<close>

lemma first_element_join:
  assumes "x # xs = ys" and "0x3B \<notin> set x"
  shows "first_element (join (lit '';'') ys) = x"
proof -
  have t: "takeWhile (\<lambda>b. b \<noteq> 0x3B) x = x" using assms(2) by (auto simp: takeWhile_eq_all_conv)
  show ?thesis using assms t by (cases xs) (auto simp: first_element_def takeWhile_append)
qed

lemma join_Cons: "xs \<noteq> [] \<Longrightarrow> join sep (x # xs) = x @ sep @ join sep xs"
  by (cases xs) simp_all

lemma set_join: "set (join sep xs) \<subseteq> set sep \<union> set (concat xs)"
  by (induction sep xs rule: join.induct) auto

lemma py_join_Some: "None \<notin> set xs \<Longrightarrow> py_join sep xs = Some (join sep (map the xs))"
  by (simp add: py_join_def)

text \<open>A reading is found between its separators exactly if it is one of the readings.\<close>

lemma sublist_skip: "c \<notin> set r \<Longrightarrow> sublist (c # q) (r @ y) \<longleftrightarrow> sublist (c # q) y"
  by (induction r) (auto simp: sublist_Cons_right)

lemma prefix_element:
  "c \<notin> set q \<Longrightarrow> c \<notin> set r \<Longrightarrow> prefix (q @ [c]) (r @ c # y) \<longleftrightarrow> q = r"
proof (induction q arbitrary: r)
  case Nil
  then show ?case by (cases r) auto
next
  case (Cons a q)
  then show ?case by (cases r) auto
qed

lemma sublist_join:
  "c \<notin> set q \<Longrightarrow> \<forall>r \<in> set rs. c \<notin> set r \<Longrightarrow> rs \<noteq> [] \<Longrightarrow>
   sublist (c # q @ [c]) (c # join [c] rs @ [c]) \<longleftrightarrow> q \<in> set rs"
proof (induction rs rule: induct_list012)
  case (2 r)
  have "\<not> sublist (c # q @ [c]) [c]" by (auto simp: sublist_Cons_right)
  then show ?case
    using 2 prefix_element [of c q r "[]"] sublist_skip [of c r "q @ [c]" "[c]"]
    by (auto simp: sublist_Cons_right)
next
  case (3 r r' rs)
  then show ?case
    using prefix_element [of c q r "join [c] (r' # rs) @ [c]"]
      sublist_skip [of c r "q @ [c]" "c # join [c] (r' # rs) @ [c]"]
    by (auto simp: sublist_Cons_right)
qed simp

text \<open>The reader strips the parts of speech the builder puts in front of each sense.\<close>

definition line_of :: "xml_sense \<Rightarrow> byte list" where
  "line_of s = (if pos s \<noteq> [] then lit ''['' @ join (lit '', '') (map the (pos s)) @ lit ''] '' else []) @ gloss_text s"

definition sense_good :: "xml_sense \<Rightarrow> bool" where
  "sense_good s \<longleftrightarrow> None \<notin> set (pos s) \<and> None \<notin> set (gloss s)"

lemma sense_line_eq: "sense_line s = (if sense_good s then Some (line_of s) else None)"
  by (auto simp: sense_line_def sense_good_def py_join_def line_of_def gloss_text_def)

lemma sense_lines_eq: "sense_lines ss = (if list_all sense_good ss then Some (map line_of ss) else None)"
  by (induction ss) (auto simp: sense_line_eq)

lemma strip_append: "0x5B \<notin> set x \<Longrightarrow> strip (x @ y) = x @ strip y"
  by (induction x) auto

lemma strip_group:
  assumes "0x5D \<notin> set p"
  shows "strip (0x5B # p @ 0x5D # y) = strip (dropWhile blank y)"
proof -
  have "dropWhile (\<lambda>b. b \<noteq> 0x5D) (p @ 0x5D # y) = 0x5D # y"
    using assms by (induction p) auto
  then show ?thesis by simp
qed

lemma strip_line:
  assumes "tidy_sense s" and "y = [] \<or> hd y = 0x0A"
  shows "strip (line_of s @ y) = gloss_text s @ strip y"
proof -
  define g where "g = gloss_text s"
  define p where "p = join (lit '', '') (map the (pos s))"
  have g: "0x5B \<notin> set g" "g = [] \<or> \<not> blank (hd g)" using assms(1) by (simp_all add: tidy_sense_def g_def)
  have "set p \<subseteq> set (lit '', '') \<union> set (concat (map the (pos s)))" unfolding p_def by (rule set_join)
  then have p: "0x5D \<notin> set p" using assms(1) by (auto simp: tidy_sense_def)
  have "dropWhile blank (g @ y) = g @ y"
    using g(2) assms(2) by (cases g; cases y) (auto simp: blank_def)
  then have "strip (0x5B # p @ 0x5D # 0x20 # g @ y) = g @ strip y"
    using strip_group [OF p, of "0x20 # g @ y"] strip_append [OF g(1), of y] by (simp add: blank_def)
  then show ?thesis
    using strip_append [OF g(1), of y] unfolding line_of_def g_def [symmetric] p_def [symmetric] by simp
qed

lemma strip_lines:
  "list_all tidy_sense ss \<Longrightarrow> strip (join NEWLINE (map line_of ss)) = join NEWLINE (map gloss_text ss)"
proof (induction ss)
  case (Cons s ss)
  show ?case
  proof (cases "ss = []")
    case True
    then show ?thesis using Cons.prems strip_line [of s "[]"] by simp
  next
    case False
    define r where "r = join NEWLINE (map line_of ss)"
    have "strip (line_of s @ 0x0A # r) = gloss_text s @ 0x0A # strip r"
      using Cons.prems strip_line [of s "0x0A # r"] by simp
    then show ?thesis using Cons False by (simp add: join_Cons NEWLINE_def r_def)
  qed
qed simp

lemma tidy_sense_good: "tidy_sense s \<Longrightarrow> sense_good s"
  by (simp add: tidy_sense_def sense_good_def)

lemma ctext_join: "0 \<notin> set sep \<Longrightarrow> 0 \<notin> set (concat xs) \<Longrightarrow> ctext (join sep xs) = join sep xs"
  using set_join [of sep xs] by (auto simp: ctext_def takeWhile_eq_all_conv)

lemma line_nonzero: "tidy_sense s \<Longrightarrow> 0 \<notin> set (line_of s)"
  using set_join [of "lit '', ''" "map the (pos s)"] set_join [of "lit ''; ''" "map the (gloss s)"]
  by (auto simp: tidy_sense_def line_of_def gloss_text_def)

lemma detail_of_entry:
  assumes "tidy e"
  shows "detail_of (entry_row e) = rtrim (take 511 (glosses e))"
proof -
  have t: "list_all tidy_sense (sense e)" using assms by (simp add: tidy_def)
  then have "list_all sense_good (sense e)" by (auto simp: list_all_iff tidy_sense_good)
  moreover have "ctext (join NEWLINE (map line_of (sense e))) = join NEWLINE (map line_of (sense e))"
    using t line_nonzero by (intro ctext_join) (auto simp: NEWLINE_def list_all_iff)
  ultimately show ?thesis
    using strip_lines [OF t]
    by (simp add: detail_of_def sanitized_def entry_row_def sense_lines_eq glosses_def DICT_DETAIL_LEN_def)
qed

text \<open>The word a reader sees: the first kanji form with the first reading, or the first reading.\<close>

definition shown_word :: "xml_entry \<Rightarrow> byte list" where
  "shown_word e = (case kanji_of e of [] \<Rightarrow> hd (readings_of e)
     | k # _ \<Rightarrow> k @ lit '' ('' @ hd (readings_of e) @ lit '') '')"

lemma word_of_entry:
  assumes "tidy e" and "length (shown_word e) < DICT_WORD_LEN"
  shows "word_of (entry_row e) = shown_word e"
proof -
  have f: "\<And>x. x \<in> set (kanji_of e) \<or> x \<in> set (readings_of e) \<Longrightarrow> x \<noteq> [] \<and> 0x3B \<notin> set x \<and> 0 \<notin> set x"
    using assms(1) by (auto simp: tidy_def forms_of_def)
  have ct: "ctext (join (lit '';'') (kanji_of e)) = join (lit '';'') (kanji_of e)"
      "ctext (join (lit '';'') (readings_of e)) = join (lit '';'') (readings_of e)"
    using f by (auto intro!: ctext_join)
  obtain r rs where r: "readings_of e = r # rs" using assms(1) by (cases "reb e") (auto simp: tidy_def readings_of_def)
  have fr: "first_of (readings (entry_row e)) = r"
    using first_element_join [of r rs] f [of r] r ct by (simp add: first_of_def entry_row_def)
  show ?thesis
  proof (cases "kanji_of e")
    case Nil
    then have "\<not> has_text (kanji (entry_row e))" by (simp add: has_text_def entry_row_def ctext_def)
    then show ?thesis
      using assms(2) Nil r fr by (simp add: word_of_def word_text_def shown_word_def DICT_WORD_LEN_def)
  next
    case (Cons k ks)
    have fk: "first_of (kanji (entry_row e)) = k"
      using first_element_join [of k ks] f [of k] Cons ct by (simp add: first_of_def entry_row_def)
    have "join (lit '';'') (k # ks) \<noteq> []" using f [of k] Cons by (cases ks) auto
    then have "has_text (kanji (entry_row e))" using Cons ct by (simp add: has_text_def entry_row_def)
    then show ?thesis
      using assms(2) Cons r fr fk by (simp add: word_of_def word_text_def shown_word_def DICT_WORD_LEN_def Let_def)
  qed
qed

section \<open>The tables\<close>

definition entry_good :: "xml_entry \<Rightarrow> bool" where
  "entry_good e \<longleftrightarrow> ent_seq e \<noteq> None \<and> None \<notin> set (keb e) \<and> None \<notin> set (reb e) \<and> list_all sense_good (sense e)"

definition key_of :: "xml_entry \<Rightarrow> int" where
  "key_of e = the (ent_seq e)"

definition word_row_of :: "xml_entry \<Rightarrow> word_row" where
  "word_row_of e = \<lparr>w_ent_seq = key_of e, w_row = entry_row e\<rparr>"

definition form_rows :: "(byte list list \<Rightarrow> byte list list) \<Rightarrow> xml_entry \<Rightarrow> (byte list \<times> int) list" where
  "form_rows py_set e = map (\<lambda>f. (f, key_of e)) (py_set (forms_of e))"

lemma build_entry_eq:
  "build_entry py_set e t =
     (if entry_good e \<and> key_of e \<notin> w_ent_seq ` set (word t)
      then Some (t\<lparr>word := word t @ [word_row_of e], word_form := word_form t @ form_rows py_set e\<rparr>) else None)"
  by (cases "ent_seq e")
    (auto simp: build_entry_def entry_good_def sense_lines_eq py_join_def word_row_of_def entry_row_def key_of_def
      form_rows_def forms_of_def kanji_of_def readings_of_def)

lemma build_words_eq:
  "build_words py_set es t =
     (if list_all entry_good es \<and> distinct (map key_of es) \<and> key_of ` set es \<inter> w_ent_seq ` set (word t) = {}
      then Some (t\<lparr>word := word t @ map word_row_of es, word_form := word_form t @ concat (map (form_rows py_set) es)\<rparr>)
      else None)"
proof (induction es arbitrary: t)
  case (Cons e es)
  have "w_ent_seq (word_row_of e) = key_of e" by (simp add: word_row_of_def)
  then show ?case by (auto simp: build_entry_eq Cons.IH image_iff)
qed simp

definition char_good :: "xml_character \<Rightarrow> bool" where
  "char_good c \<longleftrightarrow> stroke_count c \<noteq> Some None \<and> grade c \<noteq> Some None \<and> None \<notin> set (ja_on c)
     \<and> None \<notin> set (ja_kun c) \<and> (\<forall>m \<in> set (meaning c). m \<noteq> (None, None))"

text \<open>The character tables have one row for each literal.\<close>

definition literals_ok :: "kanji_row list \<Rightarrow> bool" where
  "literals_ok ks \<longleftrightarrow> distinct (map k_literal (filter (\<lambda>x. k_literal x \<noteq> None) ks))"

lemma literals_ok_replace:
  "literals_ok ks \<Longrightarrow> literals_ok (filter (\<lambda>x. k_literal x = None \<or> k_literal x \<noteq> k_literal r) ks @ [r])"
proof -
  assume "literals_ok ks"
  moreover define Q where "Q = (\<lambda>x :: kanji_row. k_literal x = None \<or> k_literal x \<noteq> k_literal r)"
  have "filter (\<lambda>x. k_literal x \<noteq> None) (filter Q ks) = filter Q (filter (\<lambda>x. k_literal x \<noteq> None) ks)"
    by (simp add: conj_commute)
  ultimately have "distinct (map k_literal (filter (\<lambda>x. k_literal x \<noteq> None) (filter Q ks)))"
    using distinct_map_filter [of k_literal "filter (\<lambda>x. k_literal x \<noteq> None) ks" Q] by (simp add: literals_ok_def)
  then show ?thesis by (auto simp: literals_ok_def Q_def)
qed

lemma literals_replaced:
  "insert l (k_literal ` {x \<in> set ks. k_literal x = None \<or> k_literal x \<noteq> l}) = insert l (k_literal ` set ks)"
  by auto

definition char_row :: "xml_character \<Rightarrow> kanji_row" where
  "char_row c = \<lparr>k_literal = literal c, k_stroke_count = Option.bind (stroke_count c) id,
     k_grade = Option.bind (grade c) id, k_on = join (lit '';'') (map the (ja_on c)),
     k_kun = join (lit '';'') (map the (ja_kun c)),
     k_meanings = join (lit '';'') (map the (map snd (filter (\<lambda>m. fst m = None) (meaning c))))\<rparr>"

lemma k_literal_char_row [simp]: "k_literal (char_row c) = literal c"
  by (simp add: char_row_def)

lemma build_character_eq:
  "build_character c t = (if char_good c
     then Some (t\<lparr>kanji_table := filter (\<lambda>x. k_literal x = None \<or> k_literal x \<noteq> literal c) (kanji_table t) @ [char_row c]\<rparr>)
     else None)"
proof -
  have m: "None \<in> snd ` {m \<in> set (meaning c). fst m = None} \<longleftrightarrow> (None, None) \<in> set (meaning c)"
    by (auto simp: image_iff)
  show ?thesis
    by (cases "stroke_count c"; cases "grade c"; cases "the (stroke_count c)"; cases "the (grade c)")
      (auto simp: build_character_def char_good_def int_or_null_def py_join_def m char_row_def)
qed

lemma build_characters_some:
  "literals_ok (kanji_table t) \<Longrightarrow>
   (case build_characters cs t of None \<Rightarrow> \<not> list_all char_good cs
    | Some t' \<Rightarrow> list_all char_good cs \<and> word t' = word t \<and> word_form t' = word_form t \<and> literals_ok (kanji_table t')
        \<and> k_literal ` set (kanji_table t') = k_literal ` set (kanji_table t) \<union> literal ` set cs)"
proof (induction cs arbitrary: t)
  case (Cons c cs)
  show ?case
  proof (cases "char_good c")
    case True
    define t1 where "t1 = t\<lparr>kanji_table :=
        filter (\<lambda>x. k_literal x = None \<or> k_literal x \<noteq> literal c) (kanji_table t) @ [char_row c]\<rparr>"
    have t1: "build_character c t = Some t1" "word t1 = word t" "word_form t1 = word_form t"
        "literals_ok (kanji_table t1)" "k_literal ` set (kanji_table t1) = insert (literal c) (k_literal ` set (kanji_table t))"
      using True literals_ok_replace [OF Cons.prems, of "char_row c"] literals_replaced [of "literal c" "kanji_table t"]
      by (simp_all add: t1_def build_character_eq)
    then show ?thesis using True Cons.IH [OF t1(4)] by (auto split: option.splits)
  qed (simp add: build_character_eq)
qed simp

text \<open>The whole script: when it ends without an exception, and what it has written then.\<close>

definition input_good :: "xml_entry list \<Rightarrow> xml_character list \<Rightarrow> bool" where
  "input_good es cs \<longleftrightarrow> list_all entry_good es \<and> distinct (map key_of es) \<and> list_all char_good cs"

lemma build_cases:
  "case build py_set es cs of None \<Rightarrow> \<not> input_good es cs
   | Some t \<Rightarrow> input_good es cs \<and> word t = map word_row_of es \<and> word_form t = concat (map (form_rows py_set) es)
       \<and> literals_ok (kanji_table t) \<and> k_literal ` set (kanji_table t) = literal ` set cs"
proof (cases "list_all entry_good es \<and> distinct (map key_of es)")
  case True
  define t where "t = \<lparr>word = map word_row_of es, word_form = concat (map (form_rows py_set) es), kanji_table = []\<rparr>"
  have "build py_set es cs = build_characters cs t" using True by (simp add: build_def build_words_eq t_def new_tables_def)
  then show ?thesis
    using True build_characters_some [of t cs] by (auto simp: t_def literals_ok_def input_good_def split: option.splits)
next
  case False
  then show ?thesis by (auto simp: build_def build_words_eq input_good_def new_tables_def)
qed

lemma committed_Some: "build py_set es cs = Some t \<Longrightarrow> committed py_set es cs = t"
  by (auto simp: build_def committed_def split: option.splits bind_splits)

text \<open>After an exception there are no characters, and all words or none.\<close>

lemma committed_None:
  assumes "build py_set es cs = None"
  shows "committed py_set es cs = (if list_all entry_good es \<and> distinct (map key_of es)
     then \<lparr>word = map word_row_of es, word_form = concat (map (form_rows py_set) es), kanji_table = []\<rparr>
     else new_tables)"
  using assms by (auto simp: build_def committed_def build_words_eq new_tables_def split: option.splits)

end
