(* ===== verification/DictDb.thy ===== *)
theory DictDb
  imports BuildDb
begin

text \<open>
  The searches on a database the builder made: how the statement of \<open>dict_search\<close> selects the
  rows, as the documentation of SQLite has it, and which entries a search shows.
\<close>

section \<open>The engine\<close>

text \<open>
  A pattern text without wildcards and without letters whose case \<open>LIKE\<close> ignores: \<open>LIKE '%' || x || '%'\<close>
  holds of the texts that contain \<open>x\<close>. A row without readings is not selected. The rows come in
  an order that is not defined, at most as many as \<open>LIMIT\<close> says.
\<close>

definition like_plain :: "byte list \<Rightarrow> bool" where
  "like_plain q \<longleftrightarrow> length q < 512 \<and> 0x25 \<notin> set q \<and> 0x5F \<notin> set q \<and> (\<forall>b \<in> set q. \<not> letter b)"

definition reads :: "byte list \<Rightarrow> row \<Rightarrow> bool" where
  "reads q r \<longleftrightarrow> (case readings r of None \<Rightarrow> False
     | Some t \<Rightarrow> sublist (0x3B # q @ [0x3B]) (0x3B # t @ [0x3B]))"

definition answers :: "'db sqlite \<Rightarrow> 'db option \<Rightarrow> string \<Rightarrow> row list \<Rightarrow> bool" where
  "answers eng h sql ws \<longleftrightarrow> sqlite3_prepare_v2 eng h sql = 0
     \<and> (\<forall>q q' n. like_plain q \<longrightarrow> like_plain q' \<longrightarrow>
          (\<exists>rs. mset rs = filter_mset (\<lambda>r. reads q r \<or> reads q' r) (mset ws)
             \<and> sqlite3_rows eng h sql [q, q'] n = take n rs))"

text \<open>An engine that answers in the order of the table.\<close>

definition table_engine :: "row list \<Rightarrow> unit sqlite" where
  "table_engine ws = \<lparr>sqlite3_open_v2 = (\<lambda>_. (0, Some ())),
     sqlite3_create_function = (\<lambda>db _. db), sqlite3_prepare_v2 = (\<lambda>_ _. 0),
     sqlite3_rows = (\<lambda>_ _ binds n. take n (filter (\<lambda>r. \<exists>q \<in> set binds. reads q r) ws))\<rparr>"

lemma table_engine_answers: "answers (table_engine ws) h sql ws"
  unfolding answers_def
  by (auto simp: table_engine_def intro!: exI [of _ "filter (\<lambda>r. reads q r \<or> reads q' r) ws" for q q'])

text \<open>
  The English statement: \<open>LIKE\<close> does not regard the case of the ASCII letters.
\<close>

definition senses_contain :: "byte list \<Rightarrow> row \<Rightarrow> bool" where
  "senses_contain q r \<longleftrightarrow> (case senses r of None \<Rightarrow> False | Some t \<Rightarrow> sublist (map lower q) (map lower t))"

definition answers_en :: "'db sqlite \<Rightarrow> 'db option \<Rightarrow> row list \<Rightarrow> bool" where
  "answers_en eng h ws \<longleftrightarrow> sqlite3_prepare_v2 eng h DICT_SQL_EN = 0
     \<and> (\<forall>q n. list_all letter q \<longrightarrow> length q < 512 \<longrightarrow>
          (\<exists>rs. mset rs = filter_mset (senses_contain q) (mset ws)
             \<and> sqlite3_rows eng h DICT_SQL_EN [q] n = take n rs))"

definition table_engine_en :: "row list \<Rightarrow> unit sqlite" where
  "table_engine_en ws = (table_engine ws)\<lparr>sqlite3_rows :=
     (\<lambda>_ _ binds n. take n (filter (\<lambda>r. \<exists>q \<in> set binds. senses_contain q r) ws))\<rparr>"

lemma table_engine_en_answers: "answers_en (table_engine_en ws) h ws"
  unfolding answers_en_def
  by (auto simp: table_engine_en_def table_engine_def intro!: exI [of _ "filter (senses_contain q) ws" for q])

section \<open>Which entries are found\<close>

lemma reads_entry:
  assumes "tidy e" and "0x3B \<notin> set q"
  shows "reads q (entry_row e) \<longleftrightarrow> q \<in> set (readings_of e)"
  using assms sublist_join [of "0x3B" q "readings_of e"]
  by (auto simp: reads_def entry_row_def tidy_def forms_of_def readings_of_def)

text \<open>Bytes of characters outside ASCII, as kana are.\<close>

definition wide :: "byte list \<Rightarrow> bool" where
  "wide q \<longleftrightarrow> length q < 512 \<and> (\<forall>b \<in> set q. 0x80 \<le> b)"

lemma wide_plain: "wide q \<Longrightarrow> like_plain q" "wide q \<Longrightarrow> 0x3B \<notin> set q" "wide q \<Longrightarrow> 0 \<notin> set q"
  by (force simp: wide_def like_plain_def letter_def word_le_nat_alt)+

lemma mset_map_obtain:
  "mset rs = mset (map f xs) \<Longrightarrow> \<exists>ys. mset ys = mset xs \<and> rs = map f ys"
proof (induction rs arbitrary: xs)
  case (Cons r rs)
  then have "r \<in> f ` set xs" by (metis list.set_intros(1) mset_eq_setD set_map)
  then obtain a x b where x: "xs = a @ x # b" "r = f x" by (metis imageE split_list)
  then have "mset rs = mset (map f (a @ b))" using Cons.prems by simp
  from Cons.IH [OF this] obtain ys where "mset ys = mset (a @ b)" "rs = map f ys" by blast
  then show ?case using x by (intro exI [of _ "x # ys"]) simp
qed simp

lemma build_word_rows: "build py_set es cs = Some t \<Longrightarrow> map w_row (word t) = map entry_row es"
  using build_cases [of es cs py_set] by (simp add: word_row_of_def comp_def)

lemma selected_entries:
  assumes "mset rs = filter_mset R (mset (map entry_row es))" and "\<And>e. e \<in> set es \<Longrightarrow> R (entry_row e) \<longleftrightarrow> P e"
  shows "\<exists>ms. mset ms = filter_mset P (mset es) \<and> rs = map entry_row ms"
proof -
  have "filter R (map entry_row es) = map entry_row (filter P es)" using assms(2) by (induction es) auto
  then have "mset rs = mset (map entry_row (filter P es))" using assms(1) by (metis mset_filter)
  then show ?thesis using mset_map_obtain by fastforce
qed

text \<open>What the statement delivers: the entries with one of the two texts among their readings, in some order.\<close>

lemma rows_found:
  assumes "list_all tidy es" and "answers eng h sql (map entry_row es)" and "wide q" and "wide q'"
  shows "\<exists>ms. mset ms = filter_mset (\<lambda>e. q \<in> set (readings_of e) \<or> q' \<in> set (readings_of e)) (mset es)
    \<and> sqlite3_rows eng h sql [q, q'] n = take n (map entry_row ms)"
proof -
  obtain rs where rs: "mset rs = filter_mset (\<lambda>r. reads q r \<or> reads q' r) (mset (map entry_row es))"
      "sqlite3_rows eng h sql [q, q'] n = take n rs"
    using assms(2) wide_plain(1) [OF assms(3)] wide_plain(1) [OF assms(4)] unfolding answers_def by blast
  have "reads q (entry_row e) \<or> reads q' (entry_row e) \<longleftrightarrow> q \<in> set (readings_of e) \<or> q' \<in> set (readings_of e)"
    if "e \<in> set es" for e
    using that assms(1) reads_entry wide_plain(2) [OF assms(3)] wide_plain(2) [OF assms(4)] by (auto simp: list_all_iff)
  from selected_entries [OF rs(1) this] show ?thesis using rs(2) by auto
qed

lemma found_subset: "mset ms = filter_mset P (mset es) \<Longrightarrow> e \<in> set ms \<Longrightarrow> e \<in> set es \<and> P e"
  by (metis (mono_tags, lifting) mem_Collect_eq mset_eq_setD mset_filter set_filter)

text \<open>What a record shows for an entry.\<close>

definition shows_entry :: "mem \<Rightarrow> xml_entry \<Rightarrow> bool" where
  "shows_entry d e \<longleftrightarrow> entry_shows d (word_of (entry_row e)) (rtrim (take 511 (glosses e)))
     \<and> (length (shown_word e) < DICT_WORD_LEN \<longrightarrow> entry_shows d (shown_word e) (rtrim (take 511 (glosses e))))"

lemma shows_entryI:
  "tidy e \<Longrightarrow> entry_shows d (word_of (entry_row e)) (detail_of (entry_row e)) \<Longrightarrow> shows_entry d e"
  using word_of_entry [of e] by (auto simp: shows_entry_def detail_of_entry)

lemma search_built:
  assumes b: "build py_set es cs = Some t" "list_all tidy es" "answers eng (g_db st) DICT_SQL (map w_row (word t))"
    and q: "cstr query 0 q" "wide q"
    and m: "length kata = 512" "length buf = DICT_DETAIL_LEN" "results_ok entry_ok (g_results st)"
  shows "\<exists>st' ms. dict_search eng buf kata st query = Some (min DICT_MAX_RESULTS (length ms), st')
    \<and> mset ms = filter_mset (\<lambda>e. q \<in> set (readings_of e)) (mset es)
    \<and> (\<forall>i < min DICT_MAX_RESULTS (length ms). shows_entry (g_results st' ! i) (ms ! i))"
proof -
  have "answers eng (g_db st) DICT_SQL (map entry_row es)" using b(3) build_word_rows [OF b(1)] by simp
  from rows_found [OF b(2) this q(2) q(2), of DICT_MAX_RESULTS] obtain ms where
    ms: "mset ms = filter_mset (\<lambda>e. q \<in> set (readings_of e)) (mset es)"
      "sqlite3_rows eng (g_db st) DICT_SQL [q, q] DICT_MAX_RESULTS = take DICT_MAX_RESULTS (map entry_row ms)" by auto
  have "sqlite3_prepare_v2 eng (g_db st) DICT_SQL = 0" using b(3) by (simp add: answers_def)
  from dict_search_result [OF q(1) _ m this ms(2) [symmetric]] q(2) obtain st' where
    s: "dict_search eng buf kata st query = Some (min DICT_MAX_RESULTS (length ms), st')"
      "\<And>i. i < length ms \<Longrightarrow> i < DICT_MAX_RESULTS \<Longrightarrow>
        entry_shows (g_results st' ! i) (word_of (entry_row (ms ! i))) (detail_of (entry_row (ms ! i)))"
    by (auto simp: wide_def min.commute)
  moreover have "tidy (ms ! i)" if "i < length ms" for i
    using found_subset [OF ms(1), of "ms ! i"] that b(2) by (auto simp: list_all_iff)
  ultimately show ?thesis using ms(1) shows_entryI by (intro exI [of _ st'] exI [of _ ms]) simp
qed

section \<open>The forms\<close>

definition py_set_ok :: "(byte list list \<Rightarrow> byte list list) \<Rightarrow> bool" where
  "py_set_ok py_set \<longleftrightarrow> (\<forall>xs. distinct (py_set xs) \<and> set (py_set xs) = set xs)"

lemma set_form_rows: "py_set_ok py_set \<Longrightarrow> set (form_rows py_set e) = (\<lambda>f. (f, key_of e)) ` set (forms_of e)"
  by (simp add: form_rows_def py_set_ok_def)

lemma distinct_form_rows:
  "py_set_ok py_set \<Longrightarrow> distinct (map key_of es) \<Longrightarrow> distinct (concat (map (form_rows py_set) es))"
proof (induction es)
  case (Cons e es)
  have "distinct (form_rows py_set e)"
    using Cons.prems(1) by (auto simp: form_rows_def py_set_ok_def distinct_map inj_on_def)
  moreover have "set (form_rows py_set e) \<inter> set (concat (map (form_rows py_set) es)) = {}"
    using Cons.prems set_form_rows by (fastforce simp: image_iff)
  ultimately show ?case using Cons by simp
qed simp

section \<open>A small database\<close>

definition INU :: "byte list" where "INU = [0xE3, 0x81, 0x84, 0xE3, 0x81, 0xAC]"

definition dog :: xml_entry where
  "dog = \<lparr>ent_seq = Some 1258330, keb = [Some [0xE7, 0x8A, 0xAC]], reb = [Some INU],
     sense = [\<lparr>pos = [Some (lit ''noun'')], gloss = [Some (lit ''dog''), Some (lit ''hound'')]\<rparr>]\<rparr>"

lemma dog_tidy: "tidy dog" "input_good [dog] []"
  by code_simp+

lemma dog_text: "shown_word dog = [0xE7, 0x8A, 0xAC] @ lit '' ('' @ INU @ lit '') ''" "readings_of dog = [INU]"
    "rtrim (take 511 (glosses dog)) = lit ''dog; hound''" "length (shown_word dog) < DICT_WORD_LEN"
  by code_simp+

lemma remdups_ok: "py_set_ok remdups"
  by (simp add: py_set_ok_def)

lemma dog_built: obtains t where "build remdups [dog] [] = Some t" "map w_row (word t) = [entry_row dog]"
  using build_cases [of "[dog]" "[]" remdups] dog_tidy(2) by (auto simp: word_row_of_def split: option.splits)

section \<open>Properties\<close>

text \<open>
  C16. The builder writes consistent tables: it ends without an exception exactly if every entry has a
  number of its own and no text is missing; then \<open>word\<close> has one row for each entry with unique
  keys, \<open>word_form\<close> has each form of each entry exactly once and refers to existing rows, and
  \<open>kanji\<close> has one row for each literal. After an exception the file has no characters, and the
  words with their forms either completely, if they are in order, or not at all.
\<close>

theorem build_db_consistent:
  assumes "py_set_ok py_set"
  shows "case build py_set es cs of
      None \<Rightarrow> \<not> input_good es cs
        \<and> committed py_set es cs = (if list_all entry_good es \<and> distinct (map key_of es)
            then \<lparr>word = map word_row_of es, word_form = concat (map (form_rows py_set) es), kanji_table = []\<rparr>
            else new_tables)
    | Some t \<Rightarrow> input_good es cs \<and> committed py_set es cs = t \<and> length (word t) = length es \<and> distinct (map w_ent_seq (word t))
        \<and> distinct (word_form t) \<and> set (word_form t) = {(f, key_of e) | e f. e \<in> set es \<and> f \<in> set (forms_of e)}
        \<and> snd ` set (word_form t) \<subseteq> w_ent_seq ` set (word t)
        \<and> literals_ok (kanji_table t) \<and> k_literal ` set (kanji_table t) = literal ` set cs"
proof (cases "build py_set es cs")
  case None
  then show ?thesis using build_cases [of es cs py_set] committed_None [OF None] by simp
next
  case (Some t)
  then have t: "input_good es cs" "word t = map word_row_of es" "word_form t = concat (map (form_rows py_set) es)"
      "literals_ok (kanji_table t)" "k_literal ` set (kanji_table t) = literal ` set cs"
    using build_cases [of es cs py_set] by simp_all
  have k: "map w_ent_seq (word t) = map key_of es" using t(2) by (simp add: word_row_of_def)
  have "length (word t) = length es" using t(2) by simp
  moreover have "distinct (map w_ent_seq (word t))" unfolding k using t(1) by (simp add: input_good_def)
  moreover have "w_ent_seq ` set (word t) = key_of ` set es" using arg_cong [OF k, of set] by (simp only: set_map)
  moreover have "set (word_form t) = {(f, key_of e) | e f. e \<in> set es \<and> f \<in> set (forms_of e)}"
    using t(3) set_form_rows [OF assms] by auto
  moreover have "distinct (word_form t)" using t(1,3) distinct_form_rows [OF assms] by (simp add: input_good_def)
  ultimately show ?thesis using Some t(1,4,5) committed_Some [OF Some] by auto
qed

theorem build_db_consistent_witness:
  "\<exists>t. build remdups [dog] [] = Some t \<and> length (word t) = 1 \<and> distinct (word_form t)"
  using build_db_consistent [OF remdups_ok, of "[dog]" "[]"] dog_tidy(2) by (auto split: option.splits)

text \<open>
  C5. From JMdict to a search result: on a database the builder made from entries the format can
  carry, a search of the simulator for a text outside ASCII returns, counts the entries that have the
  text among their readings, at most 64, and the records show them: the first kanji form with the
  first reading in brackets, or the first reading alone, and the glosses without the parts of
  speech the builder had put in front, cut to 511 bytes.
\<close>

theorem build_then_search:
  assumes "build py_set es cs = Some t" and "list_all tidy es"
    and "answers eng (g_db st) DICT_SQL (map w_row (word t))" and "cstr query 0 q" and "wide q"
    and "length kata = 512" and "length buf = DICT_DETAIL_LEN" and "results_ok entry_ok (g_results st)"
  shows "\<exists>st' ms. dict_search eng buf kata st query = Some (min DICT_MAX_RESULTS (length ms), st')
    \<and> mset ms = filter_mset (\<lambda>e. q \<in> set (readings_of e)) (mset es)
    \<and> (\<forall>i < min DICT_MAX_RESULTS (length ms). shows_entry (g_results st' ! i) (ms ! i))"
  using assms by (rule search_built)

theorem build_then_search_witness:
  "\<exists>st'. dict_search (table_engine [entry_row dog]) (replicate 512 1) (replicate 512 255) dict_init (INU @ [0]) = Some (1, st')
     \<and> entry_shows (g_results st' ! 0) ([0xE7, 0x8A, 0xAC] @ lit '' ('' @ INU @ lit '') '') (lit ''dog; hound'')"
proof -
  obtain t where t: "build remdups [dog] [] = Some t" "map w_row (word t) = [entry_row dog]" by (rule dog_built)
  have "wide INU" by code_simp
  moreover have "cstr (INU @ [0]) 0 INU" by (intro cstr_of_list) (simp add: INU_def)
  moreover have "results_ok entry_ok (g_results dict_init)" using entry_ok_zero by (rule results_ok_init)
  ultimately obtain st' ms where s: "dict_search (table_engine [entry_row dog]) (replicate 512 1) (replicate 512 255) dict_init (INU @ [0])
        = Some (min DICT_MAX_RESULTS (length ms), st')" "mset ms = filter_mset (\<lambda>e. INU \<in> set (readings_of e)) (mset [dog])"
      "\<forall>i < min DICT_MAX_RESULTS (length ms). shows_entry (g_results st' ! i) (ms ! i)"
    using build_then_search [OF t(1) _ _, of "table_engine [entry_row dog]" dict_init "INU @ [0]" INU
        "replicate 512 255" "replicate 512 1"] t(2) table_engine_answers [of "[entry_row dog]"] dog_tidy(1)
    by (auto simp: DICT_DETAIL_LEN_def)
  have "ms = [dog]" using s(2) dog_text(2) by simp
  then show ?thesis using s dog_text by (simp add: shows_entry_def DICT_MAX_RESULTS_def)
qed

text \<open>
  C17. The English search on a database of the builder: for letters it returns, counts the entries
  whose sense lines contain the text, without regard to case and at most 64, and the records show
  them. The sense lines have the parts of speech in brackets, which the records do not show.
\<close>

theorem english_search_built:
  assumes "build py_set es cs = Some t" and "list_all tidy es"
    and "answers_en eng (g_db st) (map w_row (word t))" and "cstr query 0 q" and "list_all letter q" and "length q < 512"
    and "length buf = DICT_DETAIL_LEN" and "results_ok entry_ok (g_results st)"
  shows "\<exists>st' ms. dict_search_en eng buf st query = Some (min DICT_MAX_RESULTS (length ms), st')
    \<and> mset ms = filter_mset (\<lambda>e. sublist (map lower q) (map lower (join NEWLINE (map line_of (sense e))))) (mset es)
    \<and> (\<forall>i < min DICT_MAX_RESULTS (length ms). shows_entry (g_results st' ! i) (ms ! i))"
proof -
  define P where "P = (\<lambda>e :: xml_entry. sublist (map lower q) (map lower (join NEWLINE (map line_of (sense e)))))"
  have sub: "senses_contain q (entry_row e) \<longleftrightarrow> P e" if "tidy e" for e
    using that by (auto simp: senses_contain_def entry_row_def sense_lines_eq tidy_def list_all_iff tidy_sense_good P_def)
  have "answers_en eng (g_db st) (map entry_row es)" using assms(3) build_word_rows [OF assms(1)] by simp
  then obtain rs where rs: "mset rs = filter_mset (senses_contain q) (mset (map entry_row es))"
      "sqlite3_rows eng (g_db st) DICT_SQL_EN [q] DICT_MAX_RESULTS = take DICT_MAX_RESULTS rs"
    using assms(5,6) unfolding answers_en_def by blast
  obtain ms where ms: "mset ms = filter_mset P (mset es)" "rs = map entry_row ms"
    using selected_entries [OF rs(1), of P] sub assms(2) by (auto simp: list_all_iff)
  have "sqlite3_prepare_v2 eng (g_db st) DICT_SQL_EN = 0" using assms(3) by (simp add: answers_en_def)
  from dict_search_en_result [OF assms(4,7,8) this rs(2) [symmetric]] obtain st' where
    s: "dict_search_en eng buf st query = Some (min DICT_MAX_RESULTS (length ms), st')"
      "\<And>i. i < length ms \<Longrightarrow> i < DICT_MAX_RESULTS \<Longrightarrow>
        entry_shows (g_results st' ! i) (word_of (entry_row (ms ! i))) (detail_of (entry_row (ms ! i)))"
    by (auto simp: ms(2) min.commute)
  moreover have "tidy (ms ! i)" if "i < length ms" for i
    using found_subset [OF ms(1), of "ms ! i"] that assms(2) by (auto simp: list_all_iff)
  ultimately show ?thesis using ms(1) shows_entryI by (intro exI [of _ st'] exI [of _ ms]) (simp add: P_def)
qed

theorem english_search_built_witness:
  "\<exists>st'. dict_search_en (table_engine_en [entry_row dog]) (replicate 512 1) dict_init (lit ''Noun'' @ [0]) = Some (1, st')
     \<and> entry_shows (g_results st' ! 0) (shown_word dog) (lit ''dog; hound'')"
proof -
  obtain t where t: "build remdups [dog] [] = Some t" "map w_row (word t) = [entry_row dog]" by (rule dog_built)
  have q: "list_all letter (lit ''Noun'')" "length (lit ''Noun'') < 512" by (simp_all add: letter_def)
  have c: "cstr (lit ''Noun'' @ [0]) 0 (lit ''Noun'')" by (intro cstr_of_list) simp
  have r: "results_ok entry_ok (g_results dict_init)" using entry_ok_zero by (rule results_ok_init)
  have f: "sublist (map lower (lit ''Noun'')) (map lower (join NEWLINE (map line_of (sense dog))))" by code_simp
  obtain st' ms where s: "dict_search_en (table_engine_en [entry_row dog]) (replicate 512 1) dict_init (lit ''Noun'' @ [0])
        = Some (min DICT_MAX_RESULTS (length ms), st')"
      "mset ms = filter_mset (\<lambda>e. sublist (map lower (lit ''Noun'')) (map lower (join NEWLINE (map line_of (sense e))))) (mset [dog])"
      "\<forall>i < min DICT_MAX_RESULTS (length ms). shows_entry (g_results st' ! i) (ms ! i)"
    using english_search_built [OF t(1) _ _ c q _ r, of "table_engine_en [entry_row dog]" "replicate 512 1"]
      t(2) table_engine_en_answers [of "[entry_row dog]"] dog_tidy(1) by (auto simp: DICT_DETAIL_LEN_def)
  have "ms = [dog]" using s(2) f by (simp del: lit_Cons)
  then show ?thesis using s dog_text by (simp add: shows_entry_def DICT_MAX_RESULTS_def)
qed

end
