(* ===== verification/Tests.thy ===== *)
theory Tests
  imports DictDb
begin

text \<open>
  The test programs of \<open>Dictionary_Resources\<close>: \<open>test_romaji.c\<close> on the C converter and
  \<open>test_dict.c\<close> on the dictionary of that directory. \<open>Inl n\<close> is the assertion of line \<open>n\<close> that
  fails, \<open>Inr\<close> a run to the end, \<open>None\<close> a fault. Output is not modelled; an array without
  initial value is a parameter.
\<close>

section \<open>test_romaji.c\<close>

definition check :: "mem \<Rightarrow> byte list \<Rightarrow> byte list \<Rightarrow> (nat + unit) option" where
  "check out inp want = do {
     (n, out) \<leftarrow> romaji_to_katakana (inp @ [0]) out 256;
     if \<not> n \<ge> 0 then Some (Inl 13)
     else do {
       c \<leftarrow> strcmp out 0 (want @ [0]) 0;
       Some (if c = 0 then Inr () else Inl 14) } }"

fun checks :: "(nat \<Rightarrow> mem) \<Rightarrow> nat \<Rightarrow> (byte list \<times> byte list) list \<Rightarrow> (nat + unit) option" where
  "checks outs k [] = Some (Inr ())"
| "checks outs k ((inp, want) # cs) = do {
     r \<leftarrow> check (outs k) inp want;
     (case r of Inl l \<Rightarrow> Some (Inl l) | Inr _ \<Rightarrow> checks outs (k + 1) cs) }"

text \<open>The calls of tests 1 to 9.\<close>

definition check_calls :: "(byte list \<times> byte list) list" where
  "check_calls = [
    (lit ''a'', [0xE3, 0x82, 0xA2]),
    (lit ''ka'', [0xE3, 0x82, 0xAB]),
    (lit ''n'', [0xE3, 0x83, 0xB3]),
    (lit ''wo'', [0xE3, 0x83, 0xB2]),
    (lit ''ga'', [0xE3, 0x82, 0xAC]),
    (lit ''da'', [0xE3, 0x83, 0x80]),
    (lit ''ba'', [0xE3, 0x83, 0x90]),
    (lit ''pa'', [0xE3, 0x83, 0x91]),
    (lit ''kya'', [0xE3, 0x82, 0xAD, 0xE3, 0x83, 0xA3]),
    (lit ''sha'', [0xE3, 0x82, 0xB7, 0xE3, 0x83, 0xA3]),
    (lit ''ryo'', [0xE3, 0x83, 0xAA, 0xE3, 0x83, 0xA7]),
    (lit ''nippon'', [0xE3, 0x83, 0x8B, 0xE3, 0x83, 0x83, 0xE3, 0x83, 0x9D, 0xE3, 0x83, 0xB3]),
    (lit ''gakkou'', [0xE3, 0x82, 0xAC, 0xE3, 0x83, 0x83, 0xE3, 0x82, 0xB3, 0xE3, 0x82, 0xA6]),
    (lit ''terebi'', [0xE3, 0x83, 0x86, 0xE3, 0x83, 0xAC, 0xE3, 0x83, 0x93]),
    (lit ''tabemono'', [0xE3, 0x82, 0xBF, 0xE3, 0x83, 0x99, 0xE3, 0x83, 0xA2, 0xE3, 0x83, 0x8E]),
    (lit ''nihongo'', [0xE3, 0x83, 0x8B, 0xE3, 0x83, 0x9B, 0xE3, 0x83, 0xB3, 0xE3, 0x82, 0xB4]),
    (lit ''shi'', [0xE3, 0x82, 0xB7]),
    (lit ''si'', [0xE3, 0x82, 0xB7]),
    (lit ''tsu'', [0xE3, 0x83, 0x84]),
    (lit ''tu'', [0xE3, 0x83, 0x84]),
    (lit ''KA'', [0xE3, 0x82, 0xAB]),
    (lit ''Tokyo'', [0xE3, 0x83, 0x88, 0xE3, 0x82, 0xAD, 0xE3, 0x83, 0xA7]),
    (lit '''', []),
    ([0xE9, 0xA3, 0x9F], [0xE9, 0xA3, 0x9F])]"

definition test_romaji_main :: "(nat \<Rightarrow> mem) \<Rightarrow> mem \<Rightarrow> mem \<Rightarrow> (nat + int) option" where
  "test_romaji_main outs out small = do {
     r \<leftarrow> checks outs 0 check_calls;
     (case r of Inl l \<Rightarrow> Some (Inl l)
      | Inr _ \<Rightarrow> do {
          (n, out) \<leftarrow> romaji_to_katakana (lit ''tabemono'' @ [0]) out 256;
          len \<leftarrow> strlen out 0;
          if n \<noteq> int_of_size len then Some (Inl 74) else do {
          (n, small) \<leftarrow> romaji_to_katakana (lit ''tabemono'' @ [0]) small 4;
          if n \<noteq> -1 then Some (Inl 82) else do {
          (n, small) \<leftarrow> romaji_to_katakana (lit ''ka'' @ [0]) small 0;
          if n \<noteq> -1 then Some (Inl 87) else do {
          (n, out) \<leftarrow> romaji_to_katakana (lit ''konnichiwa'' @ [0]) out 256;
          if \<not> n \<ge> 0 then Some (Inl 92) else do {
          b \<leftarrow> rd out (nat n);
          if b \<noteq> 0 then Some (Inl 93) else do {
          len \<leftarrow> strlen out 0;
          Some (if \<not> len < 256 then Inl 94 else Inr 0) } } } } } }) }"

section \<open>test_dict.c\<close>

text \<open>The loop of test 6 over the results.\<close>

fun bounds_loop :: "mem list \<Rightarrow> nat \<Rightarrow> (nat + unit) option" where
  "bounds_loop rs 0 = Some (Inr ())"
| "bounds_loop [] (Suc n) = None"
| "bounds_loop (r # rs) (Suc n) = do {
     w \<leftarrow> strlen r WORD;
     if \<not> w < DICT_WORD_LEN then Some (Inl 49) else do {
     d \<leftarrow> strlen r DETAIL;
     if \<not> d < DICT_DETAIL_LEN then Some (Inl 50) else do {
     a \<leftarrow> strlen r ACCENT;
     if \<not> a < DICT_ACCENT_LEN then Some (Inl 51) else bounds_loop rs n } } }"

definition TABERU_KANJI :: "byte list" where "TABERU_KANJI = [0xE9, 0xA3, 0x9F, 0xE3, 0x81, 0xB9, 0xE3, 0x82, 0x8B]"
definition TABERU :: "byte list" where "TABERU = [0xE3, 0x81, 0x9F, 0xE3, 0x81, 0xB9, 0xE3, 0x82, 0x8B]"
definition KIKAN :: "byte list" where "KIKAN = [0xE3, 0x81, 0x8D, 0xE3, 0x81, 0x8B, 0xE3, 0x82, 0x93]"

text \<open>\<open>r != NULL\<close> after a search always holds: \<open>dict_search\<close> sets it first.\<close>

definition test_dict_main :: "'db sqlite \<Rightarrow> mem \<Rightarrow> byte list \<Rightarrow> (nat + 'db dict_state) option" where
  "test_dict_main eng kata db =
     (let (rc, st) = dict_open_lib eng dict_init db
      in if rc \<noteq> 0 then Some (Inl 12) else do {
         (n, st) \<leftarrow> dict_search_lib eng kata st (TABERU_KANJI @ [0]);
         if \<not> n > 0 then Some (Inl 20) else do {
         w \<leftarrow> strlen (g_results st ! 0) WORD;
         if \<not> w > 0 then Some (Inl 21) else do {
         d \<leftarrow> strlen (g_results st ! 0) DETAIL;
         if \<not> d > 0 then Some (Inl 22) else do {
         (n, st) \<leftarrow> dict_search_lib eng kata st (TABERU @ [0]);
         if \<not> n > 0 then Some (Inl 28) else do {
         (n, st) \<leftarrow> dict_search_lib eng kata st (lit ''ZZZZZ'' @ [0]);
         if n \<noteq> 0 then Some (Inl 33) else do {
         (n, st) \<leftarrow> dict_search_lib eng kata st [0];
         (n, st) \<leftarrow> dict_search_lib eng kata st (KIKAN @ [0]);
         if \<not> n \<le> DICT_MAX_RESULTS then Some (Inl 42) else do {
         r \<leftarrow> bounds_loop (g_results st) n;
         (case r of Inl l \<Rightarrow> Some (Inl l)
          | Inr _ \<Rightarrow> do {
              (n, st) \<leftarrow> dict_search_lib eng kata st (lit ''ZZZZZ'' @ [0]);
              Some (Inr (dict_close_lib st)) }) } } } } } } })"

section \<open>Lemmas\<close>

text \<open>
  The table with its keys as numbers, so that evaluation compares numbers instead of lists of words.
\<close>

fun key_num :: "byte list \<Rightarrow> int" where
  "key_num [] = 0"
| "key_num (b # bs) = uint b + 256 * key_num bs"

lemma key_num_pos: "0 \<le> key_num k"
  by (induction k) simp_all

lemma digits_unique:
  fixes a b m n :: int
  assumes "0 \<le> a" "a < 256" "0 \<le> b" "b < 256" "a + 256 * m = b + 256 * n"
  shows "a = b \<and> m = n"
proof -
  have "a = (a + 256 * m) mod 256" using assms(1,2) by simp
  also have "\<dots> = b" using assms(3,4,5) by simp
  finally show ?thesis using assms(5) by simp
qed

lemma key_num_inj: "0 \<notin> set a \<Longrightarrow> 0 \<notin> set b \<Longrightarrow> key_num a = key_num b \<Longrightarrow> a = b"
proof (induction a arbitrary: b)
  case Nil
  then show ?case using key_num_pos by (cases b) (auto simp: add_nonneg_eq_0_iff uint_0_iff)
next
  case (Cons x a)
  then obtain y c where b: "b = y # c"
    using key_num_pos [of a] by (cases b) (auto simp: add_nonneg_eq_0_iff uint_0_iff)
  have "uint x < 256" "uint y < 256" using uint_lt2p [of x] uint_lt2p [of y] by simp_all
  moreover have e: "uint x + 256 * key_num a = uint y + 256 * key_num c" using Cons.prems(3) b by simp
  ultimately have "uint x = uint y \<and> key_num a = key_num c"
    by (intro digits_unique [OF uint_ge_0 _ uint_ge_0 _ e])
  then have "x = y" "a = c" using Cons.IH [of c] Cons.prems(1,2) b by (simp_all add: word_uint_eq_iff)
  then show ?case using b by simp
qed

lemma map_of_key_num:
  "0 \<notin> set k \<Longrightarrow> list_all (\<lambda>(k, v). 0 \<notin> set k) tab \<Longrightarrow> map_of tab k = map_of (map (apfst key_num) tab) (key_num k)"
  by (induction tab) (auto dest: key_num_inj)

definition NUM_TABLE :: "(int \<times> int list) list" where
  "NUM_TABLE = [
    (6388075, [0xE3, 0x81, 0x8D, 0xE3, 0x82, 0x83]),
    (7698795, [0xE3, 0x81, 0x8D, 0xE3, 0x82, 0x85]),
    (7305579, [0xE3, 0x81, 0x8D, 0xE3, 0x82, 0x87]),
    (6383731, [0xE3, 0x81, 0x97, 0xE3, 0x82, 0x83]),
    (7694451, [0xE3, 0x81, 0x97, 0xE3, 0x82, 0x85]),
    (7301235, [0xE3, 0x81, 0x97, 0xE3, 0x82, 0x87]),
    (6388083, [0xE3, 0x81, 0x97, 0xE3, 0x82, 0x83]),
    (7698803, [0xE3, 0x81, 0x97, 0xE3, 0x82, 0x85]),
    (6383715, [0xE3, 0x81, 0xA1, 0xE3, 0x82, 0x83]),
    (7694435, [0xE3, 0x81, 0xA1, 0xE3, 0x82, 0x85]),
    (7301219, [0xE3, 0x81, 0xA1, 0xE3, 0x82, 0x87]),
    (6388084, [0xE3, 0x81, 0xA1, 0xE3, 0x82, 0x83]),
    (7698804, [0xE3, 0x81, 0xA1, 0xE3, 0x82, 0x85]),
    (6388078, [0xE3, 0x81, 0xAB, 0xE3, 0x82, 0x83]),
    (7698798, [0xE3, 0x81, 0xAB, 0xE3, 0x82, 0x85]),
    (7305582, [0xE3, 0x81, 0xAB, 0xE3, 0x82, 0x87]),
    (6388072, [0xE3, 0x81, 0xB2, 0xE3, 0x82, 0x83]),
    (7698792, [0xE3, 0x81, 0xB2, 0xE3, 0x82, 0x85]),
    (7305576, [0xE3, 0x81, 0xB2, 0xE3, 0x82, 0x87]),
    (6388077, [0xE3, 0x81, 0xBF, 0xE3, 0x82, 0x83]),
    (7698797, [0xE3, 0x81, 0xBF, 0xE3, 0x82, 0x85]),
    (7305581, [0xE3, 0x81, 0xBF, 0xE3, 0x82, 0x87]),
    (6388082, [0xE3, 0x82, 0x8A, 0xE3, 0x82, 0x83]),
    (7698802, [0xE3, 0x82, 0x8A, 0xE3, 0x82, 0x85]),
    (7305586, [0xE3, 0x82, 0x8A, 0xE3, 0x82, 0x87]),
    (6388071, [0xE3, 0x81, 0x8E, 0xE3, 0x82, 0x83]),
    (7698791, [0xE3, 0x81, 0x8E, 0xE3, 0x82, 0x85]),
    (7305575, [0xE3, 0x81, 0x8E, 0xE3, 0x82, 0x87]),
    (24938, [0xE3, 0x81, 0x98, 0xE3, 0x82, 0x83]),
    (30058, [0xE3, 0x81, 0x98, 0xE3, 0x82, 0x85]),
    (28522, [0xE3, 0x81, 0x98, 0xE3, 0x82, 0x87]),
    (6388074, [0xE3, 0x81, 0x98, 0xE3, 0x82, 0x83]),
    (7698794, [0xE3, 0x81, 0x98, 0xE3, 0x82, 0x85]),
    (7305578, [0xE3, 0x81, 0x98, 0xE3, 0x82, 0x87]),
    (6388090, [0xE3, 0x81, 0x98, 0xE3, 0x82, 0x83]),
    (7698810, [0xE3, 0x81, 0x98, 0xE3, 0x82, 0x85]),
    (6388066, [0xE3, 0x81, 0xB3, 0xE3, 0x82, 0x83]),
    (7698786, [0xE3, 0x81, 0xB3, 0xE3, 0x82, 0x85]),
    (7305570, [0xE3, 0x81, 0xB3, 0xE3, 0x82, 0x87]),
    (6388080, [0xE3, 0x81, 0xB4, 0xE3, 0x82, 0x83]),
    (7698800, [0xE3, 0x81, 0xB4, 0xE3, 0x82, 0x85]),
    (7305584, [0xE3, 0x81, 0xB4, 0xE3, 0x82, 0x87]),
    (6908019, [0xE3, 0x81, 0x97]),
    (6908003, [0xE3, 0x81, 0xA1]),
    (7697268, [0xE3, 0x81, 0xA4]),
    (24939, [0xE3, 0x81, 0x8B]),
    (26987, [0xE3, 0x81, 0x8D]),
    (30059, [0xE3, 0x81, 0x8F]),
    (25963, [0xE3, 0x81, 0x91]),
    (28523, [0xE3, 0x81, 0x93]),
    (24947, [0xE3, 0x81, 0x95]),
    (26995, [0xE3, 0x81, 0x97]),
    (30067, [0xE3, 0x81, 0x99]),
    (25971, [0xE3, 0x81, 0x9B]),
    (28531, [0xE3, 0x81, 0x9D]),
    (24948, [0xE3, 0x81, 0x9F]),
    (26996, [0xE3, 0x81, 0xA1]),
    (30068, [0xE3, 0x81, 0xA4]),
    (25972, [0xE3, 0x81, 0xA6]),
    (28532, [0xE3, 0x81, 0xA8]),
    (24942, [0xE3, 0x81, 0xAA]),
    (26990, [0xE3, 0x81, 0xAB]),
    (30062, [0xE3, 0x81, 0xAC]),
    (25966, [0xE3, 0x81, 0xAD]),
    (28526, [0xE3, 0x81, 0xAE]),
    (24936, [0xE3, 0x81, 0xAF]),
    (26984, [0xE3, 0x81, 0xB2]),
    (30054, [0xE3, 0x81, 0xB5]),
    (30056, [0xE3, 0x81, 0xB5]),
    (25960, [0xE3, 0x81, 0xB8]),
    (28520, [0xE3, 0x81, 0xBB]),
    (24941, [0xE3, 0x81, 0xBE]),
    (26989, [0xE3, 0x81, 0xBF]),
    (30061, [0xE3, 0x82, 0x80]),
    (25965, [0xE3, 0x82, 0x81]),
    (28525, [0xE3, 0x82, 0x82]),
    (24953, [0xE3, 0x82, 0x84]),
    (30073, [0xE3, 0x82, 0x86]),
    (28537, [0xE3, 0x82, 0x88]),
    (24946, [0xE3, 0x82, 0x89]),
    (26994, [0xE3, 0x82, 0x8A]),
    (30066, [0xE3, 0x82, 0x8B]),
    (25970, [0xE3, 0x82, 0x8C]),
    (28530, [0xE3, 0x82, 0x8D]),
    (24951, [0xE3, 0x82, 0x8F]),
    (28535, [0xE3, 0x82, 0x92]),
    (24935, [0xE3, 0x81, 0x8C]),
    (26983, [0xE3, 0x81, 0x8E]),
    (30055, [0xE3, 0x81, 0x90]),
    (25959, [0xE3, 0x81, 0x92]),
    (28519, [0xE3, 0x81, 0x94]),
    (24954, [0xE3, 0x81, 0x96]),
    (27002, [0xE3, 0x81, 0x98]),
    (26986, [0xE3, 0x81, 0x98]),
    (30074, [0xE3, 0x81, 0x9A]),
    (25978, [0xE3, 0x81, 0x9C]),
    (28538, [0xE3, 0x81, 0x9E]),
    (24932, [0xE3, 0x81, 0xA0]),
    (26980, [0xE3, 0x81, 0xA2]),
    (30052, [0xE3, 0x81, 0xA5]),
    (25956, [0xE3, 0x81, 0xA7]),
    (28516, [0xE3, 0x81, 0xA9]),
    (24930, [0xE3, 0x81, 0xB0]),
    (26978, [0xE3, 0x81, 0xB3]),
    (30050, [0xE3, 0x81, 0xB6]),
    (25954, [0xE3, 0x81, 0xB9]),
    (28514, [0xE3, 0x81, 0xBC]),
    (24944, [0xE3, 0x81, 0xB1]),
    (26992, [0xE3, 0x81, 0xB4]),
    (30064, [0xE3, 0x81, 0xB7]),
    (25968, [0xE3, 0x81, 0xBA]),
    (28528, [0xE3, 0x81, 0xBD]),
    (97, [0xE3, 0x81, 0x82]),
    (105, [0xE3, 0x81, 0x84]),
    (117, [0xE3, 0x81, 0x86]),
    (101, [0xE3, 0x81, 0x88]),
    (111, [0xE3, 0x81, 0x8A]),
    (110, [0xE3, 0x82, 0x93])]"

lemma NUM_TABLE_eq: "map (apfst key_num) ROMAJI_TABLE = map (apsnd (map word_of_int)) NUM_TABLE"
  by (simp add: ROMAJI_TABLE_def NUM_TABLE_def)

lemma ROMAJI_keys_nonzero: "list_all (\<lambda>(k, v). 0 \<notin> set k) ROMAJI_TABLE"
  using table_keys by (fastforce simp: list_all_iff)

lemma map_of_NUM_TABLE: "0 \<notin> set k \<Longrightarrow> map_of ROMAJI_TABLE k = map_option (map word_of_int) (map_of NUM_TABLE (key_num k))"
  using map_of_key_num [OF _ ROMAJI_keys_nonzero, of k] unfolding NUM_TABLE_eq
  using map_of_map [of "map word_of_int :: int list \<Rightarrow> byte list" NUM_TABLE] by (simp add: apsnd_def map_prod_def case_prod_unfold fun_eq_iff)

lemma find_take_num [code]:
  "find_take s 0 = None"
  "find_take s (Suc t) =
     (if Suc t > length s then find_take s t
      else let k = map lower (take (Suc t) s)
           in case (if 0 \<in> set k then map_of ROMAJI_TABLE k else map_option (map word_of_int) (map_of NUM_TABLE (key_num k))) of
                Some kana \<Rightarrow> Some (kana, Suc t)
              | None \<Rightarrow> find_take s t)"
  using map_of_NUM_TABLE by (auto simp: Let_def)

lemma kana_chunks_shared [code]:
  "kana_chunks s = (if s = [] then [] else let (k, t) = next_chunk s in k # kana_chunks (drop t s))"
  by (simp add: kana_chunks.simps [of s] case_prod_unfold Let_def)

definition expected :: "byte list \<times> byte list \<Rightarrow> bool" where
  "expected c = (0 \<notin> set (fst c) \<and> 3 * length (fst c) < 256
     \<and> (let h = concat (kana_chunks (fst c)) in wf_utf8 h \<and> kata_str h = snd c))"

text \<open>The calls, evaluated in four blocks.\<close>

lemma expected_0: "list_all expected (take 6 check_calls)"
  by code_simp

lemma expected_6: "list_all expected (take 6 (drop 6 check_calls))"
  by code_simp

lemma expected_12: "list_all expected (take 6 (drop 12 check_calls))"
  by code_simp

lemma expected_18: "list_all expected (drop 18 check_calls)"
  by code_simp

lemma check_calls_expected: "list_all expected check_calls"
proof -
  have "check_calls = take 6 check_calls @ take 6 (drop 6 check_calls) @ take 6 (drop 12 check_calls) @ drop 18 check_calls"
    by (simp add: check_calls_def)
  then show ?thesis using expected_0 expected_6 expected_12 expected_18 by (metis list_all_append)
qed

lemma katakana_out:
  assumes "0 \<notin> set i" and "3 * length i < 256" and "wf_utf8 (concat (kana_chunks i))" and "length out = 256"
    and "w = kata_str (concat (kana_chunks i))"
  shows "\<exists>out'. romaji_to_katakana (i @ [0]) out 256 = Some (int (length w), out') \<and> cstr out' 0 w \<and> length out' = 256
    \<and> length w < 256"
proof -
  have len: "length w < 256" using kana_chunks_length [of i] assms(2,5) by simp
  have "0 \<notin> set (concat (kana_chunks i))" using kana_chunks_nonzero [OF assms(1)] by auto
  then have nz: "0 \<notin> set w" using wf_utf8_nonzero_kata [OF _ assms(3)] assms(5) by simp
  have "romaji_to_katakana (i @ [0]) out 256 = Some (int (length w), blit out 0 (w @ [0]))"
    using romaji_to_katakana_eq [OF cstr_of_list [OF assms(1)] assms(2), of out] assms(3,4,5) by simp
  moreover have "cstr (blit out 0 (w @ [0])) 0 w" using len nz assms(4) by (intro cstr_blit) simp_all
  ultimately show ?thesis using len assms(4) by simp
qed

lemma check_ok:
  assumes "0 \<notin> set i" and "3 * length i < 256" and "wf_utf8 (concat (kana_chunks i))" and "length out = 256"
    and "kata_str (concat (kana_chunks i)) = w"
  shows "check out i w = Some (Inr ())"
proof -
  obtain out' where o: "romaji_to_katakana (i @ [0]) out 256 = Some (int (length w), out')" "cstr out' 0 w"
    using katakana_out [OF assms(1-4)] assms(5) by blast
  moreover have "cstr (w @ [0]) 0 w" using cstr_nonzero [OF o(2)] by (rule cstr_of_list)
  ultimately show ?thesis using strcmp_cstr [OF o(2), of "w @ [0]" 0 w] by (auto simp: check_def)
qed

lemma checks_ok: "list_all expected cs \<Longrightarrow> \<forall>k. length (outs k) = 256 \<Longrightarrow> checks outs k cs = Some (Inr ())"
  by (induction cs arbitrary: k) (auto simp: check_ok expected_def Let_def)

text \<open>A conversion that does not fit.\<close>

lemma katakana_too_small:
  assumes "0 \<notin> set i" and "0 < n" and "n \<le> length out" and "n \<le> length (concat (kana_chunks i))" and "n < 2 ^ 31"
  shows "\<exists>out'. romaji_to_katakana (i @ [0]) out n = Some (-1, out') \<and> length out' = length out"
proof -
  obtain cs1 cs2 where c: "kana_chunks i = cs1 @ cs2" "length (concat cs1) < n"
      "romaji_to_kana (i @ [0]) out n =
         Some (if cs2 = [] then int (length (concat cs1)) else -1, blit out 0 (concat cs1 @ [0]))"
    using c_kana.conv_result [OF cstr_of_list [OF assms(1)] assms(2,3,5)] by blast
  then have "cs2 \<noteq> []" using assms(4) by auto
  then show ?thesis using c(2,3) assms(3) by (simp add: romaji_to_katakana_def)
qed

lemma tabemono: "0 \<notin> set (lit ''tabemono'')" "length (concat (kana_chunks (lit ''tabemono''))) = 12"
    "wf_utf8 (concat (kana_chunks (lit ''tabemono'')))" "3 * length (lit ''tabemono'') < 256"
  by code_simp+

lemma konnichiwa: "0 \<notin> set (lit ''konnichiwa'')" "3 * length (lit ''konnichiwa'') < 256"
    "concat (kana_chunks (lit ''konnichiwa'')) = [0xE3, 0x81, 0x93, 0xE3, 0x82, 0x93, 0xE3, 0x81, 0xAB, 0xE3, 0x81, 0xA1, 0xE3, 0x82, 0x8F]"
  by code_simp+

lemma konnichiwa_wf: "wf_utf8 (concat (kana_chunks (lit ''konnichiwa'')))"
  unfolding konnichiwa by code_simp

text \<open>
  The examples of \<open>README.md\<close> are not what the converter gives: \<open>konnichiwa\<close> ends in the kana wa,
  not ha, and \<open>koohii\<close> repeats the vowels instead of the long vowel mark.
\<close>

lemma readme_koohii: "kata_str (concat (kana_chunks (lit ''koohii''))) = [0xE3, 0x82, 0xB3, 0xE3, 0x82, 0xAA, 0xE3, 0x83, 0x92, 0xE3, 0x82, 0xA4]"
  by code_simp

lemma taberu_wide: "wide TABERU_KANJI" "wide (kata_str TABERU_KANJI)" "wf_utf8 TABERU_KANJI"
    "kata_str TABERU_KANJI = [0xE9, 0xA3, 0x9F, 0xE3, 0x83, 0x99, 0xE3, 0x83, 0xAB]"
  by code_simp+

section \<open>Properties\<close>

text \<open>
  C18. The test program of the converter passes: whatever its arrays hold at the start, every
  assertion of \<open>test_romaji.c\<close> holds and \<open>main\<close> returns 0.
\<close>

theorem test_romaji_passes:
  assumes "\<forall>k. length (outs k) = 256" and "length out = 256" and "length small = 4"
  shows "test_romaji_main outs out small = Some (Inr 0)"
proof -
  have checks: "checks outs 0 check_calls = Some (Inr ())"
    using check_calls_expected assms(1) by (rule checks_ok)
  obtain o1 w1 where o1: "romaji_to_katakana (lit ''tabemono'' @ [0]) out 256 = Some (int (length w1), o1)"
      "cstr o1 0 w1" "length o1 = 256" "length w1 < 256"
    using katakana_out [OF tabemono(1,4,3) assms(2) refl] by blast
  obtain s1 where s1: "romaji_to_katakana (lit ''tabemono'' @ [0]) small 4 = Some (-1, s1)"
    using katakana_too_small [OF tabemono(1), of 4 small] tabemono(2) assms(3) by auto
  obtain s2 where s2: "romaji_to_katakana (lit ''ka'' @ [0]) s1 0 = Some (-1, s2)"
    by (simp add: romaji_to_katakana_def romaji_to_kana_def)
  obtain o2 w2 where o2: "romaji_to_katakana (lit ''konnichiwa'' @ [0]) o1 256 = Some (int (length w2), o2)"
      "cstr o2 0 w2" "length o2 = 256" "length w2 < 256"
    using katakana_out [OF konnichiwa(1,2) konnichiwa_wf o1(3) refl] by blast
  have "rd o2 (length w2) = Some 0" using cstr_nth_end [OF o2(2)] o2(3,4) by (simp add: rd_def)
  then show ?thesis
    using checks o1 s1 s2 o2 strlen_cstr [OF o1(2)] strlen_cstr [OF o2(2)]
    by (simp add: test_romaji_main_def int_of_size_small del: lit_Cons)
qed

theorem test_romaji_passes_witness:
  "test_romaji_main (\<lambda>k. replicate 256 1) (replicate 256 2) (replicate 4 3) = Some (Inr 0)"
  by (rule test_romaji_passes) simp_all



end
