(* ===== verification/Spec2Isabelle.thy ===== *)
theory Spec2Isabelle
  imports UiGuiSpec Circbuf Console Font VfsProps Tests
begin

text \<open>
  A pocket Japanese dictionary: romaji is typed on a keyboard, converted to kana, looked up in an
  SQLite database, and the results are shown by LVGL on the NuttX simulator.

  \<^bold>\<open>Parts and how they interact.\<close> The simulator program is \<open>NUTTXSIM/apps/examples/lvgldemo\<close>:
  \<open>lvgldemo.c\<close> (\<open>main\<close>, the widgets, the input callback) and \<open>dict.c\<close> (search). LVGL calls
  \<open>keypad_read_cb\<close> periodically; it calls \<open>poll_keyboard\<close>, which reads one byte of standard input,
  that is, of the NuttX serial console; the console gets its bytes from the terminal of the host. A letter
  goes into \<open>search_word\<close>, the converter (\<open>apps/graphics/lvgl/rust/romaji.rs\<close>) renews
  \<open>furigana_word\<close>, Enter calls \<open>dict_search\<close> or \<open>dict_search_en\<close>, and \<open>populate_list\<close> shows a window
  of the results. \<open>Dictionary_Resources\<close> holds the C version of the converter and an older search,
  \<open>GUI/nuttxspace\<close> an older user interface over them. \<open>Dictionary_Resources/build_db.py\<close> makes the
  database from JMdict and KANJIDIC2; two test programs are beside it.

  \<^bold>\<open>Theories and sources\<close> (paths below \<open>src/\<close>).
  \<^item> \<open>Prelude\<close>: C objects as byte lists with checked accesses, C strings, list lemmas. \<open>LibcString\<close>:
    the string functions of \<open>nuttx/libs/libc\<close> the program calls. \<open>Utf8\<close>: well-formed UTF-8.
  \<^item> \<open>Romaji\<close> (\<open>Dictionary_Resources/romaji.c\<close>), \<open>RomajiRust\<close> (\<open>romaji.rs\<close>), \<open>Katakana\<close> and
    \<open>RomajiSpec\<close>: the converters as loops over buffers, their specification \<open>kana_chunks\<close>, the locale
    \<open>kana_converter\<close> both versions satisfy. Shown: refinement of the specification, equality of
    both versions, bounds, well-formed output, the katakana conversion.
  \<^item> \<open>DictText\<close>, \<open>DictRows\<close>, \<open>Dict\<close> (\<open>lvgldemo/dict.c\<close>) and \<open>DictLib\<close> (\<open>Dictionary_Resources/dict.c\<close>):
    the text routines, the row loop over the static array of 64 results, the searches. Shown: the
    searches return, fill exactly the counted records and keep the record invariant; when the
    unbounded \<open>strcat\<close> overruns the word field.
  \<^item> \<open>Lvgl\<close>, \<open>Ui\<close>, \<open>UiProps\<close>, \<open>UiKeys\<close>, \<open>UiScreen\<close>, \<open>UiSpec\<close> (\<open>lvgldemo/lvgldemo.c\<close>) and \<open>UiGui\<close>,
    \<open>UiGuiProps\<close>, \<open>UiGuiSpec\<close> (\<open>GUI/nuttxspace/lvgldemo.c\<close>): globals and widgets as a record, one
    definition per key, \<open>main\<close> up to its loop. Shown: the invariant of every reachable state, what
    is on the screen, exactly which keys leave the arrays, the effect of typing a word and Enter.
  \<^item> \<open>Font\<close> (\<open>lvgldemo/jp_font_16_hiragana.c\<close>): the tables of the furigana font. Shown: every character
    the converter writes for typed letters has a glyph.
  \<^item> \<open>ByteQueue\<close>, \<open>Ring\<close>, \<open>Circbuf\<close> (\<open>nuttx/libs/libc/misc/lib_circbuf.c\<close>): the circular buffer with
    64-bit counters, against the locale \<open>byte_queue\<close> of bounded queues.
  \<^item> \<open>Uio\<close> (\<open>nuttx/fs/vfs/fs_uio.c\<close>), \<open>SerialBuf\<close>, \<open>Serial\<close>, \<open>SerialProps\<close>, \<open>SerialWrite\<close>, \<open>SerialDrain\<close>, \<open>SerialSpec\<close>
    (\<open>nuttx/drivers/serial/serial.c\<close>, \<open>serial_io.c\<close>, \<open>serial_dma.c\<close>, \<open>nuttx/arch/sim/src/sim/sim_uart.c\<close>,
    \<open>posix/sim_hostuart.c\<close>): the console driver with its host side. A device is two streams,
    \<open>pending\<close> (typed and not yet read) and \<open>sent\<close> (written, on the host or on the way). Shown: the
    interrupt keeps both streams, reads deliver the oldest byte, writes append in order, the direct
    path agrees with the buffered one, block transfers receive what the loop over characters
    receives, draining and closing end, poll slots and open counts.
  \<^item> \<open>Console\<close>: \<open>enable_raw_mode\<close>, \<open>tcgetattr\<close>, \<open>tcsetattr\<close> and the keyboard poll on that device.
    Shown: typed bytes reach the key handler in order and exactly once.
  \<^item> \<open>LibcPath\<close>, \<open>Hostfs\<close>, \<open>HostfsPath\<close>, \<open>HostfsSpec\<close>, \<open>HostfsProps\<close> (\<open>nuttx/fs/hostfs/hostfs.c\<close>,
    \<open>nuttx/arch/sim/src/sim/posix/sim_hostfs.c\<close>): the host file system on which \<open>main\<close> mounts the
    directory of the database. Open files are linked objects on a heap with reference counts.
    Shown: which path the host gets, the root from the mount options, the list and the counts over
    every sequence of operations, that reads and writes are those of the file of the host.
  \<^item> \<open>Inode\<close>, \<open>InodeTree\<close>, \<open>InodeSpec\<close>, \<open>InodeRemove\<close>, \<open>InodeProps\<close> (\<open>nuttx/fs/inode\<close>): the pseudo
    file system, a tree of inodes linked by pointers on a heap. \<open>forest\<close> relates the heap to a list of
    trees, \<open>itree_ok\<close> is the invariant (links, order of the peers, no sharing) and \<open>lookup\<close> the search by
    names. Shown: the search finds what \<open>lookup\<close> finds, reserving and removing a path change nothing
    else, and the laws of the locale \<open>name_space\<close>.
  \<^item> \<open>Vfs\<close>, \<open>VfsSpec\<close>, \<open>VfsProps\<close> (\<open>nuttx/fs/mount\<close>, \<open>nuttx/fs/vfs\<close>, \<open>nuttx/fs/driver\<close>, \<open>mount_hostfs\<close>
    of \<open>lvgldemo.c\<close>): mounting, directories and open files over the tree and the host file system.
    Shown: the program's own calls reach its database and read its bytes; directories made and
    removed; what unmounting does, also for a path below the mount point.
  \<^item> \<open>BuildDb\<close> and \<open>DictDb\<close> (\<open>Dictionary_Resources/build_db.py\<close>): the script as a function from the
    parsed entries and characters to the tables, an exception as \<open>None\<close>, \<open>committed\<close> the contents of
    the file in both cases. Shown: when it raises, that the tables are consistent, and that a search
    on them finds exactly the entries with the reading and shows their forms and glosses, so that
    what the builder joins is what \<open>dict.c\<close> takes apart.
  \<^item> \<open>Tests\<close> (\<open>Dictionary_Resources/test_romaji.c\<close>, \<open>test_dict.c\<close>): the test programs with their
    assertions. Shown: the first passes, the second stops at its first search.
  \<^item> This theory composes them: \<open>keyboard_to_dictionary\<close> follows a word from the terminal of the
    host through the console, the interface, the converter and the search to the labels.

  \<^bold>\<open>Conventions.\<close> A \<open>mem\<close> is a C object, \<open>None\<close> a read or write outside it (or a loop that does not end,
  where a definition is a \<open>partial_function\<close>), so a theorem with result \<open>Some\<close> includes memory
  safety and termination. Sizes are natural numbers where the code keeps them below their limits
  (the theorems state the limits) and words where they may wrap: the counters of \<open>Circbuf\<close>, the open
  count and the flags of \<open>Serial\<close>. The reference counts of \<open>Hostfs\<close> have 16 bits and its
  offsets 32, as the code has them. No definition uses fuel: loops over buffers are
  \<open>function\<close>s with a measure; the loops of the driver that wait for the host are
  \<open>partial_function (option)\<close>, and that they end is part of the theorems about them.

  \<^bold>\<open>Parameters\<close> stand for code outside the repository: SQLite
  (\<open>sqlite\<close>: open, prepare, the rows of a query), the system calls of the host for
  files (\<open>host_calls\<close>), device drivers and directory streams below the virtual file system
  (\<open>vfs_env\<close>), LVGL (\<open>lvgl\<close>: which widget a call returns; the
  calls are recorded), the host operating system (\<open>host_os\<close>) and the allocator. The
  record \<open>kernel\<close> stands for what other tasks do while the driver waits for a lock or a
  semaphore. The assumptions about them are the named predicates \<open>answers\<close> and
  \<open>answers_en\<close> (what the two statements select from a table, in any order, for texts
  without the special characters of \<open>LIKE\<close>), \<open>py_set_ok\<close> (iterating a
  Python set), \<open>lvgl_fresh\<close>, \<open>env_ok\<close>, \<open>lookup_ok\<close>,
  \<open>host_ok\<close>, \<open>host_ready\<close>, \<open>lock_free\<close>,
  \<open>wait_ok\<close>, \<open>clock_ok\<close>, \<open>tickwait_ok\<close>,
  \<open>lock_ok\<close>, \<open>malloc_ok\<close>, \<open>posix_ok\<close>, \<open>fresh_addr\<close>, \<open>path_env\<close>, \<open>vok\<close> and \<open>db_host\<close>, and each witness
  instantiates them. \<open>tidy\<close> says which entries the text format of the tables can carry:
  no separator or bracket inside a text.

  \<^bold>\<open>Not modelled.\<close> The frame loop in \<open>main\<close>; file descriptors,
  directory streams, soft links, renaming and \<open>stat\<close> of the virtual file system, which the program does
  not use itself, the lock of the tree of inodes (each operation runs alone), and SQLite's own accesses to
  the file; the bitmaps of the font (compressed data, read by LVGL
  only); the XML parser of \<open>build_db.py\<close> and the output of the test programs; the
  restoration of the host's terminal at exit; the options of the serial driver the simulator
  switches off; the rest of NuttX and its applications (vendored).
\<close>

section \<open>From the keyboard to the dictionary\<close>

text \<open>The user interface over the small database.\<close>

definition dog_env :: "unit env" where
  "dog_env = (demo_env [])\<lparr>engine := table_engine [entry_row dog]\<rparr>"

lemma dog_env_ok: "env_ok dog_env"
proof -
  have "printable_row (entry_row dog)"
    by (simp add: printable_row_def word_of_entry [OF dog_tidy(1) dog_text(4)] detail_of_entry [OF dog_tidy(1)] dog_text
        INU_def)
  then show ?thesis
    by (auto simp: env_ok_def dog_env_def demo_env_def table_engine_def list_all_iff dest!: in_set_takeD)
qed

lemma dog_start:
  obtains u where "main_init dog_env True \<lparr>objs = [], calls = []\<rparr> = Some (Inr u)" and "ui_inv dog_env u"
    and "\<not> en_mode u" and "cstr (search_word u) 0 []"
  using main_init_eq [OF dog_env_ok, of "\<lparr>objs = [], calls = []\<rparr>"] demo_lvgl_fresh demo_lvgl_first_child
  by (auto simp: dog_env_def demo_env_def)

lemma icrnl_letters: "list_all letter_key ks \<Longrightarrow> map (icrnl d) ks = ks"
  using letter_key_values by (induction ks) (auto simp: icrnl_def)

text \<open>
  C3. From the keyboard to the dictionary: a word typed in romaji on the terminal of the host and
  the return key reach the interface through the serial console; the dictionary that was built from
  the entries is searched for the kana of the word; the list shows the first five of the entries
  with that reading, in the order the engine delivers them, and the details panel the glosses of the
  first.
\<close>

theorem keyboard_to_dictionary:
  assumes "host_ok H inp out" and "lock_free K" and "f_nonblock F" "f_inode F" "\<not> f_wronly F"
    and "dev_ok d" and "raw_mode d" and "icrnl d CR = NL" and "pending inp d = ks @ [CR]"
    and "length ks + 1 < rb_size (recv d)" and "\<not> rx_exact inp d"
    and "ui_inv E u" and "env_ok E" and "\<not> en_mode u" and "cstr (search_word u) 0 []"
    and "list_all letter_key ks" and "ks \<noteq> []" and "3 * length ks < 512"
    and "q = concat (kana_chunks ks)" and "wide q"
    and "build py_set es cs = Some t" and "list_all tidy es"
    and "answers (engine E) (g_db (dict u)) DICT_SQL (map w_row (word t))"
  shows "\<exists>e v ms. console_polls H K F E (length ks + 1) (d, u) = Some (e, v) \<and> pending inp e = []
    \<and> mset ms = filter_mset (\<lambda>x. q \<in> set (readings_of x)) (mset es)
    \<and> results_count v = int (min 64 (length ms))
    \<and> (\<forall>k < 5. label_text (calls (lvs v)) (label_of (lvgl_api E) v k) =
          Text (if k < length ms then word_of (entry_row (ms ! k)) else []))
    \<and> (\<forall>k < length ms. length (shown_word (ms ! k)) < DICT_WORD_LEN \<longrightarrow> word_of (entry_row (ms ! k)) = shown_word (ms ! k))
    \<and> (ms \<noteq> [] \<longrightarrow> label_text (calls (lvs v)) (details_label (wid v)) = Text (rtrim (take 511 (glosses (ms ! 0)))))"
proof -
  have "answers (engine E) (g_db (dict u)) DICT_SQL (map entry_row es)"
    using assms(23) build_word_rows [OF assms(21)] by simp
  from rows_found [OF assms(22) this assms(20,20), of DICT_MAX_RESULTS] obtain ms where
    ms: "mset ms = filter_mset (\<lambda>x. q \<in> set (readings_of x)) (mset es)"
      "sqlite3_rows (engine E) (g_db (dict u)) DICT_SQL [q, q] DICT_MAX_RESULTS = take DICT_MAX_RESULTS (map entry_row ms)"
    by auto
  have tidy: "tidy (ms ! k)" if "k < length ms" for k
    using found_subset [OF ms(1), of "ms ! k"] that assms(22) by (auto simp: list_all_iff)
  have "sqlite3_prepare_v2 (engine E) (g_db (dict u)) DICT_SQL = 0" using assms(23) by (simp add: answers_def)
  from typed_word_shown [OF assms(12-19) this ms(2) [symmetric]] obtain v where
    v: "run_keys E (ks @ [0x0A]) u = Some v" "results_count v = int (min 64 (length (take DICT_MAX_RESULTS (map entry_row ms))))"
      "\<forall>k < 5. label_text (calls (lvs v)) (label_of (lvgl_api E) v k) =
          Text (if k < length (take DICT_MAX_RESULTS (map entry_row ms)) then word_of (take DICT_MAX_RESULTS (map entry_row ms) ! k) else [])"
      "take DICT_MAX_RESULTS (map entry_row ms) \<noteq> [] \<longrightarrow> label_text (calls (lvs v)) (details_label (wid v))
          = Text (detail_of (take DICT_MAX_RESULTS (map entry_row ms) ! 0))"
    by blast
  have "run_keys E (map (icrnl d) (ks @ [CR])) u = Some v" using v(1) assms(8) by (simp add: icrnl_letters [OF assms(16)])
  moreover have "length (ks @ [CR]) < rb_size (recv d)" using assms(10) by simp
  ultimately obtain e where e: "console_polls H K F E (length (ks @ [CR])) (d, u) = Some (e, v)" "pending inp e = []"
    using console_polls_keys [OF assms(1-7,9) _ assms(11)] by blast
  show ?thesis
  proof (intro exI conjI)
    show "console_polls H K F E (length ks + 1) (d, u) = Some (e, v)" using e(1) by simp
    show "results_count v = int (min 64 (length ms))" using v(2) by (simp add: DICT_MAX_RESULTS_def)
    show "\<forall>k < 5. label_text (calls (lvs v)) (label_of (lvgl_api E) v k) =
        Text (if k < length ms then word_of (entry_row (ms ! k)) else [])"
      using v(3) by (simp add: DICT_MAX_RESULTS_def)
    show "\<forall>k < length ms. length (shown_word (ms ! k)) < DICT_WORD_LEN \<longrightarrow> word_of (entry_row (ms ! k)) = shown_word (ms ! k)"
      using tidy word_of_entry by blast
    show "ms \<noteq> [] \<longrightarrow> label_text (calls (lvs v)) (details_label (wid v)) = Text (rtrim (take 511 (glosses (ms ! 0))))"
      using v(4) tidy [of 0] detail_of_entry [of "ms ! 0"] by (cases ms) (simp_all add: DICT_MAX_RESULTS_def)
  qed (use e(2) ms(1) in simp_all)
qed

theorem keyboard_to_dictionary_witness:
  "\<exists>u e v. main_init dog_env True \<lparr>objs = [], calls = []\<rparr> = Some (Inr u)
     \<and> console_polls demo_os demo_kernel \<lparr>f_nonblock = True, f_wronly = False, f_inode = True\<rparr> dog_env 4
         (demo_console (lit ''inu'' @ [CR]), u) = Some (e, v)
     \<and> results_count v = 1 \<and> label_text (calls (lvs v)) (details_label (wid v)) = Text (lit ''dog; hound'')"
proof -
  let ?d = "demo_console (lit ''inu'' @ [CR])"
  obtain u where u: "main_init dog_env True \<lparr>objs = [], calls = []\<rparr> = Some (Inr u)" "ui_inv dog_env u"
      "\<not> en_mode u" "cstr (search_word u) 0 []" by (rule dog_start)
  obtain t where t: "build remdups [dog] [] = Some t" "map w_row (word t) = [entry_row dog]" by (rule dog_built)
  have ks: "list_all letter_key (lit ''inu'')" "lit ''inu'' \<noteq> []" "3 * length (lit ''inu'') < 512"
    by (simp_all add: letter_key_def)
  have q: "INU = concat (kana_chunks (lit ''inu''))" "wide INU" by code_simp+
  have p: "pending fst ?d = lit ''inu'' @ [CR]" "\<not> rx_exact fst ?d" "length (lit ''inu'') + 1 < rb_size (recv ?d)"
    by (simp_all add: pending_def rx_exact_def demo_console_ok new_buffer_ok)
  have a: "answers (engine dog_env) (g_db (dict u)) DICT_SQL (map w_row (word t))"
    using table_engine_answers [of "[entry_row dog]"] t(2) by (simp add: dog_env_def)
  obtain e v ms where r: "console_polls demo_os demo_kernel \<lparr>f_nonblock = True, f_wronly = False, f_inode = True\<rparr> dog_env
        (length (lit ''inu'') + 1) (?d, u) = Some (e, v)"
      "mset ms = filter_mset (\<lambda>x. INU \<in> set (readings_of x)) (mset [dog])" "results_count v = int (min 64 (length ms))"
      "ms \<noteq> [] \<longrightarrow> label_text (calls (lvs v)) (details_label (wid v)) = Text (rtrim (take 511 (glosses (ms ! 0))))"
    using keyboard_to_dictionary [OF demo_os_ok demo_lock _ _ _ demo_console_ok(1,2,6) p(1,3,2) u(2) dog_env_ok u(3,4)
        ks q t(1) _ a, of "\<lparr>f_nonblock = True, f_wronly = False, f_inode = True\<rparr>"] dog_tidy(1) by auto
  have "ms = [dog]" using r(2) dog_text(2) by simp
  then have "results_count v = 1" "label_text (calls (lvs v)) (details_label (wid v)) = Text (lit ''dog; hound'')"
    using r(3,4) dog_text(3) by simp_all
  moreover have "length (lit ''inu'') + 1 = 4" by simp
  ultimately show ?thesis using u(1) r(1) by metis
qed

end
